(* ===== verification/Psram.thy ===== *)
theory Psram
  imports Prelude
begin

text \<open>
  \<open>PsramBox<T>\<close> of \<open>src/psram.rs\<close>: a buffer of fixed capacity whose first
  \<open>len\<close> slots are initialised. The raw pointer and its slots are modelled by the list
  of the initialised elements, so \<open>len\<close> is the length of that list; what the unsafe
  code would do outside it is guarded by the assertions of the source, each of which is a
  panic (\<open>None\<close>) here. Failure of the allocator is not modelled.
\<close>

record 'a psram_box =
  ps_data :: "'a list"
  ps_capacity :: nat

definition psram_new :: "nat \<Rightarrow> 'a psram_box option" where
  "psram_new cap = (if 0 < cap then Some \<lparr>ps_data = [], ps_capacity = cap\<rparr> else None)"

definition psram_len :: "'a psram_box \<Rightarrow> nat" where
  "psram_len b = length (ps_data b)"

definition psram_is_empty :: "'a psram_box \<Rightarrow> bool" where
  "psram_is_empty b = (psram_len b = 0)"

definition psram_push :: "'a \<Rightarrow> 'a psram_box \<Rightarrow> 'a psram_box option" where
  "psram_push x b =
     (if psram_len b < ps_capacity b then Some (b\<lparr>ps_data := ps_data b @ [x]\<rparr>) else None)"

definition psram_new_with :: "nat \<Rightarrow> 'a \<Rightarrow> 'a psram_box option" where
  "psram_new_with cap x =
     (case psram_new cap of
        None \<Rightarrow> None
      | Some b \<Rightarrow> fold_opt (\<lambda>_ b. psram_push x b) [0..<cap] b)"

definition psram_get :: "'a psram_box \<Rightarrow> nat \<Rightarrow> 'a option" where
  "psram_get b i = (if i < psram_len b then Some (ps_data b ! i) else None)"

definition psram_set :: "nat \<Rightarrow> 'a \<Rightarrow> 'a psram_box \<Rightarrow> 'a psram_box option" where
  "psram_set i x b =
     (if i < psram_len b then Some (b\<lparr>ps_data := (ps_data b)[i := x]\<rparr>) else None)"

definition psram_clear :: "'a psram_box \<Rightarrow> 'a psram_box" where
  "psram_clear b = b\<lparr>ps_data := []\<rparr>"

text \<open>\<open>Clone\<close>: a new box of the same capacity, filled by \<open>push\<close>.\<close>

definition psram_clone :: "'a psram_box \<Rightarrow> 'a psram_box option" where
  "psram_clone b =
     (case psram_new (ps_capacity b) of
        None \<Rightarrow> None
      | Some b' \<Rightarrow> fold_opt psram_push (ps_data b) b')"

text \<open>\<open>PartialEq\<close>: lengths first, then the elements one by one; the capacities are not compared.\<close>

definition psram_eq :: "('a \<Rightarrow> 'a \<Rightarrow> bool) \<Rightarrow> 'a psram_box \<Rightarrow> 'a psram_box \<Rightarrow> bool" where
  "psram_eq eq a b =
     (psram_len a = psram_len b \<and>
      list_all (\<lambda>i. eq (ps_data a ! i) (ps_data b ! i)) [0..<psram_len a])"

definition psram_inv :: "'a psram_box \<Rightarrow> bool" where
  "psram_inv b \<longleftrightarrow> 0 < ps_capacity b \<and> length (ps_data b) \<le> ps_capacity b"

lemmas psram_defs = psram_new_def psram_len_def psram_push_def psram_get_def psram_set_def
  psram_clear_def psram_inv_def psram_is_empty_def

lemma fold_psram_push_const:
  "length (ps_data b) + length xs \<le> ps_capacity b \<Longrightarrow>
   fold_opt (\<lambda>_ b. psram_push x b) xs b =
     Some (b\<lparr>ps_data := ps_data b @ replicate (length xs) x\<rparr>)"
  by (induction xs arbitrary: b) (auto simp: psram_defs replicate_app_Cons_same)

lemma fold_psram_push:
  "length (ps_data b) + length xs \<le> ps_capacity b \<Longrightarrow>
   fold_opt psram_push xs b = Some (b\<lparr>ps_data := ps_data b @ xs\<rparr>)"
  by (induction xs arbitrary: b) (auto simp: psram_defs)

lemma psram_new_with_eq:
  "0 < cap \<Longrightarrow> psram_new_with cap x = Some \<lparr>ps_data = replicate cap x, ps_capacity = cap\<rparr>"
  by (simp add: psram_new_with_def psram_new_def fold_psram_push_const)

lemma psram_clone_eq: "psram_inv b \<Longrightarrow> psram_clone b = Some b"
  by (cases b) (simp add: psram_clone_def psram_defs fold_psram_push)

lemma psram_push_inv: "psram_inv b \<Longrightarrow> psram_push x b = Some b' \<Longrightarrow> psram_inv b'"
  by (auto simp: psram_defs split: if_splits)

lemma psram_set_inv: "psram_inv b \<Longrightarrow> psram_set i x b = Some b' \<Longrightarrow> psram_inv b'"
  by (auto simp: psram_defs split: if_splits)

lemma psram_get_set:
  "psram_set i x b = Some b' \<Longrightarrow> psram_get b' j = (if j = i then Some x else psram_get b j)"
  by (auto simp: psram_defs split: if_splits)

end
