(* ===== verification/Float64.thy ===== *)
theory Float64
  imports Prelude "HOL-Library.Log_Nat"
begin

text \<open>
  Rust's \<open>f64\<close>, as far as the code uses it: comparison, negation, addition, subtraction,
  \<open>clamp\<close>, conversion from and to integers, and the rounding of an exact decimal to a
  double. A finite non-zero value is its exact rational number; \<open>-0.0\<close>, the infinities and
  NaN are constructors of their own. \<open>round64\<close> rounds to nearest, ties to even, with
  gradual underflow and overflow to an infinity, as IEEE 754 binary64 and Rust do.
  The operators are those of the type classes, so that a comparison or a sum in the model
  reads like the line of code it stands for; no law of those classes is assumed (NaN
  breaks most of them).
\<close>

datatype f64 = NaN | PosInf | NegInf | NegZero | Fin rat

section \<open>Rounding\<close>

definition ilog2 :: "rat \<Rightarrow> int" where
  "ilog2 q =
     (let (a, b) = quotient_of q; k = bitlen a - bitlen b
      in if 2 powi k \<le> q then k else k - 1)"

definition round_half_even :: "rat \<Rightarrow> int" where
  "round_half_even x =
     (let f = floor x; d = x - of_int f
      in if d < 1 / 2 then f else if 1 / 2 < d then f + 1 else if even f then f else f + 1)"

definition ulp_exp :: "rat \<Rightarrow> int" where
  "ulp_exp q = max (ilog2 \<bar>q\<bar> - 52) (- 1074)"

definition round64 :: "rat \<Rightarrow> f64" where
  "round64 q =
     (if q = 0 then Fin 0
      else let u = 2 powi ulp_exp q; r = of_int (round_half_even (q / u)) * u
           in if 2 ^ 1024 \<le> \<bar>r\<bar> then (if q < 0 then NegInf else PosInf)
              else if r = 0 \<and> q < 0 then NegZero else Fin r)"

definition f64_of_int :: "int \<Rightarrow> f64" where
  "f64_of_int i = round64 (of_int i)"

section \<open>Arithmetic and comparison\<close>

text \<open>The rank of a value among the non-NaN ones: infinities outside, both zeros equal.\<close>

fun f64_key :: "f64 \<Rightarrow> (int \<times> rat) option" where
  "f64_key NaN = None"
| "f64_key NegInf = Some (-1, 0)"
| "f64_key PosInf = Some (1, 0)"
| "f64_key NegZero = Some (0, 0)"
| "f64_key (Fin q) = Some (0, q)"

definition f64_lt :: "f64 \<Rightarrow> f64 \<Rightarrow> bool" where
  "f64_lt x y = (case f64_key x of None \<Rightarrow> False | Some (i, p) \<Rightarrow>
     (case f64_key y of None \<Rightarrow> False | Some (j, q) \<Rightarrow> i < j \<or> (i = j \<and> p < q)))"

definition f64_le :: "f64 \<Rightarrow> f64 \<Rightarrow> bool" where
  "f64_le x y = (case f64_key x of None \<Rightarrow> False | Some (i, p) \<Rightarrow>
     (case f64_key y of None \<Rightarrow> False | Some (j, q) \<Rightarrow> i < j \<or> (i = j \<and> p \<le> q)))"

definition f64_eq :: "f64 \<Rightarrow> f64 \<Rightarrow> bool" where
  "f64_eq x y = (f64_key x \<noteq> None \<and> f64_key x = f64_key y)"

fun f64_neg :: "f64 \<Rightarrow> f64" where
  "f64_neg NaN = NaN"
| "f64_neg PosInf = NegInf"
| "f64_neg NegInf = PosInf"
| "f64_neg NegZero = Fin 0"
| "f64_neg (Fin q) = (if q = 0 then NegZero else Fin (- q))"

fun f64_add :: "f64 \<Rightarrow> f64 \<Rightarrow> f64" where
  "f64_add NaN y = NaN"
| "f64_add x NaN = NaN"
| "f64_add PosInf y = (if y = NegInf then NaN else PosInf)"
| "f64_add x PosInf = (if x = NegInf then NaN else PosInf)"
| "f64_add NegInf y = NegInf"
| "f64_add x NegInf = NegInf"
| "f64_add NegZero y = y"
| "f64_add x NegZero = x"
| "f64_add (Fin p) (Fin q) = round64 (p + q)"

instantiation f64 :: "{ord, plus, minus, uminus}"
begin

definition less_f64 :: "f64 \<Rightarrow> f64 \<Rightarrow> bool" where "x < y = f64_lt x y"
definition less_eq_f64 :: "f64 \<Rightarrow> f64 \<Rightarrow> bool" where "x \<le> y = f64_le x y"
definition plus_f64 :: "f64 \<Rightarrow> f64 \<Rightarrow> f64" where "x + y = f64_add x y"
definition uminus_f64 :: "f64 \<Rightarrow> f64" where "- x = f64_neg x"
definition minus_f64 :: "f64 \<Rightarrow> f64 \<Rightarrow> f64" where "x - y = f64_add x (f64_neg y)"

instance ..

end

definition f64_is_nan :: "f64 \<Rightarrow> bool" where
  "f64_is_nan x = (x = NaN)"

definition f64_is_finite :: "f64 \<Rightarrow> bool" where
  "f64_is_finite x = (case x of Fin _ \<Rightarrow> True | NegZero \<Rightarrow> True | _ \<Rightarrow> False)"

fun f64_abs :: "f64 \<Rightarrow> f64" where
  "f64_abs NegInf = PosInf"
| "f64_abs NegZero = Fin 0"
| "f64_abs (Fin q) = Fin \<bar>q\<bar>"
| "f64_abs x = x"

text \<open>\<open>f64::clamp\<close> asserts \<open>min <= max\<close>, which is false when a bound is NaN.\<close>

definition f64_clamp :: "f64 \<Rightarrow> f64 \<Rightarrow> f64 \<Rightarrow> f64 option" where
  "f64_clamp lo hi x =
     (if lo \<le> hi then Some (if x < lo then lo else if hi < x then hi else x) else None)"

definition f64_max :: "f64 \<Rightarrow> f64 \<Rightarrow> f64" where
  "f64_max x y = (if x = NaN then y else if y = NaN then x else if x < y then y else x)"

text \<open>\<open>as\<close> casts from a float saturate at the bounds of the integer type; NaN becomes 0.\<close>

definition trunc_rat :: "rat \<Rightarrow> int" where
  "trunc_rat q = (if 0 \<le> q then floor q else ceiling q)"

definition f64_to_int :: "int \<Rightarrow> int \<Rightarrow> f64 \<Rightarrow> int" where
  "f64_to_int lo hi x =
     (case x of NaN \<Rightarrow> 0 | PosInf \<Rightarrow> hi | NegInf \<Rightarrow> lo | NegZero \<Rightarrow> 0
      | Fin q \<Rightarrow> max lo (min hi (trunc_rat q)))"

definition f64_epsilon :: f64 where
  "f64_epsilon = Fin (1 / 2 ^ 52)"

section \<open>Lemmas on rounding\<close>

lemma bitlen_powi:
  assumes "0 < x"
  shows "(2::rat) powi (bitlen x - 1) \<le> of_int x" and "of_int x < (2::rat) powi bitlen x"
proof -
  have b: "2 ^ nat (bitlen x - 1) \<le> x" "x < 2 ^ nat (bitlen x)"
    using bitlen_bounds [OF assms] by auto
  have n: "0 \<le> bitlen x - 1" "0 \<le> bitlen x"
    using bitlen_nonneg[of x] bitlen_eq_zero_iff[of x] assms by linarith+
  have "(2::rat) powi (bitlen x - 1) = of_int (2 ^ nat (bitlen x - 1))"
    "(2::rat) powi (bitlen x) = of_int (2 ^ nat (bitlen x))"
    using n by (simp_all add: power_int_def)
  then show "(2::rat) powi (bitlen x - 1) \<le> of_int x" "of_int x < (2::rat) powi bitlen x"
    using b by (simp_all only: of_int_le_iff of_int_less_iff)
qed

lemma ilog2_bounds:
  assumes "0 < q"
  shows "2 powi ilog2 q \<le> q" and "q < 2 powi (ilog2 q + 1)"
proof -
  obtain a b where ab: "quotient_of q = (a, b)" by force
  then have q: "q = of_int a / of_int b" and b: "0 < b"
    by (simp_all add: quotient_of_div quotient_of_denom_pos)
  with assms have a: "0 < a" by (simp add: zero_less_divide_iff)
  define k where "k = bitlen a - bitlen b"
  note pows = bitlen_powi
  have "2 powi (k - 1) < q"
  proof -
    have "2 powi (k - 1) = (2::rat) powi (bitlen a - 1) / 2 powi bitlen b"
      by (simp add: k_def power_int_diff)
    also have "\<dots> < of_int a / of_int b"
      using pows[OF a] pows[OF b] a b by (intro frac_less2) auto
    finally show ?thesis by (simp add: q)
  qed
  moreover have "q < 2 powi (k + 1)"
  proof -
    have "of_int a / of_int b < (2::rat) powi bitlen a / 2 powi (bitlen b - 1)"
      using pows[OF a] pows[OF b] a b by (intro frac_less) auto
    also have "\<dots> = 2 powi (k + 1)"
      by (simp add: k_def power_int_diff power_int_add)
    finally show ?thesis by (simp add: q)
  qed
  ultimately show "2 powi ilog2 q \<le> q" "q < 2 powi (ilog2 q + 1)"
    by (auto simp: ilog2_def ab k_def [symmetric] Let_def)
qed

lemma round_half_even_error: "\<bar>of_int (round_half_even x) - x\<bar> \<le> 1 / 2"
proof -
  define f where "f = floor x"
  define d where "d = x - of_int f"
  have "0 \<le> d" "d < 1" "x = of_int f + d"
    using floor_correct[of x] by (auto simp: d_def f_def)
  then show ?thesis
    by (auto simp: round_half_even_def Let_def simp flip: f_def d_def)
qed

lemma round_half_even_of_int [simp]: "round_half_even (of_int n) = n"
  by (simp add: round_half_even_def)

lemma powi_mono: "i \<le> j \<Longrightarrow> (2::rat) powi i \<le> 2 powi j"
  by (rule power_int_increasing) auto

lemma ilog2_less:
  assumes "0 < q" "q < 2 powi k"
  shows "ilog2 q < k"
proof (rule ccontr)
  assume "\<not> ilog2 q < k"
  then have "2 powi k \<le> q"
    using ilog2_bounds(1)[OF assms(1)] powi_mono[of k "ilog2 q"] by linarith
  with assms show False by simp
qed

text \<open>The rational value a rounding stands for, before the overflow test.\<close>

definition rounded :: "rat \<Rightarrow> rat" where
  "rounded q = of_int (round_half_even (q / 2 powi ulp_exp q)) * 2 powi ulp_exp q"

lemma rounded_error:
  assumes "\<bar>q\<bar> < 2 powi k" "- 1021 \<le> k"
  shows "\<bar>rounded q - q\<bar> \<le> 2 powi (k - 54)"
proof (cases "q = 0")
  case True
  then show ?thesis
    by (simp add: rounded_def round_half_even_def)
next
  case False
  let ?u = "(2::rat) powi ulp_exp q"
  have "ulp_exp q \<le> k - 53"
    using ilog2_less[of "\<bar>q\<bar>" k] False assms by (simp add: ulp_exp_def)
  then have "?u \<le> 2 powi (k - 53)"
    by (rule powi_mono)
  also have "\<dots> = 2 * 2 powi (k - 54)"
    by (simp flip: power_int_add_1')
  finally have u: "?u / 2 \<le> 2 powi (k - 54)" by simp
  have "rounded q - q = (of_int (round_half_even (q / ?u)) - q / ?u) * ?u"
    by (simp add: rounded_def algebra_simps)
  then have "\<bar>rounded q - q\<bar> = \<bar>of_int (round_half_even (q / ?u)) - q / ?u\<bar> * ?u"
    by (simp add: abs_mult)
  also have "\<dots> \<le> 1 / 2 * ?u"
    by (intro mult_right_mono round_half_even_error) simp
  finally show ?thesis using u by simp
qed

lemma rounded_of_int:
  assumes "\<bar>n\<bar> < 2 ^ 53"
  shows "rounded (of_int n) = of_int n"
proof (cases "n = 0")
  case True
  then show ?thesis by (simp add: rounded_def round_half_even_def)
next
  case False
  let ?k = "ulp_exp (of_int n)"
  have "of_int \<bar>n\<bar> < (of_int (2 ^ 53) :: rat)"
    using assms by (intro of_int_less_iff [THEN iffD2])
  then have "\<bar>of_int n\<bar> < (2::rat) powi 53" by simp
  then have "?k \<le> 0"
    using ilog2_less[of "\<bar>of_int n\<bar>" 53] False by (simp add: ulp_exp_def)
  then have inv: "(2::rat) powi ?k * 2 ^ nat (- ?k) = 1"
    by (cases "?k = 0") (simp_all add: power_int_def flip: power_mult_distrib)
  have eq: "(of_int n :: rat) = of_int (n * 2 ^ nat (- ?k)) * 2 powi ?k"
  proof -
    have "(of_int (n * 2 ^ nat (- ?k)) :: rat) * 2 powi ?k = of_int n * (2 powi ?k * 2 ^ nat (- ?k))"
      by (simp only: of_int_mult of_int_power of_int_numeral ac_simps)
    then show ?thesis by (simp only: inv mult_1_right)
  qed
  then have "(of_int n :: rat) / 2 powi ?k = of_int (n * 2 ^ nat (- ?k))"
    by (rule nonzero_divide_eq_eq [THEN iffD2, rotated]) simp
  then have "rounded (of_int n) = of_int (n * 2 ^ nat (- ?k)) * 2 powi ?k"
    by (simp only: rounded_def round_half_even_of_int)
  then show ?thesis using eq by simp
qed

lemma round64_rounded:
  "round64 q =
     (if q = 0 then Fin 0
      else if 2 ^ 1024 \<le> \<bar>rounded q\<bar> then (if q < 0 then NegInf else PosInf)
      else if rounded q = 0 \<and> q < 0 then NegZero else Fin (rounded q))"
  by (simp add: round64_def rounded_def Let_def)

lemma round64_small:
  assumes "\<bar>q\<bar> < 2 ^ 60"
  shows "round64 q = (if rounded q = 0 \<and> q < 0 then NegZero else Fin (rounded q))"
proof -
  have "\<bar>rounded q - q\<bar> \<le> 2 powi 6"
    using rounded_error[of q 60] assms by simp
  then have "\<bar>rounded q\<bar> < 2 ^ 61"
    using assms by (auto simp: abs_if split: if_splits)
  also have "\<dots> < 2 ^ 1024" by (rule power_strict_increasing) auto
  finally show ?thesis
    by (auto simp: round64_rounded rounded_def round_half_even_def)
qed

lemma round64_of_int: "\<bar>n\<bar> < 2 ^ 53 \<Longrightarrow> round64 (of_int n) = Fin (of_int n)"
proof -
  assume n: "\<bar>n\<bar> < 2 ^ 53"
  then have "of_int \<bar>n\<bar> < (of_int (2 ^ 60) :: rat)"
    by (intro of_int_less_iff [THEN iffD2]) simp
  then have "\<bar>of_int n\<bar> < (2 ^ 60 :: rat)" by simp
  then show ?thesis
    using rounded_of_int[OF n] by (simp add: round64_small)
qed

lemma f64_of_int_exact: "\<bar>n\<bar> < 2 ^ 53 \<Longrightarrow> f64_of_int n = Fin (of_int n)"
  by (simp add: f64_of_int_def round64_of_int)

lemma round64_numeral [simp]:
  "(numeral k :: int) < 2 ^ 53 \<Longrightarrow> round64 (numeral k) = Fin (numeral k)"
  using round64_of_int[of "numeral k"] by simp

lemma round64_0 [simp]: "round64 0 = Fin 0"
  by (simp add: round64_def)

lemma round64_1 [simp]: "round64 1 = Fin 1"
  using round64_of_int[of 1] by simp

section \<open>Lemmas on comparison and addition\<close>

lemmas f64_ord_defs = less_f64_def less_eq_f64_def f64_lt_def f64_le_def

lemma f64_lt_simps [simp]:
  "Fin p < Fin q \<longleftrightarrow> p < q" "Fin p \<le> Fin q \<longleftrightarrow> p \<le> q"
  "Fin p < PosInf" "NegInf < Fin p" "Fin p \<le> PosInf" "NegInf \<le> Fin p" "\<not> PosInf \<le> Fin p"
  "NegZero < Fin p \<longleftrightarrow> 0 < p" "Fin p < NegZero \<longleftrightarrow> p < 0"
  "NegZero \<le> Fin p \<longleftrightarrow> 0 \<le> p" "Fin p \<le> NegZero \<longleftrightarrow> p \<le> 0"
  by (simp_all add: f64_ord_defs)

lemma f64_lt_nan [simp]:
  "\<not> NaN < x" "\<not> x < NaN" "\<not> NaN \<le> x" "\<not> x \<le> NaN"
  by (simp_all add: f64_ord_defs split: option.splits)

lemma f64_lt_inf [simp]: "\<not> PosInf < x" "\<not> x < NegInf"
  by (cases x; simp add: f64_ord_defs)+

lemma f64_lt_irrefl [simp]: "\<not> (x::f64) < x"
  by (cases x) (auto simp: f64_ord_defs)

lemma f64_lt_trans: "(x::f64) < y \<Longrightarrow> y < z \<Longrightarrow> x < z"
  by (cases x; cases y; cases z) (auto simp: f64_ord_defs)

lemma f64_not_less: "x \<noteq> NaN \<Longrightarrow> y \<noteq> NaN \<Longrightarrow> \<not> x < y \<longleftrightarrow> y \<le> (x::f64)"
  by (cases x; cases y) (auto simp: f64_ord_defs)

lemma f64_le_trans: "(x::f64) \<le> y \<Longrightarrow> y \<le> z \<Longrightarrow> x \<le> z"
  by (cases x; cases y; cases z) (auto simp: f64_ord_defs)

lemma f64_le_refl: "x \<noteq> NaN \<Longrightarrow> x \<le> (x::f64)"
  by (cases x) (auto simp: f64_ord_defs)

lemma f64_le_less_trans: "(x::f64) \<le> y \<Longrightarrow> y < z \<Longrightarrow> x < z"
  by (cases x; cases y; cases z) (auto simp: f64_ord_defs)

lemma f64_less_le_trans: "(x::f64) < y \<Longrightarrow> y \<le> z \<Longrightarrow> x < z"
  by (cases x; cases y; cases z) (auto simp: f64_ord_defs)

lemma f64_add_Fin [simp]: "Fin p + Fin q = round64 (p + q)"
  by (simp add: plus_f64_def)

lemma f64_add_ints:
  "\<bar>m + n\<bar> < 2 ^ 53 \<Longrightarrow> Fin (of_int m) + Fin (of_int n) = Fin (of_int (m + n))"
  using round64_of_int[of "m + n"] by simp

text \<open>Adding at least 0.1 to a time of ordinary magnitude moves it forward by more than 0.09.\<close>

lemma f64_add_progress:
  assumes "0 \<le> p" "p < 2 ^ 43" "1 / 10 \<le> q" "q < 2 ^ 43"
  shows "\<exists>r. Fin p + Fin q = Fin r \<and> p + 9 / 100 < r"
proof -
  have small: "\<bar>p + q\<bar> < 2 powi 44"
    using assms by (auto simp: abs_if split: if_splits)
  have err: "\<bar>rounded (p + q) - (p + q)\<bar> \<le> 2 powi (- 10)"
    using rounded_error[OF small] by simp
  then have r: "p + 9 / 100 < rounded (p + q)"
    using assms(3) by (simp add: power_int_minus abs_if split: if_splits)
  have "\<bar>p + q\<bar> < 2 ^ 60" using small by simp
  moreover have "\<not> (rounded (p + q) = 0 \<and> p + q < 0)"
    using assms by auto
  ultimately show ?thesis
    using r by (auto simp: round64_small)
qed

text \<open>An equation that evaluates without the large powers of the overflow test.\<close>

lemma round64_code [code]:
  "round64 q =
     (if q = 0 then Fin 0
      else if \<bar>q\<bar> < 1152921504606846976
      then (let r = rounded q in if r = 0 \<and> q < 0 then NegZero else Fin r)
      else let r = rounded q
           in if 2 ^ 1024 \<le> \<bar>r\<bar> then (if q < 0 then NegInf else PosInf)
              else if r = 0 \<and> q < 0 then NegZero else Fin r)"
proof (cases "\<bar>q\<bar> < 1152921504606846976")
  case True
  then have "\<bar>q\<bar> < 2 ^ 60" by simp
  from round64_small [OF this] True show ?thesis
    by (cases "q = 0") (simp_all add: Let_def)
next
  case False
  then show ?thesis unfolding round64_rounded Let_def by (simp only: if_False)
qed

text \<open>The double written \<open>0.1\<close>.\<close>

lemma round64_tenth: "round64 (1 / 10) = Fin (3602879701896397 / 36028797018963968)"
  by code_simp

end
