(* ===== verification/BoundedLog.thy ===== *)
theory BoundedLog
  imports Prelude
begin

text \<open>
  The contract of a log of bounded length: a push never panics, keeps the capacity, and
  leaves the newest \<open>cap\<close> of the values pushed so far. Two buffers of the code keep
  it, the \<open>RingBuffer\<close> of an InfoItem and the \<open>PollBuffer\<close> of a subscription,
  by different index arithmetic; what their users rely on is proved here once.
\<close>

locale bounded_log =
  fixes push :: "'v \<Rightarrow> 'b \<Rightarrow> 'b option"
    and cap :: "'b \<Rightarrow> nat"
    and contents :: "'b \<Rightarrow> 'v list"
    and ok :: "'b \<Rightarrow> bool"
  assumes push_ok: "ok b \<Longrightarrow>
      \<exists>b'. push v b = Some b' \<and> ok b' \<and> cap b' = cap b \<and>
           contents b' = last_n (cap b) (contents b @ [v])"
    and contents_bound: "ok b \<Longrightarrow> length (contents b) \<le> cap b"
    and cap_pos: "ok b \<Longrightarrow> 0 < cap b"
begin

lemma push_all:
  "ok b \<Longrightarrow> \<exists>b'. fold_opt push vs b = Some b' \<and> ok b' \<and> cap b' = cap b \<and>
     contents b' = last_n (cap b) (contents b @ vs)"
proof (induction vs arbitrary: b)
  case Nil
  then show ?case using contents_bound by simp
next
  case (Cons v vs)
  from push_ok [OF Cons.prems] obtain b1 where b1:
    "push v b = Some b1" "ok b1" "cap b1 = cap b"
    "contents b1 = last_n (cap b) (contents b @ [v])" by blast
  from Cons.IH [OF b1(2)] b1 show ?case
    using last_n_append_last_n [of "cap b" "contents b @ [v]" vs] by auto
qed

lemma push_all_from_empty:
  assumes "ok b" "contents b = []"
  shows "\<exists>b'. fold_opt push vs b = Some b' \<and> ok b' \<and> cap b' = cap b \<and>
     contents b' = last_n (cap b) vs"
  using push_all [OF assms(1), of vs] assms(2) by simp

lemma push_newest:
  assumes "ok b" "push v b = Some b'"
  shows "contents b' \<noteq> [] \<and> last (contents b') = v"
proof -
  have c: "contents b' = last_n (cap b) (contents b @ [v])"
    using push_ok [OF assms(1), of v] assms(2) by auto
  have "0 < cap b" by (rule cap_pos [OF assms(1)])
  then show ?thesis
    by (auto simp: c last_n_def)
qed

lemma push_len:
  assumes "ok b" "push v b = Some b'"
  shows "length (contents b') = min (cap b) (Suc (length (contents b)))"
  using push_ok [OF assms(1), of v] assms(2) by auto

end

end
