(* ===== verification/BTreeMap.thy ===== *)
theory BTreeMap
  imports Prelude "HOL-Library.List_Lexorder" "HOL-Library.Char_ord"
begin

text \<open>
  \<open>std::collections::BTreeMap\<close> as the list of its entries in key order, which is also
  the order in which the code iterates over it (\<open>iter\<close>, \<open>keys\<close>, \<open>values\<close>,
  \<open>into_iter\<close>). Keys are Rust strings, modelled as lists of bytes under the
  lexicographic order. The lookup of a key is \<open>map_of\<close>. The locale \<open>ordered_dict\<close>
  is the interface the object tree, the subscription registry and the page store rely
  on; it is interpreted on the operations below.
\<close>

section \<open>The operations\<close>

type_synonym ('k, 'v) btree = "('k \<times> 'v) list"

fun bt_insert :: "'k::linorder \<Rightarrow> 'v \<Rightarrow> ('k, 'v) btree \<Rightarrow> ('k, 'v) btree" where
  "bt_insert k v [] = [(k, v)]"
| "bt_insert k v (e # m) =
     (if fst e < k then e # bt_insert k v m
      else if fst e = k then (k, v) # m
      else (k, v) # e # m)"

definition bt_remove :: "'k \<Rightarrow> ('k, 'v) btree \<Rightarrow> ('k, 'v) btree" where
  "bt_remove k m = filter (\<lambda>e. fst e \<noteq> k) m"

definition bt_contains :: "('k, 'v) btree \<Rightarrow> 'k \<Rightarrow> bool" where
  "bt_contains m k = (map_of m k \<noteq> None)"

text \<open>\<open>get_mut\<close> followed by an assignment: the entry is replaced where it stands.\<close>

definition bt_update :: "'k \<Rightarrow> 'v \<Rightarrow> ('k, 'v) btree \<Rightarrow> ('k, 'v) btree" where
  "bt_update k v m = map (\<lambda>e. if fst e = k then (k, v) else e) m"

definition bt_insert_all :: "('k::linorder, 'v) btree \<Rightarrow> ('k, 'v) btree \<Rightarrow> ('k, 'v) btree" where
  "bt_insert_all new m = fold (\<lambda>e. bt_insert (fst e) (snd e)) new m"

definition bt_ok :: "('k::linorder, 'v) btree \<Rightarrow> bool" where
  "bt_ok m \<longleftrightarrow> sorted_wrt (<) (map fst m)"

lemma map_of_rev_distinct: "distinct (map fst es) \<Longrightarrow> map_of (rev es) = map_of es"
  by (metis distinct_rev map_of_inject_set rev_map set_rev)

section \<open>The interface\<close>

locale ordered_dict =
  fixes lookup :: "'m \<Rightarrow> 'k \<Rightarrow> 'v option"
    and insert_at :: "'k \<Rightarrow> 'v \<Rightarrow> 'm \<Rightarrow> 'm"
    and remove_at :: "'k \<Rightarrow> 'm \<Rightarrow> 'm"
    and ok :: "'m \<Rightarrow> bool"
  assumes lookup_insert: "lookup (insert_at k v m) k' = (if k' = k then Some v else lookup m k')"
    and lookup_remove: "lookup (remove_at k m) k' = (if k' = k then None else lookup m k')"
    and ok_insert: "ok m \<Longrightarrow> ok (insert_at k v m)"
    and ok_remove: "ok m \<Longrightarrow> ok (remove_at k m)"
begin

lemma insert_remove_other:
  "k \<noteq> k' \<Longrightarrow> lookup (insert_at k v (remove_at k' m)) k' = None"
  by (simp add: lookup_insert lookup_remove)

lemma ok_insert_many: "ok m \<Longrightarrow> ok (fold (\<lambda>e. insert_at (fst e) (snd e)) es m)"
  by (induction es arbitrary: m) (auto intro: ok_insert)

lemma lookup_insert_many:
  "lookup (fold (\<lambda>e. insert_at (fst e) (snd e)) es m) k =
     (case map_of (rev es) k of Some v \<Rightarrow> Some v | None \<Rightarrow> lookup m k)"
  by (induction es arbitrary: m)
    (auto simp: map_add_def lookup_insert split: option.splits)

lemma lookup_insert_many_distinct:
  "distinct (map fst es) \<Longrightarrow>
   lookup (fold (\<lambda>e. insert_at (fst e) (snd e)) es m) k =
     (case map_of es k of Some v \<Rightarrow> Some v | None \<Rightarrow> lookup m k)"
  by (simp add: lookup_insert_many map_of_rev_distinct)

lemma lookup_remove_many:
  "lookup (fold remove_at ks m) k = (if k \<in> set ks then None else lookup m k)"
  by (induction ks arbitrary: m) (auto simp: lookup_remove)

lemma ok_remove_many: "ok m \<Longrightarrow> ok (fold remove_at ks m)"
  by (induction ks arbitrary: m) (auto intro: ok_remove)

end

section \<open>The operations meet the interface\<close>

lemma map_of_bt_insert [simp]:
  "map_of (bt_insert k v m) k' = (if k' = k then Some v else map_of m k')"
  by (induction m) auto

lemma map_of_filter_key: "map_of (filter (\<lambda>e. fst e \<noteq> k) m) k' = (if k' = k then None else map_of m k')"
  by (induction m) auto

lemma map_of_bt_remove [simp]:
  "map_of (bt_remove k m) k' = (if k' = k then None else map_of m k')"
  by (simp add: bt_remove_def map_of_filter_key)

lemma set_bt_insert_keys: "fst ` set (bt_insert k v m) = insert k (fst ` set m)"
  by (induction m) auto

lemma bt_ok_insert [simp]: "bt_ok m \<Longrightarrow> bt_ok (bt_insert k v m)"
proof (induction m)
  case (Cons e m)
  then show ?case
    using set_bt_insert_keys [of k v m]
    by (auto simp: bt_ok_def)
qed (simp add: bt_ok_def)

lemma bt_ok_remove [simp]: "bt_ok m \<Longrightarrow> bt_ok (bt_remove k m)"
  by (induction m) (auto simp: bt_ok_def bt_remove_def)

interpretation bt: ordered_dict map_of bt_insert bt_remove bt_ok
  by unfold_locales auto

section \<open>Facts the components share\<close>

lemma bt_ok_Nil [simp]: "bt_ok []"
  by (simp add: bt_ok_def)

lemma bt_ok_distinct: "bt_ok m \<Longrightarrow> distinct (map fst m)"
  by (simp add: bt_ok_def strict_sorted_iff)

lemma bt_ok_map_of: "bt_ok m \<Longrightarrow> (k, v) \<in> set m \<Longrightarrow> map_of m k = Some v"
  by (simp add: bt_ok_distinct)

lemma map_fst_bt_update [simp]: "map fst (bt_update k v m) = map fst m"
  by (induction m) (auto simp: bt_update_def)

lemma length_bt_update [simp]: "length (bt_update k v m) = length m"
  by (simp add: bt_update_def)

lemma bt_ok_update [simp]: "bt_ok (bt_update k v m) = bt_ok m"
  by (simp add: bt_ok_def)

lemma map_of_bt_update:
  "map_of (bt_update k v m) k' = (if k' = k \<and> map_of m k \<noteq> None then Some v else map_of m k')"
  by (induction m) (auto simp: bt_update_def)

lemma bt_contains_iff [simp]: "bt_contains m k \<longleftrightarrow> k \<in> dom (map_of m)"
  by (auto simp: bt_contains_def)

lemma set_bt_update: "e \<in> set (bt_update k v m) \<Longrightarrow> e = (k, v) \<or> e \<in> set m"
  by (auto simp: bt_update_def)

lemma set_bt_insert: "e \<in> set (bt_insert k v m) \<Longrightarrow> e = (k, v) \<or> e \<in> set m"
  by (induction m) (auto split: if_splits)

lemma set_bt_remove: "e \<in> set (bt_remove k m) \<longleftrightarrow> fst e \<noteq> k \<and> e \<in> set m"
  by (auto simp: bt_remove_def)

lemma bt_insert_neq_Nil [simp]: "bt_insert k v m \<noteq> []"
  by (cases m) auto

lemma bt_ok_insert_all [simp]: "bt_ok m \<Longrightarrow> bt_ok (bt_insert_all new m)"
  unfolding bt_insert_all_def by (rule bt.ok_insert_many)

lemma map_of_bt_insert_all:
  "bt_ok new \<Longrightarrow> map_of (bt_insert_all new m) k =
     (case map_of new k of Some v \<Rightarrow> Some v | None \<Rightarrow> map_of m k)"
  unfolding bt_insert_all_def
  by (rule bt.lookup_insert_many_distinct) (rule bt_ok_distinct)

lemma set_bt_insert_all: "e \<in> set (bt_insert_all new m) \<Longrightarrow> e \<in> set new \<or> e \<in> set m"
proof (induction new arbitrary: m)
  case (Cons x new)
  then have "e \<in> set new \<or> e \<in> set (bt_insert (fst x) (snd x) m)"
    by (auto simp: bt_insert_all_def)
  then show ?case
    by (auto dest: set_bt_insert)
qed (simp add: bt_insert_all_def)

lemma length_bt_insert:
  "bt_ok m \<Longrightarrow> length (bt_insert k v m) = (if map_of m k = None then Suc (length m) else length m)"
proof (induction m)
  case (Cons e m)
  then have "k < fst e \<Longrightarrow> map_of m k = None"
    by (auto simp: bt_ok_def map_of_eq_None_iff dest: order.strict_trans)
  with Cons show ?case
    by (auto simp: bt_ok_def)
qed simp

lemma length_bt_insert_le: "length (bt_insert k v m) \<le> Suc (length m)"
  by (induction m) auto

lemma length_bt_remove_le: "length (bt_remove k m) \<le> length m"
  by (simp add: bt_remove_def)

text \<open>Two maps with the same lookups are the same list of entries.\<close>

lemma bt_ok_eqI:
  assumes "bt_ok m" "bt_ok m'" "\<And>k. map_of m k = map_of m' k"
  shows "m = m'"
proof (rule map_sorted_distinct_set_unique [of fst])
  show "inj_on fst (set m \<union> set m')"
    using assms by (auto simp: inj_on_def) (metis bt_ok_map_of option.inject)+
  show "sorted (map fst m)" "sorted (map fst m')" "distinct (map fst m)" "distinct (map fst m')"
    using assms(1,2) by (auto simp: bt_ok_def strict_sorted_iff)
  show "set m = set m'"
    using assms by (metis bt_ok_distinct map_of_inject_set ext)
qed

lemma bt_insert_same: "bt_ok m \<Longrightarrow> map_of m k = Some v \<Longrightarrow> bt_insert k v m = m"
  by (rule bt_ok_eqI) auto

end
