(* ===== verification/OdfValue.thy ===== *)
theory OdfValue
  imports Psram Float64 BoundedLog BTreeMap
begin

text \<open>
  \<open>src/odf/mod.rs\<close> and \<open>src/odf/value.rs\<close>: the OMI values, timestamped values, and the
  ring buffer that holds the history of an InfoItem. The main facts are that a ring buffer
  reached by \<open>push\<close> and \<open>clear\<close> never panics, that it holds exactly the newest
  \<open>capacity\<close> values pushed since it was emptied, and that the queries return what a
  list of those values gives.
\<close>

section \<open>Values\<close>

datatype omi_value = Null | Bool bool | Number f64 | Str string

record odf_value =
  val_v :: omi_value
  val_t :: "f64 option"

definition value_new :: "omi_value \<Rightarrow> f64 option \<Rightarrow> odf_value" where
  "value_new v t = \<lparr>val_v = v, val_t = t\<rparr>"

section \<open>The ring buffer\<close>

record ring_buffer =
  rb_buf :: "odf_value psram_box"
  rb_head :: nat
  rb_len :: nat
  rb_capacity :: nat

definition rb_new :: "nat \<Rightarrow> ring_buffer option" where
  "rb_new capacity = do {
     rust_assert (0 < capacity);
     buf \<leftarrow> psram_new capacity;
     Some \<lparr>rb_buf = buf, rb_head = 0, rb_len = 0, rb_capacity = capacity\<rparr>
   }"

definition rb_is_empty :: "ring_buffer \<Rightarrow> bool" where
  "rb_is_empty rb = (rb_len rb = 0)"

definition rb_push :: "odf_value \<Rightarrow> ring_buffer \<Rightarrow> ring_buffer option" where
  "rb_push v rb =
     (if rb_len rb < rb_capacity rb then do {
        buf \<leftarrow> psram_push v (rb_buf rb);
        head \<leftarrow> rem_checked (rb_len rb + 1) (rb_capacity rb);
        Some (rb\<lparr>rb_buf := buf, rb_len := rb_len rb + 1, rb_head := head\<rparr>)
      } else do {
        buf \<leftarrow> psram_set (rb_head rb) v (rb_buf rb);
        head \<leftarrow> rem_checked (rb_head rb + 1) (rb_capacity rb);
        Some (rb\<lparr>rb_buf := buf, rb_head := head\<rparr>)
      })"

definition rb_clear :: "ring_buffer \<Rightarrow> ring_buffer" where
  "rb_clear rb = rb\<lparr>rb_buf := psram_clear (rb_buf rb), rb_head := 0, rb_len := 0\<rparr>"

definition rb_oldest_index :: "ring_buffer \<Rightarrow> nat" where
  "rb_oldest_index rb = (if rb_len rb < rb_capacity rb then 0 else rb_head rb)"

definition rb_get :: "ring_buffer \<Rightarrow> nat \<Rightarrow> odf_value option" where
  "rb_get rb logical = do {
     idx \<leftarrow> rem_checked (rb_oldest_index rb + logical) (rb_capacity rb);
     psram_get (rb_buf rb) idx
   }"

definition rb_iter :: "ring_buffer \<Rightarrow> odf_value list option" where
  "rb_iter rb = those (map (rb_get rb) [0..<rb_len rb])"

definition rb_newest :: "ring_buffer \<Rightarrow> nat \<Rightarrow> odf_value list option" where
  "rb_newest rb n =
     those (map (\<lambda>i. rb_get rb (rb_len rb - 1 - i)) [0..<min n (rb_len rb)])"

definition rb_oldest :: "ring_buffer \<Rightarrow> nat \<Rightarrow> odf_value list option" where
  "rb_oldest rb n = those (map (rb_get rb) (rev [0..<min n (rb_len rb)]))"

definition in_range :: "f64 option \<Rightarrow> f64 option \<Rightarrow> odf_value \<Rightarrow> bool" where
  "in_range begin_t end_t v =
     (case val_t v of
        None \<Rightarrow> False
      | Some t \<Rightarrow>
          (case begin_t of Some b \<Rightarrow> if t < b then False else
             (case end_t of Some e \<Rightarrow> \<not> e < t | None \<Rightarrow> True)
           | None \<Rightarrow> (case end_t of Some e \<Rightarrow> \<not> e < t | None \<Rightarrow> True)))"

definition rb_range :: "ring_buffer \<Rightarrow> f64 \<Rightarrow> f64 \<Rightarrow> odf_value list option" where
  "rb_range rb begin_t end_t = do {
     vs \<leftarrow> rb_iter rb;
     Some (rev (filter
       (\<lambda>v. case val_t v of None \<Rightarrow> False | Some t \<Rightarrow> begin_t \<le> t \<and> t \<le> end_t) vs))
   }"

definition rb_query ::
  "ring_buffer \<Rightarrow> nat option \<Rightarrow> nat option \<Rightarrow> f64 option \<Rightarrow> f64 option \<Rightarrow> odf_value list option"
where
  "rb_query rb newest oldest begin_t end_t = do {
     all \<leftarrow> rb_iter rb;
     let vs = (if begin_t \<noteq> None \<or> end_t \<noteq> None
               then filter (in_range begin_t end_t) all else all);
     let vs = (case newest of
                 Some n \<Rightarrow> drop (length vs - n) vs
               | None \<Rightarrow> (case oldest of Some n \<Rightarrow> take n vs | None \<Rightarrow> vs));
     Some (rev vs)
   }"

section \<open>Invariant and abstract value\<close>

definition rb_inv :: "ring_buffer \<Rightarrow> bool" where
  "rb_inv rb \<longleftrightarrow>
     0 < rb_capacity rb \<and> ps_capacity (rb_buf rb) = rb_capacity rb \<and>
     length (ps_data (rb_buf rb)) = rb_len rb \<and> rb_len rb \<le> rb_capacity rb \<and>
     rb_head rb < rb_capacity rb \<and>
     (rb_len rb < rb_capacity rb \<longrightarrow> rb_head rb = rb_len rb)"

text \<open>The values it holds, oldest first.\<close>

definition rb_abs :: "ring_buffer \<Rightarrow> odf_value list" where
  "rb_abs rb =
     (let d = ps_data (rb_buf rb); s = rb_oldest_index rb in drop s d @ take s d)"

lemma length_rb_abs: "length (rb_abs rb) = length (ps_data (rb_buf rb))"
  by (simp add: rb_abs_def Let_def)

lemma rb_new_ok: "0 < capacity \<Longrightarrow>
  \<exists>rb. rb_new capacity = Some rb \<and> rb_inv rb \<and> rb_abs rb = [] \<and> rb_capacity rb = capacity"
  by (simp add: rb_new_def psram_new_def rb_inv_def rb_abs_def rb_oldest_index_def)

lemma rb_new_Some: "rb_new capacity = Some rb \<longleftrightarrow>
  0 < capacity \<and> rb = \<lparr>rb_buf = \<lparr>ps_data = [], ps_capacity = capacity\<rparr>,
                        rb_head = 0, rb_len = 0, rb_capacity = capacity\<rparr>"
  by (auto simp: rb_new_def psram_new_def)

lemma rb_push_growing:
  assumes "rb_inv rb" "rb_len rb < rb_capacity rb"
  shows "\<exists>rb'. rb_push v rb = Some rb' \<and> rb_inv rb' \<and> rb_capacity rb' = rb_capacity rb \<and>
           rb_abs rb' = rb_abs rb @ [v]"
proof (cases "Suc (rb_len rb) = rb_capacity rb")
  case True
  with assms show ?thesis
    by (auto simp: rb_push_def rb_inv_def psram_defs rb_abs_def rb_oldest_index_def)
next
  case False
  with assms show ?thesis
    by (auto simp: rb_push_def rb_inv_def psram_defs rb_abs_def rb_oldest_index_def)
qed

lemma rb_push_full:
  assumes "rb_inv rb" "rb_len rb = rb_capacity rb"
  shows "\<exists>rb'. rb_push v rb = Some rb' \<and> rb_inv rb' \<and> rb_capacity rb' = rb_capacity rb \<and>
           rb_abs rb' = tl (rb_abs rb) @ [v]"
proof -
  let ?d = "ps_data (rb_buf rb)" and ?h = "rb_head rb" and ?c = "rb_capacity rb"
  let ?h' = "Suc ?h mod ?c"
  define rb' where "rb' = rb\<lparr>rb_buf := (rb_buf rb)\<lparr>ps_data := ?d[?h := v]\<rparr>, rb_head := ?h'\<rparr>"
  have h: "?h < length ?d" "length ?d = ?c" "0 < ?c" "rb_len rb = ?c"
    using assms by (auto simp: rb_inv_def)
  have p: "rb_push v rb = Some rb'"
    using h by (simp add: rb_push_def psram_defs rb'_def)
  have i: "rb_inv rb'"
    using assms h by (auto simp: rb'_def rb_inv_def)
  have a: "rb_abs rb = drop ?h ?d @ take ?h ?d"
    using h by (simp add: rb_abs_def rb_oldest_index_def Let_def)
  have "rb_abs rb' = drop ?h' (?d[?h := v]) @ take ?h' (?d[?h := v])"
    using h by (simp add: rb_abs_def rb_oldest_index_def rb'_def Let_def)
  also have "\<dots> = drop (Suc ?h) ?d @ take ?h ?d @ [v]"
  proof (cases "Suc ?h = ?c")
    case True
    with h show ?thesis
      by (simp add: list_update_append upd_conv_take_nth_drop)
  next
    case False
    with h show ?thesis
      by (simp add: take_Suc_conv_app_nth)
  qed
  also have "\<dots> = tl (rb_abs rb) @ [v]"
    using h by (simp add: a Cons_nth_drop_Suc [symmetric])
  finally show ?thesis using p i by (simp add: rb'_def)
qed

lemma rb_push_ok: "rb_inv rb \<Longrightarrow>
  \<exists>rb'. rb_push v rb = Some rb' \<and> rb_inv rb' \<and> rb_capacity rb' = rb_capacity rb \<and>
        rb_abs rb' = last_n (rb_capacity rb) (rb_abs rb @ [v])"
proof (cases "rb_len rb < rb_capacity rb")
  case True
  moreover assume "rb_inv rb"
  ultimately show ?thesis
    using rb_push_growing [of rb v] by (auto simp: rb_inv_def length_rb_abs)
next
  case False
  moreover assume inv: "rb_inv rb"
  ultimately have full: "rb_len rb = rb_capacity rb" "0 < rb_capacity rb"
    "length (rb_abs rb) = rb_capacity rb"
    by (auto simp: rb_inv_def length_rb_abs)
  then show ?thesis
    using rb_push_full [OF inv full(1), of v] by (simp add: last_n_snoc_full)
qed

interpretation rb: bounded_log rb_push rb_capacity rb_abs rb_inv
proof unfold_locales
  show "\<exists>b'. rb_push v b = Some b' \<and> rb_inv b' \<and> rb_capacity b' = rb_capacity b \<and>
      rb_abs b' = last_n (rb_capacity b) (rb_abs b @ [v])" if "rb_inv b" for b v
    using that by (rule rb_push_ok)
qed (auto simp: rb_inv_def length_rb_abs)

lemma rb_clear_ok: "rb_inv rb \<Longrightarrow>
  rb_inv (rb_clear rb) \<and> rb_abs (rb_clear rb) = [] \<and> rb_capacity (rb_clear rb) = rb_capacity rb"
  by (auto simp: rb_clear_def rb_inv_def psram_defs rb_abs_def)

section \<open>Queries\<close>

lemma rb_get_abs:
  assumes "rb_inv rb" "i < rb_len rb"
  shows "rb_get rb i = Some (rb_abs rb ! i)"
proof (cases "rb_len rb < rb_capacity rb")
  case True
  with assms show ?thesis
    by (auto simp: rb_get_def rb_inv_def rb_oldest_index_def psram_defs rb_abs_def)
next
  case False
  let ?d = "ps_data (rb_buf rb)" and ?h = "rb_head rb"
  from False assms have f: "rb_len rb = rb_capacity rb" "length ?d = rb_len rb"
    "?h < rb_len rb" "0 < rb_capacity rb"
    by (auto simp: rb_inv_def)
  have "(?h + i) mod rb_len rb = (if ?h + i < rb_len rb then ?h + i else ?h + i - rb_len rb)"
    using f assms(2) by (auto simp: mod_if)
  with f assms(2) show ?thesis
    by (auto simp: rb_get_def rb_oldest_index_def psram_defs rb_abs_def nth_append Let_def add.commute)
qed

lemma rb_iter_abs: "rb_inv rb \<Longrightarrow> rb_iter rb = Some (rb_abs rb)"
proof -
  assume inv: "rb_inv rb"
  have "rb_iter rb = Some (map (nth (rb_abs rb)) [0..<rb_len rb])"
    unfolding rb_iter_def by (rule those_map_eq_Some) (auto intro!: rb_get_abs [OF inv])
  also have "map (nth (rb_abs rb)) [0..<rb_len rb] = rb_abs rb"
    using inv map_nth [of "rb_abs rb"] by (simp add: length_rb_abs rb_inv_def)
  finally show ?thesis .
qed

lemma rb_newest_abs: 
  assumes "rb_inv rb"
  shows "rb_newest rb n = Some (take n (rev (rb_abs rb)))"
proof -
  have l: "length (rb_abs rb) = rb_len rb"
    using assms by (simp add: length_rb_abs rb_inv_def)
  have "rb_newest rb n =
      Some (map (\<lambda>i. rb_abs rb ! (rb_len rb - 1 - i)) [0..<min n (rb_len rb)])"
    unfolding rb_newest_def
    by (rule those_map_eq_Some) (auto intro!: rb_get_abs [OF assms])
  also have "map (\<lambda>i. rb_abs rb ! (rb_len rb - 1 - i)) [0..<min n (rb_len rb)]
      = take n (rev (rb_abs rb))"
    by (rule nth_equalityI) (auto simp: l rev_nth)
  finally show ?thesis .
qed

lemma rb_oldest_abs:
  assumes "rb_inv rb"
  shows "rb_oldest rb n = Some (rev (take n (rb_abs rb)))"
proof -
  have l: "length (rb_abs rb) = rb_len rb"
    using assms by (simp add: length_rb_abs rb_inv_def)
  have "rb_oldest rb n = Some (map (nth (rb_abs rb)) (rev [0..<min n (rb_len rb)]))"
    unfolding rb_oldest_def
    by (rule those_map_eq_Some) (auto intro!: rb_get_abs [OF assms])
  also have "map (nth (rb_abs rb)) (rev [0..<min n (rb_len rb)]) = rev (take n (rb_abs rb))"
    by (simp add: rev_map [symmetric]) (rule nth_equalityI, auto simp: l)
  finally show ?thesis .
qed

text \<open>What a query returns, as a function of the values held: those in the time range,
  then the newest or the oldest of them, newest first.\<close>

definition query_spec ::
  "odf_value list \<Rightarrow> nat option \<Rightarrow> nat option \<Rightarrow> f64 option \<Rightarrow> f64 option \<Rightarrow> odf_value list"
where
  "query_spec vs newest oldest b e =
     (let vs = (if b = None \<and> e = None then vs else filter (in_range b e) vs)
      in case newest of
           Some n \<Rightarrow> take n (rev vs)
         | None \<Rightarrow> (case oldest of Some n \<Rightarrow> rev (take n vs) | None \<Rightarrow> rev vs))"

lemma rb_query_abs:
  "rb_inv rb \<Longrightarrow> rb_query rb newest oldest b e = Some (query_spec (rb_abs rb) newest oldest b e)"
proof -
  assume inv: "rb_inv rb"
  have d: "rev (drop (length vs - n) vs) = take n (rev vs)" for n and vs :: "odf_value list"
    using rev_last_n [of n vs] by (simp add: last_n_def)
  show ?thesis
    by (cases newest; cases oldest; cases b; cases e)
      (simp_all add: rb_query_def rb_iter_abs [OF inv] query_spec_def Let_def d)
qed

lemma rb_query_newest_1:
  "rb_inv rb \<Longrightarrow> rb_query rb (Some 1) None None None =
     Some (if rb_abs rb = [] then [] else [last (rb_abs rb)])"
  by (simp add: rb_query_abs query_spec_def) (cases "rb_abs rb" rule: rev_cases; simp)

section \<open>Properties\<close>

text \<open>C9: The history of an item. Pushing any list of values into a new ring buffer of
  capacity \<open>n > 0\<close> never panics, and every query then answers as it would on the plain
  list of the newest \<open>n\<close> of them: filtered by time, then cut to the newest or the oldest,
  newest first.\<close>

theorem ring_buffer_history:
  assumes "0 < n"
  shows "\<exists>rb rb'. rb_new n = Some rb \<and> fold_opt rb_push vs rb = Some rb' \<and>
    rb_iter rb' = Some (last_n n vs) \<and>
    (\<forall>newest oldest b e.
       rb_query rb' newest oldest b e = Some (query_spec (last_n n vs) newest oldest b e))"
proof -
  obtain rb where rb: "rb_new n = Some rb" "rb_inv rb" "rb_abs rb = []" "rb_capacity rb = n"
    using rb_new_ok [OF assms] by blast
  obtain rb' where "fold_opt rb_push vs rb = Some rb'" "rb_inv rb'" "rb_abs rb' = last_n n vs"
    using rb.push_all [OF rb(2), of vs] rb(3,4) by auto
  with rb(1) show ?thesis by (auto simp: rb_iter_abs rb_query_abs)
qed

theorem ring_buffer_history_witness:
  "0 < (2::nat) \<and> (\<exists>rb rb'. rb_new 2 = Some rb \<and>
     fold_opt rb_push (map (\<lambda>b. value_new (Bool b) None) [True, False, False]) rb = Some rb' \<and>
     rb_iter rb' = Some (map (\<lambda>b. value_new (Bool b) None) [False, False]))"
  using ring_buffer_history [of 2 "map (\<lambda>b. value_new (Bool b) None) [True, False, False]"]
  by (auto simp: last_n_def)

end
