(* ===== verification/RustStr.thy ===== *)
theory RustStr
  imports Prelude
begin

text \<open>
  Rust strings as the lists of their UTF-8 bytes, and the operations of \<open>str\<close> the code
  uses: prefix tests, splitting at an ASCII byte, trimming of Unicode white space, and the
  decimal printing of \<open>format!\<close>. A Rust string is always valid UTF-8; white space is
  recognised by its encoded bytes, which cannot occur inside another character.
\<close>

section \<open>Prefixes and splitting\<close>

definition starts_with :: "string \<Rightarrow> string \<Rightarrow> bool" where
  "starts_with p s = (take (length p) s = p)"

definition ends_with :: "string \<Rightarrow> string \<Rightarrow> bool" where
  "ends_with p s = (length p \<le> length s \<and> drop (length s - length p) s = p)"

definition strip_prefix :: "string \<Rightarrow> string \<Rightarrow> string option" where
  "strip_prefix p s = (if starts_with p s then Some (drop (length p) s) else None)"

lemma starts_with_append [simp]: "starts_with p (p @ s)"
  by (simp add: starts_with_def)

lemma strip_prefix_append [simp]: "strip_prefix p (p @ s) = Some s"
  by (simp add: strip_prefix_def)

lemma strip_prefix_Some: "strip_prefix p s = Some r \<longleftrightarrow> s = p @ r"
  by (auto simp: strip_prefix_def starts_with_def) (metis append_take_drop_id)

fun split_on :: "char \<Rightarrow> string \<Rightarrow> string list" where
  "split_on c [] = [[]]"
| "split_on c (x # xs) =
     (if x = c then [] # split_on c xs
      else (case split_on c xs of [] \<Rightarrow> [[x]] | y # ys \<Rightarrow> (x # y) # ys))"

lemma split_on_neq_Nil [simp]: "split_on c s \<noteq> []"
  by (cases s) (auto split: list.split)

lemma split_on_no_sep: "seg \<in> set (split_on c s) \<Longrightarrow> c \<notin> set seg"
  by (induction s arbitrary: seg) (auto split: list.splits if_splits)

lemma split_on_single: "c \<notin> set s \<Longrightarrow> split_on c s = [s]"
  by (induction s) auto

lemma split_on_append: "c \<notin> set s \<Longrightarrow> split_on c (s @ c # r) = s # split_on c r"
  by (induction s) (auto split: list.splits)

fun join_with :: "char \<Rightarrow> string list \<Rightarrow> string" where
  "join_with c [] = []"
| "join_with c [s] = s"
| "join_with c (s # ss) = s @ c # join_with c ss"

lemma join_split [simp]: "join_with c (split_on c s) = s"
proof (induction s)
  case (Cons x xs)
  obtain y ys where "split_on c xs = y # ys"
    by (metis split_on_neq_Nil neq_Nil_conv)
  with Cons show ?case by (cases ys) auto
qed simp

lemma split_join:
  "ss \<noteq> [] \<Longrightarrow> \<forall>s \<in> set ss. c \<notin> set s \<Longrightarrow> split_on c (join_with c ss) = ss"
  by (induction c ss rule: join_with.induct) (auto simp: split_on_single split_on_append)

section \<open>Trimming\<close>

abbreviation byte_of :: "char \<Rightarrow> nat" where
  "byte_of \<equiv> of_char"

definition ascii_space :: "nat \<Rightarrow> bool" where
  "ascii_space a = (9 \<le> a \<and> a \<le> 13 \<or> a = 32)"

definition space3 :: "nat \<Rightarrow> nat \<Rightarrow> nat \<Rightarrow> bool" where
  "space3 a b c =
     (a = 225 \<and> b = 154 \<and> c = 128 \<or>
      a = 226 \<and> b = 128 \<and> (128 \<le> c \<and> c \<le> 138 \<or> c = 168 \<or> c = 169 \<or> c = 175) \<or>
      a = 226 \<and> b = 129 \<and> c = 159 \<or>
      a = 227 \<and> b = 128 \<and> c = 128)"

definition space2 :: "nat \<Rightarrow> nat \<Rightarrow> bool" where
  "space2 a b = (a = 194 \<and> (b = 133 \<or> b = 160))"

text \<open>The number of bytes of the white space character a string begins with, 0 for none.\<close>

fun space_len :: "string \<Rightarrow> nat" where
  "space_len [] = 0"
| "space_len (a # s) =
     (if ascii_space (byte_of a) then 1
      else (case s of [] \<Rightarrow> 0 | b # s' \<Rightarrow>
        if space2 (byte_of a) (byte_of b) then 2
        else (case s' of [] \<Rightarrow> 0 | c # _ \<Rightarrow>
          if space3 (byte_of a) (byte_of b) (byte_of c) then 3 else 0)))"

text \<open>The same at the end of a string, given reversed.\<close>

fun rev_space_len :: "string \<Rightarrow> nat" where
  "rev_space_len [] = 0"
| "rev_space_len (a # s) =
     (if ascii_space (byte_of a) then 1
      else (case s of [] \<Rightarrow> 0 | b # s' \<Rightarrow>
        if space2 (byte_of b) (byte_of a) then 2
        else (case s' of [] \<Rightarrow> 0 | c # _ \<Rightarrow>
          if space3 (byte_of c) (byte_of b) (byte_of a) then 3 else 0)))"

function trim_start :: "string \<Rightarrow> string" where
  "trim_start s =
     (if s = [] \<or> space_len s = 0 then s else trim_start (drop (space_len s) s))"
  by pat_completeness auto
termination by (relation "measure length") auto

function trim_rev :: "string \<Rightarrow> string" where
  "trim_rev s =
     (if s = [] \<or> rev_space_len s = 0 then s else trim_rev (drop (rev_space_len s) s))"
  by pat_completeness auto
termination by (relation "measure length") auto

declare trim_start.simps [simp del] trim_rev.simps [simp del]

definition trim_end :: "string \<Rightarrow> string" where
  "trim_end s = rev (trim_rev (rev s))"

definition trim :: "string \<Rightarrow> string" where
  "trim s = trim_end (trim_start s)"

text \<open>Printable ASCII other than the space: what most names in practice are made of.\<close>

definition graphic :: "char \<Rightarrow> bool" where
  "graphic c = (33 \<le> byte_of c \<and> byte_of c \<le> (126::nat))"

lemma trim_start_graphic:
  assumes "\<forall>c \<in> set s. graphic c"
  shows "trim_start s = s"
proof -
  have "space_len s = 0"
    using assms
    by (cases s) (auto simp: graphic_def ascii_space_def space2_def space3_def split: list.split)
  then show ?thesis by (simp add: trim_start.simps [of s])
qed

lemma trim_rev_graphic:
  assumes "\<forall>c \<in> set s. graphic c"
  shows "trim_rev s = s"
proof -
  have "rev_space_len s = 0"
    using assms
    by (cases s) (auto simp: graphic_def ascii_space_def space2_def space3_def split: list.split)
  then show ?thesis by (simp add: trim_rev.simps [of s])
qed

lemma trim_graphic: "\<forall>c \<in> set s. graphic c \<Longrightarrow> trim s = s"
  by (simp add: trim_def trim_end_def trim_start_graphic trim_rev_graphic)

lemma set_trim_start: "set (trim_start s) \<subseteq> set s"
proof (induction s rule: trim_start.induct)
  case (1 s)
  then show ?case
    by (subst trim_start.simps) (auto dest: in_set_dropD)
qed

lemma set_trim_rev: "set (trim_rev s) \<subseteq> set s"
proof (induction s rule: trim_rev.induct)
  case (1 s)
  then show ?case
    by (subst trim_rev.simps) (auto dest: in_set_dropD)
qed

lemma set_trim: "set (trim s) \<subseteq> set s"
  using set_trim_start [of s] set_trim_rev [of "rev (trim_start s)"]
  by (auto simp: trim_def trim_end_def)

text \<open>A text between single quotes, as the error messages have it.\<close>

definition quote :: "string \<Rightarrow> string" where
  "quote s = CHR 0x27 # s @ [CHR 0x27]"

section \<open>Decimal printing\<close>

definition digit_char :: "nat \<Rightarrow> char" where
  "digit_char d = char_of (48 + d)"

fun dec_of_nat :: "nat \<Rightarrow> string" where
  "dec_of_nat n = (if n < 10 then [digit_char n] else dec_of_nat (n div 10) @ [digit_char (n mod 10)])"

declare dec_of_nat.simps [simp del]

definition dec_of_int :: "int \<Rightarrow> string" where
  "dec_of_int i = (if i < 0 then CHR ''-'' # dec_of_nat (nat (- i)) else dec_of_nat (nat i))"

text \<open>\<open>{:03}\<close>: padded with zeros to three characters.\<close>

definition dec_pad3 :: "nat \<Rightarrow> string" where
  "dec_pad3 n = (let d = dec_of_nat n in replicate (3 - length d) CHR ''0'' @ d)"

fun nat_of_dec :: "nat \<Rightarrow> string \<Rightarrow> nat" where
  "nat_of_dec acc [] = acc"
| "nat_of_dec acc (c # s) = nat_of_dec (10 * acc + (byte_of c - 48)) s"

lemma byte_of_digit_char [simp]: "d < 10 \<Longrightarrow> byte_of (digit_char d) = 48 + d"
  by (simp add: digit_char_def)

lemma nat_of_dec_append: "nat_of_dec acc (s @ t) = nat_of_dec (nat_of_dec acc s) t"
  by (induction acc s rule: nat_of_dec.induct) auto

lemma nat_of_dec_zeros: "nat_of_dec 0 (replicate n CHR ''0'' @ s) = nat_of_dec 0 s"
  by (induction n) auto

lemma nat_of_dec_of_nat [simp]: "nat_of_dec 0 (dec_of_nat n) = n"
proof (induction n rule: dec_of_nat.induct)
  case (1 n)
  show ?case
  proof (cases "n < 10")
    case True
    then show ?thesis by (subst dec_of_nat.simps) simp
  next
    case False
    with 1 show ?thesis by (subst dec_of_nat.simps) (simp add: nat_of_dec_append)
  qed
qed

lemma dec_pad3_inj: "dec_pad3 m = dec_pad3 n \<longleftrightarrow> m = n"
  by (metis dec_pad3_def nat_of_dec_of_nat nat_of_dec_zeros)

lemma dec_of_nat_digits: "c \<in> set (dec_of_nat n) \<Longrightarrow> 48 \<le> byte_of c \<and> byte_of c \<le> (57::nat)"
proof (induction n rule: dec_of_nat.induct)
  case (1 n)
  then show ?case
    by (subst (asm) dec_of_nat.simps) (auto split: if_splits)
qed

lemma dec_of_nat_neq_Nil [simp]: "dec_of_nat n \<noteq> []"
  by (subst dec_of_nat.simps) simp

end
