(* ===== verification/OdfObject.thy ===== *)
theory OdfObject
  imports OdfValue RustStr
begin

text \<open>
  \<open>src/odf/item.rs\<close> and \<open>src/odf/object.rs\<close>: InfoItems, Objects and their child maps.
  An \<open>Option<BTreeMap<..>>\<close> is an optional association list in key order. The mutable
  references the code hands out (\<open>get_item_mut\<close>, \<open>get_child_mut\<close>) are a lookup
  and the assignment through it (\<open>obj_set_item\<close>, \<open>obj_set_child\<close>).
\<close>

section \<open>InfoItems\<close>

record info_item =
  it_type :: "string option"
  it_desc :: "string option"
  it_meta :: "(string, omi_value) btree option"
  it_values :: ring_buffer

definition info_item_new :: "nat \<Rightarrow> info_item option" where
  "info_item_new capacity = do {
     values \<leftarrow> rb_new capacity;
     Some \<lparr>it_type = None, it_desc = None, it_meta = None, it_values = values\<rparr>
   }"

definition meta_get :: "info_item \<Rightarrow> string \<Rightarrow> omi_value option" where
  "meta_get item key = Option.bind (it_meta item) (\<lambda>m. map_of m key)"

definition is_writable :: "info_item \<Rightarrow> bool" where
  "is_writable item = (meta_get item ''writable'' = Some (Bool True))"

definition is_readable :: "info_item \<Rightarrow> bool" where
  "is_readable item = (meta_get item ''readable'' \<noteq> Some (Bool False))"

definition get_onread_script :: "info_item \<Rightarrow> string option" where
  "get_onread_script item =
     (case meta_get item ''onread'' of Some (Str s) \<Rightarrow> Some s | _ \<Rightarrow> None)"

definition add_value :: "omi_value \<Rightarrow> f64 option \<Rightarrow> info_item \<Rightarrow> info_item option" where
  "add_value v t item = do {
     values \<leftarrow> rb_push (value_new v t) (it_values item);
     Some (item\<lparr>it_values := values\<rparr>)
   }"

definition query_values ::
  "info_item \<Rightarrow> nat option \<Rightarrow> nat option \<Rightarrow> f64 option \<Rightarrow> f64 option \<Rightarrow> odf_value list option"
where
  "query_values item newest oldest begin_t end_t =
     rb_query (it_values item) newest oldest begin_t end_t"

definition item_ok :: "info_item \<Rightarrow> bool" where
  "item_ok item \<longleftrightarrow> rb_inv (it_values item) \<and>
     (case it_meta item of None \<Rightarrow> True | Some m \<Rightarrow> bt_ok m)"

text \<open>The history of an item, oldest first.\<close>

definition item_history :: "info_item \<Rightarrow> odf_value list" where
  "item_history item = rb_abs (it_values item)"

lemma info_item_new_ok [panic_free]: "0 < capacity \<Longrightarrow>
  \<exists>item. info_item_new capacity = Some item \<and> item_ok item \<and> item_history item = [] \<and>
    it_meta item = None \<and> rb_capacity (it_values item) = capacity"
  using rb_new_ok [of capacity]
  by (auto simp: info_item_new_def item_ok_def item_history_def)

lemma add_value_ok [panic_free]: "item_ok item \<Longrightarrow>
  \<exists>item'. add_value v t item = Some item' \<and> item_ok item' \<and>
    item_history item' = last_n (rb_capacity (it_values item)) (item_history item @ [value_new v t]) \<and>
    rb_capacity (it_values item') = rb_capacity (it_values item) \<and>
    it_meta item' = it_meta item"
  using rb_push_ok [of "it_values item" "value_new v t"]
  by (auto simp: add_value_def item_ok_def item_history_def)

lemma query_values_ok [panic_free]: "item_ok item \<Longrightarrow>
  query_values item n ol b e = Some (query_spec (item_history item) n ol b e)"
  by (simp add: query_values_def item_ok_def rb_query_abs item_history_def)

section \<open>Objects\<close>

datatype object = Object
  (obj_id: string) (obj_type: "string option") (obj_desc: "string option")
  (obj_items: "(string \<times> info_item) list option")
  (obj_objects: "(string \<times> object) list option")

type_synonym items = "(string, info_item) btree"
type_synonym objects = "(string, object) btree"

definition object_new :: "string \<Rightarrow> object" where
  "object_new oid = Object oid None None None None"

text \<open>\<open>get_or_insert_with(BTreeMap::new)\<close>, and the entries of an optional map.\<close>

abbreviation entries :: "('k \<times> 'v) list option \<Rightarrow> ('k \<times> 'v) list" where
  "entries om \<equiv> case_option [] id om"

fun with_items :: "items option \<Rightarrow> object \<Rightarrow> object" where
  "with_items its (Object i t d _ obs) = Object i t d its obs"

fun with_objects :: "objects option \<Rightarrow> object \<Rightarrow> object" where
  "with_objects obs (Object i t d its _) = Object i t d its obs"

definition get_item :: "object \<Rightarrow> string \<Rightarrow> info_item option" where
  "get_item obj name = Option.bind (obj_items obj) (\<lambda>m. map_of m name)"

definition get_child :: "object \<Rightarrow> string \<Rightarrow> object option" where
  "get_child obj oid = Option.bind (obj_objects obj) (\<lambda>m. map_of m oid)"

definition obj_set_item :: "string \<Rightarrow> info_item \<Rightarrow> object \<Rightarrow> object" where
  "obj_set_item name item obj = with_items (map_option (bt_update name item) (obj_items obj)) obj"

definition obj_set_child :: "string \<Rightarrow> object \<Rightarrow> object \<Rightarrow> object" where
  "obj_set_child oid child obj = with_objects (map_option (bt_update oid child) (obj_objects obj)) obj"

definition add_item :: "string \<Rightarrow> info_item \<Rightarrow> object \<Rightarrow> object" where
  "add_item name item obj = with_items (Some (bt_insert name item (entries (obj_items obj)))) obj"

definition add_child :: "object \<Rightarrow> object \<Rightarrow> object" where
  "add_child child obj =
     with_objects (Some (bt_insert (obj_id child) child (entries (obj_objects obj)))) obj"

definition remove_item :: "string \<Rightarrow> object \<Rightarrow> object \<times> info_item option" where
  "remove_item name obj =
     (case obj_items obj of
        None \<Rightarrow> (obj, None)
      | Some m \<Rightarrow>
          (let m' = bt_remove name m
           in (with_items (if m' = [] then None else Some m') obj, map_of m name)))"

definition remove_child :: "string \<Rightarrow> object \<Rightarrow> object \<times> object option" where
  "remove_child oid obj =
     (case obj_objects obj of
        None \<Rightarrow> (obj, None)
      | Some m \<Rightarrow>
          (let m' = bt_remove oid m
           in (with_objects (if m' = [] then None else Some m') obj, map_of m oid)))"

text \<open>\<open>merge_from\<close>: the second object is the one consumed. Its scalar attributes win
  when present, its items replace items of the same name, and its children are merged into
  children with the same map key.\<close>

function (sequential) merge_from :: "object \<Rightarrow> object \<Rightarrow> object"
  and merge_objects :: "objects \<Rightarrow> objects \<Rightarrow> objects"
where
  "merge_from self (Object oid oty ode oit oob) =
     Object (obj_id self)
       (if oty \<noteq> None then oty else obj_type self)
       (if ode \<noteq> None then ode else obj_desc self)
       (case oit of None \<Rightarrow> obj_items self
        | Some new \<Rightarrow> Some (bt_insert_all new (entries (obj_items self))))
       (case oob of None \<Rightarrow> obj_objects self
        | Some new \<Rightarrow> Some (merge_objects (entries (obj_objects self)) new))"
| "merge_objects m [] = m"
| "merge_objects m ((cid, child) # rest) =
     merge_objects
       (case map_of m cid of
          Some existing \<Rightarrow> bt_update cid (merge_from existing child) m
        | None \<Rightarrow> bt_insert cid child m) rest"
  by pat_completeness auto
termination
  by (relation "measure (case_sum (\<lambda>p. size (snd p)) (\<lambda>p. size_list (size_prod (\<lambda>_. 0) size) (snd p)))")
    (auto simp: )

declare merge_from.simps [simp del]

section \<open>Well-formedness\<close>

definition items_ok :: "items option \<Rightarrow> bool" where
  "items_ok its = (case its of None \<Rightarrow> True | Some m \<Rightarrow> bt_ok m \<and> (\<forall>e \<in> set m. item_ok (snd e)))"

fun obj_ok :: "object \<Rightarrow> bool" where
  "obj_ok (Object i t d its obs) =
     (items_ok its \<and>
      (case obs of None \<Rightarrow> True | Some m \<Rightarrow> bt_ok m \<and> (\<forall>e \<in> set m. obj_ok (snd e))))"

definition objs_ok :: "objects \<Rightarrow> bool" where
  "objs_ok m \<longleftrightarrow> bt_ok m \<and> (\<forall>e \<in> set m. obj_ok (snd e))"

lemma obj_ok_alt: "obj_ok obj \<longleftrightarrow> items_ok (obj_items obj) \<and> objs_ok (entries (obj_objects obj))"
  by (cases obj) (auto simp: objs_ok_def split: option.splits)

lemma objs_ok_Nil [simp]: "objs_ok []"
  by (simp add: objs_ok_def)

lemma objs_ok_lookup: "objs_ok m \<Longrightarrow> map_of m k = Some obj \<Longrightarrow> obj_ok obj"
  by (auto simp: objs_ok_def dest!: map_of_SomeD)

lemma objs_ok_insert [inv_intros]: "objs_ok m \<Longrightarrow> obj_ok obj \<Longrightarrow> objs_ok (bt_insert k obj m)"
  by (auto simp: objs_ok_def dest: set_bt_insert)

lemma objs_ok_update [inv_intros]: "objs_ok m \<Longrightarrow> obj_ok obj \<Longrightarrow> objs_ok (bt_update k obj m)"
  by (auto simp: objs_ok_def dest: set_bt_update)

lemma objs_ok_remove [inv_intros]: "objs_ok m \<Longrightarrow> objs_ok (bt_remove k m)"
  by (auto simp: objs_ok_def set_bt_remove)

lemma objs_ok_Cons: "objs_ok (e # m) \<Longrightarrow> obj_ok (snd e) \<and> objs_ok m \<and> map_of m (fst e) = None"
  by (auto simp: objs_ok_def bt_ok_def map_of_eq_None_iff)

lemma bt_ok_single [simp]: "bt_ok [e]"
  by (simp add: bt_ok_def)

lemma items_ok_insert [inv_intros]:
  "items_ok its \<Longrightarrow> item_ok item \<Longrightarrow> items_ok (Some (bt_insert k item (entries its)))"
  by (auto simp: items_ok_def split: option.splits dest: set_bt_insert)

lemma items_ok_insert_all:
  "items_ok its \<Longrightarrow> items_ok (Some new) \<Longrightarrow> items_ok (Some (bt_insert_all new (entries its)))"
  by (fastforce simp: items_ok_def split: option.splits dest: set_bt_insert_all)

text \<open>How the operations change the three parts of an object.\<close>

lemma with_items_sel [simp]:
  "obj_id (with_items its obj) = obj_id obj" "obj_items (with_items its obj) = its"
  "obj_objects (with_items its obj) = obj_objects obj"
  "obj_type (with_items its obj) = obj_type obj" "obj_desc (with_items its obj) = obj_desc obj"
  by (cases obj; simp)+

lemma with_objects_sel [simp]:
  "obj_id (with_objects obs obj) = obj_id obj" "obj_items (with_objects obs obj) = obj_items obj"
  "obj_objects (with_objects obs obj) = obs"
  "obj_type (with_objects obs obj) = obj_type obj" "obj_desc (with_objects obs obj) = obj_desc obj"
  by (cases obj; simp)+

lemma object_new_sel [simp]:
  "obj_id (object_new i) = i" "obj_items (object_new i) = None" "obj_objects (object_new i) = None"
  "obj_type (object_new i) = None" "obj_desc (object_new i) = None"
  by (simp_all add: object_new_def)

lemma get_item_alt: "get_item obj name = map_of (entries (obj_items obj)) name"
  by (simp add: get_item_def split: option.splits)

lemma get_child_alt: "get_child obj i = map_of (entries (obj_objects obj)) i"
  by (simp add: get_child_def split: option.splits)

lemma get_item_simps [simp]:
  "get_item (object_new i) n = None"
  "get_item (add_item k item obj) n = (if n = k then Some item else get_item obj n)"
  "get_item (add_child child obj) n = get_item obj n"
  "get_item (obj_set_child c child obj) n = get_item obj n"
  by (auto simp: get_item_def add_item_def add_child_def obj_set_child_def split: option.splits)

lemma get_item_set_item:
  "get_item (obj_set_item k item obj) n =
     (if n = k \<and> get_item obj k \<noteq> None then Some item else get_item obj n)"
  by (cases "obj_items obj") (auto simp: get_item_def obj_set_item_def map_of_bt_update split: option.splits)

lemma get_child_simps [simp]:
  "get_child (object_new i) n = None"
  "get_child (add_child child obj) n = (if n = obj_id child then Some child else get_child obj n)"
  "get_child (add_item k item obj) n = get_child obj n"
  "get_child (obj_set_item k item obj) n = get_child obj n"
  by (auto simp: get_child_def add_item_def add_child_def obj_set_item_def split: option.splits)

lemma get_child_set_child:
  "get_child (obj_set_child k child obj) n =
     (if n = k \<and> get_child obj k \<noteq> None then Some child else get_child obj n)"
  by (cases "obj_objects obj") (auto simp: get_child_def obj_set_child_def map_of_bt_update split: option.splits)

lemma obj_ok_item [dest]: "obj_ok obj \<Longrightarrow> get_item obj n = Some item \<Longrightarrow> item_ok item"
  by (auto simp: obj_ok_alt get_item_def items_ok_def split: option.splits bind_splits
      dest!: map_of_SomeD)

lemma obj_ok_child [dest]: "obj_ok obj \<Longrightarrow> get_child obj n = Some child \<Longrightarrow> obj_ok child"
  by (auto simp: obj_ok_alt get_child_alt dest: objs_ok_lookup)

lemma obj_ok_new [inv_intros, simp]: "obj_ok (object_new i)"
  by (simp add: object_new_def items_ok_def)

lemma obj_ok_add_item [inv_intros]: "obj_ok obj \<Longrightarrow> item_ok item \<Longrightarrow> obj_ok (add_item k item obj)"
  by (simp add: obj_ok_alt add_item_def items_ok_insert)

lemma obj_ok_add_child [inv_intros]: "obj_ok obj \<Longrightarrow> obj_ok child \<Longrightarrow> obj_ok (add_child child obj)"
  by (simp add: obj_ok_alt add_child_def objs_ok_insert)

lemma obj_ok_set_item [inv_intros]: "obj_ok obj \<Longrightarrow> item_ok item \<Longrightarrow> obj_ok (obj_set_item k item obj)"
  by (auto simp: obj_ok_alt obj_set_item_def items_ok_def split: option.splits dest: set_bt_update)

lemma obj_ok_set_child [inv_intros]: "obj_ok obj \<Longrightarrow> obj_ok child \<Longrightarrow> obj_ok (obj_set_child k child obj)"
  by (cases "obj_objects obj") (auto simp: obj_ok_alt obj_set_child_def objs_ok_update)

lemma remove_item_spec:
  "remove_item name obj = (obj', r) \<Longrightarrow>
     r = get_item obj name \<and> (\<forall>n. get_item obj' n = (if n = name then None else get_item obj n)) \<and>
     obj_objects obj' = obj_objects obj \<and> obj_id obj' = obj_id obj \<and> (obj_ok obj \<longrightarrow> obj_ok obj')"
proof (cases "obj_items obj")
  case None
  moreover assume "remove_item name obj = (obj', r)"
  ultimately show ?thesis by (auto simp: remove_item_def get_item_def)
next
  case (Some m)
  moreover assume "remove_item name obj = (obj', r)"
  ultimately have obj': "obj' = with_items (if bt_remove name m = [] then None else Some (bt_remove name m)) obj"
    and r: "r = map_of m name"
    by (auto simp: remove_item_def Let_def)
  have "get_item obj' n = map_of (bt_remove name m) n" for n
    by (simp add: obj' get_item_def del: map_of_bt_remove)
  moreover have "obj_ok obj \<longrightarrow> obj_ok obj'"
    using Some by (auto simp: obj' obj_ok_alt items_ok_def set_bt_remove)
  ultimately show ?thesis using Some r
    by (auto simp: get_item_def obj')
qed

lemma remove_child_spec:
  "remove_child i obj = (obj', r) \<Longrightarrow>
     r = get_child obj i \<and> (\<forall>n. get_child obj' n = (if n = i then None else get_child obj n)) \<and>
     obj_items obj' = obj_items obj \<and> obj_id obj' = obj_id obj \<and> (obj_ok obj \<longrightarrow> obj_ok obj')"
proof (cases "obj_objects obj")
  case None
  moreover assume "remove_child i obj = (obj', r)"
  ultimately show ?thesis by (auto simp: remove_child_def get_child_def)
next
  case (Some m)
  moreover assume "remove_child i obj = (obj', r)"
  ultimately have obj': "obj' = with_objects (if bt_remove i m = [] then None else Some (bt_remove i m)) obj"
    and r: "r = map_of m i"
    by (auto simp: remove_child_def Let_def)
  have "get_child obj' n = map_of (bt_remove i m) n" for n
    by (simp add: obj' get_child_def del: map_of_bt_remove)
  moreover have "obj_ok obj \<longrightarrow> obj_ok obj'"
    using Some by (auto simp: obj' obj_ok_alt objs_ok_remove)
  ultimately show ?thesis using Some r
    by (auto simp: get_child_def obj')
qed

section \<open>Merging\<close>

lemma merge_from_sel:
  "obj_id (merge_from a b) = obj_id a"
  "obj_items (merge_from a b) = (case obj_items b of None \<Rightarrow> obj_items a
     | Some new \<Rightarrow> Some (bt_insert_all new (entries (obj_items a))))"
  "obj_objects (merge_from a b) = (case obj_objects b of None \<Rightarrow> obj_objects a
     | Some new \<Rightarrow> Some (merge_objects (entries (obj_objects a)) new))"
  by (cases b; simp add: merge_from.simps)+

lemma map_of_merge_objects:
  "distinct (map fst new) \<Longrightarrow>
   map_of (merge_objects m new) k =
     (case map_of new k of
        None \<Rightarrow> map_of m k
      | Some c \<Rightarrow> Some (case map_of m k of Some e \<Rightarrow> merge_from e c | None \<Rightarrow> c))"
proof (induction new arbitrary: m)
  case (Cons e rest)
  obtain i c where e: "e = (i, c)" by force
  have "map_of rest i = None"
    using Cons.prems e by (simp add: map_of_eq_None_iff)
  with Cons e show ?case
    by (auto simp: map_of_bt_update split: option.splits)
qed simp

lemma merge_ok:
  "obj_ok a \<Longrightarrow> obj_ok b \<Longrightarrow> obj_ok (merge_from a b)"
  "objs_ok m \<Longrightarrow> \<forall>e \<in> set new. obj_ok (snd e) \<Longrightarrow> objs_ok (merge_objects m new)"
proof (induction a b and m new rule: merge_from_merge_objects.induct)
  case (1 self oid oty ode oit oob)
  have "items_ok (obj_items (merge_from self (Object oid oty ode oit oob)))"
    using 1 items_ok_insert_all [of "obj_items self"]
    by (auto simp: merge_from.simps obj_ok_alt split: option.split)
  moreover have "objs_ok (entries (obj_objects (merge_from self (Object oid oty ode oit oob))))"
    using 1 by (cases oob) (auto simp: merge_from.simps obj_ok_alt [of self])
  ultimately show ?case by (subst obj_ok_alt) simp
next
  case (3 m i child rest)
  show ?case
  proof (cases "map_of m i")
    case None
    with 3 show ?thesis by (simp add: objs_ok_insert)
  next
    case (Some existing)
    with 3 have "obj_ok (merge_from existing child)"
      by (auto intro: objs_ok_lookup)
    with 3 Some show ?thesis by (simp add: objs_ok_update)
  qed
qed simp

section \<open>The items and objects below an object\<close>

fun item_in :: "object \<Rightarrow> string list \<Rightarrow> info_item option" where
  "item_in obj [] = None"
| "item_in obj [name] = get_item obj name"
| "item_in obj (seg # segs) = Option.bind (get_child obj seg) (\<lambda>c. item_in c segs)"

fun obj_in :: "object \<Rightarrow> string list \<Rightarrow> object option" where
  "obj_in obj [] = Some obj"
| "obj_in obj (seg # segs) = Option.bind (get_child obj seg) (\<lambda>c. obj_in c segs)"

lemma item_in_child: "segs \<noteq> [] \<Longrightarrow>
  item_in obj (seg # segs) = Option.bind (get_child obj seg) (\<lambda>c. item_in c segs)"
  by (cases segs) auto

lemma item_in_new [simp]: "item_in (object_new i) p = None"
  by (cases "(object_new i, p)" rule: item_in.cases) auto

lemma item_in_ok: "obj_ok obj \<Longrightarrow> item_in obj p = Some item \<Longrightarrow> item_ok item"
  by (induction obj p rule: item_in.induct) (auto split: bind_splits)

lemma item_in_obj_in:
  "item_in obj (p @ [name]) = Option.bind (obj_in obj p) (\<lambda>ob. get_item ob name)"
proof (induction p arbitrary: obj)
  case (Cons seg p)
  then show ?case by (cases "get_child obj seg") (auto simp: item_in_child)
qed simp

text \<open>Merging an object overrides the items it brings and keeps all others.\<close>

lemma get_item_merge:
  assumes "obj_ok b"
  shows "get_item (merge_from a b) n = (case get_item b n of Some i \<Rightarrow> Some i | None \<Rightarrow> get_item a n)"
proof (cases "obj_items b")
  case (Some new)
  with assms have "bt_ok new" by (simp add: obj_ok_alt items_ok_def)
  with Some show ?thesis
    by (simp add: get_item_alt [of "merge_from a b"] get_item_alt [of b] get_item_alt [of a]
        merge_from_sel map_of_bt_insert_all split: option.split)
qed (simp add: get_item_def merge_from_sel)

lemma get_child_merge:
  assumes "obj_ok b"
  shows "get_child (merge_from a b) n =
    (case get_child b n of
       None \<Rightarrow> get_child a n
     | Some c \<Rightarrow> Some (case get_child a n of Some e \<Rightarrow> merge_from e c | None \<Rightarrow> c))"
proof (cases "obj_objects b")
  case (Some new)
  with assms have "objs_ok new" by (simp add: obj_ok_alt)
  then have "distinct (map fst new)" by (simp add: objs_ok_def bt_ok_distinct)
  with Some show ?thesis
    by (simp add: get_child_alt merge_from_sel map_of_merge_objects split: option.split)
qed (simp add: get_child_def merge_from_sel)

lemma item_in_merge:
  "obj_ok b \<Longrightarrow> item_in (merge_from a b) p = (case item_in b p of Some i \<Rightarrow> Some i | None \<Rightarrow> item_in a p)"
proof (induction b p arbitrary: a rule: item_in.induct)
  case (3 b seg n segs)
  show ?case
  proof (cases "get_child b seg")
    case None
    then show ?thesis by (simp add: get_child_merge [OF 3(2)])
  next
    case (Some c)
    with 3(2) have "obj_ok c" by auto
    with 3(1) Some show ?thesis
      by (cases "get_child a seg") (auto simp: get_child_merge [OF 3(2)] split: option.splits)
  qed
qed (simp_all add: get_item_merge split: option.split)

end
