(* ===== verification/OdfTree.thy ===== *)
theory OdfTree
  imports OdfObject
begin

text \<open>
  \<open>src/odf/tree.rs\<close>: the object tree and its path based operations. A mutable walk is
  a recursion that rebuilds the objects on the way back. \<open>resolve_mut\<close>, which hands
  out a reference into the tree, returns the target together with the function that puts a
  new target back. An operation returns the tree as it is left and the \<open>Result\<close>; the
  outer option is \<open>None\<close> when the code panics.
\<close>

section \<open>Paths\<close>

datatype tree_error = NotFound string | Forbidden string | InvalidPath string

definition parse_path :: "string \<Rightarrow> tree_error + string list" where
  "parse_path path =
     (if \<not> starts_with ''/'' path then Inl (InvalidPath (''Path must start with '' @ quote ''/''))
      else if path = ''/'' then Inr []
      else
        (let segments = map trim (split_on CHR ''/'' (drop 1 path))
         in case List.find (\<lambda>seg. seg = [] \<or> seg = ''..'') segments of
              None \<Rightarrow> Inr segments
            | Some seg \<Rightarrow>
                (if seg = []
                 then Inl (InvalidPath ''Empty segment (double slash or trailing slash)'')
                 else Inl (InvalidPath (quote ''..'' @ '' segments not allowed'')))))"

section \<open>The tree\<close>

record object_tree =
  tr_objects :: objects
  tr_default_capacity :: nat

definition tree_new :: object_tree where
  "tree_new = \<lparr>tr_objects = [], tr_default_capacity = 100\<rparr>"

definition tree_with_capacity :: "nat \<Rightarrow> object_tree" where
  "tree_with_capacity n = \<lparr>tr_objects = [], tr_default_capacity = n\<rparr>"

definition insert_root :: "object \<Rightarrow> object_tree \<Rightarrow> object_tree \<times> object option" where
  "insert_root obj tree =
     (tree\<lparr>tr_objects := bt_insert (obj_id obj) obj (tr_objects tree)\<rparr>,
      map_of (tr_objects tree) (obj_id obj))"

definition tree_is_empty :: "object_tree \<Rightarrow> bool" where
  "tree_is_empty tree = (tr_objects tree = [])"

definition root_contains :: "object_tree \<Rightarrow> string \<Rightarrow> bool" where
  "root_contains tree i = bt_contains (tr_objects tree) i"

fun collect_onread_from_object :: "object \<Rightarrow> string \<Rightarrow> (string \<times> string) list" where
  "collect_onread_from_object (Object i t d its obs) prefix =
     (case its of
        None \<Rightarrow> []
      | Some m \<Rightarrow> concat (map (\<lambda>(name, item).
          case get_onread_script item of
            Some script \<Rightarrow> [(prefix @ ''/'' @ name, script)]
          | None \<Rightarrow> []) m)) @
     (case obs of
        None \<Rightarrow> []
      | Some m \<Rightarrow> concat (map (\<lambda>e. collect_onread_from_object (snd e) (prefix @ ''/'' @ fst e)) m))"

definition collect_onread_scripts :: "object_tree \<Rightarrow> (string \<times> string) list" where
  "collect_onread_scripts tree =
     concat (map (\<lambda>(_, obj). collect_onread_from_object obj (''/'' @ obj_id obj)) (tr_objects tree))"

section \<open>Resolving a path\<close>

datatype path_target = PtRoot objects | PtObject object | PtInfoItem info_item

fun resolve_from_object :: "object \<Rightarrow> string list \<Rightarrow> tree_error + path_target" where
  "resolve_from_object obj [] = Inr (PtObject obj)"
| "resolve_from_object obj [name] =
     (case get_item obj name of
        Some item \<Rightarrow> Inr (PtInfoItem item)
      | None \<Rightarrow>
          (case get_child obj name of
             Some child \<Rightarrow> Inr (PtObject child)
           | None \<Rightarrow> Inl (NotFound (quote name @ '' not found in object '' @ quote (obj_id obj)))))"
| "resolve_from_object obj (name # segs) =
     (case get_child obj name of
        None \<Rightarrow> Inl (NotFound (''Object '' @ quote name @ '' not found in '' @ quote (obj_id obj)))
      | Some child \<Rightarrow> resolve_from_object child segs)"

definition resolve :: "object_tree \<Rightarrow> string \<Rightarrow> tree_error + path_target" where
  "resolve tree path =
     rbind (parse_path path) (\<lambda>segments.
       case segments of
         [] \<Rightarrow> Inr (PtRoot (tr_objects tree))
       | first # rest \<Rightarrow>
           rbind (ok_or (NotFound (''Object '' @ quote first @ '' not found''))
                    (map_of (tr_objects tree) first)) (\<lambda>obj.
             if rest = [] then Inr (PtObject obj) else resolve_from_object obj rest))"

text \<open>A mutable target is what the reference points at and the function that stores
  through it, giving the enclosing object or tree.\<close>

datatype 'w path_target_mut =
    PmRoot objects "objects \<Rightarrow> 'w"
  | PmObject object "object \<Rightarrow> 'w"
  | PmInfoItem info_item "info_item \<Rightarrow> 'w"

fun target_within :: "('w \<Rightarrow> 'x) \<Rightarrow> 'w path_target_mut \<Rightarrow> 'x path_target_mut" where
  "target_within f (PmRoot m put) = PmRoot m (f \<circ> put)"
| "target_within f (PmObject obj put) = PmObject obj (f \<circ> put)"
| "target_within f (PmInfoItem item put) = PmInfoItem item (f \<circ> put)"

fun resolve_from_object_mut :: "object \<Rightarrow> string list \<Rightarrow> (tree_error + object path_target_mut)" where
  "resolve_from_object_mut obj [] = Inr (PmObject obj id)"
| "resolve_from_object_mut obj [name] =
     (case get_item obj name of
        Some item \<Rightarrow> Inr (PmInfoItem item (\<lambda>item'. obj_set_item name item' obj))
      | None \<Rightarrow>
          (case get_child obj name of
             Some child \<Rightarrow> Inr (PmObject child (\<lambda>child'. obj_set_child name child' obj))
           | None \<Rightarrow> Inl (NotFound (quote name @ '' not found in object '' @ quote (obj_id obj)))))"
| "resolve_from_object_mut obj (name # segs) =
     (case get_child obj name of
        None \<Rightarrow> Inl (NotFound (''Object '' @ quote name @ '' not found in '' @ quote (obj_id obj)))
      | Some child \<Rightarrow>
          rbind (resolve_from_object_mut child segs)
            (\<lambda>t. Inr (target_within (\<lambda>child'. obj_set_child name child' obj) t)))"

definition set_root :: "object_tree \<Rightarrow> string \<Rightarrow> object \<Rightarrow> object_tree" where
  "set_root tree first obj = tree\<lparr>tr_objects := bt_update first obj (tr_objects tree)\<rparr>"

definition resolve_mut :: "object_tree \<Rightarrow> string \<Rightarrow> (tree_error + object_tree path_target_mut)" where
  "resolve_mut tree path =
     rbind (parse_path path) (\<lambda>segments.
       case segments of
         [] \<Rightarrow> Inr (PmRoot (tr_objects tree) (\<lambda>m. tree\<lparr>tr_objects := m\<rparr>))
       | first # rest \<Rightarrow>
           rbind (ok_or (NotFound (''Object '' @ quote first @ '' not found''))
                    (map_of (tr_objects tree) first)) (\<lambda>obj.
             if rest = [] then Inr (PmObject obj (set_root tree first))
             else rbind (resolve_from_object_mut obj rest)
                    (\<lambda>t. Inr (target_within (set_root tree first) t))))"

section \<open>Writing a value\<close>

text \<open>The walk below the first object: the remaining object segments are found or created,
  then the item. The result is the object rebuilt and the \<open>created\<close> flag.\<close>

fun write_walk ::
  "nat \<Rightarrow> string list \<Rightarrow> string \<Rightarrow> omi_value \<Rightarrow> f64 option \<Rightarrow> object \<Rightarrow> (object \<times> (tree_error + bool)) option"
where
  "write_walk cap [] name v t obj = do {
     let missing = (get_item obj name = None);
     obj \<leftarrow> (if missing then do { item \<leftarrow> info_item_new cap; Some (add_item name item obj) }
             else Some obj);
     case get_item obj name of
       None \<Rightarrow> Some (obj, Inl (NotFound (''Item '' @ quote name @ '' not found after insert'')))
     | Some item \<Rightarrow> do {
         item \<leftarrow> add_value v t item;
         Some (obj_set_item name item obj, Inr missing)
       }
   }"
| "write_walk cap (seg # segs) name v t obj = do {
     let missing = (get_child obj seg = None);
     let obj = (if missing then add_child (object_new seg) obj else obj);
     case get_child obj seg of
       None \<Rightarrow> Some (obj, Inl (NotFound (''Child '' @ quote seg @ '' not found after insert'')))
     | Some child \<Rightarrow> do {
         (child, r) \<leftarrow> write_walk cap segs name v t child;
         Some (obj_set_child seg child obj, rbind r (\<lambda>created. Inr (missing \<or> created)))
       }
   }"

definition write_value ::
  "string \<Rightarrow> omi_value \<Rightarrow> f64 option \<Rightarrow> object_tree \<Rightarrow> (object_tree \<times> (tree_error + bool)) option"
where
  "write_value path v t tree =
     (case parse_path path of
        Inl e \<Rightarrow> Some (tree, Inl e)
      | Inr [] \<Rightarrow> Some (tree, Inl (InvalidPath ''Cannot write a value to root''))
      | Inr [_] \<Rightarrow> Some (tree, Inl (InvalidPath
          ''Value path must have at least an object and an item (e.g. /Obj/Item)''))
      | Inr (first # rest) \<Rightarrow> do {
          let missing = (\<not> bt_contains (tr_objects tree) first);
          let objs = (if missing then bt_insert first (object_new first) (tr_objects tree)
                      else tr_objects tree);
          case map_of objs first of
            None \<Rightarrow> Some (tree\<lparr>tr_objects := objs\<rparr>,
                          Inl (NotFound (''Object '' @ quote first @ '' not found'')))
          | Some obj \<Rightarrow> do {
              (obj, r) \<leftarrow> write_walk (tr_default_capacity tree) (butlast rest) (last rest) v t obj;
              Some (tree\<lparr>tr_objects := bt_update first obj objs\<rparr>,
                    rbind r (\<lambda>created. Inr (missing \<or> created)))
            }
        })"

section \<open>Merging a tree\<close>

definition merge_child :: "object \<Rightarrow> object \<Rightarrow> object" where
  "merge_child obj current =
     (case get_child current (obj_id obj) of
        Some existing \<Rightarrow> obj_set_child (obj_id obj) (merge_from existing obj) current
      | None \<Rightarrow> add_child obj current)"

definition merge_root :: "object \<Rightarrow> objects \<Rightarrow> objects" where
  "merge_root obj objs =
     (case map_of objs (obj_id obj) of
        Some existing \<Rightarrow> bt_update (obj_id obj) (merge_from existing obj) objs
      | None \<Rightarrow> bt_insert (obj_id obj) obj objs)"

fun merge_walk :: "string list \<Rightarrow> objects \<Rightarrow> object \<Rightarrow> object \<times> (tree_error + unit)" where
  "merge_walk [] objects current = (fold (\<lambda>e. merge_child (snd e)) objects current, Inr ())"
| "merge_walk (seg # segs) objects current =
     (let current = (if get_child current seg = None then add_child (object_new seg) current
                     else current)
      in case get_child current seg of
           None \<Rightarrow> (current, Inl (NotFound (''Child '' @ quote seg @ '' not found after insert'')))
         | Some child \<Rightarrow>
             (case merge_walk segs objects child of
                (child, r) \<Rightarrow> (obj_set_child seg child current, r)))"

definition write_tree ::
  "string \<Rightarrow> objects \<Rightarrow> object_tree \<Rightarrow> object_tree \<times> (tree_error + unit)"
where
  "write_tree path objects tree =
     (case parse_path path of
        Inl e \<Rightarrow> (tree, Inl e)
      | Inr [] \<Rightarrow>
          (tree\<lparr>tr_objects := fold (\<lambda>e. merge_root (snd e)) objects (tr_objects tree)\<rparr>, Inr ())
      | Inr (first # rest) \<Rightarrow>
          (let objs = (if bt_contains (tr_objects tree) first then tr_objects tree
                       else bt_insert first (object_new first) (tr_objects tree))
           in case map_of objs first of
                None \<Rightarrow> (tree\<lparr>tr_objects := objs\<rparr>,
                         Inl (NotFound (''Object '' @ quote first @ '' not found'')))
              | Some obj \<Rightarrow>
                  (case merge_walk rest objects obj of
                     (obj, r) \<Rightarrow> (tree\<lparr>tr_objects := bt_update first obj objs\<rparr>, r))))"

section \<open>Deleting\<close>

definition delete_in :: "string \<Rightarrow> object \<Rightarrow> object \<times> (tree_error + unit)" where
  "delete_in name parent =
     (case remove_item name parent of
        (parent, Some _) \<Rightarrow> (parent, Inr ())
      | (parent, None) \<Rightarrow>
          (case remove_child name parent of
             (parent, Some _) \<Rightarrow> (parent, Inr ())
           | (parent, None) \<Rightarrow>
               (parent, Inl (NotFound (quote name @ '' not found in '' @ quote (obj_id parent))))))"

fun delete_walk :: "string list \<Rightarrow> string \<Rightarrow> object \<Rightarrow> object \<times> (tree_error + unit)" where
  "delete_walk [] name obj = delete_in name obj"
| "delete_walk (seg # segs) name obj =
     (case get_child obj seg of
        None \<Rightarrow> (obj, Inl (NotFound (''Object '' @ quote seg @ '' not found in '' @ quote (obj_id obj))))
      | Some child \<Rightarrow>
          (case delete_walk segs name child of
             (child, r) \<Rightarrow> (obj_set_child seg child obj, r)))"

definition tree_delete :: "string \<Rightarrow> object_tree \<Rightarrow> object_tree \<times> (tree_error + unit)" where
  "tree_delete path tree =
     (case parse_path path of
        Inl e \<Rightarrow> (tree, Inl e)
      | Inr [] \<Rightarrow> (tree, Inl (Forbidden ''Cannot delete root''))
      | Inr [name] \<Rightarrow>
          (case map_of (tr_objects tree) name of
             Some _ \<Rightarrow> (tree\<lparr>tr_objects := bt_remove name (tr_objects tree)\<rparr>, Inr ())
           | None \<Rightarrow> (tree, Inl (NotFound (quote name @ '' not found at root''))))
      | Inr (first # rest) \<Rightarrow>
          (case map_of (tr_objects tree) first of
             None \<Rightarrow> (tree, Inl (NotFound (''Object '' @ quote first @ '' not found'')))
           | Some obj \<Rightarrow>
               (case delete_walk (butlast rest) (last rest) obj of
                  (obj, r) \<Rightarrow> (set_root tree first obj, r))))"

end
