(* ===== verification/OdfTreeSpec.thy ===== *)
theory OdfTreeSpec
  imports OdfTree "HOL-Library.Sublist"
begin

text \<open>
  What the object tree promises. The abstract value of a tree is two partial functions on
  lists of path segments: the InfoItems (\<open>item_at\<close>) and the attributes of the Objects
  (\<open>shape_at\<close>). The operations of \<open>tree.rs\<close> are shown to be the obvious updates
  of those functions, on well-formed trees (\<open>tree_ok\<close>), which they keep.
\<close>

section \<open>Abstract value and invariant\<close>

fun item_at :: "objects \<Rightarrow> string list \<Rightarrow> info_item option" where
  "item_at m [] = None"
| "item_at m (seg # p) = Option.bind (map_of m seg) (\<lambda>ob. item_in ob p)"

fun object_at :: "objects \<Rightarrow> string list \<Rightarrow> object option" where
  "object_at m [] = None"
| "object_at m (seg # p) = Option.bind (map_of m seg) (\<lambda>ob. obj_in ob p)"

definition obj_attrs :: "object \<Rightarrow> string \<times> string option \<times> string option" where
  "obj_attrs ob = (obj_id ob, obj_type ob, obj_desc ob)"

definition shape_in :: "object \<Rightarrow> string list \<Rightarrow> (string \<times> string option \<times> string option) option" where
  "shape_in ob p = map_option obj_attrs (obj_in ob p)"

definition shape_at :: "objects \<Rightarrow> string list \<Rightarrow> (string \<times> string option \<times> string option) option" where
  "shape_at m p = map_option obj_attrs (object_at m p)"

definition tree_ok :: "object_tree \<Rightarrow> bool" where
  "tree_ok tree \<longleftrightarrow> objs_ok (tr_objects tree) \<and> 0 < tr_default_capacity tree"

lemma tree_new_ok [inv_intros]: "tree_ok tree_new"
  by (simp add: tree_ok_def tree_new_def)

text \<open>An item after one value is written to it: the item found or a new one, with the
  value pushed.\<close>

definition written :: "nat \<Rightarrow> omi_value \<Rightarrow> f64 option \<Rightarrow> info_item option \<Rightarrow> info_item option" where
  "written cap v t old = do {
     item \<leftarrow> (case old of Some item \<Rightarrow> Some item | None \<Rightarrow> info_item_new cap);
     add_value v t item
   }"

definition written_history ::
  "nat \<Rightarrow> odf_value \<Rightarrow> info_item option \<Rightarrow> odf_value list" where
  "written_history cap x old =
     (case old of
        None \<Rightarrow> [x]
      | Some item \<Rightarrow> last_n (rb_capacity (it_values item)) (item_history item @ [x]))"

lemma written_ok:
  assumes "0 < cap" "\<And>item. old = Some item \<Longrightarrow> item_ok item"
  obtains item' where "written cap v t old = Some item'" "item_ok item'"
    "item_history item' = written_history cap (value_new v t) old"
    "it_meta item' = Option.bind old it_meta"
proof (cases old)
  case None
  obtain item where item: "info_item_new cap = Some item" "item_ok item" "item_history item = []"
      "it_meta item = None" "rb_capacity (it_values item) = cap"
    using info_item_new_ok [OF assms(1)] by blast
  obtain item' where "add_value v t item = Some item'" "item_ok item'"
      "item_history item' = [value_new v t]" "it_meta item' = None"
    using add_value_ok [OF item(2), of v t] item assms(1) by (auto simp: last_n_def Suc_leI)
  with item None that show ?thesis by (simp add: written_def written_history_def)
next
  case (Some item)
  then obtain item' where "add_value v t item = Some item'" "item_ok item'"
      "item_history item' = last_n (rb_capacity (it_values item)) (item_history item @ [value_new v t])"
      "it_meta item' = it_meta item"
    using add_value_ok [OF assms(2) [OF Some], of v t] by blast
  with Some that show ?thesis by (simp add: written_def written_history_def)
qed

section \<open>How a changed child changes the abstract value\<close>

lemma item_in_set_child:
  assumes "get_child ob seg \<noteq> None"
  shows "item_in (obj_set_child seg child ob) p =
    (if p \<noteq> [] \<and> hd p = seg \<and> tl p \<noteq> [] then item_in child (tl p) else item_in ob p)"
  using assms
  by (cases "(ob, p)" rule: item_in.cases)
    (auto simp: get_child_set_child)

lemma obj_in_set_child:
  assumes "get_child ob seg \<noteq> None"
  shows "obj_in (obj_set_child seg child ob) p =
    (if p = [] then Some (obj_set_child seg child ob)
     else if hd p = seg then obj_in child (tl p) else obj_in ob p)"
  using assms by (cases p) (auto simp: get_child_set_child)

lemma obj_attrs_simps [simp]:
  "obj_attrs (obj_set_child c child ob) = obj_attrs ob"
  "obj_attrs (obj_set_item c item ob) = obj_attrs ob"
  "obj_attrs (add_item c item ob) = obj_attrs ob"
  "obj_attrs (add_child child ob) = obj_attrs ob"
  "obj_attrs (object_new i) = (i, None, None)"
  by (simp_all add: obj_attrs_def obj_set_child_def obj_set_item_def add_item_def add_child_def)

lemma shape_in_set_child:
  assumes "get_child ob seg \<noteq> None"
  shows "shape_in (obj_set_child seg child ob) p =
    (if p \<noteq> [] \<and> hd p = seg then shape_in child (tl p) else shape_in ob p)"
  using assms by (cases p) (auto simp: shape_in_def get_child_set_child)

lemma item_in_add_new:
  assumes "get_child ob seg = None"
  shows "item_in (add_child (object_new seg) ob) p = item_in ob p"
  using assms by (cases "(ob, p)" rule: item_in.cases) auto

lemma obj_in_new: "obj_in (object_new seg) p = (if p = [] then Some (object_new seg) else None)"
  by (cases p) auto

lemma shape_in_Nil [simp]: "shape_in ob [] = Some (obj_attrs ob)"
  by (simp add: shape_in_def)

lemma shape_in_Cons: "shape_in ob (seg # p) = Option.bind (get_child ob seg) (\<lambda>c. shape_in c p)"
  by (cases "get_child ob seg") (auto simp: shape_in_def)

lemma shape_in_new: "shape_in (object_new seg) p = (if p = [] then Some (seg, None, None) else None)"
  by (simp add: shape_in_def obj_in_new)

lemma shape_at_Cons: "shape_at m (seg # p) = Option.bind (map_of m seg) (\<lambda>c. shape_in c p)"
  by (cases "map_of m seg") (auto simp: shape_at_def shape_in_def)

lemma obj_set_item_same:
  assumes "obj_ok ob" "get_item ob k = Some item"
  shows "obj_set_item k item ob = ob"
proof (cases ob)
  case (Object i t d its obs)
  with assms obtain m where m: "its = Some m" "bt_ok m" "map_of m k = Some item"
    by (cases its) (auto simp: get_item_def items_ok_def)
  have "bt_update k item m = m"
    by (rule bt_ok_eqI) (use m in \<open>auto simp: map_of_bt_update\<close>)
  with Object m show ?thesis by (simp add: obj_set_item_def)
qed

lemma bt_update_same: "bt_ok m \<Longrightarrow> map_of m k = Some v \<Longrightarrow> bt_update k v m = m"
  by (rule bt_ok_eqI) (auto simp: map_of_bt_update)

lemma obj_set_child_same:
  assumes "obj_ok ob" "get_child ob k = Some c"
  shows "obj_set_child k c ob = ob"
proof (cases ob)
  case (Object i t d its obs)
  with assms obtain m where m: "obs = Some m" "bt_ok m" "map_of m k = Some c"
    by (cases obs) (auto simp: get_child_def)
  with Object show ?thesis by (simp add: obj_set_child_def bt_update_same)
qed

lemma item_at_update:
  "map_of m k \<noteq> None \<Longrightarrow> item_at (bt_update k ob m) p =
     (if p \<noteq> [] \<and> hd p = k then item_in ob (tl p) else item_at m p)"
  by (cases p) (auto simp: map_of_bt_update)

lemma shape_at_update:
  "map_of m k \<noteq> None \<Longrightarrow> shape_at (bt_update k ob m) p =
     (if p \<noteq> [] \<and> hd p = k then shape_in ob (tl p) else shape_at m p)"
  by (cases p) (auto simp: map_of_bt_update shape_at_Cons shape_at_def shape_in_def)

lemma item_at_insert:
  "item_at (bt_insert k ob m) p =
     (if p \<noteq> [] \<and> hd p = k then item_in ob (tl p) else item_at m p)"
  by (cases p) auto

lemma shape_at_insert:
  "shape_at (bt_insert k ob m) p =
     (if p \<noteq> [] \<and> hd p = k then shape_in ob (tl p) else shape_at m p)"
  by (cases p) (auto simp: shape_at_Cons shape_at_def shape_in_def)

lemma item_at_ok: "objs_ok m \<Longrightarrow> item_at m p = Some item \<Longrightarrow> item_ok item"
  by (cases p) (auto split: bind_splits intro: item_in_ok objs_ok_lookup)

section \<open>Paths\<close>

lemma parse_path_segs:
  assumes "parse_path path = Inr segs" "seg \<in> set segs"
  shows "seg \<noteq> [] \<and> seg \<noteq> ''..'' \<and> CHR ''/'' \<notin> set seg"
proof -
  from assms have segs: "segs = map trim (split_on CHR ''/'' (drop 1 path))"
    and f: "List.find (\<lambda>seg. seg = [] \<or> seg = ''..'') segs = None"
    by (auto simp: parse_path_def Let_def split: if_splits option.splits)
  from assms(2) obtain s where "seg = trim s" "s \<in> set (split_on CHR ''/'' (drop 1 path))"
    by (auto simp: segs)
  then have "CHR ''/'' \<notin> set seg"
    using set_trim [of s] split_on_no_sep by fast
  with f assms(2) show ?thesis by (auto simp: find_None_iff)
qed

text \<open>A segment that can be addressed: printable, not empty, not \<open>..\<close>, no slash.\<close>

definition plain_segment :: "string \<Rightarrow> bool" where
  "plain_segment s \<longleftrightarrow> s \<noteq> [] \<and> s \<noteq> ''..'' \<and> CHR ''/'' \<notin> set s \<and> (\<forall>c \<in> set s. graphic c)"

definition path_of :: "string list \<Rightarrow> string" where
  "path_of segs = ''/'' @ join_with CHR ''/'' segs"

lemma parse_path_of:
  assumes "\<forall>s \<in> set segs. plain_segment s"
  shows "parse_path (path_of segs) = Inr segs"
proof (cases "segs = []")
  case True
  then show ?thesis by (simp add: path_of_def parse_path_def starts_with_def)
next
  case False
  have "join_with CHR ''/'' segs \<noteq> []"
    using False assms by (cases segs; cases "tl segs") (auto simp: plain_segment_def)
  moreover have "split_on CHR ''/'' (join_with CHR ''/'' segs) = segs"
    using False assms by (intro split_join) (auto simp: plain_segment_def)
  moreover have "map trim segs = segs"
    using assms by (intro map_idI) (auto simp: plain_segment_def trim_graphic)
  moreover have "List.find (\<lambda>seg. seg = [] \<or> seg = ''..'') segs = None"
    using assms by (auto simp: find_None_iff plain_segment_def)
  ultimately show ?thesis
    by (simp add: path_of_def parse_path_def starts_with_def)
qed

section \<open>Writing a value\<close>

lemma write_walk_spec:
  assumes "obj_ok ob" "0 < cap"
  shows "\<exists>ob'. write_walk cap segs name v t ob =
           Some (ob', Inr (item_in ob (segs @ [name]) = None)) \<and> obj_ok ob' \<and>
         (\<forall>p. item_in ob' p = (if p = segs @ [name] then written cap v t (item_in ob p)
                               else item_in ob p)) \<and>
         (\<forall>p. shape_in ob' p = (case shape_in ob p of Some a \<Rightarrow> Some a | None \<Rightarrow>
                if prefix p segs then Some (last p, None, None) else None))"
  using assms(1)
proof (induction segs arbitrary: ob)
  case Nil
  obtain item' where w: "written cap v t (get_item ob name) = Some item'" "item_ok item'"
    using written_ok [of cap "get_item ob name" v t] Nil assms(2) by blast
  have shapes: "shape_in (obj_set_item name i ob') p = shape_in ob' p"
      "shape_in (add_item name i ob') p = shape_in ob' p" for i p ob'
    by (cases p; simp add: shape_in_Cons)+
  have items: "item_in (obj_set_item name i ob') p =
      (if p = [name] \<and> get_item ob' name \<noteq> None then Some i else item_in ob' p)"
      "item_in (add_item name i ob') p = (if p = [name] then Some i else item_in ob' p)" for i p ob'
    by (cases "(ob', p)" rule: item_in.cases; auto simp: get_item_set_item)+
  show ?case
  proof (cases "get_item ob name")
    case None
    then obtain item where item: "info_item_new cap = Some item" "add_value v t item = Some item'"
      using w(1) by (auto simp: written_def split: bind_splits)
    have "item_ok item" using info_item_new_ok [OF assms(2)] item(1) by auto
    with None item w Nil show ?thesis
      by (auto simp: written_def shapes items split: option.split
          intro!: obj_ok_set_item obj_ok_add_item)
  next
    case (Some item)
    then have "add_value v t item = Some item'"
      using w(1) by (auto simp: written_def)
    with Some w Nil show ?thesis
      by (auto simp: written_def shapes items split: option.split intro!: obj_ok_set_item)
  qed
next
  case (Cons seg segs)
  define missing where "missing \<longleftrightarrow> get_child ob seg = None"
  define ob1 where "ob1 = (if missing then add_child (object_new seg) ob else ob)"
  have ok1: "obj_ok ob1" using Cons.prems by (simp add: ob1_def obj_ok_add_child)
  obtain child where child: "get_child ob1 seg = Some child"
      "get_child ob seg = Some child \<or> missing \<and> child = object_new seg"
    by (cases "get_child ob seg") (auto simp: ob1_def missing_def)
  have items1: "item_in ob1 p = item_in ob p" for p
    by (simp add: ob1_def missing_def item_in_add_new)
  have shape1: "shape_in ob1 p = (case shape_in ob p of Some a \<Rightarrow> Some a | None \<Rightarrow>
                if p = [seg] then Some (seg, None, None) else None)" for p
    by (cases p) (auto simp: ob1_def missing_def shape_in_Cons shape_in_new split: option.split)
  obtain child' where child': "write_walk cap segs name v t child =
           Some (child', Inr (item_in child (segs @ [name]) = None))" "obj_ok child'"
         "\<And>p. item_in child' p = (if p = segs @ [name] then written cap v t (item_in child p)
                               else item_in child p)"
         "\<And>p. shape_in child' p = (case shape_in child p of Some a \<Rightarrow> Some a | None \<Rightarrow>
                if prefix p segs then Some (last p, None, None) else None)"
    using Cons.IH [of child] obj_ok_child [OF ok1 child(1)] by blast
  have below: "item_in ob (seg # p) = item_in child p" if "p \<noteq> []" for p
    using child items1 [of "seg # p"] that by (simp add: item_in_child)
  have flag: "(missing \<or> item_in child (segs @ [name]) = None) = (item_in ob (seg # segs @ [name]) = None)"
    using below [of "segs @ [name]"] child(2) by (auto simp: missing_def)
  have "write_walk cap (seg # segs) name v t ob =
      Some (obj_set_child seg child' ob1, Inr (item_in ob (seg # segs @ [name]) = None))"
    using child child'(1) flag by (simp add: missing_def [symmetric] ob1_def [symmetric] Let_def)
  moreover have "item_in (obj_set_child seg child' ob1) p =
      (if p = (seg # segs) @ [name] then written cap v t (item_in ob p) else item_in ob p)" for p
    using child(1) below [of "tl p"] items1 [of p]
    by (cases p) (auto simp: item_in_set_child child'(3))
  moreover have "shape_in (obj_set_child seg child' ob1) p =
      (case shape_in ob p of Some a \<Rightarrow> Some a | None \<Rightarrow>
         if prefix p (seg # segs) then Some (last p, None, None) else None)" for p
  proof (cases "p \<noteq> [] \<and> hd p = seg")
    case True
    then obtain q where q: "p = seg # q" by (cases p) auto
    have s: "shape_in ob1 p = shape_in child q" using child(1) by (simp add: q shape_in_Cons)
    show ?thesis
      using child(1) shape1 [of p, unfolded s]
      by (auto simp: shape_in_set_child q child'(4) split: option.splits if_splits)
  next
    case False
    then show ?thesis using child(1) shape1 [of p]
      by (cases p) (auto simp: shape_in_set_child split: option.splits)
  qed
  moreover have "obj_ok (obj_set_child seg child' ob1)"
    using ok1 child'(2) by (rule obj_ok_set_child)
  ultimately show ?case by auto
qed

lemma write_value_walk:
  assumes "parse_path path = Inr (first # segs @ [name])"
    "objs = (if bt_contains (tr_objects tree) first then tr_objects tree
             else bt_insert first (object_new first) (tr_objects tree))"
    "map_of objs first = Some ob"
    "write_walk (tr_default_capacity tree) segs name v t ob = Some (ob', Inr created)"
  shows "write_value path v t tree =
     Some (tree\<lparr>tr_objects := bt_update first ob' objs\<rparr>,
           Inr (\<not> bt_contains (tr_objects tree) first \<or> created))"
proof -
  obtain x xs where x: "segs @ [name] = x # xs" by (cases segs) auto
  have "butlast (x # xs) = segs" "last (x # xs) = name"
    using x [symmetric] by simp_all
  with assms(2-4) show ?thesis
    unfolding write_value_def assms(1) x
    by (cases "bt_contains (tr_objects tree) first")
      (simp_all del: butlast.simps last.simps bt_contains_iff)
qed

text \<open>The same for the tree. \<open>target\<close> is the parsed path, an object and an item at least.\<close>

lemma write_value_refines:
  assumes ok: "tree_ok tree" and path: "parse_path path = Inr (first # segs @ [name])"
  defines "target \<equiv> first # segs @ [name]"
  shows "\<exists>tree'. write_value path v t tree =
           Some (tree', Inr (item_at (tr_objects tree) target = None)) \<and> tree_ok tree' \<and>
         item_at (tr_objects tree') =
           (item_at (tr_objects tree))
             (target := written (tr_default_capacity tree) v t (item_at (tr_objects tree) target)) \<and>
         shape_at (tr_objects tree') =
           (\<lambda>p. case shape_at (tr_objects tree) p of Some a \<Rightarrow> Some a | None \<Rightarrow>
                if p \<noteq> [] \<and> prefix p (first # segs) then Some (last p, None, None) else None)"
proof -
  define m where "m = tr_objects tree"
  define cap where "cap = tr_default_capacity tree"
  define missing where "missing \<longleftrightarrow> map_of m first = None"
  define m1 where "m1 = (if missing then bt_insert first (object_new first) m else m)"
  have ok0: "objs_ok m" "0 < cap" using ok by (auto simp: tree_ok_def m_def cap_def)
  then have ok1: "objs_ok m1" by (simp add: m1_def objs_ok_insert)
  obtain ob where ob: "map_of m1 first = Some ob"
      "map_of m first = Some ob \<or> missing \<and> ob = object_new first"
    by (cases "map_of m first") (auto simp: m1_def missing_def)
  have ob_ok: "obj_ok ob" using ok1 ob(1) by (rule objs_ok_lookup)
  have items1: "item_at m1 p = item_at m p" for p
    by (cases p) (auto simp: m1_def missing_def)
  have shape1: "shape_at m1 p = (case shape_at m p of Some a \<Rightarrow> Some a | None \<Rightarrow>
      if p = [first] then Some (first, None, None) else None)" for p
    by (cases p) (auto simp: m1_def missing_def shape_at_Cons shape_in_new shape_at_def
        obj_in_new split: option.split)
  obtain ob' where ob': "write_walk cap segs name v t ob =
           Some (ob', Inr (item_in ob (segs @ [name]) = None))" "obj_ok ob'"
         "\<And>p. item_in ob' p = (if p = segs @ [name] then written cap v t (item_in ob p)
                               else item_in ob p)"
         "\<And>p. shape_in ob' p = (case shape_in ob p of Some a \<Rightarrow> Some a | None \<Rightarrow>
                if prefix p segs then Some (last p, None, None) else None)"
    using write_walk_spec [OF ob_ok ok0(2)] by blast
  define tree' where "tree' = tree\<lparr>tr_objects := bt_update first ob' m1\<rparr>"
  have below: "item_at m (first # p) = item_in ob p" for p
    using ob items1 [of "first # p"] by simp
  have flag: "(missing \<or> item_in ob (segs @ [name]) = None) = (item_at m target = None)"
    using below [of "segs @ [name]"] ob(2) by (auto simp: missing_def target_def)
  have "write_value path v t tree = Some (tree', Inr (item_at m target = None))"
    using write_value_walk [OF path, of m1 tree ob v t ob' "item_in ob (segs @ [name]) = None"] ob(1) ob'(1) flag
    by (auto simp: m1_def missing_def m_def cap_def tree'_def domIff)
  moreover have "tree_ok tree'"
    using ok ok1 ob'(2) by (simp add: tree_ok_def tree'_def objs_ok_update)
  moreover have "item_at (tr_objects tree') p =
      ((item_at m) (target := written cap v t (item_at m target))) p" for p
    using ob(1) below [of "tl p"] items1 [of p] below [of "segs @ [name]"]
    by (cases p) (auto simp: tree'_def map_of_bt_update ob'(3) target_def)
  moreover have "shape_at (tr_objects tree') p =
      (case shape_at m p of Some a \<Rightarrow> Some a | None \<Rightarrow>
         if p \<noteq> [] \<and> prefix p (first # segs) then Some (last p, None, None) else None)" for p
  proof (cases "p \<noteq> [] \<and> hd p = first")
    case True
    then obtain q where q: "p = first # q" by (cases p) auto
    have s: "shape_at m1 p = shape_in ob q" using ob(1) by (simp add: q shape_at_Cons)
    show ?thesis
      using ob(1) shape1 [of p, unfolded s]
      by (auto simp: tree'_def shape_at_update q ob'(4) split: option.splits if_splits)
  next
    case False
    then show ?thesis using ob(1) shape1 [of p]
      by (cases p) (auto simp: tree'_def shape_at_Cons map_of_bt_update shape_at_def [of _ "[]"]
          split: option.splits)
  qed
  ultimately show ?thesis
    unfolding m_def [symmetric] cap_def [symmetric] by (intro exI [of _ tree']) (simp add: fun_eq_iff)
qed

text \<open>A write whose path does not name an item below an object changes nothing.\<close>

lemma write_value_bad_path:
  "(\<forall>first segs name. parse_path path \<noteq> Inr (first # segs @ [name])) \<Longrightarrow>
   \<exists>e. write_value path v t tree = Some (tree, Inl e)"
proof (cases "parse_path path")
  case (Inr segs)
  assume a: "\<forall>first segs name. parse_path path \<noteq> Inr (first # segs @ [name])"
  have "segs = [] \<or> (\<exists>x. segs = [x])"
    using a Inr by (metis append_butlast_last_id neq_Nil_conv)
  then show ?thesis using Inr by (auto simp: write_value_def)
qed (simp add: write_value_def)

section \<open>Deleting\<close>

text \<open>What a deletion removes: the item at the target when there is one (\<open>hit\<close>), and
  only it; otherwise everything at and below the target.\<close>

definition gone_item :: "bool \<Rightarrow> string list \<Rightarrow> string list \<Rightarrow> bool" where
  "gone_item hit target p = (if hit then p = target else prefix target p)"

definition gone_shape :: "bool \<Rightarrow> string list \<Rightarrow> string list \<Rightarrow> bool" where
  "gone_shape hit target p = (\<not> hit \<and> prefix target p)"

lemma gone_Cons:
  "gone_item hit (seg # target) p \<longleftrightarrow> p \<noteq> [] \<and> hd p = seg \<and> gone_item hit target (tl p)"
  "gone_shape hit (seg # target) p \<longleftrightarrow> p \<noteq> [] \<and> hd p = seg \<and> gone_shape hit target (tl p)"
  by (cases p; auto simp: gone_item_def gone_shape_def)+

lemma gone_Nil [simp]: "\<not> gone_item hit (segs @ [name]) []" "\<not> gone_shape hit (segs @ [name]) []"
  by (auto simp: gone_item_def gone_shape_def)

lemma remove_item_attrs: "remove_item name ob = (ob', r) \<Longrightarrow> obj_attrs ob' = obj_attrs ob"
  by (auto simp: remove_item_def obj_attrs_def Let_def split: option.splits)

lemma remove_child_attrs: "remove_child name ob = (ob', r) \<Longrightarrow> obj_attrs ob' = obj_attrs ob"
  by (auto simp: remove_child_def obj_attrs_def Let_def split: option.splits)

lemma delete_walk_spec:
  assumes "obj_ok ob" "delete_walk segs name ob = (ob', r)"
  shows "obj_ok ob' \<and>
    (is_ok r \<longleftrightarrow> item_in ob (segs @ [name]) \<noteq> None \<or> shape_in ob (segs @ [name]) \<noteq> None) \<and>
    (\<forall>p. item_in ob' p = (if gone_item (item_in ob (segs @ [name]) \<noteq> None) (segs @ [name]) p
                           then None else item_in ob p)) \<and>
    (\<forall>p. shape_in ob' p = (if gone_shape (item_in ob (segs @ [name]) \<noteq> None) (segs @ [name]) p
                            then None else shape_in ob p))"
  using assms
proof (induction segs arbitrary: ob ob' r)
  case Nil
  obtain ob1 ri where r1: "remove_item name ob = (ob1, ri)" by force
  note s1 = remove_item_spec [OF r1]
  have child1: "get_child ob1 n = get_child ob n" for n
    using s1 by (simp add: get_child_def)
  have attrs1: "obj_attrs ob1 = obj_attrs ob" using r1 by (rule remove_item_attrs)
  have shape1: "shape_in ob1 p = shape_in ob p" for p
    by (cases p) (auto simp: shape_in_Cons child1 attrs1)
  have items1: "item_in ob1 p = (if p = [name] then None else item_in ob p)" for p
    using s1 by (cases "(ob1, p)" rule: item_in.cases) (auto simp: child1)
  show ?case
  proof (cases "get_item ob name")
    case (Some item)
    then have "ob' = ob1" "r = Inr ()" using Nil r1 s1 by (auto simp: delete_in_def)
    with Some Nil s1 show ?thesis by (auto simp: items1 shape1 gone_item_def gone_shape_def)
  next
    case None
    obtain ob2 rc where r2: "remove_child name ob1 = (ob2, rc)" by force
    note s2 = remove_child_spec [OF r2]
    have ob': "ob' = ob2" and r: "is_ok r \<longleftrightarrow> get_child ob name \<noteq> None"
      using None Nil r1 r2 s1 s2 by (auto simp: delete_in_def child1 split: option.splits)
    have attrs2: "obj_attrs ob2 = obj_attrs ob" using remove_child_attrs [OF r2] attrs1 by simp
    have "get_item ob2 n = get_item ob n" for n
      using s1 s2 None by (simp add: get_item_def)
    then have "item_in ob2 p = (if prefix [name] p then None else item_in ob p)" for p
      using s2 None by (cases "(ob2, p)" rule: item_in.cases) (auto simp: child1)
    moreover have "shape_in ob2 p = (if prefix [name] p then None else shape_in ob p)" for p
      using s2 by (cases p) (auto simp: shape_in_Cons child1 attrs2)
    moreover have "shape_in ob [name] \<noteq> None \<longleftrightarrow> get_child ob name \<noteq> None"
      by (simp add: shape_in_Cons obj_attrs_def split: bind_splits)
    ultimately show ?thesis using ob' r s1 s2 None Nil by (auto simp: gone_item_def gone_shape_def)
  qed
next
  case (Cons seg segs)
  show ?case
  proof (cases "get_child ob seg")
    case None
    have "item_in ob (seg # p) = None" if "p \<noteq> []" for p
      using None that by (simp add: item_in_child)
    moreover have "shape_in ob (seg # p) = None" for p
      using None by (simp add: shape_in_Cons)
    moreover have "item_in ob p = None \<and> shape_in ob p = None" if "prefix (seg # segs @ [name]) p" for p
      using that calculation(1) [of "tl p"] calculation(2) [of "tl p"]
      by (cases p; cases "tl p") auto
    moreover have "ob' = ob" "\<not> is_ok r" using Cons.prems None by auto
    ultimately show ?thesis using Cons.prems(1)
      by (auto simp: gone_item_def gone_shape_def)
  next
    case (Some child)
    obtain child' r' where d: "delete_walk segs name child = (child', r')" by force
    then have ob': "ob' = obj_set_child seg child' ob" "r' = r"
      using Cons.prems Some by auto
    have "obj_ok child" using Cons.prems(1) Some by auto
    note IH = Cons.IH [OF this d]
    have it: "item_in ob (seg # p) = item_in child p" if "p \<noteq> []" for p
      using Some that by (simp add: item_in_child)
    have sh: "shape_in ob (seg # p) = shape_in child p" for p
      using Some by (simp add: shape_in_Cons)
    have it': "item_in ob' p =
        (if p \<noteq> [] \<and> hd p = seg \<and> tl p \<noteq> [] then item_in child' (tl p) else item_in ob p)" for p
      using Some by (simp add: ob' item_in_set_child)
    have sh': "shape_in ob' p = (if p \<noteq> [] \<and> hd p = seg then shape_in child' (tl p) else shape_in ob p)" for p
      using Some by (simp add: ob' shape_in_set_child)
    have "obj_ok ob'" using Cons.prems(1) IH by (simp add: ob' obj_ok_set_child)
    moreover have "item_in ob' p =
        (if gone_item (item_in ob (seg # segs @ [name]) \<noteq> None) (seg # segs @ [name]) p
         then None else item_in ob p)" for p
      using IH it' [of p] it [of "tl p"] it [of "segs @ [name]"]
      by (cases p) (auto simp: gone_Cons)
    moreover have "shape_in ob' p =
        (if gone_shape (item_in ob (seg # segs @ [name]) \<noteq> None) (seg # segs @ [name]) p
         then None else shape_in ob p)" for p
      using IH sh' [of p] sh [of "tl p"] it [of "segs @ [name]"]
      by (cases p) (auto simp: gone_Cons)
    ultimately show ?thesis
      using IH it [of "segs @ [name]"] sh [of "segs @ [name]"] ob'(2) by simp
  qed
qed

lemma tree_delete_refines:
  assumes ok: "tree_ok tree" and path: "parse_path path = Inr (first # rest)"
    and r: "tree_delete path tree = (tree', r)"
  defines "target \<equiv> first # rest"
  defines "hit \<equiv> item_at (tr_objects tree) target \<noteq> None"
  shows "tree_ok tree' \<and>
    (is_ok r \<longleftrightarrow> hit \<or> shape_at (tr_objects tree) target \<noteq> None) \<and>
    (\<forall>p. item_at (tr_objects tree') p =
       (if gone_item hit target p then None else item_at (tr_objects tree) p)) \<and>
    (\<forall>p. shape_at (tr_objects tree') p =
       (if gone_shape hit target p then None else shape_at (tr_objects tree) p))"
proof -
  define m where "m = tr_objects tree"
  have okm: "objs_ok m" using ok by (simp add: m_def tree_ok_def)
  show ?thesis
  proof (cases "rest = []")
    case True
    have at: "item_at m [first] = None" "shape_at m [first] = map_option obj_attrs (map_of m first)"
      by (auto simp: shape_at_Cons shape_in_def split: bind_splits)
    have hit: "\<not> hit" using at(1) True by (simp add: hit_def target_def m_def)
    have rm: "item_at (bt_remove first m) p = (if prefix [first] p then None else item_at m p)"
        "shape_at (bt_remove first m) p = (if prefix [first] p then None else shape_at m p)" for p
      by (cases p; auto simp: shape_at_def)+
    show ?thesis
    proof (cases "map_of m first")
      case None
      then have "tree' = tree" "\<not> is_ok r"
        using r path True by (auto simp: tree_delete_def m_def)
      moreover have "bt_remove first m = m"
        using None by (auto simp: bt_remove_def map_of_eq_None_iff image_iff intro!: filter_True)
      moreover have "item_at m p = None \<and> shape_at m p = None" if "prefix [first] p" for p
        using that None by (cases p) (auto simp: shape_at_Cons)
      ultimately show ?thesis
        using None at ok hit True
        by (simp add: gone_item_def gone_shape_def target_def m_def [symmetric])
    next
      case (Some ob)
      then have "tree' = tree\<lparr>tr_objects := bt_remove first m\<rparr>" "is_ok r"
        using r path True by (auto simp: tree_delete_def m_def)
      then show ?thesis
        using Some rm at ok hit True okm
        by (simp add: gone_item_def gone_shape_def target_def m_def [symmetric] tree_ok_def
            objs_ok_remove)
    qed
  next
    case False
    then obtain segs name where rest: "rest = segs @ [name]" by (metis rev_exhaust)
    have cases_rest: "tree_delete path tree =
        (case map_of m first of
             None \<Rightarrow> (tree, Inl (NotFound (''Object '' @ quote first @ '' not found'')))
           | Some obj \<Rightarrow> (case delete_walk segs name obj of
                  (obj, r) \<Rightarrow> (set_root tree first obj, r)))"
    proof -
      obtain x xs where x: "segs @ [name] = x # xs" by (cases segs) auto
      have "butlast (x # xs) = segs" "last (x # xs) = name"
        using x [symmetric] by simp_all
      then show ?thesis
        unfolding tree_delete_def path rest x
        by (simp add: m_def del: butlast.simps last.simps split: option.split)
    qed
    show ?thesis
    proof (cases "map_of m first")
      case None
      then have "tree' = tree" "\<not> is_ok r" using r cases_rest by auto
      moreover have "item_at m p = None \<and> shape_at m p = None" if "prefix target p" for p
        using that None by (cases p) (auto simp: target_def shape_at_Cons)
      ultimately show ?thesis using ok None
        by (auto simp: gone_item_def gone_shape_def m_def [symmetric] hit_def)
    next
      case (Some ob)
      obtain ob' r' where d: "delete_walk segs name ob = (ob', r')" by force
      then have tree': "tree' = set_root tree first ob'" "r' = r" using r cases_rest Some by auto
      have "obj_ok ob" using okm Some by (rule objs_ok_lookup)
      note IH = delete_walk_spec [OF this d]
      have at: "item_at m (first # p) = item_in ob p" "shape_at m (first # p) = shape_in ob p" for p
        using Some by (simp_all add: shape_at_Cons)
      have hit: "hit \<longleftrightarrow> item_in ob (segs @ [name]) \<noteq> None"
        using at by (simp add: hit_def target_def rest m_def)
      have tr: "tr_objects tree' = bt_update first ob' m" by (simp add: tree' set_root_def m_def)
      have "item_at (tr_objects tree') p = (if gone_item hit target p then None else item_at m p)" for p
        using IH Some at [of "tl p"] hit
        by (cases p) (auto simp: tr map_of_bt_update target_def rest gone_Cons)
      moreover have "shape_at (tr_objects tree') p = (if gone_shape hit target p then None else shape_at m p)" for p
        using IH Some at [of "tl p"] hit
        by (cases p) (auto simp: tr shape_at_update target_def rest gone_Cons)
      moreover have "tree_ok tree'"
        using ok okm IH by (simp add: tree_ok_def tr objs_ok_update) (simp add: tree' set_root_def)
      ultimately show ?thesis
        using IH at hit tree'(2) by (simp add: target_def rest m_def)
    qed
  qed
qed

section \<open>Merging\<close>

text \<open>The objects of an incoming map that are keyed by their own identifiers.\<close>

definition keyed :: "objects \<Rightarrow> bool" where
  "keyed objs = list_all (\<lambda>e. fst e = obj_id (snd e)) objs"

lemma get_item_merge_child [simp]: "get_item (merge_child c current) n = get_item current n"
  by (simp add: merge_child_def split: option.split)

lemma get_child_merge_child:
  "get_child (merge_child c current) n =
     (if n = obj_id c
      then Some (case get_child current n of Some e \<Rightarrow> merge_from e c | None \<Rightarrow> c)
      else get_child current n)"
  by (auto simp: merge_child_def get_child_set_child split: option.split)

lemma fold_merge_child:
  "keyed objs \<Longrightarrow> distinct (map fst objs) \<Longrightarrow>
   get_child (fold (\<lambda>e. merge_child (snd e)) objs current) n =
     (case map_of objs n of
        None \<Rightarrow> get_child current n
      | Some c \<Rightarrow> Some (case get_child current n of Some e \<Rightarrow> merge_from e c | None \<Rightarrow> c)) \<and>
   get_item (fold (\<lambda>e. merge_child (snd e)) objs current) k = get_item current k"
proof (induction objs arbitrary: current)
  case (Cons e objs)
  obtain i c where e: "e = (i, c)" by force
  with Cons have "map_of objs i = None" "i = obj_id c"
    by (simp_all add: map_of_eq_None_iff keyed_def)
  with Cons e show ?case
    by (auto simp: get_child_merge_child keyed_def split: option.splits)
qed simp

lemma merge_child_ok [inv_intros]: "obj_ok current \<Longrightarrow> obj_ok c \<Longrightarrow> obj_ok (merge_child c current)"
  by (auto simp: merge_child_def split: option.split
      intro!: obj_ok_add_child obj_ok_set_child merge_ok(1))

lemma fold_merge_child_ok:
  "obj_ok current \<Longrightarrow> \<forall>e \<in> set objs. obj_ok (snd e) \<Longrightarrow>
   obj_ok (fold (\<lambda>e. merge_child (snd e)) objs current)"
  by (induction objs arbitrary: current) (auto intro: merge_child_ok)

lemma item_in_fold_merge_child:
  assumes "keyed objs" "objs_ok objs"
  shows "item_in (fold (\<lambda>e. merge_child (snd e)) objs current) p =
    (case item_at objs p of Some i \<Rightarrow> Some i | None \<Rightarrow> item_in current p)"
proof (cases "(current, p)" rule: item_in.cases)
  case (3 ob seg n segs)
  have d: "distinct (map fst objs)" using assms(2) by (simp add: objs_ok_def bt_ok_distinct)
  show ?thesis
  proof (cases "map_of objs seg")
    case None
    with 3 show ?thesis by (simp add: fold_merge_child [OF assms(1) d])
  next
    case (Some c)
    then have "obj_ok c" using assms(2) by (auto intro: objs_ok_lookup)
    with Some 3 show ?thesis
      by (auto simp: fold_merge_child [OF assms(1) d] item_in_merge split: option.split)
  qed
next
  case (2 ob name)
  have d: "distinct (map fst objs)" using assms(2) by (simp add: objs_ok_def bt_ok_distinct)
  show ?thesis using 2
    by (cases "map_of objs name") (auto simp: fold_merge_child [OF assms(1) d])
qed simp

text \<open>The items an incoming map brings at a base path, over those already there.\<close>

definition grafted ::
  "(string list \<Rightarrow> info_item option) \<Rightarrow> string list \<Rightarrow> objects \<Rightarrow> string list \<Rightarrow> info_item option" where
  "grafted items base objs p =
     (case (if prefix base p then item_at objs (drop (length base) p) else None) of
        Some i \<Rightarrow> Some i
      | None \<Rightarrow> items p)"

lemma grafted_Cons: "grafted items (seg # base) objs p =
   (if p \<noteq> [] \<and> hd p = seg then grafted (\<lambda>q. items (seg # q)) base objs (tl p) else items p)"
  by (cases p) (auto simp: grafted_def split: option.split)

lemma merge_walk_spec:
  assumes "keyed objs" "objs_ok objs" "obj_ok ob"
  shows "\<exists>ob'. merge_walk segs objs ob = (ob', Inr ()) \<and> obj_ok ob' \<and>
    item_in ob' = grafted (item_in ob) segs objs"
  using assms(3)
proof (induction segs arbitrary: ob)
  case Nil
  have "obj_ok (fold (\<lambda>e. merge_child (snd e)) objs ob)"
    using Nil assms(2) by (intro fold_merge_child_ok) (auto simp: objs_ok_def)
  then show ?case
    by (auto simp: item_in_fold_merge_child [OF assms(1,2)] grafted_def fun_eq_iff)
next
  case (Cons seg segs)
  define ob1 where "ob1 = (if get_child ob seg = None then add_child (object_new seg) ob else ob)"
  have ok1: "obj_ok ob1" using Cons.prems by (simp add: ob1_def obj_ok_add_child)
  have items1: "item_in ob1 p = item_in ob p" for p
    by (simp add: ob1_def item_in_add_new)
  obtain child where child: "get_child ob1 seg = Some child"
    by (cases "get_child ob seg") (auto simp: ob1_def)
  obtain child' where child': "merge_walk segs objs child = (child', Inr ())" "obj_ok child'"
      "item_in child' = grafted (item_in child) segs objs"
    using Cons.IH [of child] obj_ok_child [OF ok1 child] by blast
  have below: "item_in ob (seg # p) = item_in child p" if "p \<noteq> []" for p
    using child items1 [of "seg # p"] that by (simp add: item_in_child)
  have nil: "grafted (\<lambda>q. item_in ob (seg # q)) segs objs [] = item_in ob [seg]"
    by (simp add: grafted_def)
  have "item_in (obj_set_child seg child' ob1) p = grafted (item_in ob) (seg # segs) objs p" for p
  proof (cases "p \<noteq> [] \<and> hd p = seg \<and> tl p \<noteq> []")
    case True
    then obtain q where q: "p = seg # q" "q \<noteq> []" by (cases p) auto
    then show ?thesis
      using child below [OF q(2)] child'(3)
      by (simp add: item_in_set_child [of ob1] grafted_Cons del: item_in.simps)
        (simp add: grafted_def del: item_in.simps split: option.split)
  next
    case False
    then have "p = [seg] \<or> \<not> (p \<noteq> [] \<and> hd p = seg)" by (cases p) auto
    with False show ?thesis
      using child nil by (auto simp: item_in_set_child [of ob1] items1 grafted_Cons simp del: item_in.simps)
  qed
  moreover have "merge_walk (seg # segs) objs ob = (obj_set_child seg child' ob1, Inr ())"
    using child child'(1) by (simp add: ob1_def [symmetric])
  ultimately show ?case using ok1 child'(2) by (auto simp: fun_eq_iff obj_ok_set_child)
qed

lemma fold_merge_root:
  "keyed objs \<Longrightarrow> distinct (map fst objs) \<Longrightarrow>
   map_of (fold (\<lambda>e. merge_root (snd e)) objs m) n =
     (case map_of objs n of
        None \<Rightarrow> map_of m n
      | Some c \<Rightarrow> Some (case map_of m n of Some e \<Rightarrow> merge_from e c | None \<Rightarrow> c))"
proof (induction objs arbitrary: m)
  case (Cons e objs)
  obtain i c where e: "e = (i, c)" by force
  with Cons have "map_of objs i = None" "i = obj_id c"
    by (simp_all add: map_of_eq_None_iff keyed_def)
  with Cons e show ?case
    by (auto simp: merge_root_def map_of_bt_update keyed_def split: option.splits)
qed simp

lemma fold_merge_root_ok:
  "objs_ok m \<Longrightarrow> \<forall>e \<in> set objs. obj_ok (snd e) \<Longrightarrow>
   objs_ok (fold (\<lambda>e. merge_root (snd e)) objs m)"
proof (induction objs arbitrary: m)
  case (Cons e objs)
  then have "objs_ok (merge_root (snd e) m)"
    by (auto simp: merge_root_def split: option.split
        intro!: objs_ok_insert objs_ok_update merge_ok(1) intro: objs_ok_lookup)
  with Cons show ?case by simp
qed simp

lemma write_tree_refines:
  assumes ok: "tree_ok tree" and inc: "keyed objs" "objs_ok objs"
    and path: "parse_path path = Inr base"
  shows "\<exists>tree'. write_tree path objs tree = (tree', Inr ()) \<and> tree_ok tree' \<and>
    item_at (tr_objects tree') = grafted (item_at (tr_objects tree)) base objs"
proof (cases base)
  case Nil
  define m where "m = fold (\<lambda>e. merge_root (snd e)) objs (tr_objects tree)"
  have d: "distinct (map fst objs)" using inc(2) by (simp add: objs_ok_def bt_ok_distinct)
  have "objs_ok m"
    unfolding m_def using ok inc(2)
    by (intro fold_merge_root_ok) (auto simp: tree_ok_def objs_ok_def)
  moreover have "item_at m p = grafted (item_at (tr_objects tree)) [] objs p" for p
  proof (cases p)
    case (Cons seg q)
    show ?thesis
    proof (cases "map_of objs seg")
      case None
      then show ?thesis
        by (simp add: Cons m_def fold_merge_root [OF inc(1) d] grafted_def)
    next
      case (Some c)
      then have "obj_ok c" using inc(2) by (auto intro: objs_ok_lookup)
      with Some show ?thesis
        by (auto simp: Cons m_def fold_merge_root [OF inc(1) d] grafted_def item_in_merge
            split: option.split)
    qed
  qed (simp add: grafted_def)
  ultimately show ?thesis
    using ok path Nil by (simp add: write_tree_def m_def [symmetric] tree_ok_def fun_eq_iff)
next
  case (Cons first rest)
  define m where "m = tr_objects tree"
  define m1 where "m1 = (if bt_contains m first then m else bt_insert first (object_new first) m)"
  have ok1: "objs_ok m1" using ok by (simp add: m1_def m_def tree_ok_def objs_ok_insert)
  obtain ob where ob: "map_of m1 first = Some ob"
    by (cases "map_of m first") (auto simp: m1_def domIff)
  have items1: "item_at m1 p = item_at m p" for p
    by (cases p) (auto simp: m1_def domIff)
  obtain ob' where ob': "merge_walk rest objs ob = (ob', Inr ())" "obj_ok ob'"
      "item_in ob' = grafted (item_in ob) rest objs"
    using merge_walk_spec [OF inc objs_ok_lookup [OF ok1 ob]] by blast
  have "item_at m (first # q) = item_in ob q" for q
    using items1 [of "first # q"] ob by simp
  then have "item_at (bt_update first ob' m1) p = grafted (item_at m) base objs p" for p
    using ob items1 [of p] by (simp add: item_at_update Cons grafted_Cons ob'(3))
  moreover have "write_tree path objs tree = (tree\<lparr>tr_objects := bt_update first ob' m1\<rparr>, Inr ())"
    using ob ob'(1) path Cons
    by (auto simp: write_tree_def m_def m1_def domIff split: if_splits)
  ultimately show ?thesis
    using ok ok1 ob'(2) by (simp add: m_def tree_ok_def objs_ok_update fun_eq_iff)
qed

section \<open>Resolving\<close>

lemma resolve_from_object_spec:
  "segs \<noteq> [] \<Longrightarrow> resolve_from_object ob segs = Inr target \<longleftrightarrow>
     (case item_in ob segs of
        Some item \<Rightarrow> target = PtInfoItem item
      | None \<Rightarrow> (case obj_in ob segs of Some c \<Rightarrow> target = PtObject c | None \<Rightarrow> False))"
proof (induction ob segs rule: resolve_from_object.induct)
  case (3 ob name n segs)
  then show ?case by (cases "get_child ob name") (auto split: option.splits)
qed (auto split: option.splits)

lemma resolve_spec:
  assumes "parse_path path = Inr (first # rest)"
  shows "resolve tree path = Inr target \<longleftrightarrow>
     (case item_at (tr_objects tree) (first # rest) of
        Some item \<Rightarrow> target = PtInfoItem item
      | None \<Rightarrow> (case object_at (tr_objects tree) (first # rest) of
                  Some c \<Rightarrow> target = PtObject c | None \<Rightarrow> False))"
  using assms resolve_from_object_spec [of rest]
  by (cases "map_of (tr_objects tree) first") (auto simp: resolve_def split: option.splits)

text \<open>A reference to an item taken by \<open>resolve_mut\<close>: it points at the item \<open>resolve\<close>
  finds, storing through it changes that item only, and storing what is there is no change.\<close>

lemma resolve_from_object_mut_item:
  assumes "obj_ok ob" "resolve_from_object_mut ob segs = Inr (PmInfoItem item put)"
  shows "item_in ob segs = Some item \<and> put item = ob \<and>
    (\<forall>i. item_in (put i) = (item_in ob)(segs := Some i)) \<and>
    (\<forall>i. item_ok i \<longrightarrow> obj_ok (put i))"
  using assms
proof (induction ob segs arbitrary: item put rule: resolve_from_object_mut.induct)
  case (2 ob name)
  then have item: "get_item ob name = Some item" "put = (\<lambda>i. obj_set_item name i ob)"
    by (auto split: option.splits)
  have "item_in (obj_set_item name i ob) p = ((item_in ob)([name] := Some i)) p" for i p
    using item(1) by (cases "(ob, p)" rule: item_in.cases) (auto simp: get_item_set_item)
  with 2 item show ?case by (auto simp: obj_set_item_same obj_ok_set_item fun_eq_iff)
next
  case (3 ob name n segs)
  obtain child where c1: "get_child ob name = Some child"
    using 3(3) by (cases "get_child ob name") auto
  with 3(3) obtain t where c: "get_child ob name = Some child"
      "resolve_from_object_mut child (n # segs) = Inr t"
      "target_within (\<lambda>c. obj_set_child name c ob) t = PmInfoItem item put"
    by (simp add: rbind_eq_Inr) blast
  obtain put' where t: "t = PmInfoItem item put'" "put = (\<lambda>c. obj_set_child name c ob) \<circ> put'"
    using c(3) by (cases t) auto
  have "obj_ok child" using 3(2) c(1) by auto
  note IH = 3(1) [OF c(1) this] and okc = this
  have r: "item_in child (n # segs) = Some item" "put' item = child"
      "\<And>i. item_in (put' i) = (item_in child)(n # segs := Some i)"
      "\<And>i. item_ok i \<Longrightarrow> obj_ok (put' i)"
    using IH [of item put'] c(2) t(1) by (simp_all add: fun_upd_def)
  have "item_in (put i) p = ((item_in ob)(name # n # segs := Some i)) p" for i p
    using c(1) r(3) [of i]
    by (cases "p \<noteq> [] \<and> hd p = name \<and> tl p \<noteq> []"; cases p)
      (auto simp: t(2) item_in_set_child item_in_child [of _ ob] simp del: item_in.simps)
  moreover have "put item = ob" using r(2) 3(2) c(1) by (simp add: t(2) obj_set_child_same)
  moreover have "obj_ok (put i)" if "item_ok i" for i
    using r(4) [OF that] 3(2) by (simp add: t(2) obj_ok_set_child)
  ultimately show ?case using r(1) c(1) by (simp add: fun_eq_iff)
qed simp

lemma resolve_mut_lens:
  assumes ok: "tree_ok tree" and path: "parse_path path = Inr segs"
    and r: "resolve_mut tree path = Inr (PmInfoItem item put)"
  shows "resolve tree path = Inr (PtInfoItem item) \<and> put item = tree \<and>
    (\<forall>i. item_at (tr_objects (put i)) = (item_at (tr_objects tree))(segs := Some i)) \<and>
    (\<forall>i. item_ok i \<longrightarrow> tree_ok (put i))"
proof -
  from r path obtain first rest ob where f: "segs = first # rest" "rest \<noteq> []"
      "map_of (tr_objects tree) first = Some ob"
    by (auto simp: resolve_mut_def rbind_eq_Inr ok_or_def split: list.splits option.splits if_splits)
  from r path f obtain t where t: "resolve_from_object_mut ob rest = Inr t"
      "target_within (set_root tree first) t = PmInfoItem item put"
    by (auto simp: resolve_mut_def rbind_eq_Inr)
  then obtain put' where t': "t = PmInfoItem item put'" "put = set_root tree first \<circ> put'"
    by (cases t) auto
  have okm: "objs_ok (tr_objects tree)" using ok by (simp add: tree_ok_def)
  have okob: "obj_ok ob" using okm f(3) by (rule objs_ok_lookup)
  note s = resolve_from_object_mut_item [OF okob t(1) [unfolded t'(1)]]
  have "resolve tree path = Inr (PtInfoItem item)"
    using resolve_spec [of path first rest tree "PtInfoItem item"] path f s by simp
  moreover have "put item = tree"
    using s f(3) okm by (simp add: t'(2) set_root_def bt_update_same objs_ok_def)
  moreover have "item_at (tr_objects (put i)) p = ((item_at (tr_objects tree))(segs := Some i)) p" for i p
    using s f by (cases p) (auto simp: t'(2) set_root_def map_of_bt_update)
  moreover have "tree_ok (put i)" if "item_ok i" for i
    using ok okm s that by (simp add: t'(2) set_root_def tree_ok_def objs_ok_update)
  ultimately show ?thesis by (auto simp: fun_eq_iff)
qed

section \<open>Properties\<close>

text \<open>C3: Writing a value updates one item and nothing else. On a well-formed tree a write to
  \<open>/first/.../name\<close> always succeeds; the item at that path holds its old history with the
  value pushed (a new item holds just the value), every other item is as before, the objects
  missing on the path are created bare and no other object changes; the result is
  \<open>created\<close> exactly when the item did not exist.\<close>

theorem write_value_refinement:
  assumes "tree_ok tree" "parse_path path = Inr (first # segs @ [name])"
  defines "target \<equiv> first # segs @ [name]"
  shows "\<exists>tree' item. write_value path v t tree =
           Some (tree', Inr (item_at (tr_objects tree) target = None)) \<and> tree_ok tree' \<and>
         item_at (tr_objects tree') = (item_at (tr_objects tree))(target \<mapsto> item) \<and>
         item_history item =
           written_history (tr_default_capacity tree) (value_new v t) (item_at (tr_objects tree) target) \<and>
         it_meta item = Option.bind (item_at (tr_objects tree) target) it_meta \<and>
         shape_at (tr_objects tree') =
           (\<lambda>p. case shape_at (tr_objects tree) p of Some a \<Rightarrow> Some a | None \<Rightarrow>
                if p \<noteq> [] \<and> prefix p (first # segs) then Some (last p, None, None) else None)"
proof -
  have cap: "0 < tr_default_capacity tree" and objs: "objs_ok (tr_objects tree)"
    using assms(1) by (simp_all add: tree_ok_def)
  obtain item where "written (tr_default_capacity tree) v t (item_at (tr_objects tree) target) = Some item"
      "item_history item =
         written_history (tr_default_capacity tree) (value_new v t) (item_at (tr_objects tree) target)"
      "it_meta item = Option.bind (item_at (tr_objects tree) target) it_meta"
    using written_ok [OF cap, of "item_at (tr_objects tree) target" v t]
      item_at_ok [OF objs, of target] by blast
  with write_value_refines [OF assms(1,2), of v t] show ?thesis
    unfolding target_def by auto
qed

theorem write_value_refinement_witness:
  "tree_ok tree_new \<and> parse_path ''/Dev/Temp'' = Inr (''Dev'' # [] @ [''Temp'']) \<and>
   (\<exists>tree' item. write_value ''/Dev/Temp'' (Bool True) None tree_new = Some (tree', Inr True) \<and>
      item_at (tr_objects tree') [''Dev'', ''Temp''] = Some item \<and>
      item_history item = [value_new (Bool True) None])"
proof -
  have p: "parse_path ''/Dev/Temp'' = Inr (''Dev'' # [] @ [''Temp''])" by code_simp
  have none: "item_at (tr_objects tree_new) q = None" for q
    by (cases q) (simp_all add: tree_new_def)
  show ?thesis
    using write_value_refinement [OF tree_new_ok p, of "Bool True" None] p tree_new_ok
    by (auto simp: none written_history_def simp del: item_at.simps)
qed

text \<open>C7: Deleting refines the removal of entries. When the target names an item, exactly
  that item goes; otherwise everything at and below the target object goes; all else stays, and
  the result is an error exactly when there was nothing at the target.\<close>

theorem delete_refinement:
  assumes "tree_ok tree" "parse_path path = Inr (first # rest)"
    and "tree_delete path tree = (tree', r)"
  defines "hit \<equiv> item_at (tr_objects tree) (first # rest) \<noteq> None"
  shows "tree_ok tree' \<and>
    (is_ok r \<longleftrightarrow> hit \<or> shape_at (tr_objects tree) (first # rest) \<noteq> None) \<and>
    (\<forall>p. item_at (tr_objects tree') p =
       (if gone_item hit (first # rest) p then None else item_at (tr_objects tree) p)) \<and>
    (\<forall>p. shape_at (tr_objects tree') p =
       (if gone_shape hit (first # rest) p then None else shape_at (tr_objects tree) p))"
  unfolding hit_def by (rule tree_delete_refines [OF assms(1-3)])

definition sample_tree :: object_tree where
  "sample_tree = fst (insert_root (object_new ''Dev'') tree_new)"

lemma sample_tree_ok: "tree_ok sample_tree"
  by (simp add: sample_tree_def insert_root_def tree_new_def tree_ok_def objs_ok_def)

theorem delete_refinement_witness:
  "is_ok (snd (tree_delete ''/Dev'' sample_tree)) \<and>
   shape_at (tr_objects sample_tree) [''Dev''] = Some (''Dev'', None, None) \<and>
   shape_at (tr_objects (fst (tree_delete ''/Dev'' sample_tree))) [''Dev''] = None"
proof -
  have p: "parse_path ''/Dev'' = Inr (''Dev'' # [])" by code_simp
  have none: "item_at (tr_objects sample_tree) [''Dev''] = None" by code_simp
  have some: "shape_at (tr_objects sample_tree) [''Dev''] = Some (''Dev'', None, None)" by code_simp
  show ?thesis
    using delete_refinement [OF sample_tree_ok p prod.collapse [symmetric]] none some
    by (simp add: gone_shape_def)
qed

text \<open>C8: Merging an incoming tree at a base path. For an incoming map keyed by object
  identifiers, \<open>write_tree\<close> cannot fail on a valid path; afterwards an item below the base
  path is the incoming one where there is one and the old one otherwise, and every item outside
  the base path is as before.\<close>

theorem write_tree_refinement:
  assumes "tree_ok tree" "keyed objs" "objs_ok objs" "parse_path path = Inr base"
  shows "\<exists>tree'. write_tree path objs tree = (tree', Inr ()) \<and> tree_ok tree' \<and>
    item_at (tr_objects tree') = grafted (item_at (tr_objects tree)) base objs"
  by (rule write_tree_refines [OF assms])

theorem write_tree_refinement_witness:
  "keyed (tr_objects sample_tree) \<and>
   (\<exists>tree'. write_tree ''/'' (tr_objects sample_tree) tree_new = (tree', Inr ()) \<and> tree_ok tree')"
proof -
  have "parse_path ''/'' = Inr []" by code_simp
  moreover have "keyed (tr_objects sample_tree)"
    by (simp add: keyed_def sample_tree_def insert_root_def tree_new_def)
  moreover have "objs_ok (tr_objects sample_tree)" using sample_tree_ok by (simp add: tree_ok_def)
  ultimately show ?thesis
    using write_tree_refinement [OF tree_new_ok] by blast
qed

text \<open>\<open>resolve_mut\<close> is a lens on the tree. The item it hands out for a path is the one
  \<open>resolve\<close> finds, storing it back unchanged gives the same tree, and storing another item
  changes the item at that path and no other.\<close>

theorem resolve_mut_is_lens:
  assumes "tree_ok tree" "parse_path path = Inr segs"
    and "resolve_mut tree path = Inr (PmInfoItem item put)"
  shows "resolve tree path = Inr (PtInfoItem item) \<and> put item = tree \<and>
    (\<forall>i. item_at (tr_objects (put i)) = (item_at (tr_objects tree))(segs := Some i))"
  using resolve_mut_lens [OF assms] by blast

definition sample_item_tree :: object_tree where
  "sample_item_tree = (case write_value ''/Dev/Temp'' Null None tree_new of
     Some (tree, _) \<Rightarrow> tree | None \<Rightarrow> tree_new)"

lemma sample_item_tree_ok: "tree_ok sample_item_tree"
proof -
  have "parse_path ''/Dev/Temp'' = Inr (''Dev'' # [] @ [''Temp''])" by code_simp
  from write_value_refines [OF tree_new_ok this, of Null None]
  show ?thesis by (auto simp: sample_item_tree_def)
qed

theorem resolve_mut_is_lens_witness:
  "\<exists>item put. resolve_mut sample_item_tree ''/Dev/Temp'' = Inr (PmInfoItem item put) \<and>
     resolve sample_item_tree ''/Dev/Temp'' = Inr (PtInfoItem item)"
proof -
  have p: "parse_path ''/Dev/Temp'' = Inr [''Dev'', ''Temp'']" by code_simp
  have "case resolve_mut sample_item_tree ''/Dev/Temp'' of
      Inr (PmInfoItem _ _) \<Rightarrow> True | _ \<Rightarrow> False"
    by code_simp
  then obtain item put where "resolve_mut sample_item_tree ''/Dev/Temp'' = Inr (PmInfoItem item put)"
    by (auto split: sum.splits path_target_mut.splits)
  with resolve_mut_is_lens [OF sample_item_tree_ok p this] show ?thesis by blast
qed

text \<open>Paths. Every accepted path yields segments that are not empty, not \<open>..\<close> and
  free of slashes, and joining printable segments of that kind gives a path that parses back
  to them.\<close>

theorem parse_path_roundtrip:
  assumes "list_all plain_segment segs"
  shows "parse_path (path_of segs) = Inr segs \<and>
    (parse_path path = Inr segs' \<longrightarrow> list_all (\<lambda>s. s \<noteq> [] \<and> s \<noteq> ''..'' \<and> CHR ''/'' \<notin> set s) segs')"
  using parse_path_of [of segs] parse_path_segs [of path segs'] assms
  by (auto simp: list_all_iff)

theorem parse_path_roundtrip_witness:
  "parse_path (path_of [''Dev'', ''Temp'']) = Inr [''Dev'', ''Temp''] \<and>
   list_all plain_segment [''Dev'', ''Temp'']"
proof -
  have "list_all plain_segment [''Dev'', ''Temp'']" by code_simp
  with parse_path_roundtrip [OF this] show ?thesis by blast
qed

end
