(* ===== verification/Subs.thy ===== *)
theory Subs
  imports OdfValue RustStr "HOL-Library.Word"
begin

text \<open>
  \<open>src/omi/subscriptions.rs\<close>: the subscription registry with its four indexes (the
  subscriptions by request id, the event subscriptions by path, the interval subscriptions
  by next trigger time, and the poll buffers), and its operations. Times are \<open>f64\<close> as
  in the code. The loop of \<open>tick_intervals\<close> has no bound in the source, so it is a
  \<open>partial_function\<close>; that it returns is proved in the theory of its invariant.
\<close>

section \<open>Subscriptions\<close>

type_synonym session_id = "32 word"

datatype delivery_target = Callback string | Poll | WebSocket session_id

record subscription =
  sub_rid :: string
  sub_path :: string
  sub_interval :: f64
  sub_target :: delivery_target
  sub_created_at :: f64
  sub_ttl :: f64
  sub_trigger :: f64

definition is_expired :: "subscription \<Rightarrow> f64 \<Rightarrow> bool" where
  "is_expired sub now =
     (if sub_ttl sub < Fin 0 then False else sub_created_at sub + sub_ttl sub < now)"

definition expiry :: "subscription \<Rightarrow> f64" where
  "expiry sub = (if sub_ttl sub < Fin 0 then PosInf else sub_created_at sub + sub_ttl sub)"

datatype poll_result = PollOk string "odf_value list" | NotPollable | PollNotFound

record delivery =
  dl_rid :: string
  dl_path :: string
  dl_values :: "odf_value list"
  dl_target :: delivery_target

section \<open>Poll buffers\<close>

record poll_buffer =
  pb_buf :: "odf_value psram_box"
  pb_head :: nat
  pb_len :: nat
  pb_capacity :: nat

definition pb_new :: "nat \<Rightarrow> poll_buffer option" where
  "pb_new capacity = do {
     rust_assert (0 < capacity);
     buf \<leftarrow> psram_new_with capacity (value_new Null None);
     Some \<lparr>pb_buf = buf, pb_head = 0, pb_len = 0, pb_capacity = capacity\<rparr>
   }"

text \<open>One turn of the loop of \<open>push\<close>, and the loop.\<close>

definition pb_push_one :: "odf_value \<Rightarrow> poll_buffer \<Rightarrow> poll_buffer option" where
  "pb_push_one v pb = do {
     write_idx \<leftarrow> rem_checked (pb_head pb + pb_len pb) (pb_capacity pb);
     buf \<leftarrow> psram_set write_idx v (pb_buf pb);
     if pb_len pb < pb_capacity pb
     then Some (pb\<lparr>pb_buf := buf, pb_len := pb_len pb + 1\<rparr>)
     else do {
       head \<leftarrow> rem_checked (pb_head pb + 1) (pb_capacity pb);
       Some (pb\<lparr>pb_buf := buf, pb_head := head\<rparr>)
     }
   }"

definition pb_push :: "odf_value list \<Rightarrow> poll_buffer \<Rightarrow> poll_buffer option" where
  "pb_push values pb = fold_opt pb_push_one values pb"

definition pb_drain :: "poll_buffer \<Rightarrow> (odf_value list \<times> poll_buffer) option" where
  "pb_drain pb = do {
     result \<leftarrow> those (map (\<lambda>i. do {
         idx \<leftarrow> rem_checked (pb_head pb + i) (pb_capacity pb);
         psram_get (pb_buf pb) idx
       }) [0..<pb_len pb]);
     Some (result, pb\<lparr>pb_head := 0, pb_len := 0\<rparr>)
   }"

definition pb_is_empty :: "poll_buffer \<Rightarrow> bool" where
  "pb_is_empty pb = (pb_len pb = 0)"

section \<open>The registry\<close>

definition max_subscriptions :: nat where "max_subscriptions = 32"
definition default_poll_capacity :: nat where "default_poll_capacity = 50"

record registry =
  reg_subs :: "(string, subscription) btree"
  reg_events :: "(string, string list) btree"
  reg_queue :: "string list"
  reg_polls :: "(string, poll_buffer) btree"
  reg_next_id :: "32 word"

definition reg_new :: registry where
  "reg_new = \<lparr>reg_subs = [], reg_events = [], reg_queue = [], reg_polls = [], reg_next_id = 1\<rparr>"

definition rid_of :: "32 word \<Rightarrow> string" where
  "rid_of n = ''sub-'' @ dec_pad3 (unat n)"

definition generate_rid :: "registry \<Rightarrow> string \<times> registry" where
  "generate_rid reg = (rid_of (reg_next_id reg), reg\<lparr>reg_next_id := reg_next_id reg + 1\<rparr>)"

text \<open>The trigger time of a queued id, \<open>f64::MAX\<close> when it is unknown.\<close>

definition f64_MAX :: f64 where
  "f64_MAX = Fin ((2 ^ 53 - 1) * 2 ^ 971)"

definition trigger_of :: "registry \<Rightarrow> string \<Rightarrow> f64" where
  "trigger_of reg rid = (case map_of (reg_subs reg) rid of Some s \<Rightarrow> sub_trigger s | None \<Rightarrow> f64_MAX)"

text \<open>Insertion before the first element that satisfies a test, at the end without one.\<close>

fun insert_before :: "('a \<Rightarrow> bool) \<Rightarrow> 'a \<Rightarrow> 'a list \<Rightarrow> 'a list" where
  "insert_before P x [] = [x]"
| "insert_before P x (y # ys) = (if P y then x # y # ys else y # insert_before P x ys)"

definition insert_interval_sorted :: "string \<Rightarrow> registry \<Rightarrow> registry" where
  "insert_interval_sorted rid reg =
     reg\<lparr>reg_queue :=
       insert_before (\<lambda>r. trigger_of reg rid < trigger_of reg r) rid (reg_queue reg)\<rparr>"

definition create ::
  "string \<Rightarrow> f64 \<Rightarrow> delivery_target \<Rightarrow> f64 \<Rightarrow> f64 \<Rightarrow> registry \<Rightarrow> (registry \<times> (string + string)) option"
where
  "create path interval target ttl now reg =
     (if \<not> f64_eq interval (Fin (- 1)) \<and> interval \<le> Fin 0
      then Some (reg, Inl ''interval must be -1 or positive'')
      else if \<not> f64_eq interval (Fin (- 1)) \<and> interval < round64 (1 / 10)
      then Some (reg, Inl ''interval must be >= 0.1 seconds'')
      else if max_subscriptions \<le> length (reg_subs reg)
      then Some (reg, Inl ''subscription limit reached'')
      else do {
        let (rid, reg) = generate_rid reg;
        let trigger = (if Fin 0 < interval then now + interval else Fin 0);
        let is_poll = (target = Poll);
        let sub = \<lparr>sub_rid = rid, sub_path = path, sub_interval = interval, sub_target = target,
                   sub_created_at = now, sub_ttl = ttl, sub_trigger = trigger\<rparr>;
        let reg = reg\<lparr>reg_subs := bt_insert rid sub (reg_subs reg)\<rparr>;
        let reg =
          (if interval < Fin 0
           then reg\<lparr>reg_events :=
                  bt_insert path
                    ((case map_of (reg_events reg) path of None \<Rightarrow> [] | Some l \<Rightarrow> l) @ [rid])
                    (reg_events reg)\<rparr>
           else insert_interval_sorted rid reg);
        reg \<leftarrow>
          (if is_poll
           then do { pb \<leftarrow> pb_new default_poll_capacity;
                     Some (reg\<lparr>reg_polls := bt_insert rid pb (reg_polls reg)\<rparr>) }
           else Some reg);
        Some (reg, Inr rid)
      })"

definition cancel_one :: "string \<Rightarrow> registry \<times> nat \<Rightarrow> registry \<times> nat" where
  "cancel_one rid = (\<lambda>(reg, removed).
     case map_of (reg_subs reg) rid of
       None \<Rightarrow> (reg, removed)
     | Some sub \<Rightarrow>
         (let reg = reg\<lparr>reg_subs := bt_remove rid (reg_subs reg)\<rparr>;
              reg =
                (if sub_interval sub < Fin 0
                 then (case map_of (reg_events reg) (sub_path sub) of
                         None \<Rightarrow> reg
                       | Some l \<Rightarrow>
                           (let l' = filter (\<lambda>r. r \<noteq> rid) l
                            in if l' = []
                               then reg\<lparr>reg_events := bt_remove (sub_path sub) (reg_events reg)\<rparr>
                               else reg\<lparr>reg_events := bt_update (sub_path sub) l' (reg_events reg)\<rparr>))
                 else reg\<lparr>reg_queue := filter (\<lambda>r. r \<noteq> rid) (reg_queue reg)\<rparr>);
              reg = reg\<lparr>reg_polls := bt_remove rid (reg_polls reg)\<rparr>
          in (reg, removed + 1)))"

definition cancel :: "string list \<Rightarrow> registry \<Rightarrow> registry \<times> nat" where
  "cancel rids reg = fold cancel_one rids (reg, 0)"

definition cancel_by_ws_session :: "session_id \<Rightarrow> registry \<Rightarrow> registry \<times> nat" where
  "cancel_by_ws_session session reg =
     (let rids = map fst (filter (\<lambda>e. sub_target (snd e) = WebSocket session) (reg_subs reg));
          count = length rids
      in (if 0 < count then fst (cancel rids reg) else reg, count))"

text \<open>One subscriber of a changed path: an expired one is collected, a remote one gets a
  delivery, a polling one gets the values in its buffer.\<close>

definition notify_one ::
  "string \<Rightarrow> odf_value list \<Rightarrow> f64 \<Rightarrow> string \<Rightarrow>
   registry \<times> delivery list \<times> string list \<Rightarrow> (registry \<times> delivery list \<times> string list) option"
where
  "notify_one path values now rid = (\<lambda>(reg, deliveries, expired).
     case map_of (reg_subs reg) rid of
       None \<Rightarrow> Some (reg, deliveries, expired)
     | Some sub \<Rightarrow>
         if is_expired sub now then Some (reg, deliveries, expired @ [rid])
         else (case sub_target sub of
                 Poll \<Rightarrow>
                   (case map_of (reg_polls reg) rid of
                      None \<Rightarrow> Some (reg, deliveries, expired)
                    | Some pb \<Rightarrow> do {
                        pb \<leftarrow> pb_push values pb;
                        Some (reg\<lparr>reg_polls := bt_update rid pb (reg_polls reg)\<rparr>, deliveries, expired)
                      })
               | target \<Rightarrow>
                   Some (reg,
                     deliveries @ [\<lparr>dl_rid = rid, dl_path = path, dl_values = values, dl_target = target\<rparr>],
                     expired)))"

definition notify_event ::
  "string \<Rightarrow> odf_value list \<Rightarrow> f64 \<Rightarrow> registry \<Rightarrow> (registry \<times> delivery list) option"
where
  "notify_event path values now reg =
     (case map_of (reg_events reg) path of
        None \<Rightarrow> Some (reg, [])
      | Some rids \<Rightarrow> do {
          (reg, deliveries, expired) \<leftarrow> fold_opt (notify_one path values now) rids (reg, [], []);
          Some (if expired \<noteq> [] then fst (cancel expired reg) else reg, deliveries)
        })"

text \<open>The delivery of one due interval subscription.\<close>

definition tick_deliver ::
  "string \<Rightarrow> subscription \<Rightarrow> odf_value list \<Rightarrow> registry \<times> delivery list \<Rightarrow>
   (registry \<times> delivery list) option"
where
  "tick_deliver rid sub values = (\<lambda>(reg, deliveries).
     case sub_target sub of
       Poll \<Rightarrow>
         (case map_of (reg_polls reg) rid of
            None \<Rightarrow> Some (reg, deliveries)
          | Some pb \<Rightarrow> do {
              pb \<leftarrow> pb_push values pb;
              Some (reg\<lparr>reg_polls := bt_update rid pb (reg_polls reg)\<rparr>, deliveries)
            })
     | target \<Rightarrow>
         Some (reg, deliveries @
           [\<lparr>dl_rid = rid, dl_path = sub_path sub, dl_values = values, dl_target = target\<rparr>]))"

definition set_trigger :: "string \<Rightarrow> f64 \<Rightarrow> registry \<Rightarrow> registry" where
  "set_trigger rid t reg =
     (case map_of (reg_subs reg) rid of
        None \<Rightarrow> reg
      | Some s \<Rightarrow> reg\<lparr>reg_subs := bt_update rid (s\<lparr>sub_trigger := t\<rparr>) (reg_subs reg)\<rparr>)"

partial_function (option) tick_loop ::
  "f64 \<Rightarrow> (string \<Rightarrow> odf_value list option) \<Rightarrow> registry \<Rightarrow> delivery list \<Rightarrow> string list \<Rightarrow>
   (registry \<times> delivery list \<times> string list) option"
where
  "tick_loop now read_current reg deliveries expired =
     (case reg_queue reg of
        [] \<Rightarrow> Some (reg, deliveries, expired)
      | rid # rest \<Rightarrow>
          (case map_of (reg_subs reg) rid of
             None \<Rightarrow> tick_loop now read_current (reg\<lparr>reg_queue := rest\<rparr>) deliveries expired
           | Some sub \<Rightarrow>
               if now < sub_trigger sub then Some (reg, deliveries, expired)
               else if is_expired sub now
               then tick_loop now read_current (reg\<lparr>reg_queue := rest\<rparr>) deliveries (expired @ [rid])
               else Option.bind
                 (tick_deliver rid sub (case_option [] id (read_current (sub_path sub)))
                    (reg\<lparr>reg_queue := rest\<rparr>, deliveries))
                 (\<lambda>rd.
                   if sub_trigger sub + sub_interval sub \<le> expiry sub
                   then tick_loop now read_current
                     (insert_interval_sorted rid
                        (set_trigger rid (sub_trigger sub + sub_interval sub) (fst rd)))
                     (snd rd) expired
                   else tick_loop now read_current (fst rd) (snd rd) (expired @ [rid]))))"

definition next_trigger_time :: "registry \<Rightarrow> f64 option" where
  "next_trigger_time reg =
     (case reg_queue reg of
        [] \<Rightarrow> None
      | rid # _ \<Rightarrow> map_option sub_trigger (map_of (reg_subs reg) rid))"

definition tick_intervals ::
  "f64 \<Rightarrow> (string \<Rightarrow> odf_value list option) \<Rightarrow> registry \<Rightarrow>
   (registry \<times> delivery list \<times> f64 option) option"
where
  "tick_intervals now read_current reg = do {
     (reg, deliveries, expired) \<leftarrow> tick_loop now read_current reg [] [];
     let reg = (if expired \<noteq> [] then fst (cancel expired reg) else reg);
     Some (reg, deliveries, next_trigger_time reg)
   }"

definition poll :: "string \<Rightarrow> f64 \<Rightarrow> registry \<Rightarrow> (registry \<times> poll_result) option" where
  "poll rid now reg =
     (case map_of (reg_subs reg) rid of
        None \<Rightarrow> Some (reg, PollNotFound)
      | Some sub \<Rightarrow>
          if is_expired sub now then Some (fst (cancel [rid] reg), PollNotFound)
          else (case map_of (reg_polls reg) rid of
                  None \<Rightarrow> Some (reg, NotPollable)
                | Some pb \<Rightarrow> do {
                    (values, pb) \<leftarrow> pb_drain pb;
                    Some (reg\<lparr>reg_polls := bt_update rid pb (reg_polls reg)\<rparr>,
                          PollOk (sub_path sub) values)
                  }))"

definition expire :: "f64 \<Rightarrow> registry \<Rightarrow> registry \<times> nat" where
  "expire now reg =
     (let expired = map fst (filter (\<lambda>e. is_expired (snd e) now) (reg_subs reg));
          count = length expired
      in (if 0 < count then fst (cancel expired reg) else reg, count))"

definition reg_len :: "registry \<Rightarrow> nat" where
  "reg_len reg = length (reg_subs reg)"

definition reg_is_empty :: "registry \<Rightarrow> bool" where
  "reg_is_empty reg = (reg_subs reg = [])"

definition reg_contains :: "registry \<Rightarrow> string \<Rightarrow> bool" where
  "reg_contains reg rid = bt_contains (reg_subs reg) rid"

end
