(* ===== verification/SubsInv.thy ===== *)
theory SubsInv
  imports Subs
begin

text \<open>
  The subscription registry: its poll buffers keep the newest values (they meet the
  \<open>bounded_log\<close> contract), its four indexes always describe the same set of
  subscriptions (\<open>reg_inv\<close>), every operation keeps that and does to the set of
  subscriptions what its comment says.
\<close>

section \<open>Poll buffers\<close>

definition pb_inv :: "poll_buffer \<Rightarrow> bool" where
  "pb_inv pb \<longleftrightarrow> 0 < pb_capacity pb \<and> length (ps_data (pb_buf pb)) = pb_capacity pb \<and>
     pb_len pb \<le> pb_capacity pb \<and> pb_head pb < pb_capacity pb"

definition pb_abs :: "poll_buffer \<Rightarrow> odf_value list" where
  "pb_abs pb = map (\<lambda>i. ps_data (pb_buf pb) ! ((pb_head pb + i) mod pb_capacity pb)) [0..<pb_len pb]"

lemma length_pb_abs [simp]: "length (pb_abs pb) = pb_len pb"
  by (simp add: pb_abs_def)

lemma pb_new_ok: "0 < n \<Longrightarrow> \<exists>pb. pb_new n = Some pb \<and> pb_inv pb \<and> pb_abs pb = [] \<and> pb_capacity pb = n"
  by (simp add: pb_new_def psram_new_with_eq pb_inv_def pb_abs_def)

lemma mod_add_inj:
  assumes "i < (c::nat)" "j < c" "h < c"
  shows "(h + i) mod c = (h + j) mod c \<longleftrightarrow> i = j"
  using assms by (auto simp: mod_if split: if_splits)

lemma pb_push_one_ok:
  assumes inv: "pb_inv pb"
  shows "\<exists>pb'. pb_push_one v pb = Some pb' \<and> pb_inv pb' \<and> pb_capacity pb' = pb_capacity pb \<and>
    pb_abs pb' = last_n (pb_capacity pb) (pb_abs pb @ [v])"
proof (cases "pb_len pb < pb_capacity pb")
  case True
  let ?w = "(pb_head pb + pb_len pb) mod pb_capacity pb"
  have w: "?w < pb_capacity pb" using inv by (simp add: pb_inv_def)
  define pb' where "pb' = pb\<lparr>pb_buf := (pb_buf pb)\<lparr>ps_data := (ps_data (pb_buf pb))[?w := v]\<rparr>,
    pb_len := pb_len pb + 1\<rparr>"
  have "pb_push_one v pb = Some pb'"
    using True inv w by (simp add: pb_push_one_def pb_inv_def psram_defs pb'_def)
  moreover have "pb_abs pb' = pb_abs pb @ [v]"
    using True inv w
    by (intro nth_equalityI) (auto simp: pb_abs_def pb'_def nth_append pb_inv_def
        nth_list_update mod_add_inj less_Suc_eq)
  ultimately show ?thesis using True inv by (auto simp: pb_inv_def pb'_def)
next
  case False
  then have full: "pb_len pb = pb_capacity pb" using inv by (simp add: pb_inv_def)
  let ?c = "pb_capacity pb" and ?h = "pb_head pb"
  have c: "0 < ?c" "?h < ?c" "length (ps_data (pb_buf pb)) = ?c" using inv by (auto simp: pb_inv_def)
  define pb' where "pb' = pb\<lparr>pb_buf := (pb_buf pb)\<lparr>ps_data := (ps_data (pb_buf pb))[?h := v]\<rparr>,
    pb_head := (?h + 1) mod ?c\<rparr>"
  have "pb_push_one v pb = Some pb'"
    using full c by (simp add: pb_push_one_def psram_defs pb'_def)
  moreover have "pb_abs pb' = tl (pb_abs pb) @ [v]"
  proof (rule nth_equalityI)
    show "length (pb_abs pb') = length (tl (pb_abs pb) @ [v])"
      using full c by (simp add: pb'_def)
  next
    fix i assume "i < length (pb_abs pb')"
    then have i: "i < ?c" using full by (simp add: pb'_def)
    have "pb_abs pb' ! i = (ps_data (pb_buf pb))[?h := v] ! ((?h + Suc i) mod ?c)"
      using i full by (simp add: pb_abs_def pb'_def mod_add_left_eq)
    also have "\<dots> = (tl (pb_abs pb) @ [v]) ! i"
    proof (cases "Suc i < ?c")
      case True
      then have "(?h + Suc i) mod ?c \<noteq> (?h + 0) mod ?c"
        using c by (subst mod_add_inj) auto
      then show ?thesis using True c full
        by (simp add: nth_append nth_tl pb_abs_def)
    next
      case False
      then have "Suc i = ?c" using i by simp
      then show ?thesis using c full by (simp add: nth_append)
    qed
    finally show "pb_abs pb' ! i = (tl (pb_abs pb) @ [v]) ! i" .
  qed
  ultimately show ?thesis using full c inv
    by (auto simp: last_n_snoc_full pb_inv_def pb'_def)
qed

interpretation pb: bounded_log pb_push_one pb_capacity pb_abs pb_inv
proof unfold_locales
  show "\<exists>b'. pb_push_one v b = Some b' \<and> pb_inv b' \<and> pb_capacity b' = pb_capacity b \<and>
      pb_abs b' = last_n (pb_capacity b) (pb_abs b @ [v])" if "pb_inv b" for b v
    using that by (rule pb_push_one_ok)
qed (auto simp: pb_inv_def)

lemma pb_push_ok: "pb_inv pb \<Longrightarrow>
  \<exists>pb'. pb_push vs pb = Some pb' \<and> pb_inv pb' \<and> pb_capacity pb' = pb_capacity pb \<and>
    pb_abs pb' = last_n (pb_capacity pb) (pb_abs pb @ vs)"
  unfolding pb_push_def by (rule pb.push_all)

lemma pb_drain_ok: "pb_inv pb \<Longrightarrow>
  \<exists>pb'. pb_drain pb = Some (pb_abs pb, pb') \<and> pb_inv pb' \<and> pb_abs pb' = [] \<and>
    pb_capacity pb' = pb_capacity pb"
proof -
  assume inv: "pb_inv pb"
  have "those (map (\<lambda>i. do {
         idx \<leftarrow> rem_checked (pb_head pb + i) (pb_capacity pb);
         psram_get (pb_buf pb) idx }) [0..<pb_len pb]) = Some (pb_abs pb)"
    unfolding pb_abs_def using inv
    by (intro those_map_eq_Some) (auto simp: pb_inv_def psram_defs)
  with inv show ?thesis by (simp add: pb_drain_def pb_inv_def pb_abs_def)
qed

section \<open>The registry invariant\<close>

definition event_sub :: "subscription \<Rightarrow> bool" where
  "event_sub sub \<longleftrightarrow> sub_interval sub < Fin 0"

text \<open>Times of an interval subscription the scheduler can work with.\<close>

definition times_ok :: "subscription \<Rightarrow> bool" where
  "times_ok sub \<longleftrightarrow>
     (\<exists>p q. sub_trigger sub = Fin p \<and> 0 \<le> p \<and> sub_interval sub = Fin q \<and> 1 / 10 \<le> q \<and> q < 2 ^ 43)"

abbreviation sub_at :: "registry \<Rightarrow> string \<Rightarrow> subscription option" where
  "sub_at reg \<equiv> map_of (reg_subs reg)"

abbreviation poll_at :: "registry \<Rightarrow> string \<Rightarrow> poll_buffer option" where
  "poll_at reg \<equiv> map_of (reg_polls reg)"

definition rids_at :: "registry \<Rightarrow> string \<Rightarrow> string list" where
  "rids_at reg path = (case map_of (reg_events reg) path of None \<Rightarrow> [] | Some l \<Rightarrow> l)"

text \<open>\<open>reg_inv X reg\<close>: the indexes agree, where the subscriptions of \<open>X\<close> are interval
  subscriptions that have been taken off the queue (in the middle of a tick; \<open>X\<close> is
  empty between operations).\<close>

definition subs_inv :: "registry \<Rightarrow> bool" where
  "subs_inv reg \<longleftrightarrow> bt_ok (reg_subs reg) \<and> length (reg_subs reg) \<le> max_subscriptions \<and>
     (\<forall>rid sub. sub_at reg rid = Some sub \<longrightarrow>
        sub_rid sub = rid \<and> (event_sub sub \<or> times_ok sub) \<and>
        (\<exists>n < reg_next_id reg. rid = rid_of n))"

definition events_inv :: "registry \<Rightarrow> bool" where
  "events_inv reg \<longleftrightarrow> bt_ok (reg_events reg) \<and>
     (\<forall>path l. map_of (reg_events reg) path = Some l \<longrightarrow> l \<noteq> [] \<and> distinct l) \<and>
     (\<forall>path rid. rid \<in> set (rids_at reg path) \<longleftrightarrow>
        (\<exists>sub. sub_at reg rid = Some sub \<and> event_sub sub \<and> sub_path sub = path))"

definition queue_inv :: "string set \<Rightarrow> registry \<Rightarrow> bool" where
  "queue_inv X reg \<longleftrightarrow> distinct (reg_queue reg) \<and>
     (\<forall>rid. rid \<in> set (reg_queue reg) \<longleftrightarrow>
        rid \<notin> X \<and> (\<exists>sub. sub_at reg rid = Some sub \<and> \<not> event_sub sub)) \<and>
     sorted_wrt (\<lambda>a b. trigger_of reg a \<le> trigger_of reg b) (reg_queue reg)"

definition polls_inv :: "registry \<Rightarrow> bool" where
  "polls_inv reg \<longleftrightarrow> bt_ok (reg_polls reg) \<and>
     (\<forall>rid. poll_at reg rid \<noteq> None \<longleftrightarrow>
        (\<exists>sub. sub_at reg rid = Some sub \<and> sub_target sub = Poll)) \<and>
     (\<forall>rid pb. poll_at reg rid = Some pb \<longrightarrow> pb_inv pb \<and> pb_capacity pb = default_poll_capacity)"

definition reg_inv_but :: "string set \<Rightarrow> registry \<Rightarrow> bool" where
  "reg_inv_but X reg \<longleftrightarrow> subs_inv reg \<and> events_inv reg \<and> queue_inv X reg \<and> polls_inv reg"

abbreviation reg_inv :: "registry \<Rightarrow> bool" where
  "reg_inv \<equiv> reg_inv_but {}"

lemmas reg_parts = subs_inv_def events_inv_def queue_inv_def polls_inv_def

lemma events_inv_mem: "events_inv reg \<Longrightarrow> rid \<in> set (rids_at reg path) \<longleftrightarrow>
    (\<exists>sub. sub_at reg rid = Some sub \<and> event_sub sub \<and> sub_path sub = path)"
  unfolding events_inv_def by blast

lemma events_inv_bt: "events_inv reg \<Longrightarrow> bt_ok (reg_events reg)"
  unfolding events_inv_def by blast

lemma events_inv_list: "events_inv reg \<Longrightarrow> map_of (reg_events reg) path = Some l \<Longrightarrow>
    l \<noteq> [] \<and> distinct l"
  unfolding events_inv_def by blast

lemma polls_inv_mem: "polls_inv reg \<Longrightarrow> poll_at reg rid = None \<longleftrightarrow>
    \<not> (\<exists>sub. sub_at reg rid = Some sub \<and> sub_target sub = Poll)"
  unfolding polls_inv_def by metis

lemma polls_inv_pb: "polls_inv reg \<Longrightarrow> poll_at reg rid = Some pb \<Longrightarrow>
    pb_inv pb \<and> pb_capacity pb = default_poll_capacity"
  unfolding polls_inv_def by blast

lemma queue_inv_mem: "queue_inv X reg \<Longrightarrow> rid \<in> set (reg_queue reg) \<longleftrightarrow>
    rid \<notin> X \<and> (\<exists>sub. sub_at reg rid = Some sub \<and> \<not> event_sub sub)"
  unfolding queue_inv_def by blast

lemma queue_inv_distinct: "queue_inv X reg \<Longrightarrow> distinct (reg_queue reg)"
  unfolding queue_inv_def by blast

lemma queue_inv_sorted: "queue_inv X reg \<Longrightarrow>
    sorted_wrt (\<lambda>a b. trigger_of reg a \<le> trigger_of reg b) (reg_queue reg)"
  unfolding queue_inv_def by blast

lemma reg_new_inv [inv_intros]: "reg_inv reg_new"
  by (simp add: reg_inv_but_def reg_parts reg_new_def rids_at_def)

section \<open>Cancelling\<close>

lemma trigger_of_cong: "sub_at reg' rid = sub_at reg rid \<Longrightarrow> trigger_of reg' rid = trigger_of reg rid"
  by (simp add: trigger_of_def)

lemma sorted_wrt_filter_cong:
  assumes "sorted_wrt P xs" "\<And>a b. a \<in> set (filter Q xs) \<Longrightarrow> b \<in> set (filter Q xs) \<Longrightarrow> P a b \<Longrightarrow> P' a b"
  shows "sorted_wrt P' (filter Q xs)"
  using assms by (intro sorted_wrt_mono_rel [of "filter Q xs" P P']) (auto intro: sorted_wrt_filter)

lemma cancel_one_spec:
  assumes inv: "reg_inv_but X reg"
  shows "\<exists>reg'. cancel_one rid (reg, k) = (reg', k + (if sub_at reg rid = None then 0 else 1)) \<and>
    reg_inv_but (X - {rid}) reg' \<and> sub_at reg' = (sub_at reg)(rid := None) \<and>
    poll_at reg' = (poll_at reg)(rid := None) \<and> reg_next_id reg' = reg_next_id reg"
proof (cases "sub_at reg rid")
  case None
  moreover have "poll_at reg rid = None"
    using inv None unfolding reg_inv_but_def polls_inv_def by (metis option.simps(3))
  moreover have "queue_inv (X - {rid}) reg"
  proof -
    have "queue_inv X reg" using inv by (simp add: reg_inv_but_def)
    then show ?thesis using None unfolding queue_inv_def by (metis Diff_iff option.simps(3) singletonD)
  qed
  ultimately show ?thesis
    using inv by (auto simp: cancel_one_def reg_inv_but_def fun_upd_idem)
next
  case (Some sub)
  define reg' where "reg' = fst (cancel_one rid (reg, k))"
  have eq: "cancel_one rid (reg, k) = (reg', k + 1)"
    using Some by (simp add: reg'_def cancel_one_def Let_def)
  have parts: "subs_inv reg" "events_inv reg" "queue_inv X reg" "polls_inv reg"
    using inv by (simp_all add: reg_inv_but_def)
  have subs: "reg_subs reg' = bt_remove rid (reg_subs reg)"
    and polls: "reg_polls reg' = bt_remove rid (reg_polls reg)"
    and nid: "reg_next_id reg' = reg_next_id reg"
    using Some by (simp_all add: reg'_def cancel_one_def Let_def split: option.split)
  have sub_at': "sub_at reg' r = (if r = rid then None else sub_at reg r)" for r
    by (simp add: subs)
  have queue: "reg_queue reg' = (if event_sub sub then reg_queue reg else filter (\<lambda>r. r \<noteq> rid) (reg_queue reg))"
    using Some by (simp add: reg'_def cancel_one_def Let_def event_sub_def split: option.split)
  have l: "length (reg_subs reg') \<le> max_subscriptions"
    using length_bt_remove_le [of rid "reg_subs reg"] parts(1) by (simp add: subs subs_inv_def)
  have "subs_inv reg'"
    using parts(1) l by (auto simp: subs_inv_def subs nid)
  moreover have "events_inv reg'"
  proof (cases "event_sub sub")
    case False
    have ev: "reg_events reg' = reg_events reg"
      using Some False by (simp add: reg'_def cancel_one_def Let_def event_sub_def)
    have ra: "rids_at reg' p = rids_at reg p" for p
      by (simp add: rids_at_def ev)
    have ex: "(\<exists>sub. sub_at reg' r = Some sub \<and> event_sub sub \<and> sub_path sub = p) \<longleftrightarrow>
        (\<exists>sub. sub_at reg r = Some sub \<and> event_sub sub \<and> sub_path sub = p)" for r p
      using False Some by (auto simp: sub_at')
    show ?thesis using parts(2) unfolding events_inv_def ev ra ex .
  next
    case True
    then have rid: "rid \<in> set (rids_at reg (sub_path sub))"
      using Some True by (simp add: events_inv_mem [OF parts(2)])
    then obtain lst where lst: "map_of (reg_events reg) (sub_path sub) = Some lst"
      by (cases "map_of (reg_events reg) (sub_path sub)") (auto simp: rids_at_def)
    define l' where "l' = filter (\<lambda>r. r \<noteq> rid) lst"
    have ev: "reg_events reg' = (if l' = [] then bt_remove (sub_path sub) (reg_events reg)
                                 else bt_update (sub_path sub) l' (reg_events reg))"
      using Some True lst
      by (simp add: reg'_def cancel_one_def Let_def event_sub_def l'_def)
    have evmap: "map_of (reg_events reg') p =
        (if p = sub_path sub then (if l' = [] then None else Some l') else map_of (reg_events reg) p)" for p
      using lst by (simp add: ev map_of_bt_update)
    have "rids_at reg' p = (if p = sub_path sub then l' else rids_at reg p)" for p
      by (simp add: rids_at_def evmap)
    moreover have "rids_at reg (sub_path sub) = lst" using lst by (simp add: rids_at_def)
    ultimately have rids: "r \<in> set (rids_at reg' p) \<longleftrightarrow> r \<in> set (rids_at reg p) \<and> (p = sub_path sub \<longrightarrow> r \<noteq> rid)" for r p
      by (auto simp: l'_def)
    have "bt_ok (reg_events reg')"
      using events_inv_bt [OF parts(2)] by (simp add: ev)
    moreover have "\<forall>path l. map_of (reg_events reg') path = Some l \<longrightarrow> l \<noteq> [] \<and> distinct l"
    proof (intro allI impI)
      fix p l assume "map_of (reg_events reg') p = Some l"
      then have "l = l' \<and> l' \<noteq> [] \<or> map_of (reg_events reg) p = Some l"
        by (auto simp: evmap split: if_splits)
      then show "l \<noteq> [] \<and> distinct l"
        using events_inv_list [OF parts(2), of p l] events_inv_list [OF parts(2) lst]
        by (auto simp: l'_def)
    qed
    moreover have "r \<in> set (rids_at reg' p) \<longleftrightarrow>
        (\<exists>sub. sub_at reg' r = Some sub \<and> event_sub sub \<and> sub_path sub = p)" for r p
      unfolding rids events_inv_mem [OF parts(2)] using Some by (auto simp: sub_at')
    ultimately show ?thesis unfolding events_inv_def by blast
  qed
  moreover have "queue_inv (X - {rid}) reg'"
  proof -
    have mem: "r \<in> set (reg_queue reg') \<longleftrightarrow> r \<in> set (reg_queue reg) \<and> r \<noteq> rid" for r
      using parts(3) Some by (auto simp: queue queue_inv_def)
    have f: "reg_queue reg' = filter (\<lambda>r. r \<noteq> rid) (reg_queue reg)"
      using parts(3) Some by (auto simp: queue queue_inv_def intro!: filter_True [symmetric])
    have "sorted_wrt (\<lambda>a b. trigger_of reg' a \<le> trigger_of reg' b) (reg_queue reg')"
      unfolding f
    proof (rule sorted_wrt_filter_cong)
      show "sorted_wrt (\<lambda>a b. trigger_of reg a \<le> trigger_of reg b) (reg_queue reg)"
        using parts(3) by (rule queue_inv_sorted)
    qed (auto simp: trigger_of_def sub_at')
    then show ?thesis
      using parts(3) by (auto simp: queue_inv_def mem sub_at') (auto simp: f)
  qed
  moreover have "polls_inv reg'"
    using parts(4) by (auto simp: polls_inv_def polls sub_at')
  ultimately show ?thesis
    using Some by (simp add: eq reg_inv_but_def nid fun_eq_iff sub_at' polls)
qed

text \<open>Cancelling a list of ids removes the subscriptions named and counts them.\<close>

lemma cancel_fold:
  "reg_inv_but X reg \<Longrightarrow>
   \<exists>reg'. fold cancel_one rids (reg, k) = (reg', k + card (set rids \<inter> dom (sub_at reg))) \<and>
     reg_inv_but (X - set rids) reg' \<and> sub_at reg' = sub_at reg |` (- set rids) \<and>
     poll_at reg' = poll_at reg |` (- set rids) \<and> reg_next_id reg' = reg_next_id reg"
proof (induction rids arbitrary: X reg k)
  case (Cons rid rids)
  obtain reg1 where r1: "cancel_one rid (reg, k) = (reg1, k + (if sub_at reg rid = None then 0 else 1))"
      "reg_inv_but (X - {rid}) reg1" "sub_at reg1 = (sub_at reg)(rid := None)"
      "poll_at reg1 = (poll_at reg)(rid := None)" "reg_next_id reg1 = reg_next_id reg"
    using cancel_one_spec [OF Cons.prems] by blast
  obtain reg' where r': "fold cancel_one rids (reg1, k + (if sub_at reg rid = None then 0 else 1)) =
      (reg', k + (if sub_at reg rid = None then 0 else 1) + card (set rids \<inter> dom (sub_at reg1)))"
      "reg_inv_but (X - {rid} - set rids) reg'" "sub_at reg' = sub_at reg1 |` (- set rids)"
      "poll_at reg' = poll_at reg1 |` (- set rids)" "reg_next_id reg' = reg_next_id reg1"
    using Cons.IH [OF r1(2)] by blast
  have "set rids \<inter> dom (sub_at reg1) = set rids \<inter> dom (sub_at reg) - {rid}"
    unfolding r1(3) dom_fun_upd by auto
  moreover have "set (rid # rids) \<inter> dom (sub_at reg) =
      (if sub_at reg rid = None then set rids \<inter> dom (sub_at reg) - {rid}
       else insert rid (set rids \<inter> dom (sub_at reg) - {rid}))"
    by auto
  ultimately have card: "(if sub_at reg rid = None then 0 else 1) + card (set rids \<inter> dom (sub_at reg1)) =
      card (set (rid # rids) \<inter> dom (sub_at reg))"
    using card_insert_disjoint [of "set rids \<inter> dom (sub_at reg) - {rid}" rid]
    by (cases "sub_at reg rid") auto
  have m: "sub_at reg1 |` (- set rids) = sub_at reg |` (- set (rid # rids))"
      "poll_at reg1 |` (- set rids) = poll_at reg |` (- set (rid # rids))"
    unfolding r1(3,4) by (auto simp: restrict_map_def)
  have x: "X - set (rid # rids) = X - {rid} - set rids" by auto
  show ?case
    using r1(1) r' card unfolding x
    by (simp add: r1(5) m add.assoc )
qed (simp add: restrict_map_def)

lemma cancel_spec:
  "reg_inv_but X reg \<Longrightarrow>
   \<exists>reg'. cancel rids reg = (reg', card (set rids \<inter> dom (sub_at reg))) \<and>
     reg_inv_but (X - set rids) reg' \<and> sub_at reg' = sub_at reg |` (- set rids) \<and>
     poll_at reg' = poll_at reg |` (- set rids) \<and> reg_next_id reg' = reg_next_id reg"
  unfolding cancel_def using cancel_fold [of X reg rids 0] by simp

text \<open>The sweeps that cancel every subscription with a property.\<close>

lemma cancel_filter:
  fixes P :: "subscription \<Rightarrow> bool"
  assumes inv: "reg_inv reg"
  defines "rids \<equiv> map fst (filter (\<lambda>e. P (snd e)) (reg_subs reg))"
  shows "\<exists>reg'. (if 0 < length rids then fst (cancel rids reg) else reg) = reg' \<and> reg_inv reg' \<and>
    sub_at reg' = (\<lambda>r. case sub_at reg r of None \<Rightarrow> None | Some s \<Rightarrow> if P s then None else Some s) \<and>
    length rids = card {r. \<exists>s. sub_at reg r = Some s \<and> P s}"
proof -
  have ok: "bt_ok (reg_subs reg)" using inv by (simp add: reg_inv_but_def subs_inv_def)
  have set_rids: "set rids = {r. \<exists>s. sub_at reg r = Some s \<and> P s}"
  proof (rule set_eqI)
    fix r
    have "r \<in> set rids \<longleftrightarrow> (\<exists>s. (r, s) \<in> set (reg_subs reg) \<and> P s)"
      by (force simp: rids_def)
    then show "r \<in> set rids \<longleftrightarrow> r \<in> {r. \<exists>s. sub_at reg r = Some s \<and> P s}"
      using bt_ok_map_of [OF ok] by (auto dest: map_of_SomeD)
  qed
  have "distinct rids"
    using bt_ok_distinct [OF ok] by (simp add: rids_def distinct_map_filter)
  then have len: "length rids = card {r. \<exists>s. sub_at reg r = Some s \<and> P s}"
    using set_rids by (metis distinct_card)
  obtain reg' where r': "cancel rids reg = (reg', card (set rids \<inter> dom (sub_at reg)))"
      "reg_inv reg'" "sub_at reg' = sub_at reg |` (- set rids)"
    using cancel_spec [OF inv, of rids] by auto
  have sub': "sub_at reg' = (\<lambda>r. case sub_at reg r of None \<Rightarrow> None | Some s \<Rightarrow> if P s then None else Some s)"
    unfolding r'(3) set_rids by (auto simp: restrict_map_def fun_eq_iff split: option.split)
  show ?thesis
  proof (cases "rids = []")
    case True
    then have "\<not> P s" if "sub_at reg r = Some s" for r s
      using that set_rids by auto
    then have "sub_at reg = (\<lambda>r. case sub_at reg r of None \<Rightarrow> None | Some s \<Rightarrow> if P s then None else Some s)"
      by (auto simp: fun_eq_iff split: option.split)
    with True inv len show ?thesis by simp
  next
    case False
    then have "(if 0 < length rids then fst (cancel rids reg) else reg) = reg'"
      using r'(1) by simp
    with r'(2) sub' len show ?thesis by blast
  qed
qed

section \<open>Creating\<close>

lemma rid_of_inj: "rid_of m = rid_of n \<longleftrightarrow> m = n"
  by (simp add: rid_of_def dec_pad3_inj word_unat_eq_iff)

lemma insert_before_set [simp]: "set (insert_before P x xs) = insert x (set xs)"
  by (induction xs) auto

lemma insert_before_distinct [simp]:
  "distinct (insert_before P x xs) \<longleftrightarrow> x \<notin> set xs \<and> distinct xs"
  by (induction xs) auto

lemma insert_before_sorted:
  assumes "sorted_wrt (\<lambda>a b. (f a::f64) \<le> f b) xs" "\<And>a. a \<in> insert x (set xs) \<Longrightarrow> f a \<noteq> NaN"
  shows "sorted_wrt (\<lambda>a b. f a \<le> f b) (insert_before (\<lambda>r. f x < f r) x xs)"
  using assms
proof (induction xs)
  case (Cons y ys)
  show ?case
  proof (cases "f x < f y")
    case True
    then have "f x \<le> f y" using Cons.prems(2) by (metis f64_not_less f64_lt_irrefl f64_lt_trans insertCI list.set_intros(1))
    with True Cons.prems show ?thesis by (auto intro: f64_le_trans)
  next
    case False
    then have "f y \<le> f x" using Cons.prems(2) by (simp add: f64_not_less)
    with False Cons show ?thesis by auto
  qed
qed simp

lemma times_ok_trigger: "times_ok sub \<Longrightarrow> sub_trigger sub \<noteq> NaN"
  by (auto simp: times_ok_def)

text \<open>Requeueing a subscription that is off the queue.\<close>

lemma requeue_ok:
  assumes "subs_inv reg" "queue_inv X reg" "sub_at reg rid = Some sub" "\<not> event_sub sub" "rid \<in> X"
  shows "queue_inv (X - {rid}) (insert_interval_sorted rid reg)"
proof -
  have nn: "trigger_of reg a \<noteq> NaN" if "a \<in> insert rid (set (reg_queue reg))" for a
  proof -
    from that obtain s where "sub_at reg a = Some s" "\<not> event_sub s"
      using assms(3,4) by (auto simp: queue_inv_mem [OF assms(2)])
    then have "times_ok s" using assms(1) unfolding subs_inv_def by blast
    with \<open>sub_at reg a = Some s\<close> show ?thesis by (simp add: trigger_of_def times_ok_trigger)
  qed
  have tr: "trigger_of (insert_interval_sorted rid reg) = trigger_of reg"
    by (auto simp: fun_eq_iff trigger_of_def insert_interval_sorted_def)
  have "rid \<notin> set (reg_queue reg)" using assms(5) by (simp add: queue_inv_mem [OF assms(2)])
  moreover have "a \<in> set (reg_queue (insert_interval_sorted rid reg)) \<longleftrightarrow>
     a \<notin> X - {rid} \<and> (\<exists>sub. sub_at (insert_interval_sorted rid reg) a = Some sub \<and> \<not> event_sub sub)" for a
    using assms(3,4,5) queue_inv_mem [OF assms(2), of a]
    by (auto simp: insert_interval_sorted_def)
  moreover have "sorted_wrt (\<lambda>a b. trigger_of reg a \<le> trigger_of reg b)
      (reg_queue (insert_interval_sorted rid reg))"
    using insert_before_sorted [of "trigger_of reg" "reg_queue reg" rid] nn assms(2)
    by (simp add: insert_interval_sorted_def queue_inv_def)
  moreover have "distinct (reg_queue reg)" using assms(2) by (simp add: queue_inv_def)
  ultimately show ?thesis
    unfolding queue_inv_def tr by (simp add: insert_interval_sorted_def)
qed

lemma inv_polls_update:
  "subs_inv (reg\<lparr>reg_polls := p\<rparr>) = subs_inv reg"
  "events_inv (reg\<lparr>reg_polls := p\<rparr>) = events_inv reg"
  "queue_inv X (reg\<lparr>reg_polls := p\<rparr>) = queue_inv X reg"
  by (simp_all add: subs_inv_def events_inv_def queue_inv_def rids_at_def trigger_of_def)

lemma reg_inv_polls:
  "reg_inv_but X reg \<Longrightarrow> polls_inv (reg\<lparr>reg_polls := p\<rparr>) \<Longrightarrow> reg_inv_but X (reg\<lparr>reg_polls := p\<rparr>)"
  by (simp add: reg_inv_but_def inv_polls_update)

definition valid_interval :: "f64 \<Rightarrow> bool" where
  "valid_interval i \<longleftrightarrow> f64_eq i (Fin (- 1)) \<or> \<not> (i \<le> Fin 0 \<or> i < round64 (1 / 10))"

lemma create_rejects:
  "\<not> valid_interval interval \<Longrightarrow> \<exists>e. create path interval target ttl now reg = Some (reg, Inl e)"
  "valid_interval interval \<Longrightarrow> max_subscriptions \<le> length (reg_subs reg) \<Longrightarrow>
     create path interval target ttl now reg = Some (reg, Inl ''subscription limit reached'')"
  by (auto simp: create_def valid_interval_def)

lemma create_accepts:
  assumes inv: "reg_inv reg" and valid: "valid_interval interval"
    and room: "length (reg_subs reg) < max_subscriptions"
    and ids: "reg_next_id reg + 1 \<noteq> 0"
    and times: "now = Fin t" "0 \<le> t" "t < 2 ^ 43" "interval < Fin (2 ^ 43)"
  defines "rid \<equiv> rid_of (reg_next_id reg)"
  shows "\<exists>reg' sub. create path interval target ttl now reg = Some (reg', Inr rid) \<and>
    reg_inv reg' \<and> sub_at reg rid = None \<and> sub_at reg' = (sub_at reg)(rid \<mapsto> sub) \<and>
    sub_path sub = path \<and> sub_interval sub = interval \<and> sub_target sub = target \<and>
    sub_created_at sub = now \<and> sub_ttl sub = ttl \<and>
    (target = Poll \<longrightarrow> (\<exists>pb. poll_at reg' = (poll_at reg)(rid \<mapsto> pb) \<and> pb_abs pb = [])) \<and>
    (target \<noteq> Poll \<longrightarrow> poll_at reg' = poll_at reg)"
proof -
  have parts: "subs_inv reg" "events_inv reg" "queue_inv {} reg" "polls_inv reg"
    using inv by (simp_all add: reg_inv_but_def)
  have fresh: "sub_at reg rid = None"
  proof (cases "sub_at reg rid")
    case (Some s)
    then obtain n where "n < reg_next_id reg" "rid = rid_of n"
      using parts(1) unfolding subs_inv_def by blast
    then show ?thesis by (simp add: rid_def rid_of_inj)
  qed
  have not_polled: "poll_at reg rid = None" using fresh by (simp add: polls_inv_mem [OF parts(4)])
  have next_id: "n < reg_next_id reg + 1" if "n \<le> reg_next_id reg" for n
    using that ids unatSuc [of "reg_next_id reg"]
    by (simp add: word_less_nat_alt word_le_nat_alt add.commute)
  define trig where "trig = (if Fin 0 < interval then now + interval else Fin 0)"
  define sub where "sub = \<lparr>sub_rid = rid, sub_path = path, sub_interval = interval, sub_target = target,
                   sub_created_at = now, sub_ttl = ttl, sub_trigger = trig\<rparr>"
  have ev: "event_sub sub \<longleftrightarrow> interval < Fin 0" by (simp add: event_sub_def sub_def)
  have sp: "sub_path sub = path" by (simp add: sub_def)
  have times_sub: "times_ok sub" if "\<not> event_sub sub"
  proof -
    have "\<not> f64_eq interval (Fin (- 1))"
      using that by (cases interval) (auto simp: ev f64_eq_def)
    then obtain q where q: "interval = Fin q" "1 / 10 \<le> q" "q < 2 ^ 43"
      using valid times(4) by (cases interval) (auto simp: valid_interval_def round64_tenth)
    obtain r where "Fin t + Fin q = Fin r" "t + 9 / 100 < r"
      using f64_add_progress [OF times(2,3) q(2,3)] by blast
    then show ?thesis
      using q times(1,2) by (simp add: times_ok_def sub_def trig_def)
  qed
  define reg1 where "reg1 = reg\<lparr>reg_next_id := reg_next_id reg + 1,
    reg_subs := bt_insert rid sub (reg_subs reg)\<rparr>"
  have sub_at1: "sub_at reg1 r = (if r = rid then Some sub else sub_at reg r)" for r
    by (simp add: reg1_def)
  have subs1: "subs_inv reg1"
    unfolding subs_inv_def
  proof (intro conjI allI impI)
    show "bt_ok (reg_subs reg1)" using parts(1) by (simp add: reg1_def subs_inv_def)
    show "length (reg_subs reg1) \<le> max_subscriptions"
      using room length_bt_insert_le [of rid sub "reg_subs reg"] by (simp add: reg1_def)
    fix r s assume s: "sub_at reg1 r = Some s"
    have old: "sub_rid s = r \<and> (event_sub s \<or> times_ok s) \<and> (\<exists>n < reg_next_id reg. r = rid_of n)"
      if "r \<noteq> rid" using s that parts(1) by (auto simp: sub_at1 subs_inv_def)
    show "sub_rid s = r" "event_sub s \<or> times_ok s"
      using s old times_sub by (auto simp: sub_at1 sub_def split: if_splits)
    show "\<exists>n < reg_next_id reg1. r = rid_of n"
      using old next_id s by (cases "r = rid") (auto simp: reg1_def rid_def intro: order.strict_implies_order)
  qed
  define reg2 where "reg2 = (if interval < Fin 0
           then reg1\<lparr>reg_events := bt_insert path (rids_at reg path @ [rid]) (reg_events reg)\<rparr>
           else insert_interval_sorted rid reg1)"
  have same2: "reg_subs reg2 = reg_subs reg1" "reg_next_id reg2 = reg_next_id reg1" "reg_polls reg2 = reg_polls reg"
    by (simp_all add: reg2_def insert_interval_sorted_def reg1_def)
  have subs2: "subs_inv reg2" using subs1 by (simp add: subs_inv_def same2)
  have events2: "events_inv reg2"
  proof -
    have evs: "map_of (reg_events reg2) p = (if event_sub sub \<and> p = path then Some (rids_at reg path @ [rid])
        else map_of (reg_events reg) p)" for p
      by (simp add: reg2_def ev reg1_def insert_interval_sorted_def)
    have rids: "rids_at reg2 p = (if event_sub sub \<and> p = path then rids_at reg path @ [rid] else rids_at reg p)" for p
      by (simp add: rids_at_def evs)
    have notin: "rid \<notin> set (rids_at reg p)" for p
      using fresh by (simp add: events_inv_mem [OF parts(2)])
    have d: "distinct (rids_at reg path)"
      using events_inv_list [OF parts(2), of path]
      by (cases "map_of (reg_events reg) path") (simp_all add: rids_at_def)
    have "bt_ok (reg_events reg2)"
      using events_inv_bt [OF parts(2)] by (simp add: reg2_def reg1_def insert_interval_sorted_def)
    moreover have "\<forall>p l. map_of (reg_events reg2) p = Some l \<longrightarrow> l \<noteq> [] \<and> distinct l"
    proof (intro allI impI)
      fix p l assume "map_of (reg_events reg2) p = Some l"
      then have "l = rids_at reg path @ [rid] \<or> map_of (reg_events reg) p = Some l"
        by (auto simp: evs split: if_splits)
      then show "l \<noteq> [] \<and> distinct l"
        using events_inv_list [OF parts(2), of p l] d notin [of path] by auto
    qed
    moreover have "r \<in> set (rids_at reg2 p) \<longleftrightarrow>
        (\<exists>s. sub_at reg2 r = Some s \<and> event_sub s \<and> sub_path s = p)" for r p
    proof (cases "r = rid")
      case True
      then show ?thesis using notin [of p]
        by (auto simp: rids same2 sub_at1 sp)
    next
      case False
      then show ?thesis
        unfolding rids same2 sub_at1 using events_inv_mem [OF parts(2), of r p] by auto
    qed
    ultimately show ?thesis unfolding events_inv_def by blast
  qed
  have queue2: "queue_inv {} reg2"
  proof -
    have q1: "queue_inv (if event_sub sub then {} else {rid}) reg1"
      unfolding queue_inv_def
    proof (intro conjI allI)
      have rq: "reg_queue reg1 = reg_queue reg" by (simp add: reg1_def)
      have notin: "rid \<notin> set (reg_queue reg)" using fresh by (simp add: queue_inv_mem [OF parts(3)])
      show "distinct (reg_queue reg1)" using queue_inv_distinct [OF parts(3)] by (simp add: rq)
      show "r \<in> set (reg_queue reg1) \<longleftrightarrow> r \<notin> (if event_sub sub then {} else {rid}) \<and>
          (\<exists>s. sub_at reg1 r = Some s \<and> \<not> event_sub s)" for r
        using notin queue_inv_mem [OF parts(3), of r] by (auto simp: rq sub_at1)
      show "sorted_wrt (\<lambda>a b. trigger_of reg1 a \<le> trigger_of reg1 b) (reg_queue reg1)"
        unfolding rq
      proof (rule sorted_wrt_mono_rel [OF _ queue_inv_sorted [OF parts(3)]])
        fix a b assume "a \<in> set (reg_queue reg)" "b \<in> set (reg_queue reg)"
          "trigger_of reg a \<le> trigger_of reg b"
        then show "trigger_of reg1 a \<le> trigger_of reg1 b"
          using notin by (auto simp: trigger_of_def sub_at1)
      qed
    qed
    show ?thesis
    proof (cases "event_sub sub")
      case True
      then show ?thesis using q1
        by (simp add: reg2_def ev queue_inv_def trigger_of_def)
    next
      case False
      then show ?thesis
        using requeue_ok [OF subs1 q1, of rid sub] by (simp add: sub_at1 reg2_def ev)
    qed
  qed
  obtain pb where pb: "pb_new default_poll_capacity = Some pb" "pb_inv pb" "pb_abs pb = []"
      "pb_capacity pb = default_poll_capacity"
    using pb_new_ok [of default_poll_capacity] by (auto simp: default_poll_capacity_def)
  define reg3 where "reg3 = (if target = Poll then reg2\<lparr>reg_polls := bt_insert rid pb (reg_polls reg2)\<rparr> else reg2)"
  have same3: "reg_subs reg3 = reg_subs reg2" "reg_events reg3 = reg_events reg2"
      "reg_queue reg3 = reg_queue reg2" "reg_next_id reg3 = reg_next_id reg2"
    by (simp_all add: reg3_def)
  have polls3: "poll_at reg3 r = (if target = Poll \<and> r = rid then Some pb else poll_at reg r)" for r
    by (simp add: reg3_def same2)
  have "polls_inv reg3"
    unfolding polls_inv_def
  proof (intro conjI allI impI)
    show "bt_ok (reg_polls reg3)" using parts(4) by (simp add: reg3_def same2 polls_inv_def)
    show "poll_at reg3 r \<noteq> None \<longleftrightarrow> (\<exists>s. sub_at reg3 r = Some s \<and> sub_target s = Poll)" for r
      using polls_inv_mem [OF parts(4), of r] not_polled fresh
      by (auto simp: polls3 same3 same2 sub_at1 sub_def)
    fix r b assume "poll_at reg3 r = Some b"
    then show "pb_inv b" "pb_capacity b = default_poll_capacity"
      using polls_inv_pb [OF parts(4), of r b] pb by (auto simp: polls3 split: if_splits)
  qed
  moreover have "subs_inv reg3" using subs2 by (simp add: reg3_def inv_polls_update)
  moreover have "events_inv reg3" using events2 by (simp add: reg3_def inv_polls_update)
  moreover have "queue_inv {} reg3" using queue2 by (simp add: reg3_def inv_polls_update)
  moreover have "create path interval target ttl now reg = Some (reg3, Inr rid)"
    using valid room pb(1) unfolding create_def valid_interval_def
    by (simp add: generate_rid_def reg3_def reg2_def reg1_def sub_def trig_def rid_def rids_at_def
        insert_interval_sorted_def trigger_of_def) blast
  moreover have "sub_at reg3 = (sub_at reg)(rid \<mapsto> sub)"
    by (simp add: fun_eq_iff same3 same2 sub_at1)
  moreover have "poll_at reg3 = (if target = Poll then (poll_at reg)(rid \<mapsto> pb) else poll_at reg)"
    by (simp add: fun_eq_iff polls3)
  ultimately show ?thesis
    using fresh pb(3) by (intro exI [of _ reg3] exI [of _ sub]) (auto simp: reg_inv_but_def sub_def)
qed

section \<open>Notifying\<close>

definition poll_contents :: "registry \<Rightarrow> string \<Rightarrow> odf_value list option" where
  "poll_contents reg rid = map_option pb_abs (poll_at reg rid)"

text \<open>Values pushed into one poll buffer.\<close>

lemma push_poll:
  assumes "polls_inv reg" "poll_at reg rid = Some pb"
  obtains pb' where "pb_push values pb = Some pb'"
    "polls_inv (reg\<lparr>reg_polls := bt_update rid pb' (reg_polls reg)\<rparr>)"
    "poll_contents (reg\<lparr>reg_polls := bt_update rid pb' (reg_polls reg)\<rparr>) =
       (poll_contents reg)(rid \<mapsto> last_n default_poll_capacity (pb_abs pb @ values))"
proof -
  have pb: "pb_inv pb" "pb_capacity pb = default_poll_capacity"
    using polls_inv_pb [OF assms] by auto
  obtain pb' where pb': "pb_push values pb = Some pb'" "pb_inv pb'" "pb_capacity pb' = default_poll_capacity"
      "pb_abs pb' = last_n default_poll_capacity (pb_abs pb @ values)"
    using pb_push_ok [OF pb(1), of "values"] pb(2) by auto
  let ?reg = "reg\<lparr>reg_polls := bt_update rid pb' (reg_polls reg)\<rparr>"
  have at: "poll_at ?reg r = (if r = rid then Some pb' else poll_at reg r)" for r
    using assms(2) by (simp add: map_of_bt_update)
  have "polls_inv ?reg"
    unfolding polls_inv_def at
  proof (intro conjI allI impI)
    show "bt_ok (reg_polls ?reg)" using assms(1) by (simp add: polls_inv_def)
    show "(if r = rid then Some pb' else poll_at reg r) \<noteq> None \<longleftrightarrow>
        (\<exists>sub. sub_at ?reg r = Some sub \<and> sub_target sub = Poll)" for r
      using polls_inv_mem [OF assms(1), of r] assms(2) by auto
    fix r b assume "(if r = rid then Some pb' else poll_at reg r) = Some b"
    then show "pb_inv b" "pb_capacity b = default_poll_capacity"
      using polls_inv_pb [OF assms(1), of r b] pb' by (auto split: if_splits)
  qed
  moreover have "poll_contents ?reg =
      (poll_contents reg)(rid \<mapsto> last_n default_poll_capacity (pb_abs pb @ values))"
    using assms(2) by (auto simp: fun_eq_iff poll_contents_def map_of_bt_update pb'(4))
  ultimately show ?thesis using that pb'(1) by blast
qed

text \<open>The delivery a change at \<open>path\<close> owes to a subscription.\<close>

definition owed :: "string \<Rightarrow> odf_value list \<Rightarrow> f64 \<Rightarrow> registry \<Rightarrow> string \<Rightarrow> delivery option" where
  "owed path values now reg rid =
     (case sub_at reg rid of
        None \<Rightarrow> None
      | Some s \<Rightarrow>
          if is_expired s now \<or> sub_target s = Poll then None
          else Some \<lparr>dl_rid = rid, dl_path = path, dl_values = values, dl_target = sub_target s\<rparr>)"

definition expired_at :: "registry \<Rightarrow> f64 \<Rightarrow> string \<Rightarrow> bool" where
  "expired_at reg now rid = (case sub_at reg rid of None \<Rightarrow> False | Some s \<Rightarrow> is_expired s now)"

text \<open>What a poll buffer holds after the values have been pushed to the live pollers.\<close>

definition buffered :: "string set \<Rightarrow> odf_value list \<Rightarrow> f64 \<Rightarrow> registry \<Rightarrow> string \<Rightarrow> odf_value list option" where
  "buffered R values now reg rid =
     (case poll_contents reg rid of
        None \<Rightarrow> None
      | Some vs \<Rightarrow> if rid \<in> R \<and> \<not> expired_at reg now rid
                  then Some (last_n default_poll_capacity (vs @ values)) else Some vs)"

lemma notify_fold:
  assumes "polls_inv reg" "distinct rids"
  shows "\<exists>polls. fold_opt (notify_one path values now) rids (reg, ds, ex) =
      Some (reg\<lparr>reg_polls := polls\<rparr>, ds @ List.map_filter (owed path values now reg) rids,
            ex @ filter (expired_at reg now) rids) \<and>
      polls_inv (reg\<lparr>reg_polls := polls\<rparr>) \<and>
      poll_contents (reg\<lparr>reg_polls := polls\<rparr>) = buffered (set rids) values now reg"
  using assms
proof (induction rids arbitrary: reg ds ex)
  case Nil
  have "buffered {} values now reg = poll_contents reg"
    by (simp add: fun_eq_iff buffered_def split: option.split)
  with Nil show ?case by (intro exI [of _ "reg_polls reg"]) (simp add: map_filter_simps)
next
  case (Cons rid rids)
  have same: "owed path values now (reg\<lparr>reg_polls := p\<rparr>) = owed path values now reg"
    "expired_at (reg\<lparr>reg_polls := p\<rparr>) now = expired_at reg now" for p
    by (simp_all add: fun_eq_iff owed_def expired_at_def)
  show ?case
  proof (cases "poll_at reg rid = None \<or> expired_at reg now rid")
    case True
    have step: "notify_one path values now rid (reg, ds, ex) =
        Some (reg, ds @ List.map_filter (owed path values now reg) [rid],
              ex @ filter (expired_at reg now) [rid])"
      using True polls_inv_mem [OF Cons.prems(1), of rid]
      by (auto simp: notify_one_def owed_def expired_at_def map_filter_simps
          split: option.split delivery_target.split)
    have "buffered (set (rid # rids)) values now reg = buffered (set rids) values now reg"
      using True by (auto simp: fun_eq_iff buffered_def poll_contents_def split: option.split)
    then show ?thesis
      using Cons.IH [OF Cons.prems(1), of "ds @ List.map_filter (owed path values now reg) [rid]"
          "ex @ filter (expired_at reg now) [rid]"] Cons.prems(2) step
      by (cases "owed path values now reg rid"; cases "expired_at reg now rid")
        (simp_all add: map_filter_simps)
  next
    case False
    then obtain pb s where pb: "poll_at reg rid = Some pb" and s: "sub_at reg rid = Some s"
        "sub_target s = Poll" "\<not> is_expired s now"
      using polls_inv_mem [OF Cons.prems(1), of rid] by (auto simp: expired_at_def)
    obtain pb' where pb': "pb_push values pb = Some pb'"
        "polls_inv (reg\<lparr>reg_polls := bt_update rid pb' (reg_polls reg)\<rparr>)"
        "poll_contents (reg\<lparr>reg_polls := bt_update rid pb' (reg_polls reg)\<rparr>) =
           (poll_contents reg)(rid \<mapsto> last_n default_poll_capacity (pb_abs pb @ values))"
      using push_poll [OF Cons.prems(1) pb] by blast
    let ?reg = "reg\<lparr>reg_polls := bt_update rid pb' (reg_polls reg)\<rparr>"
    have step: "notify_one path values now rid (reg, ds, ex) = Some (?reg, ds, ex)"
      using s pb pb'(1) by (simp add: notify_one_def)
    have "buffered (set rids) values now ?reg = buffered (set (rid # rids)) values now reg"
      using Cons.prems(2) False pb
      by (auto simp: fun_eq_iff buffered_def pb'(3) same(2) poll_contents_def split: option.split)
    moreover have "owed path values now reg rid = None" "\<not> expired_at reg now rid"
      using s by (simp_all add: owed_def expired_at_def)
    ultimately show ?thesis
      using Cons.IH [OF pb'(2), of ds ex] Cons.prems(2) step
      by (simp add: map_filter_simps same)
  qed
qed

text \<open>The operation: one delivery for each live remote subscriber of the path, in order of
  subscription, and one push for each live poller; the expired subscribers are gone.\<close>

lemma notify_event_spec:
  assumes inv: "reg_inv reg"
  shows "\<exists>reg'. notify_event path values now reg =
      Some (reg', List.map_filter (owed path values now reg) (rids_at reg path)) \<and>
    reg_inv reg' \<and>
    sub_at reg' = (\<lambda>r. if r \<in> set (rids_at reg path) \<and> expired_at reg now r then None else sub_at reg r) \<and>
    (\<forall>r. sub_at reg' r \<noteq> None \<longrightarrow>
       poll_contents reg' r = buffered (set (rids_at reg path)) values now reg r)"
proof (cases "map_of (reg_events reg) path")
  case None
  have "buffered {} values now reg = poll_contents reg"
    by (simp add: fun_eq_iff buffered_def split: option.split)
  with None inv show ?thesis by (simp add: notify_event_def rids_at_def map_filter_simps)
next
  case (Some rids)
  have parts: "subs_inv reg" "events_inv reg" "queue_inv {} reg" "polls_inv reg"
    using inv by (simp_all add: reg_inv_but_def)
  have d: "distinct rids" using events_inv_list [OF parts(2) Some] by simp
  obtain polls where p: "fold_opt (notify_one path values now) rids (reg, [], []) =
      Some (reg\<lparr>reg_polls := polls\<rparr>, List.map_filter (owed path values now reg) rids,
            filter (expired_at reg now) rids)"
      "polls_inv (reg\<lparr>reg_polls := polls\<rparr>)"
      "poll_contents (reg\<lparr>reg_polls := polls\<rparr>) = buffered (set rids) values now reg"
    using notify_fold [OF parts(4) d, of path "values" now "[]" "[]"] by auto
  define reg1 where "reg1 = reg\<lparr>reg_polls := polls\<rparr>"
  define ex where "ex = filter (expired_at reg now) rids"
  have inv1: "reg_inv reg1"
    using inv p(2) unfolding reg1_def by (rule reg_inv_polls)
  obtain reg2 where r2: "fst (cancel ex reg1) = reg2" "reg_inv reg2"
      "sub_at reg2 = sub_at reg1 |` (- set ex)" "poll_at reg2 = poll_at reg1 |` (- set ex)"
    using cancel_spec [OF inv1, of ex] by auto
  define reg' where "reg' = (if ex \<noteq> [] then reg2 else reg1)"
  have "notify_event path values now reg = Some (reg', List.map_filter (owed path values now reg) rids)"
    using Some p(1) r2(1) by (simp add: notify_event_def reg'_def reg1_def ex_def)
  moreover have "reg_inv reg'" using inv1 r2(2) by (simp add: reg'_def)
  moreover have "sub_at reg' r = (if r \<in> set rids \<and> expired_at reg now r then None else sub_at reg r)" for r
    using r2(3) by (auto simp: reg'_def reg1_def ex_def restrict_map_def filter_empty_conv)
  moreover have "poll_contents reg' r = buffered (set rids) values now reg r" if "sub_at reg' r \<noteq> None" for r
  proof -
    have "poll_at reg' r = poll_at reg1 r"
      using that r2(3,4) by (auto simp: reg'_def restrict_map_def split: if_splits)
    then show ?thesis using p(3) by (simp add: poll_contents_def reg1_def fun_eq_iff)
  qed
  moreover have "rids_at reg path = rids" using Some by (simp add: rids_at_def)
  ultimately show ?thesis by (intro exI [of _ reg']) (simp add: fun_eq_iff)
qed

end
