(* ===== verification/SubsTick.thy ===== *)
theory SubsTick
  imports SubsInv
begin

text \<open>
  The interval scheduler of \<open>src/omi/subscriptions.rs\<close>: \<open>tick_intervals\<close> returns,
  leaves no due subscription in the queue, and delivers to every subscription that was due;
  \<open>poll\<close> and \<open>expire\<close>. The loop ends because each turn either drops a subscription
  from the queue or moves its trigger time forward by more than 0.09 seconds, which needs
  times of ordinary size (below \<open>2^43\<close> seconds, about 280,000 years).
\<close>

section \<open>Turns of the loop\<close>

lemma pop_inv:
  assumes "queue_inv X reg" "reg_queue reg = rid # rest"
  shows "queue_inv (insert rid X) (reg\<lparr>reg_queue := rest\<rparr>)"
proof -
  have d: "rid \<notin> set rest" "distinct rest"
    using queue_inv_distinct [OF assms(1)] assms(2) by auto
  have tr: "trigger_of (reg\<lparr>reg_queue := rest\<rparr>) = trigger_of reg"
    by (simp add: fun_eq_iff trigger_of_def)
  have "sorted_wrt (\<lambda>a b. trigger_of reg a \<le> trigger_of reg b) rest"
    using queue_inv_sorted [OF assms(1)] assms(2) by simp
  moreover have "r \<in> set rest \<longleftrightarrow> r \<notin> insert rid X \<and> (\<exists>sub. sub_at reg r = Some sub \<and> \<not> event_sub sub)" for r
    using queue_inv_mem [OF assms(1), of r] d assms(2) by auto
  ultimately show ?thesis using d(2) unfolding queue_inv_def tr by simp
qed

lemma inv_queue_update:
  "subs_inv (reg\<lparr>reg_queue := q\<rparr>) = subs_inv reg"
  "events_inv (reg\<lparr>reg_queue := q\<rparr>) = events_inv reg"
  "polls_inv (reg\<lparr>reg_queue := q\<rparr>) = polls_inv reg"
  by (simp_all add: subs_inv_def events_inv_def polls_inv_def rids_at_def)

lemma sub_at_set_trigger:
  "sub_at reg rid = Some sub \<Longrightarrow>
   sub_at (set_trigger rid t reg) r = (if r = rid then Some (sub\<lparr>sub_trigger := t\<rparr>) else sub_at reg r)"
  by (simp add: set_trigger_def map_of_bt_update)

lemma set_trigger_rest [simp]:
  "reg_events (set_trigger rid t reg) = reg_events reg"
  "reg_queue (set_trigger rid t reg) = reg_queue reg"
  "reg_polls (set_trigger rid t reg) = reg_polls reg"
  "reg_next_id (set_trigger rid t reg) = reg_next_id reg"
  "rids_at (set_trigger rid t reg) = rids_at reg"
  "length (reg_subs (set_trigger rid t reg)) = length (reg_subs reg)"
  "bt_ok (reg_subs (set_trigger rid t reg)) = bt_ok (reg_subs reg)"
  by (cases "sub_at reg rid"; simp add: set_trigger_def rids_at_def fun_eq_iff)+

lemma set_trigger_inv:
  assumes inv: "subs_inv reg" "events_inv reg" "queue_inv X reg" "polls_inv reg"
    and rid: "sub_at reg rid = Some sub" "\<not> event_sub sub" "rid \<in> X"
    and t: "times_ok (sub\<lparr>sub_trigger := t\<rparr>)"
  defines "reg' \<equiv> set_trigger rid t reg"
  shows "subs_inv reg'" "events_inv reg'" "queue_inv X reg'" "polls_inv reg'"
proof -
  let ?sub = "sub\<lparr>sub_trigger := t\<rparr>"
  have at: "sub_at reg' r = (if r = rid then Some ?sub else sub_at reg r)" for r
    unfolding reg'_def by (rule sub_at_set_trigger [OF rid(1)])
  have ev: "event_sub ?sub = event_sub sub" by (simp add: event_sub_def)
  have iff: "(\<exists>s. sub_at reg' r = Some s \<and> P s) \<longleftrightarrow> (\<exists>s. sub_at reg r = Some s \<and> P s)"
    if "P ?sub = P sub" for P r
    using that rid(1) by (auto simp: at)
  show "subs_inv reg'"
    unfolding subs_inv_def
  proof (intro conjI allI impI)
    show "bt_ok (reg_subs reg')" "length (reg_subs reg') \<le> max_subscriptions"
      using inv(1) by (simp_all add: reg'_def subs_inv_def)
    fix r s assume s: "sub_at reg' r = Some s"
    then obtain s0 where s0: "sub_at reg r = Some s0" "sub_rid s = sub_rid s0"
        "s = s0 \<or> s = ?sub"
      using rid(1) by (auto simp: at split: if_splits)
    then have "sub_rid s0 = r \<and> (event_sub s0 \<or> times_ok s0) \<and> (\<exists>n < reg_next_id reg. r = rid_of n)"
      using inv(1) unfolding subs_inv_def by blast
    then show "sub_rid s = r" "event_sub s \<or> times_ok s" "\<exists>n < reg_next_id reg'. r = rid_of n"
      using s0 t by (auto simp: reg'_def)
  qed
  show "events_inv reg'"
  proof -
    have "(\<exists>s. sub_at reg' r = Some s \<and> event_sub s \<and> sub_path s = p) \<longleftrightarrow>
        (\<exists>s. sub_at reg r = Some s \<and> event_sub s \<and> sub_path s = p)" for r p
      by (rule iff) (simp add: ev)
    moreover have "rids_at reg' = rids_at reg" "reg_events reg' = reg_events reg"
      by (simp_all add: reg'_def)
    ultimately show ?thesis using inv(2) unfolding events_inv_def by presburger
  qed
  show "polls_inv reg'"
  proof -
    have "(\<exists>s. sub_at reg' r = Some s \<and> sub_target s = Poll) \<longleftrightarrow>
        (\<exists>s. sub_at reg r = Some s \<and> sub_target s = Poll)" for r
      by (rule iff) simp
    moreover have "reg_polls reg' = reg_polls reg" by (simp add: reg'_def)
    ultimately show ?thesis using inv(4) unfolding polls_inv_def by presburger
  qed
  have q: "reg_queue reg' = reg_queue reg" by (simp add: reg'_def)
  have "sorted_wrt (\<lambda>a b. trigger_of reg' a \<le> trigger_of reg' b) (reg_queue reg)"
  proof (rule sorted_wrt_mono_rel [OF _ queue_inv_sorted [OF inv(3)]])
    fix a b assume "a \<in> set (reg_queue reg)" "b \<in> set (reg_queue reg)"
      "trigger_of reg a \<le> trigger_of reg b"
    then show "trigger_of reg' a \<le> trigger_of reg' b"
      using rid(3) queue_inv_mem [OF inv(3)] by (auto simp: trigger_of_def at)
  qed
  moreover have "r \<in> set (reg_queue reg') \<longleftrightarrow> r \<notin> X \<and> (\<exists>s. sub_at reg' r = Some s \<and> \<not> event_sub s)" for r
    unfolding q iff [of "\<lambda>s. \<not> event_sub s", unfolded ev, OF refl] by (rule queue_inv_mem [OF inv(3)])
  ultimately show "queue_inv X reg'"
    unfolding queue_inv_def using queue_inv_distinct [OF inv(3)] by (simp add: q)
qed

section \<open>What a tick owes\<close>

text \<open>A subscription without its trigger time: what a tick never changes.\<close>

definition untimed :: "registry \<Rightarrow> string \<Rightarrow> subscription option" where
  "untimed reg r = map_option (\<lambda>s. s\<lparr>sub_trigger := Fin 0\<rparr>) (sub_at reg r)"

definition due_remote :: "f64 \<Rightarrow> registry \<Rightarrow> string set" where
  "due_remote now reg = {r. r \<in> set (reg_queue reg) \<and> (\<exists>s. sub_at reg r = Some s \<and>
     sub_trigger s \<le> now \<and> \<not> is_expired s now \<and> sub_target s \<noteq> Poll)}"

text \<open>A delivery that reports the current value of the path of its own subscription.\<close>

definition genuine :: "(string \<Rightarrow> odf_value list option) \<Rightarrow> registry \<Rightarrow> delivery \<Rightarrow> bool" where
  "genuine read_current reg d =
     (case sub_at reg (dl_rid d) of
        None \<Rightarrow> False
      | Some s \<Rightarrow> dl_path d = sub_path s \<and> dl_target d = sub_target s \<and> sub_target s \<noteq> Poll \<and>
          dl_values d = case_option [] id (read_current (sub_path s)))"

lemma same_untimed:
  "a\<lparr>sub_trigger := x\<rparr> = b\<lparr>sub_trigger := x\<rparr> \<Longrightarrow> sub_path a = sub_path b \<and> sub_target a = sub_target b \<and>
     sub_ttl a = sub_ttl b \<and> sub_created_at a = sub_created_at (b::subscription)"
  by (cases a; cases b) simp

lemma genuine_untimed:
  assumes "untimed reg' = untimed reg"
  shows "genuine rc reg' d = genuine rc reg d"
proof -
  from assms have "untimed reg' (dl_rid d) = untimed reg (dl_rid d)" by simp
  then show ?thesis
    by (cases "sub_at reg (dl_rid d)"; cases "sub_at reg' (dl_rid d)")
      (auto simp: genuine_def untimed_def dest!: same_untimed)
qed

section \<open>The loop returns\<close>

definition turns :: "rat \<Rightarrow> f64 \<Rightarrow> nat" where
  "turns t x = (case x of Fin p \<Rightarrow> if p \<le> t then 1 + nat \<lceil>(t - p) * 100 / 9\<rceil> else 0 | _ \<Rightarrow> 0)"

definition total_turns :: "rat \<Rightarrow> registry \<Rightarrow> nat" where
  "total_turns t reg = sum_list (map (\<lambda>r. turns t (trigger_of reg r)) (reg_queue reg))"

lemma turns_progress:
  assumes "p \<le> t" "p + 9 / 100 < p'"
  shows "turns t (Fin p') < turns t (Fin p)"
proof (cases "p' \<le> t")
  case True
  have "(t - p') * 100 / 9 \<le> (t - p) * 100 / 9 - 1"
    using assms(2) by (simp add: field_simps)
  then have "\<lceil>(t - p') * 100 / 9\<rceil> \<le> \<lceil>(t - p) * 100 / 9\<rceil> - 1"
    by (metis ceiling_diff_one ceiling_mono)
  moreover have "0 < \<lceil>(t - p) * 100 / 9\<rceil>" using True assms(2) by simp
  ultimately show ?thesis using True assms(1) by (simp add: turns_def nat_less_eq_zless)
qed (use assms(1) in \<open>simp add: turns_def\<close>)

lemma sum_insert_before: "sum_list (map f (insert_before P x xs)) = f x + (sum_list (map f xs) :: nat)"
  by (induction xs) auto

lemma tick_deliver_ok:
  assumes "polls_inv reg" "sub_at reg rid = Some sub"
  shows "\<exists>p. tick_deliver rid sub vals (reg, ds) = Some (reg\<lparr>reg_polls := p\<rparr>,
      ds @ (if sub_target sub = Poll then []
            else [\<lparr>dl_rid = rid, dl_path = sub_path sub, dl_values = vals, dl_target = sub_target sub\<rparr>])) \<and>
    polls_inv (reg\<lparr>reg_polls := p\<rparr>)"
proof (cases "sub_target sub = Poll")
  case True
  obtain pb where "poll_at reg rid = Some pb"
    using True assms polls_inv_mem [OF assms(1), of rid] by auto
  then obtain pb' where pb': "pb_push vals pb = Some pb'" "poll_at reg rid = Some pb"
      "polls_inv (reg\<lparr>reg_polls := bt_update rid pb' (reg_polls reg)\<rparr>)"
    using push_poll [OF assms(1), of rid pb vals] by metis
  with True show ?thesis
    by (intro exI [of _ "bt_update rid pb' (reg_polls reg)"]) (simp add: tick_deliver_def)
next
  case False
  with assms show ?thesis
    by (intro exI [of _ "reg_polls reg"]) (cases "sub_target sub"; simp add: tick_deliver_def)
qed

text \<open>One turn of the loop on a due subscription.\<close>

lemma tick_turn:
  assumes inv: "reg_inv_but (set ex) reg" and now: "now = Fin t" "t < 2 ^ 43"
    and queue: "reg_queue reg = rid # rest" and due: "trigger_of reg rid \<le> now"
  shows "\<exists>reg1 d ex1. tick_loop now rc reg ds ex = tick_loop now rc reg1 (ds @ d) ex1 \<and>
    reg_inv_but (set ex1) reg1 \<and> total_turns t reg1 < total_turns t reg \<and>
    untimed reg1 = untimed reg \<and>
    (\<forall>r. r \<noteq> rid \<longrightarrow> sub_at reg1 r = sub_at reg r) \<and>
    (set (reg_queue reg1) = set (reg_queue reg) \<and> ex1 = ex \<or>
     set (reg_queue reg1) = set rest \<and> ex1 = ex @ [rid]) \<and>
    dl_rid ` set d = {rid} \<inter> due_remote now reg \<and> (\<forall>x \<in> set d. genuine rc reg x)"
proof -
  have parts: "subs_inv reg" "events_inv reg" "queue_inv (set ex) reg" "polls_inv reg"
    using inv by (simp_all add: reg_inv_but_def)
  obtain sub where sub: "sub_at reg rid = Some sub" "\<not> event_sub sub" "rid \<notin> set ex"
    using queue_inv_mem [OF parts(3), of rid] queue by auto
  then have "times_ok sub" using parts(1) unfolding subs_inv_def by blast
  then obtain p q where pq: "sub_trigger sub = Fin p" "0 \<le> p" "sub_interval sub = Fin q"
      "1 / 10 \<le> q" "q < 2 ^ 43"
    by (auto simp: times_ok_def)
  have trig: "trigger_of reg rid = Fin p" using sub pq by (simp add: trigger_of_def)
  have pt: "p \<le> t" using due by (simp add: trig now(1))
  have notin: "rid \<notin> set rest" using queue_inv_distinct [OF parts(3)] queue by simp
  define reg0 where "reg0 = reg\<lparr>reg_queue := rest\<rparr>"
  have inv0: "subs_inv reg0" "events_inv reg0" "queue_inv (insert rid (set ex)) reg0" "polls_inv reg0"
    using parts pop_inv [OF parts(3) queue] by (simp_all add: reg0_def inv_queue_update)
  have at0: "sub_at reg0 = sub_at reg" by (simp add: reg0_def)
  have turns0: "total_turns t reg = turns t (Fin p) + total_turns t reg0"
    by (simp add: total_turns_def queue trig) (simp add: reg0_def trigger_of_def)
  have pos: "0 < turns t (Fin p)" using pt by (simp add: turns_def)
  have step: "tick_loop now rc reg ds ex =
      (if is_expired sub now then tick_loop now rc reg0 ds (ex @ [rid])
       else Option.bind (tick_deliver rid sub (case_option [] id (rc (sub_path sub))) (reg0, ds))
         (\<lambda>rd. if sub_trigger sub + sub_interval sub \<le> expiry sub
               then tick_loop now rc (insert_interval_sorted rid
                        (set_trigger rid (sub_trigger sub + sub_interval sub) (fst rd))) (snd rd) ex
               else tick_loop now rc (fst rd) (snd rd) (ex @ [rid])))"
    using queue sub pt now by (subst tick_loop.simps) (simp add: pq(1) reg0_def)
  show ?thesis
  proof (cases "is_expired sub now")
    case True
    have "reg_inv_but (set (ex @ [rid])) reg0" using inv0 by (simp add: reg_inv_but_def)
    moreover have "rid \<notin> due_remote now reg" using True sub by (simp add: due_remote_def)
    moreover have "tick_loop now rc reg ds ex = tick_loop now rc reg0 (ds @ []) (ex @ [rid])"
      using True by (simp add: step)
    moreover have "untimed reg0 = untimed reg" by (simp add: untimed_def at0 fun_eq_iff)
    moreover have "set (reg_queue reg0) = set rest" by (simp add: reg0_def)
    moreover have "total_turns t reg0 < total_turns t reg" using turns0 pos by simp
    ultimately show ?thesis
      using at0 by (intro exI [of _ reg0] exI [of _ "[]"] exI [of _ "ex @ [rid]"]) simp
  next
    case False
    define d where "d = (if sub_target sub = Poll then []
        else [\<lparr>dl_rid = rid, dl_path = sub_path sub,
               dl_values = case_option [] id (rc (sub_path sub)), dl_target = sub_target sub\<rparr>])"
    obtain polls where polls: "tick_deliver rid sub (case_option [] id (rc (sub_path sub))) (reg0, ds) =
          Some (reg0\<lparr>reg_polls := polls\<rparr>, ds @ d)" "polls_inv (reg0\<lparr>reg_polls := polls\<rparr>)"
      using tick_deliver_ok [OF inv0(4), of rid sub] sub(1) at0 unfolding d_def by metis
    define reg1 where "reg1 = reg0\<lparr>reg_polls := polls\<rparr>"
    have inv1: "subs_inv reg1" "events_inv reg1" "queue_inv (insert rid (set ex)) reg1" "polls_inv reg1"
      using inv0 polls(2) by (simp_all add: reg1_def inv_polls_update)
    have at1: "sub_at reg1 = sub_at reg" "reg_queue reg1 = rest" by (simp_all add: reg1_def reg0_def)
    have turns1: "total_turns t reg1 = total_turns t reg0"
      by (simp add: total_turns_def reg1_def trigger_of_def)
    have d: "dl_rid ` set d = {rid} \<inter> due_remote now reg" "\<forall>x \<in> set d. genuine rc reg x"
      using False sub pq(1) pt now(1) queue by (auto simp: d_def due_remote_def genuine_def)
    show ?thesis
    proof (cases "sub_trigger sub + sub_interval sub \<le> expiry sub")
      case False
      have "tick_loop now rc reg ds ex = tick_loop now rc reg1 (ds @ d) (ex @ [rid])"
        using \<open>\<not> is_expired sub now\<close> False polls(1) by (simp add: step reg1_def)
      moreover have "reg_inv_but (set (ex @ [rid])) reg1" using inv1 by (simp add: reg_inv_but_def)
      moreover have "untimed reg1 = untimed reg" by (simp add: untimed_def at1 fun_eq_iff)
      moreover have "total_turns t reg1 < total_turns t reg" using turns0 turns1 pos by simp
      ultimately show ?thesis
        using at1 d by (intro exI [of _ reg1] exI [of _ d] exI [of _ "ex @ [rid]"]) simp
    next
      case True
      obtain r where r: "Fin p + Fin q = Fin r" "p + 9 / 100 < r"
        using f64_add_progress [of p q] pq pt now(2) by auto
      define reg2 where "reg2 = set_trigger rid (Fin r) reg1"
      define reg3 where "reg3 = insert_interval_sorted rid reg2"
      have sub1: "sub_at reg1 rid = Some sub" using sub(1) at1 by simp
      have tok: "times_ok (sub\<lparr>sub_trigger := Fin r\<rparr>)"
        using pq r by (simp add: times_ok_def)
      note inv2 = set_trigger_inv [OF inv1 sub1 sub(2) insertI1 tok, folded reg2_def]
      have at2: "sub_at reg2 x = (if x = rid then Some (sub\<lparr>sub_trigger := Fin r\<rparr>) else sub_at reg x)" for x
        unfolding reg2_def at1(1) [symmetric] by (rule sub_at_set_trigger [OF sub1])
      have same3: "reg_subs reg3 = reg_subs reg2" "reg_events reg3 = reg_events reg2"
          "reg_polls reg3 = reg_polls reg2" "reg_next_id reg3 = reg_next_id reg2"
        by (simp_all add: reg3_def insert_interval_sorted_def)
      have "queue_inv (insert rid (set ex) - {rid}) reg3"
        unfolding reg3_def using at2 sub(2)
        by (intro requeue_ok [OF inv2(1,3), of rid "sub\<lparr>sub_trigger := Fin r\<rparr>"])
          (simp_all add: event_sub_def)
      moreover have "insert rid (set ex) - {rid} = set ex" using sub(3) by auto
      ultimately have "reg_inv_but (set ex) reg3"
        using inv2(1,2,4) inv_queue_update [of "reg_queue reg3" reg2]
        unfolding reg_inv_but_def reg3_def insert_interval_sorted_def by simp
      moreover have "tick_loop now rc reg ds ex = tick_loop now rc reg3 (ds @ d) ex"
        using \<open>\<not> is_expired sub now\<close> True polls(1) r(1)
        by (simp add: step reg3_def reg2_def reg1_def pq)
      moreover have "untimed reg3 = untimed reg"
        using sub(1) by (auto simp: fun_eq_iff untimed_def same3 at2)
      moreover have "set (reg_queue reg3) = set (reg_queue reg)"
        by (simp add: reg3_def insert_interval_sorted_def reg2_def at1(2) queue)
      moreover have "total_turns t reg3 < total_turns t reg"
      proof -
        have "total_turns t reg3 = turns t (trigger_of reg3 rid) +
            sum_list (map (\<lambda>x. turns t (trigger_of reg3 x)) (reg_queue reg2))"
          unfolding total_turns_def reg3_def insert_interval_sorted_def by (simp add: sum_insert_before)
        also have "trigger_of reg3 rid = Fin r" by (simp add: trigger_of_def same3 at2)
        also have "map (\<lambda>x. turns t (trigger_of reg3 x)) (reg_queue reg2) =
            map (\<lambda>x. turns t (trigger_of reg0 x)) rest"
          using notin by (auto simp: reg2_def at1(2) trigger_of_def same3 at2 [unfolded reg2_def] at0)
        also have "sum_list \<dots> = total_turns t reg0" by (simp add: total_turns_def reg0_def)
        finally show ?thesis using turns0 turns_progress [OF pt r(2)] by simp
      qed
      ultimately show ?thesis
        using at2 same3(1) d by (intro exI [of _ reg3] exI [of _ d] exI [of _ ex]) simp
    qed
  qed
qed

text \<open>The whole loop.\<close>

lemma tick_loop_ok:
  assumes "reg_inv_but (set ex) reg" "now = Fin t" "t < 2 ^ 43"
  shows "\<exists>reg' ds' ex'. tick_loop now rc reg ds ex = Some (reg', ds', ex') \<and>
    reg_inv_but (set ex') reg' \<and>
    (\<forall>r \<in> set (reg_queue reg'). now < trigger_of reg' r) \<and>
    untimed reg' = untimed reg \<and>
    (\<forall>r. r \<in> set (reg_queue reg) \<longrightarrow> now < trigger_of reg r \<longrightarrow> sub_at reg' r = sub_at reg r) \<and>
    (\<forall>r. r \<notin> set (reg_queue reg) \<longrightarrow> sub_at reg' r = sub_at reg r) \<and>
    set ex' \<subseteq> set ex \<union> {r \<in> set (reg_queue reg). trigger_of reg r \<le> now} \<and>
    dl_rid ` set ds' = dl_rid ` set ds \<union> due_remote now reg \<and>
    (\<forall>d \<in> set ds'. d \<in> set ds \<or> genuine rc reg d)"
  using assms(1)
proof (induction "total_turns t reg" arbitrary: reg ds ex rule: less_induct)
  case less
  have parts: "subs_inv reg" "queue_inv (set ex) reg"
    using less.prems by (simp_all add: reg_inv_but_def)
  have fin: "\<exists>p. trigger_of reg r = Fin p" if r: "r \<in> set (reg_queue reg)" for r
  proof -
    obtain s where s: "sub_at reg r = Some s" "\<not> event_sub s"
      using r queue_inv_mem [OF parts(2), of r] by auto
    then have "times_ok s" using parts(1) unfolding subs_inv_def by blast
    with s(1) show ?thesis by (auto simp: times_ok_def trigger_of_def)
  qed
  show ?case
  proof (cases "reg_queue reg = [] \<or> now < trigger_of reg (hd (reg_queue reg))")
    case True
    have all: "now < trigger_of reg r" if "r \<in> set (reg_queue reg)" for r
      using that True queue_inv_sorted [OF parts(2)]
      by (cases "reg_queue reg") (auto intro: f64_less_le_trans)
    have nd: "\<not> trigger_of reg r \<le> now" if "r \<in> set (reg_queue reg)" for r
      using all [OF that] by (metis f64_le_less_trans f64_lt_irrefl)
    have "due_remote now reg = {}"
    proof (rule equals0I)
      fix r assume "r \<in> due_remote now reg"
      then obtain s where s: "r \<in> set (reg_queue reg)" "sub_at reg r = Some s" "sub_trigger s \<le> now"
        by (auto simp: due_remote_def)
      with nd [OF s(1)] show False by (simp add: trigger_of_def)
    qed
    moreover have "tick_loop now rc reg ds ex = Some (reg, ds, ex)"
    proof (cases "reg_queue reg")
      case Nil
      then show ?thesis by (subst tick_loop.simps) simp
    next
      case (Cons rid rest)
      then obtain s where "sub_at reg rid = Some s"
        using queue_inv_mem [OF parts(2), of rid] by auto
      with Cons True show ?thesis
        by (subst tick_loop.simps) (simp add: trigger_of_def)
    qed
    ultimately show ?thesis using less.prems all by (intro exI conjI) auto
  next
    case False
    then obtain rid rest where q: "reg_queue reg = rid # rest" by (cases "reg_queue reg") auto
    have due: "trigger_of reg rid \<le> now"
      using False fin [of rid] q assms(2) by auto
    obtain reg1 d ex1 where t1: "tick_loop now rc reg ds ex = tick_loop now rc reg1 (ds @ d) ex1"
        "reg_inv_but (set ex1) reg1" "total_turns t reg1 < total_turns t reg"
        "untimed reg1 = untimed reg" "\<forall>r. r \<noteq> rid \<longrightarrow> sub_at reg1 r = sub_at reg r"
        "set (reg_queue reg1) = set (reg_queue reg) \<and> ex1 = ex \<or>
         set (reg_queue reg1) = set rest \<and> ex1 = ex @ [rid]"
        "dl_rid ` set d = {rid} \<inter> due_remote now reg" "\<forall>x \<in> set d. genuine rc reg x"
      using tick_turn [OF less.prems assms(2,3) q due, of rc ds]
      by (elim exE conjE) (rule that; assumption)
    obtain reg' ds' ex' where r': "tick_loop now rc reg1 (ds @ d) ex1 = Some (reg', ds', ex')"
        "reg_inv_but (set ex') reg'" "\<forall>r \<in> set (reg_queue reg'). now < trigger_of reg' r"
        "untimed reg' = untimed reg1"
        "\<forall>r. r \<in> set (reg_queue reg1) \<longrightarrow> now < trigger_of reg1 r \<longrightarrow> sub_at reg' r = sub_at reg1 r"
        "\<forall>r. r \<notin> set (reg_queue reg1) \<longrightarrow> sub_at reg' r = sub_at reg1 r"
        "set ex' \<subseteq> set ex1 \<union> {r \<in> set (reg_queue reg1). trigger_of reg1 r \<le> now}"
        "dl_rid ` set ds' = dl_rid ` set (ds @ d) \<union> due_remote now reg1"
        "\<forall>x \<in> set ds'. x \<in> set (ds @ d) \<or> genuine rc reg1 x"
      using less.hyps [OF t1(3) t1(2), of "ds @ d"]
      by (elim exE conjE) (rule that; assumption)
    have notin: "rid \<notin> set rest" using queue_inv_distinct [OF parts(2)] q by simp
    have ndue: "\<not> now < trigger_of reg rid"
      using due by (metis f64_le_less_trans f64_lt_irrefl)
    have trig1: "trigger_of reg1 r = trigger_of reg r" if "r \<noteq> rid" for r
      using t1(5) that by (simp add: trigger_of_def)
    have mem1: "r \<in> set (reg_queue reg1) \<longleftrightarrow> r \<in> set (reg_queue reg)" if "r \<noteq> rid" for r
      using t1(6) that q by auto
    have k1: "sub_at reg' r = sub_at reg r" if "r \<in> set (reg_queue reg)" "now < trigger_of reg r" for r
    proof -
      have "r \<noteq> rid" using that ndue by auto
      then show ?thesis using that r'(5) t1(5) mem1 [of r] trig1 [of r] by simp
    qed
    have k2: "sub_at reg' r = sub_at reg r" if "r \<notin> set (reg_queue reg)" for r
    proof -
      have "r \<noteq> rid" using that q by auto
      then show ?thesis using that r'(6) t1(5) mem1 [of r] by simp
    qed
    have k3: "set ex' \<subseteq> set ex \<union> {r \<in> set (reg_queue reg). trigger_of reg r \<le> now}"
    proof
      fix r assume "r \<in> set ex'"
      then show "r \<in> set ex \<union> {r \<in> set (reg_queue reg). trigger_of reg r \<le> now}"
        using r'(7) t1(6) due q mem1 [of r] trig1 [of r] by (cases "r = rid") auto
    qed
    have "r \<in> due_remote now reg1 \<longleftrightarrow> r \<in> due_remote now reg" if "r \<noteq> rid" for r
      using t1(5) that mem1 [OF that] by (simp add: due_remote_def)
    moreover have "rid \<in> due_remote now reg" if "rid \<in> due_remote now reg1"
    proof -
      have "untimed reg1 rid = untimed reg rid" by (simp add: t1(4))
      with that due q show ?thesis
        by (cases "sub_at reg rid")
          (auto simp: due_remote_def untimed_def trigger_of_def is_expired_def dest!: same_untimed)
    qed
    ultimately have "{rid} \<inter> due_remote now reg \<union> due_remote now reg1 = due_remote now reg"
      by (intro set_eqI) (metis IntD2 IntI UnCI UnE singletonI)
    then have k4: "dl_rid ` set ds' = dl_rid ` set ds \<union> due_remote now reg"
      unfolding r'(8) set_append image_Un t1(7) Un_assoc by (rule arg_cong)
    have k5: "\<forall>x \<in> set ds'. x \<in> set ds \<or> genuine rc reg x"
      using r'(9) t1(8) genuine_untimed [OF t1(4)] by auto
    show ?thesis
      using t1(1) r'(1,2,3,4) t1(4) k1 k2 k3 k4 k5
      by (intro exI [of _ reg'] exI [of _ ds'] exI [of _ ex'] conjI allI impI) (simp_all only: simp_thms)
  qed
qed

section \<open>The operations\<close>

text \<open>\<open>tick_intervals\<close> on a registry between operations.\<close>

lemma tick_intervals_spec:
  assumes inv: "reg_inv reg" and now: "now = Fin t" "t < 2 ^ 43"
  shows "\<exists>reg' ds next_time. tick_intervals now rc reg = Some (reg', ds, next_time) \<and> reg_inv reg' \<and>
    (\<forall>r s. sub_at reg' r = Some s \<longrightarrow> \<not> event_sub s \<longrightarrow>
       now < sub_trigger s \<and> (\<exists>n. next_time = Some n \<and> n \<le> sub_trigger s)) \<and>
    (\<forall>r s. sub_at reg r = Some s \<longrightarrow> event_sub s \<or> now < sub_trigger s \<longrightarrow> sub_at reg' r = Some s) \<and>
    (\<forall>r. sub_at reg' r \<noteq> None \<longrightarrow> untimed reg' r = untimed reg r) \<and>
    dl_rid ` set ds = due_remote now reg \<and> (\<forall>d \<in> set ds. genuine rc reg d)"
proof -
  have parts: "subs_inv reg" "queue_inv {} reg" using inv by (simp_all add: reg_inv_but_def)
  obtain reg1 ds ex where l: "tick_loop now rc reg [] [] = Some (reg1, ds, ex)"
      "reg_inv_but (set ex) reg1" "\<forall>r \<in> set (reg_queue reg1). now < trigger_of reg1 r"
      "untimed reg1 = untimed reg"
      "\<forall>r. r \<in> set (reg_queue reg) \<longrightarrow> now < trigger_of reg r \<longrightarrow> sub_at reg1 r = sub_at reg r"
      "\<forall>r. r \<notin> set (reg_queue reg) \<longrightarrow> sub_at reg1 r = sub_at reg r"
      "set ex \<subseteq> {r \<in> set (reg_queue reg). trigger_of reg r \<le> now}"
      "dl_rid ` set ds = due_remote now reg" "\<forall>d \<in> set ds. genuine rc reg d"
    using tick_loop_ok [of "[]" reg now t rc "[]"] inv now by auto
  obtain reg2 where c: "fst (cancel ex reg1) = reg2" "reg_inv reg2" "sub_at reg2 = sub_at reg1 |` (- set ex)"
    using cancel_spec [OF l(2), of ex] by auto
  define reg' where "reg' = (if ex \<noteq> [] then reg2 else reg1)"
  have inv': "reg_inv reg'" using c(2) l(2) by (auto simp: reg'_def)
  have at': "sub_at reg' r = (if r \<in> set ex then None else sub_at reg1 r)" for r
    using c(3) by (auto simp: reg'_def restrict_map_def)
  have parts': "subs_inv reg'" "queue_inv {} reg'" using inv' by (simp_all add: reg_inv_but_def)
  have parts1: "queue_inv (set ex) reg1" using l(2) by (simp add: reg_inv_but_def)
  have run: "tick_intervals now rc reg = Some (reg', ds, next_trigger_time reg')"
    by (simp add: tick_intervals_def l(1) reg'_def c(1))
  have later: "now < sub_trigger s" if s: "sub_at reg' r = Some s" "\<not> event_sub s" for r s
  proof -
    have "r \<in> set (reg_queue reg1)"
      using s queue_inv_mem [OF parts1, of r] by (auto simp: at' split: if_splits)
    then show ?thesis using l(3) s by (auto simp: at' trigger_of_def split: if_splits)
  qed
  have next_time: "\<exists>n. next_trigger_time reg' = Some n \<and> n \<le> sub_trigger s"
    if s: "sub_at reg' r = Some s" "\<not> event_sub s" for r s
  proof -
    have r: "r \<in> set (reg_queue reg')" using s queue_inv_mem [OF parts'(2), of r] by auto
    then obtain h rest where q: "reg_queue reg' = h # rest" by (cases "reg_queue reg'") auto
    obtain sh where sh: "sub_at reg' h = Some sh"
      using queue_inv_mem [OF parts'(2), of h] q by auto
    have "times_ok s" using parts'(1) s unfolding subs_inv_def by blast
    then have "sub_trigger s \<noteq> NaN" by (rule times_ok_trigger)
    then have "sub_trigger sh \<le> sub_trigger s"
      using r q queue_inv_sorted [OF parts'(2)] s sh by (auto simp: trigger_of_def f64_le_refl)
    then show ?thesis using q sh by (simp add: next_trigger_time_def)
  qed
  have keep: "sub_at reg' r = Some s" if "sub_at reg r = Some s" "event_sub s \<or> now < sub_trigger s" for r s
  proof -
    have n: "r \<notin> set (reg_queue reg) \<or> now < trigger_of reg r"
      using that queue_inv_mem [OF parts(2), of r] by (auto simp: trigger_of_def)
    then have "r \<notin> {r \<in> set (reg_queue reg). trigger_of reg r \<le> now}"
      by (auto dest: f64_le_less_trans)
    then have "r \<notin> set ex" using l(7) by blast
    moreover have "sub_at reg1 r = Some s" using n l(5,6) that(1) by metis
    ultimately show ?thesis by (simp add: at')
  qed
  have unt: "untimed reg' r = untimed reg r" if "sub_at reg' r \<noteq> None" for r
    using that l(4) by (auto simp: untimed_def at' fun_eq_iff split: if_splits)
  show ?thesis
    using run inv' later next_time keep unt l(8,9)
    by (intro exI [of _ reg'] exI [of _ ds] exI [of _ "next_trigger_time reg'"] conjI allI impI)
qed

text \<open>Polling drains the buffer; an expired subscription is not found and is dropped.\<close>

lemma poll_spec:
  assumes inv: "reg_inv reg"
  shows "\<exists>reg'. poll rid now reg = Some (reg',
      (case sub_at reg rid of
         None \<Rightarrow> PollNotFound
       | Some s \<Rightarrow>
           if is_expired s now then PollNotFound
           else if sub_target s = Poll then PollOk (sub_path s) (case_option [] id (poll_contents reg rid))
           else NotPollable)) \<and>
    reg_inv reg' \<and>
    sub_at reg' = (if expired_at reg now rid then (sub_at reg)(rid := None) else sub_at reg) \<and>
    (\<forall>r. poll_contents reg' r =
       (if r = rid then (if expired_at reg now rid then None else map_option (\<lambda>_. []) (poll_contents reg r))
        else poll_contents reg r))"
proof (cases "sub_at reg rid")
  case None
  have "poll_at reg rid = None"
    using inv None polls_inv_mem [of reg rid] by (simp add: reg_inv_but_def)
  with None inv show ?thesis
    by (simp add: poll_def expired_at_def poll_contents_def)
next
  case (Some s)
  have polls: "polls_inv reg" using inv by (simp add: reg_inv_but_def)
  show ?thesis
  proof (cases "is_expired s now")
    case True
    obtain reg' where "cancel [rid] reg = (reg', card (set [rid] \<inter> dom (sub_at reg)))"
        "reg_inv reg'" "sub_at reg' = sub_at reg |` (- set [rid])" "poll_at reg' = poll_at reg |` (- set [rid])"
      using cancel_spec [OF inv, of "[rid]"] by auto
    with Some True show ?thesis
      by (intro exI [of _ reg'])
        (auto simp: poll_def expired_at_def restrict_map_def poll_contents_def fun_eq_iff)
  next
    case False
    show ?thesis
    proof (cases "poll_at reg rid")
      case None
      then have "sub_target s \<noteq> Poll" using Some polls_inv_mem [OF polls, of rid] by auto
      with None Some False inv show ?thesis
        by (intro exI [of _ reg]) (simp add: poll_def expired_at_def poll_contents_def)
    next
      case pb: (Some pb)
      then have target: "sub_target s = Poll" using Some polls_inv_mem [OF polls, of rid] by auto
      obtain pb' where pb': "pb_drain pb = Some (pb_abs pb, pb')" "pb_inv pb'" "pb_abs pb' = []"
          "pb_capacity pb' = default_poll_capacity"
        using pb_drain_ok [of pb] polls_inv_pb [OF polls pb] by auto
      define reg' where "reg' = reg\<lparr>reg_polls := bt_update rid pb' (reg_polls reg)\<rparr>"
      have at: "poll_at reg' r = (if r = rid then Some pb' else poll_at reg r)" for r
        using pb by (simp add: reg'_def map_of_bt_update)
      have "polls_inv reg'"
        unfolding polls_inv_def at
      proof (intro conjI allI impI)
        show "bt_ok (reg_polls reg')" using polls by (simp add: reg'_def polls_inv_def)
        show "(if r = rid then Some pb' else poll_at reg r) \<noteq> None \<longleftrightarrow>
            (\<exists>sub. sub_at reg' r = Some sub \<and> sub_target sub = Poll)" for r
          using polls_inv_mem [OF polls, of r] pb by (auto simp: reg'_def)
        fix r b assume "(if r = rid then Some pb' else poll_at reg r) = Some b"
        then show "pb_inv b" "pb_capacity b = default_poll_capacity"
          using polls_inv_pb [OF polls, of r b] pb' by (auto split: if_splits)
      qed
      then have "reg_inv reg'" using inv unfolding reg'_def by (intro reg_inv_polls)
      moreover have "poll rid now reg = Some (reg', PollOk (sub_path s) (pb_abs pb))"
        using Some False pb pb'(1) by (simp add: poll_def reg'_def)
      moreover have "sub_at reg' = sub_at reg" by (simp add: reg'_def)
      moreover have "poll_contents reg' r = (if r = rid then Some [] else poll_contents reg r)" for r
        by (simp add: poll_contents_def at pb'(3))
      ultimately show ?thesis
        using Some False pb target
        by (intro exI [of _ reg']) (simp add: expired_at_def poll_contents_def)
    qed
  qed
qed

lemma expire_spec:
  assumes "reg_inv reg"
  shows "\<exists>reg'. expire now reg = (reg', card {r. expired_at reg now r}) \<and> reg_inv reg' \<and>
    sub_at reg' = (\<lambda>r. if expired_at reg now r then None else sub_at reg r)"
proof -
  obtain reg' where r: "fst (expire now reg) = reg'" "reg_inv reg'"
    "sub_at reg' = (\<lambda>r. case sub_at reg r of None \<Rightarrow> None | Some s \<Rightarrow> if is_expired s now then None else Some s)"
    "snd (expire now reg) = card {r. \<exists>s. sub_at reg r = Some s \<and> is_expired s now}"
    using cancel_filter [OF assms, of "\<lambda>s. is_expired s now"] by (auto simp: expire_def Let_def)
  have "{r. \<exists>s. sub_at reg r = Some s \<and> is_expired s now} = {r. expired_at reg now r}"
    by (auto simp: expired_at_def split: option.splits)
  moreover have "sub_at reg' = (\<lambda>r. if expired_at reg now r then None else sub_at reg r)"
    unfolding r(3) by (auto simp: fun_eq_iff expired_at_def split: option.split)
  ultimately show ?thesis using r by (intro exI [of _ reg']) (simp add: prod_eq_iff)
qed

lemma cancel_by_ws_session_spec:
  assumes "reg_inv reg"
  shows "\<exists>reg'. cancel_by_ws_session session reg =
      (reg', card {r. \<exists>s. sub_at reg r = Some s \<and> sub_target s = WebSocket session}) \<and> reg_inv reg' \<and>
    sub_at reg' = (\<lambda>r. case sub_at reg r of None \<Rightarrow> None
      | Some s \<Rightarrow> if sub_target s = WebSocket session then None else Some s)"
  using cancel_filter [OF assms, of "\<lambda>s. sub_target s = WebSocket session"]
  by (auto simp: cancel_by_ws_session_def Let_def prod_eq_iff)

section \<open>Reachable registries\<close>

text \<open>The states a registry passes through. \<open>create\<close> is called at a time of ordinary
  size, with an interval of ordinary size, before the 32-bit counter has wrapped.\<close>

inductive reg_reach :: "registry \<Rightarrow> bool" where
  reach_new: "reg_reach reg_new"
| reach_create: "reg_reach reg \<Longrightarrow> create path interval target ttl (Fin t) reg = Some (reg', r) \<Longrightarrow>
    reg_next_id reg + 1 \<noteq> 0 \<Longrightarrow> 0 \<le> t \<Longrightarrow> t < 2 ^ 43 \<Longrightarrow> interval < Fin (2 ^ 43) \<Longrightarrow> reg_reach reg'"
| reach_cancel: "reg_reach reg \<Longrightarrow> cancel rids reg = (reg', n) \<Longrightarrow> reg_reach reg'"
| reach_session: "reg_reach reg \<Longrightarrow> cancel_by_ws_session session reg = (reg', n) \<Longrightarrow> reg_reach reg'"
| reach_notify: "reg_reach reg \<Longrightarrow> notify_event path vs now reg = Some (reg', ds) \<Longrightarrow> reg_reach reg'"
| reach_tick: "reg_reach reg \<Longrightarrow> t < 2 ^ 43 \<Longrightarrow> tick_intervals (Fin t) rc reg = Some (reg', ds, nx) \<Longrightarrow>
    reg_reach reg'"
| reach_poll: "reg_reach reg \<Longrightarrow> poll rid now reg = Some (reg', pr) \<Longrightarrow> reg_reach reg'"
| reach_expire: "reg_reach reg \<Longrightarrow> expire now reg = (reg', n) \<Longrightarrow> reg_reach reg'"

lemma create_inv:
  assumes "reg_inv reg" "create path interval target ttl (Fin t) reg = Some (reg', r)"
    "reg_next_id reg + 1 \<noteq> 0" "0 \<le> t" "t < 2 ^ 43" "interval < Fin (2 ^ 43)"
  shows "reg_inv reg'"
proof (cases "valid_interval interval \<and> length (reg_subs reg) < max_subscriptions")
  case True
  with create_accepts [OF assms(1) _ _ assms(3) refl assms(4,5,6),
      where path = path and target = target and ttl = ttl] assms(2)
  show ?thesis by auto
next
  case False
  then have "reg' = reg"
    using create_rejects [where interval = interval and path = path and target = target and
        ttl = ttl and now = "Fin t" and reg = reg] assms(2)
    by (cases "valid_interval interval") auto
  with assms(1) show ?thesis by simp
qed

lemma reach_inv: "reg_reach reg \<Longrightarrow> reg_inv reg"
proof (induction rule: reg_reach.induct)
  case (reach_create reg path interval target ttl t reg' r)
  then show ?case by (blast intro: create_inv)
next
  case (reach_cancel reg rids reg' n)
  then show ?case using cancel_spec [of "{}" reg rids] by auto
next
  case (reach_session reg session reg' n)
  then show ?case using cancel_by_ws_session_spec [of reg session] by auto
next
  case (reach_notify reg path vs now reg' ds)
  then show ?case using notify_event_spec [of reg path vs now] by auto
next
  case (reach_tick reg t rc reg' ds nx)
  then show ?case using tick_intervals_spec [of reg "Fin t" t rc] by auto
next
  case (reach_poll reg rid now reg' pr)
  then show ?case using poll_spec [of reg rid now] by auto
next
  case (reach_expire reg now reg' n)
  then show ?case using expire_spec [of reg now] by auto
qed (rule reg_new_inv)

definition sample_registry :: registry where
  "sample_registry =
     (case create ''/Dev/Temp'' (Fin 5) Poll (Fin (- 1)) (Fin 100) reg_new of
        Some (reg, _) \<Rightarrow> reg | None \<Rightarrow> reg_new)"

lemma sample_registry_create:
  "create ''/Dev/Temp'' (Fin 5) Poll (Fin (- 1)) (Fin 100) reg_new =
     Some (sample_registry, Inr ''sub-001'')"
proof -
  have "(case create ''/Dev/Temp'' (Fin 5) Poll (Fin (- 1)) (Fin 100) reg_new of
          Some (_, r) \<Rightarrow> r | None \<Rightarrow> Inl []) = Inr ''sub-001''"
    by code_simp
  moreover have "create ''/Dev/Temp'' (Fin 5) Poll (Fin (- 1)) (Fin 100) reg_new \<noteq> None"
    by code_simp
  ultimately show ?thesis by (auto simp: sample_registry_def)
qed

lemma sample_registry_reach: "reg_reach sample_registry"
  by (rule reach_create [OF reach_new sample_registry_create]) (simp_all add: reg_new_def)

lemmas sample_registry_inv = reach_inv [OF sample_registry_reach]

section \<open>Properties\<close>

text \<open>C4: The four indexes of the registry always agree. In every reachable registry there
  are at most 32 subscriptions; the event index lists for each path exactly the event
  subscriptions of that path; the interval queue holds exactly the interval subscriptions, once
  each, in order of their next trigger time; and there is a poll buffer for exactly the poll
  subscriptions.\<close>

theorem registry_indexes_agree:
  assumes "reg_reach reg"
  shows "length (reg_subs reg) \<le> 32 \<and>
    (\<forall>path rid. rid \<in> set (rids_at reg path) \<longleftrightarrow>
       (\<exists>sub. sub_at reg rid = Some sub \<and> event_sub sub \<and> sub_path sub = path)) \<and>
    (\<forall>rid. rid \<in> set (reg_queue reg) \<longleftrightarrow> (\<exists>sub. sub_at reg rid = Some sub \<and> \<not> event_sub sub)) \<and>
    distinct (reg_queue reg) \<and>
    sorted_wrt (\<lambda>a b. trigger_of reg a \<le> trigger_of reg b) (reg_queue reg) \<and>
    (\<forall>rid. (poll_at reg rid = None) = (\<not> (\<exists>sub. sub_at reg rid = Some sub \<and> sub_target sub = Poll)))"
proof -
  have p: "subs_inv reg" "events_inv reg" "queue_inv {} reg" "polls_inv reg"
    using reach_inv [OF assms] by (simp_all add: reg_inv_but_def)
  have "length (reg_subs reg) \<le> 32"
    using p(1) unfolding subs_inv_def max_subscriptions_def by blast
  with events_inv_mem [OF p(2)] queue_inv_mem [OF p(3)] queue_inv_distinct [OF p(3)]
    queue_inv_sorted [OF p(3)] polls_inv_mem [OF p(4)]
  show ?thesis by blast
qed

theorem registry_indexes_agree_witness:
  "reg_reach sample_registry \<and> reg_queue sample_registry = [''sub-001''] \<and>
   sub_at sample_registry ''sub-001'' \<noteq> None"
proof -
  have q: "reg_queue sample_registry = [''sub-001'']" by code_simp
  have "\<forall>rid. rid \<in> set (reg_queue sample_registry) \<longleftrightarrow>
      (\<exists>sub. sub_at sample_registry rid = Some sub \<and> \<not> event_sub sub)"
    using registry_indexes_agree [OF sample_registry_reach] by (elim conjE)
  from spec [OF this, of "''sub-001''"] q sample_registry_reach show ?thesis by force
qed

text \<open>C10: What \<open>create\<close> does. With a valid interval (exactly -1, or at least 0.1
  seconds) and fewer than 32 subscriptions it adds one subscription under a fresh id, with the
  given path, target and lifetime, an empty poll buffer exactly when the target is polling, and
  changes no other subscription or buffer.\<close>

theorem create_adds_one:
  assumes "reg_inv reg" "valid_interval interval" "length (reg_subs reg) < max_subscriptions"
    and "reg_next_id reg + 1 \<noteq> 0" "0 \<le> t" "t < 2 ^ 43" "interval < Fin (2 ^ 43)"
  shows "\<exists>reg' rid sub. create path interval target ttl (Fin t) reg = Some (reg', Inr rid) \<and>
    sub_at reg rid = None \<and> sub_at reg' = (sub_at reg)(rid \<mapsto> sub) \<and>
    sub_path sub = path \<and> sub_interval sub = interval \<and> sub_target sub = target \<and>
    sub_created_at sub = Fin t \<and> sub_ttl sub = ttl \<and>
    poll_contents reg' = (if target = Poll then (poll_contents reg)(rid \<mapsto> []) else poll_contents reg)"
proof -
  obtain reg' sub where r: "create path interval target ttl (Fin t) reg = Some (reg', Inr (rid_of (reg_next_id reg)))"
    "sub_at reg (rid_of (reg_next_id reg)) = None"
    "sub_at reg' = (sub_at reg)(rid_of (reg_next_id reg) \<mapsto> sub)"
    "sub_path sub = path" "sub_interval sub = interval" "sub_target sub = target"
    "sub_created_at sub = Fin t" "sub_ttl sub = ttl"
    "target = Poll \<longrightarrow> (\<exists>pb. poll_at reg' = (poll_at reg)(rid_of (reg_next_id reg) \<mapsto> pb) \<and> pb_abs pb = [])"
    "target \<noteq> Poll \<longrightarrow> poll_at reg' = poll_at reg"
    using create_accepts [OF assms(1-4) refl assms(5-7), of path target ttl] by blast
  have "poll_contents reg' =
      (if target = Poll then (poll_contents reg)(rid_of (reg_next_id reg) \<mapsto> []) else poll_contents reg)"
    using r(9,10) by (auto simp: poll_contents_def fun_eq_iff)
  with r show ?thesis by blast
qed

theorem create_adds_one_witness:
  "\<exists>reg' rid. create ''/Dev/Led'' (Fin (- 1)) (WebSocket 7) (Fin 60) (Fin 100) sample_registry =
     Some (reg', Inr rid) \<and> sub_at sample_registry rid = None \<and> sub_at reg' rid \<noteq> None"
proof -
  have v: "valid_interval (Fin (- 1))" by (simp add: valid_interval_def f64_eq_def)
  have h: "length (reg_subs sample_registry) < max_subscriptions"
      "reg_next_id sample_registry + 1 \<noteq> 0"
    by code_simp+
  have i: "Fin (- 1) < Fin (2 ^ 43)" by simp
  have t: "(0::rat) \<le> 100" "(100::rat) < 2 ^ 43" by simp_all
  show ?thesis
    using create_adds_one [OF sample_registry_inv v h t i, of "''/Dev/Led''" "WebSocket 7" "Fin 60"]
    by (metis fun_upd_same option.distinct(1))
qed

text \<open>C11: A change notification reaches every subscriber. Notifying a path never panics and
  returns exactly one delivery, with the new values, for each live remote subscriber of the path
  in order of subscription; each live polling subscriber of the path gets the values appended to
  its buffer of the newest 50; expired subscribers of the path are removed; nothing else changes.\<close>

theorem notify_reaches_subscribers:
  assumes "reg_inv reg"
  shows "\<exists>reg'. notify_event path vs now reg =
      Some (reg', List.map_filter (owed path vs now reg) (rids_at reg path)) \<and>
    reg_inv reg' \<and>
    sub_at reg' = (\<lambda>r. if r \<in> set (rids_at reg path) \<and> expired_at reg now r then None else sub_at reg r) \<and>
    (\<forall>r. sub_at reg' r \<noteq> None \<longrightarrow>
       poll_contents reg' r = buffered (set (rids_at reg path)) vs now reg r)"
  by (rule notify_event_spec [OF assms])

definition sample_event_registry :: registry where
  "sample_event_registry =
     (case create ''/Dev/Temp'' (Fin (- 1)) (WebSocket 7) (Fin (- 1)) (Fin 100) reg_new of
        Some (reg, _) \<Rightarrow> reg | None \<Rightarrow> reg_new)"

lemma sample_event_registry_inv: "reg_inv sample_event_registry"
proof -
  have "create ''/Dev/Temp'' (Fin (- 1)) (WebSocket 7) (Fin (- 1)) (Fin 100) reg_new \<noteq> None"
    by code_simp
  then obtain r where "create ''/Dev/Temp'' (Fin (- 1)) (WebSocket 7) (Fin (- 1)) (Fin 100) reg_new =
      Some (sample_event_registry, r)"
    by (auto simp: sample_event_registry_def)
  from reach_create [OF reach_new this] show ?thesis
    by (intro reach_inv) (simp add: reg_new_def)
qed

theorem notify_reaches_subscribers_witness:
  "\<exists>reg'. notify_event ''/Dev/Temp'' [value_new (Bool True) None] (Fin 200) sample_event_registry =
     Some (reg', [\<lparr>dl_rid = ''sub-001'', dl_path = ''/Dev/Temp'',
                   dl_values = [value_new (Bool True) None], dl_target = WebSocket 7\<rparr>])"
proof -
  have "List.map_filter (owed ''/Dev/Temp'' [value_new (Bool True) None] (Fin 200) sample_event_registry)
      (rids_at sample_event_registry ''/Dev/Temp'') =
      [\<lparr>dl_rid = ''sub-001'', dl_path = ''/Dev/Temp'',
        dl_values = [value_new (Bool True) None], dl_target = WebSocket 7\<rparr>]"
    by code_simp
  with notify_reaches_subscribers [OF sample_event_registry_inv, of "''/Dev/Temp''"
      "[value_new (Bool True) None]" "Fin 200"]
  show ?thesis by auto
qed

text \<open>C6: The scheduler terminates and is fair. A tick at a time below \<open>2^43\<close> seconds
  returns; afterwards no interval subscription is due and the returned time is a lower bound of
  all trigger times; the subscriptions that got a delivery are exactly the live remote ones that
  were due, each delivery carrying the current value of its own path; event subscriptions and
  those not yet due are untouched.\<close>

theorem tick_terminates_and_delivers:
  assumes "reg_inv reg" "t < 2 ^ 43"
  shows "\<exists>reg' ds next_time. tick_intervals (Fin t) rc reg = Some (reg', ds, next_time) \<and> reg_inv reg' \<and>
    (\<forall>r s. sub_at reg' r = Some s \<longrightarrow> \<not> event_sub s \<longrightarrow>
       Fin t < sub_trigger s \<and> (\<exists>n. next_time = Some n \<and> n \<le> sub_trigger s)) \<and>
    (\<forall>r s. sub_at reg r = Some s \<longrightarrow> event_sub s \<or> Fin t < sub_trigger s \<longrightarrow> sub_at reg' r = Some s) \<and>
    dl_rid ` set ds = due_remote (Fin t) reg \<and> (\<forall>d \<in> set ds. genuine rc reg d)"
  using tick_intervals_spec [OF assms(1) refl assms(2), of rc]
  by (elim exE conjE) (intro exI conjI; assumption)

theorem tick_terminates_and_delivers_witness:
  "\<exists>reg' ds nx. tick_intervals (Fin 120) (\<lambda>_. None) sample_registry = Some (reg', ds, nx) \<and> reg_inv reg'"
  using tick_terminates_and_delivers [OF sample_registry_inv, of 120 "\<lambda>_. None"] by auto

text \<open>C12: Polling drains. A live poll subscription returns its path and everything buffered
  since the last poll and leaves the buffer empty; another kind of subscription is not pollable,
  an unknown or expired one is not found, and an expired one is removed; no other buffer changes.\<close>

theorem poll_drains:
  assumes "reg_inv reg"
  shows "\<exists>reg'. poll rid now reg = Some (reg',
      (case sub_at reg rid of
         None \<Rightarrow> PollNotFound
       | Some s \<Rightarrow>
           if is_expired s now then PollNotFound
           else if sub_target s = Poll then PollOk (sub_path s) (case_option [] id (poll_contents reg rid))
           else NotPollable)) \<and>
    reg_inv reg' \<and>
    sub_at reg' = (if expired_at reg now rid then (sub_at reg)(rid := None) else sub_at reg) \<and>
    (\<forall>r. poll_contents reg' r =
       (if r = rid then (if expired_at reg now rid then None else map_option (\<lambda>_. []) (poll_contents reg r))
        else poll_contents reg r))"
  by (rule poll_spec [OF assms])

theorem poll_drains_witness:
  "\<exists>reg'. poll ''sub-001'' (Fin 101) sample_registry = Some (reg', PollOk ''/Dev/Temp'' [])"
proof -
  have "(case sub_at sample_registry ''sub-001'' of
         None \<Rightarrow> PollNotFound
       | Some s \<Rightarrow>
           if is_expired s (Fin 101) then PollNotFound
           else if sub_target s = Poll
                then PollOk (sub_path s) (case_option [] id (poll_contents sample_registry ''sub-001''))
           else NotPollable) = PollOk ''/Dev/Temp'' []"
    by code_simp
  with poll_drains [OF sample_registry_inv, of "''sub-001''" "Fin 101"] show ?thesis by auto
qed

text \<open>C13: Cancelling removes exactly the subscriptions named, with their buffers, and
  returns how many of the ids were known; unknown ids are ignored.\<close>

theorem cancel_removes_named:
  assumes "reg_inv reg"
  shows "\<exists>reg'. cancel rids reg = (reg', card (set rids \<inter> dom (sub_at reg))) \<and> reg_inv reg' \<and>
    sub_at reg' = sub_at reg |` (- set rids) \<and> poll_at reg' = poll_at reg |` (- set rids)"
  using cancel_spec [OF assms, of rids] by auto

theorem cancel_removes_named_witness:
  "\<exists>reg'. fst (cancel [''sub-001'', ''nope''] sample_registry) = reg' \<and> sub_at reg' ''sub-001'' = None"
  using cancel_removes_named [OF sample_registry_inv, of "[''sub-001'', ''nope'']"] by auto

end
