(* ===== verification/Utf8.thy ===== *)
theory Utf8
  imports RustStr
begin

text \<open>
  What the code uses of \<open>std::str::from_utf8\<close>, \<open>String::from_utf8\<close>,
  \<open>String::from_utf8_lossy\<close> and \<open>char\<close>: strings are their UTF-8 bytes. \<open>utf8_chunk\<close>
  reads one step of the standard library's validation: whether the bytes start with a
  well-formed character, and how many bytes that character (or the maximal ill-formed
  prefix, which \<open>from_utf8_lossy\<close> replaces by U+FFFD) takes.
\<close>

section \<open>Validation\<close>

definition utf8_cont :: "nat \<Rightarrow> bool" where
  "utf8_cont b = (128 \<le> b \<and> b \<le> 191)"

definition utf8_second :: "nat \<Rightarrow> nat \<Rightarrow> bool" where
  "utf8_second lead b =
     (if lead = 0xE0 then 0xA0 \<le> b \<and> b \<le> 0xBF
      else if lead = 0xED then 0x80 \<le> b \<and> b \<le> 0x9F
      else if lead = 0xF0 then 0x90 \<le> b \<and> b \<le> 0xBF
      else if lead = 0xF4 then 0x80 \<le> b \<and> b \<le> 0x8F
      else utf8_cont b)"

definition utf8_width :: "nat \<Rightarrow> nat" where
  "utf8_width lead =
     (if lead < 0x80 then 1
      else if 0xC2 \<le> lead \<and> lead \<le> 0xDF then 2
      else if 0xE0 \<le> lead \<and> lead \<le> 0xEF then 3
      else if 0xF0 \<le> lead \<and> lead \<le> 0xF4 then 4
      else 0)"

fun utf8_chunk :: "string \<Rightarrow> bool \<times> nat" where
  "utf8_chunk [] = (True, 0)"
| "utf8_chunk (a # s) =
     (let w = utf8_width (byte_of a)
      in if w = 0 then (False, 1) else if w = 1 then (True, 1)
      else (case s of [] \<Rightarrow> (False, 1) | b # s \<Rightarrow>
        if \<not> utf8_second (byte_of a) (byte_of b) then (False, 1)
        else if w = 2 then (True, 2)
        else (case s of [] \<Rightarrow> (False, 2) | c # s \<Rightarrow>
          if \<not> utf8_cont (byte_of c) then (False, 2)
          else if w = 3 then (True, 3)
          else (case s of [] \<Rightarrow> (False, 3) | d # _ \<Rightarrow>
            if \<not> utf8_cont (byte_of d) then (False, 3) else (True, 4)))))"

lemma utf8_chunk_pos: "s \<noteq> [] \<Longrightarrow> 0 < snd (utf8_chunk s)"
  by (cases s) (auto simp: Let_def split: list.split if_splits)

lemma utf8_chunk_le: "snd (utf8_chunk s) \<le> length s"
  by (cases s) (auto simp: Let_def split: list.split if_splits)

function utf8_valid :: "string \<Rightarrow> bool" where
  "utf8_valid s =
     (if s = [] then True
      else fst (utf8_chunk s) \<and> utf8_valid (drop (snd (utf8_chunk s)) s))"
  by pat_completeness auto
termination
  by (relation "measure length") (auto simp: utf8_chunk_pos)

definition utf8_replacement :: string where
  "utf8_replacement = [CHR 0xEF, CHR 0xBF, CHR 0xBD]"

function from_utf8_lossy :: "string \<Rightarrow> string" where
  "from_utf8_lossy s =
     (if s = [] then []
      else (if fst (utf8_chunk s) then take (snd (utf8_chunk s)) s else utf8_replacement) @
           from_utf8_lossy (drop (snd (utf8_chunk s)) s))"
  by pat_completeness auto
termination
  by (relation "measure length") (auto simp: utf8_chunk_pos)

declare utf8_valid.simps [simp del] from_utf8_lossy.simps [simp del]

definition from_utf8 :: "string \<Rightarrow> string option" where
  "from_utf8 bytes = (if utf8_valid bytes then Some bytes else None)"

lemma utf8_valid_Nil [simp]: "utf8_valid []"
  by (simp add: utf8_valid.simps)

lemma from_utf8_lossy_Nil [simp]: "from_utf8_lossy [] = []"
  by (simp add: from_utf8_lossy.simps)

text \<open>A well-formed character is read whatever follows it.\<close>

lemma utf8_chunk_append:
  "fst (utf8_chunk s) \<Longrightarrow> s \<noteq> [] \<Longrightarrow> utf8_chunk (s @ t) = utf8_chunk s"
  by (cases s) (auto simp: Let_def split: list.splits if_splits)

lemma utf8_chunk_take:
  "fst (utf8_chunk s) \<Longrightarrow> s \<noteq> [] \<Longrightarrow> utf8_chunk (take (snd (utf8_chunk s)) s) = utf8_chunk s"
  by (cases s) (auto simp: Let_def split: list.splits if_splits)

lemma utf8_induct [consumes 1, case_names Nil chunk]:
  assumes "utf8_valid s"
    and "P []"
    and "\<And>c s. c \<noteq> [] \<Longrightarrow> utf8_chunk c = (True, length c) \<Longrightarrow> utf8_valid s \<Longrightarrow> P s \<Longrightarrow> P (c @ s)"
  shows "P s"
  using assms(1)
proof (induction s rule: utf8_valid.induct)
  case (1 s)
  show ?case
  proof (cases "s = []")
    case False
    define n where "n = snd (utf8_chunk s)"
    from False 1(2) have v: "fst (utf8_chunk s)" "utf8_valid (drop n s)"
      by (simp_all add: n_def utf8_valid.simps [of s])
    with 1(1) False have p: "P (drop n s)" by (simp add: n_def)
    have n: "0 < n" "n \<le> length s" using False by (simp_all add: n_def utf8_chunk_pos utf8_chunk_le)
    have "utf8_chunk (take n s) = (True, n)"
      using utf8_chunk_take [OF v(1) False] v(1) by (simp add: n_def prod_eq_iff)
    then have "P (take n s @ drop n s)"
      using assms(3) [of "take n s" "drop n s"] n v(2) p False by auto
    then show ?thesis by simp
  qed (simp add: assms(2))
qed

lemma utf8_valid_chunk:
  "utf8_chunk c = (True, length c) \<Longrightarrow> c \<noteq> [] \<Longrightarrow> utf8_valid (c @ s) = utf8_valid s"
  using utf8_chunk_append [of c s] by (subst utf8_valid.simps) simp

lemma from_utf8_lossy_chunk:
  "utf8_chunk c = (True, length c) \<Longrightarrow> c \<noteq> [] \<Longrightarrow> from_utf8_lossy (c @ s) = c @ from_utf8_lossy s"
  using utf8_chunk_append [of c s] by (subst from_utf8_lossy.simps) simp

lemma utf8_valid_append: "utf8_valid s \<Longrightarrow> utf8_valid t \<Longrightarrow> utf8_valid (s @ t)"
  by (induction s rule: utf8_induct) (simp_all add: utf8_valid_chunk)

lemma from_utf8_lossy_valid: "utf8_valid s \<Longrightarrow> from_utf8_lossy s = s"
  by (induction s rule: utf8_induct) (simp_all add: from_utf8_lossy_chunk)

lemma utf8_valid_replacement: "utf8_valid utf8_replacement"
  by (subst utf8_valid.simps)
    (simp add: utf8_replacement_def Let_def utf8_width_def utf8_second_def utf8_cont_def)

lemma utf8_valid_lossy: "utf8_valid (from_utf8_lossy s)"
proof (induction s rule: from_utf8_lossy.induct)
  case (1 s)
  show ?case
  proof (cases "s = []")
    case False
    have "utf8_valid (take (snd (utf8_chunk s)) s)" if "fst (utf8_chunk s)"
      using utf8_chunk_take [OF that False] that False utf8_chunk_le [of s] utf8_chunk_pos [OF False]
        utf8_valid_chunk [of "take (snd (utf8_chunk s)) s" "[]"]
      by (simp add: prod_eq_iff min_def)
    with 1 False show ?thesis
      by (subst from_utf8_lossy.simps) (simp add: utf8_valid_append utf8_valid_replacement)
  qed simp
qed

text \<open>ASCII text is valid.\<close>

definition ascii :: "char \<Rightarrow> bool" where
  "ascii c = (byte_of c < (128::nat))"

lemma utf8_valid_ascii_Cons: "ascii c \<Longrightarrow> utf8_valid (c # s) = utf8_valid s"
  using utf8_valid_chunk [of "[c]" s] by (simp add: ascii_def utf8_width_def)

lemma utf8_valid_ascii: "\<forall>c \<in> set s. ascii c \<Longrightarrow> utf8_valid s"
  by (induction s) (simp_all add: utf8_valid_ascii_Cons)

section \<open>Characters and boundaries\<close>

text \<open>A byte offset of a string is a character boundary unless the byte there continues a
  character; slicing a \<open>str\<close> elsewhere panics.\<close>

definition char_boundary :: "string \<Rightarrow> bool" where
  "char_boundary s = (case s of [] \<Rightarrow> True | c # _ \<Rightarrow> \<not> utf8_cont (byte_of c))"

text \<open>\<open>String::push\<close> of the character with a code point (\<open>char::encode_utf8\<close>), and
  \<open>char::from_u32\<close>, which refuses surrogates and code points above U+10FFFF.\<close>

definition char_from_u32 :: "nat \<Rightarrow> nat option" where
  "char_from_u32 cp = (if cp \<le> 0x10FFFF \<and> \<not> (0xD800 \<le> cp \<and> cp \<le> 0xDFFF) then Some cp else None)"

definition encode_utf8 :: "nat \<Rightarrow> string" where
  "encode_utf8 cp =
     (if cp < 0x80 then [char_of cp]
      else if cp < 0x800 then [char_of (0xC0 + cp div 64), char_of (0x80 + cp mod 64)]
      else if cp < 0x10000 then
        [char_of (0xE0 + cp div 4096), char_of (0x80 + cp div 64 mod 64), char_of (0x80 + cp mod 64)]
      else
        [char_of (0xF0 + cp div 262144), char_of (0x80 + cp div 4096 mod 64),
         char_of (0x80 + cp div 64 mod 64), char_of (0x80 + cp mod 64)])"

end
