(* ===== verification/JsonWriter.thy ===== *)
theory JsonWriter
  imports Utf8 Float64
begin

text \<open>
  \<open>src/json/serializer.rs\<close>, the writer: the output buffer, the stack that places the
  commas, string escaping and the formatting of numbers. The shortest decimal of a double
  comes from the \<open>ryu\<close> crate, so it is a parameter \<open>ryu :: f64 => string\<close> of the
  functions that print one. The stack of the code has its top at the end, here at the head.

  The second half states what the writer promises: a call that writes a value appends the
  text of that value and nothing else but the comma or nothing that belongs before it
  (\<open>emit\<close>), and between \<open>begin\<close> and \<open>end\<close> the buffer holds the parts written so
  far, separated by commas (\<open>holding\<close>).
\<close>

section \<open>The writer\<close>

record json_writer =
  jw_buf :: string
  jw_first :: "bool list"
  jw_after_key :: bool

definition writer_new :: json_writer where
  "writer_new = \<lparr>jw_buf = [], jw_first = [], jw_after_key = False\<rparr>"

definition put :: "string \<Rightarrow> json_writer \<Rightarrow> json_writer" where
  "put s w = w\<lparr>jw_buf := jw_buf w @ s\<rparr>"

definition pre_value :: "json_writer \<Rightarrow> json_writer" where
  "pre_value w =
     (if jw_after_key w then w\<lparr>jw_after_key := False\<rparr>
      else case jw_first w of
             [] \<Rightarrow> w
           | first # rest \<Rightarrow> (if first then w else put '','' w)\<lparr>jw_first := False # rest\<rparr>)"

definition begin_object :: "json_writer \<Rightarrow> json_writer" where
  "begin_object w = (let w = put ''{'' (pre_value w) in w\<lparr>jw_first := True # jw_first w\<rparr>)"

definition end_object :: "json_writer \<Rightarrow> json_writer" where
  "end_object w = put ''}'' (w\<lparr>jw_first := tl (jw_first w)\<rparr>)"

definition begin_array :: "json_writer \<Rightarrow> json_writer" where
  "begin_array w = (let w = put ''['' (pre_value w) in w\<lparr>jw_first := True # jw_first w\<rparr>)"

definition end_array :: "json_writer \<Rightarrow> json_writer" where
  "end_array w = put '']'' (w\<lparr>jw_first := tl (jw_first w)\<rparr>)"

section \<open>Numbers\<close>

text \<open>The digits are pushed from the last to the first and the new part of the buffer is
  then reversed.\<close>

function u64_digits :: "nat \<Rightarrow> string" where
  "u64_digits val = (if 0 < val then char_of (48 + val mod 10) # u64_digits (val div 10) else [])"
  by pat_completeness auto
termination by (relation "measure id") auto

declare u64_digits.simps [simp del]

definition write_u64 :: "nat \<Rightarrow> json_writer \<Rightarrow> json_writer" where
  "write_u64 n w = (if n = 0 then put ''0'' w else put (rev (u64_digits n)) w)"

definition write_u32 :: "nat \<Rightarrow> json_writer \<Rightarrow> json_writer" where
  "write_u32 n w = write_u64 n w"

definition write_i64 :: "int \<Rightarrow> json_writer \<Rightarrow> json_writer" where
  "write_i64 n w =
     (if n = 0 then put ''0'' w
      else if n = - (2 ^ 63) then put ''-9223372036854775808'' w
      else write_u64 (nat \<bar>n\<bar>) (if n < 0 then put ''-'' w else w))"

definition f64_text :: "(f64 \<Rightarrow> string) \<Rightarrow> f64 \<Rightarrow> string" where
  "f64_text ryu n =
     (let s = ryu n
      in if f64_is_finite n \<and> CHR ''.'' \<notin> set s \<and> CHR ''e'' \<notin> set s \<and> CHR ''E'' \<notin> set s
         then s @ ''.0'' else s)"

definition write_f64 :: "(f64 \<Rightarrow> string) \<Rightarrow> f64 \<Rightarrow> json_writer \<Rightarrow> json_writer" where
  "write_f64 ryu n w = put (f64_text ryu n) w"

section \<open>Strings\<close>

definition hex_lower :: string where
  "hex_lower = ''0123456789abcdef''"

definition escape_byte :: "char \<Rightarrow> string" where
  "escape_byte b =
     (if b = CHR 0x22 then [CHR 0x5C, CHR 0x22]
      else if b = CHR 0x5C then [CHR 0x5C, CHR 0x5C]
      else if b = CHR 0x0A then [CHR 0x5C, CHR ''n'']
      else if b = CHR 0x0D then [CHR 0x5C, CHR ''r'']
      else if b = CHR 0x09 then [CHR 0x5C, CHR ''t'']
      else if b = CHR 0x08 then [CHR 0x5C, CHR ''b'']
      else if b = CHR 0x0C then [CHR 0x5C, CHR ''f'']
      else if byte_of b < (0x20::nat) then
        [CHR 0x5C, CHR ''u'', CHR ''0'', CHR ''0'', hex_lower ! (byte_of b div 16), hex_lower ! (byte_of b mod 16)]
      else [b])"

definition escaped_str :: "string \<Rightarrow> string" where
  "escaped_str s = CHR 0x22 # concat (map escape_byte s) @ [CHR 0x22]"

definition write_escaped_str :: "string \<Rightarrow> json_writer \<Rightarrow> json_writer" where
  "write_escaped_str s w = put (escaped_str s) w"

section \<open>Keys, values and fields\<close>

definition jw_key :: "string \<Rightarrow> json_writer \<Rightarrow> json_writer" where
  "jw_key k w = (put '':'' (write_escaped_str k (pre_value w)))\<lparr>jw_after_key := True\<rparr>"

definition jw_null :: "json_writer \<Rightarrow> json_writer" where
  "jw_null w = put ''null'' (pre_value w)"

definition bool_val :: "bool \<Rightarrow> json_writer \<Rightarrow> json_writer" where
  "bool_val b w = put (if b then ''true'' else ''false'') (pre_value w)"

definition i64_val :: "int \<Rightarrow> json_writer \<Rightarrow> json_writer" where
  "i64_val n w = write_i64 n (pre_value w)"

definition u16_val :: "nat \<Rightarrow> json_writer \<Rightarrow> json_writer" where
  "u16_val n w = write_u32 n (pre_value w)"

definition u64_val :: "nat \<Rightarrow> json_writer \<Rightarrow> json_writer" where
  "u64_val n w = write_u64 n (pre_value w)"

definition f64_val :: "(f64 \<Rightarrow> string) \<Rightarrow> f64 \<Rightarrow> json_writer \<Rightarrow> json_writer" where
  "f64_val ryu n w =
     (let w = pre_value w
      in if f64_is_nan n \<or> n = PosInf \<or> n = NegInf then put ''null'' w else write_f64 ryu n w)"

definition jw_string :: "string \<Rightarrow> json_writer \<Rightarrow> json_writer" where
  "jw_string s w = write_escaped_str s (pre_value w)"

definition raw_json :: "string \<Rightarrow> json_writer \<Rightarrow> json_writer" where
  "raw_json json w = put json (pre_value w)"

definition field_str :: "string \<Rightarrow> string \<Rightarrow> json_writer \<Rightarrow> json_writer" where
  "field_str k v w = jw_string v (jw_key k w)"

definition field_i64 :: "string \<Rightarrow> int \<Rightarrow> json_writer \<Rightarrow> json_writer" where
  "field_i64 k v w = i64_val v (jw_key k w)"

definition field_u16 :: "string \<Rightarrow> nat \<Rightarrow> json_writer \<Rightarrow> json_writer" where
  "field_u16 k v w = u16_val v (jw_key k w)"

definition field_u64 :: "string \<Rightarrow> nat \<Rightarrow> json_writer \<Rightarrow> json_writer" where
  "field_u64 k v w = u64_val v (jw_key k w)"

definition field_f64 :: "(f64 \<Rightarrow> string) \<Rightarrow> string \<Rightarrow> f64 \<Rightarrow> json_writer \<Rightarrow> json_writer" where
  "field_f64 ryu k v w = f64_val ryu v (jw_key k w)"

definition field_bool :: "string \<Rightarrow> bool \<Rightarrow> json_writer \<Rightarrow> json_writer" where
  "field_bool k v w = bool_val v (jw_key k w)"

definition field_str_opt :: "string \<Rightarrow> string option \<Rightarrow> json_writer \<Rightarrow> json_writer" where
  "field_str_opt k v w = (case v of None \<Rightarrow> w | Some v \<Rightarrow> field_str k v w)"

definition field_f64_opt :: "(f64 \<Rightarrow> string) \<Rightarrow> string \<Rightarrow> f64 option \<Rightarrow> json_writer \<Rightarrow> json_writer" where
  "field_f64_opt ryu k v w = (case v of None \<Rightarrow> w | Some v \<Rightarrow> field_f64 ryu k v w)"

definition field_u64_opt :: "string \<Rightarrow> nat option \<Rightarrow> json_writer \<Rightarrow> json_writer" where
  "field_u64_opt k v w = (case v of None \<Rightarrow> w | Some v \<Rightarrow> field_u64 k v w)"

definition into_string :: "json_writer \<Rightarrow> string" where
  "into_string w = jw_buf w"

section \<open>What the writer promises\<close>

text \<open>A JSON text as a tree, and its rendering. \<open>JRaw\<close> is text rendered beforehand.\<close>

datatype json =
    JNull
  | JBool bool
  | JInt int
  | JFloat f64
  | JString string
  | JRaw string
  | JArray "json list"
  | JObject "(string \<times> json) list"

fun sep_parts :: "string list \<Rightarrow> string" where
  "sep_parts [] = []"
| "sep_parts [p] = p"
| "sep_parts (p # ps) = p @ '','' @ sep_parts ps"

definition field_text :: "string \<Rightarrow> string \<Rightarrow> string" where
  "field_text k v = escaped_str k @ '':'' @ v"

definition float_json :: "(f64 \<Rightarrow> string) \<Rightarrow> f64 \<Rightarrow> string" where
  "float_json ryu n = (if n = NaN \<or> n = PosInf \<or> n = NegInf then ''null'' else f64_text ryu n)"

fun render :: "(f64 \<Rightarrow> string) \<Rightarrow> json \<Rightarrow> string" where
  "render ryu JNull = ''null''"
| "render ryu (JBool b) = (if b then ''true'' else ''false'')"
| "render ryu (JInt i) = dec_of_int i"
| "render ryu (JFloat n) = float_json ryu n"
| "render ryu (JString s) = escaped_str s"
| "render ryu (JRaw s) = s"
| "render ryu (JArray vs) = ''['' @ sep_parts (map (render ryu) vs) @ '']''"
| "render ryu (JObject fs) = ''{'' @ sep_parts (map (\<lambda>e. field_text (fst e) (render ryu (snd e))) fs) @ ''}''"

definition emit :: "string \<Rightarrow> json_writer \<Rightarrow> json_writer" where
  "emit s w = put s (pre_value w)"

definition holding :: "json_writer \<Rightarrow> string \<Rightarrow> string list \<Rightarrow> json_writer" where
  "holding w opening ps = (put (opening @ sep_parts ps) w)\<lparr>jw_first := (ps = []) # jw_first w, jw_after_key := False\<rparr>"

lemma sep_parts_snoc: "sep_parts (ps @ [p]) = (if ps = [] then p else sep_parts ps @ '','' @ p)"
  by (induction ps rule: sep_parts.induct) auto

lemma put_put [simp]: "put t (put s w) = put (s @ t) w"
  by (simp add: put_def)

lemma put_Nil [simp]: "put [] w = w"
  by (simp add: put_def)

lemma put_sel [simp]:
  "jw_buf (put s w) = jw_buf w @ s" "jw_first (put s w) = jw_first w" "jw_after_key (put s w) = jw_after_key w"
  by (simp_all add: put_def)

lemma jw_eqI:
  "jw_buf v = jw_buf w \<Longrightarrow> jw_first v = jw_first w \<Longrightarrow> jw_after_key v = jw_after_key w \<Longrightarrow> v = (w :: json_writer)"
  by simp

lemma pre_value_after_key [simp]: "\<not> jw_after_key (pre_value w)"
  by (auto simp: pre_value_def split: list.split)

lemma holding_begin:
  "begin_object w = holding (pre_value w) ''{'' []" "begin_array w = holding (pre_value w) ''['' []"
  by (auto simp: begin_object_def begin_array_def holding_def Let_def intro!: jw_eqI)

lemma emit_holding: "emit v (holding w op ps) = holding w op (ps @ [v])"
  by (auto simp: emit_def holding_def pre_value_def sep_parts_snoc intro!: jw_eqI)

lemma emit_key_holding: "emit v (jw_key k (holding w op ps)) = holding w op (ps @ [field_text k v])"
  by (auto simp: emit_def holding_def pre_value_def jw_key_def write_escaped_str_def field_text_def
      sep_parts_snoc intro!: jw_eqI)

lemma holding_end:
  "\<not> jw_after_key w \<Longrightarrow> end_object (holding w ''{'' ps) = put (''{'' @ sep_parts ps @ ''}'') w"
  "\<not> jw_after_key w \<Longrightarrow> end_array (holding w ''['' ps) = put (''['' @ sep_parts ps @ '']'') w"
  by (auto simp: end_object_def end_array_def holding_def intro!: jw_eqI)

lemma emit_object:
  "end_object (holding (pre_value w) ''{'' (map (\<lambda>e. field_text (fst e) (render ryu (snd e))) fs)) =
     emit (render ryu (JObject fs)) w"
  by (simp add: holding_end emit_def)

lemma emit_array:
  "end_array (holding (pre_value w) ''['' (map (render ryu) vs)) = emit (render ryu (JArray vs)) w"
  by (simp add: holding_end emit_def)

lemma u64_digits_dec: "0 < n \<Longrightarrow> rev (u64_digits n) = dec_of_nat n"
proof (induction n rule: u64_digits.induct)
  case (1 n)
  show ?case
  proof (cases "n < 10")
    case True
    with 1(2) show ?thesis
      by (simp add: u64_digits.simps [of n] u64_digits.simps [of 0] dec_of_nat.simps [of n] digit_char_def)
  next
    case False
    with 1 show ?thesis
      by (simp add: u64_digits.simps [of n] dec_of_nat.simps [of n] digit_char_def)
  qed
qed

lemma dec_of_nat_0: "dec_of_nat 0 = ''0''"
  by (simp add: dec_of_nat.simps [of 0] digit_char_def char_of_def bit_0)

lemma write_u64_dec: "write_u64 n w = put (dec_of_nat n) w"
  by (simp add: write_u64_def u64_digits_dec dec_of_nat_0)

lemma i64_min_text: "dec_of_int (- 9223372036854775808) = ''-9223372036854775808''"
  by (simp add: dec_of_int_def dec_of_nat.simps digit_char_def char_of_def bit_0)

lemma write_i64_dec: "write_i64 n w = put (dec_of_int n) w"
  using i64_min_text by (auto simp: write_i64_def write_u64_dec dec_of_int_def dec_of_nat_0)

lemma emit_values:
  "jw_null w = emit (render ryu JNull) w"
  "bool_val b w = emit (render ryu (JBool b)) w"
  "i64_val i w = emit (render ryu (JInt i)) w"
  "u16_val n w = emit (render ryu (JInt (int n))) w"
  "u64_val n w = emit (render ryu (JInt (int n))) w"
  "f64_val ryu x w = emit (render ryu (JFloat x)) w"
  "jw_string s w = emit (render ryu (JString s)) w"
  "raw_json s w = emit (render ryu (JRaw s)) w"
  by (simp_all add: emit_def jw_null_def bool_val_def i64_val_def u16_val_def u64_val_def f64_val_def
      jw_string_def raw_json_def write_u32_def write_u64_dec write_i64_dec write_escaped_str_def
      write_f64_def float_json_def f64_is_nan_def dec_of_int_def)

text \<open>The parts a field adds to the object being written.\<close>

definition fields_text :: "(f64 \<Rightarrow> string) \<Rightarrow> (string \<times> json) list \<Rightarrow> string list" where
  "fields_text ryu fs = map (\<lambda>e. field_text (fst e) (render ryu (snd e))) fs"

definition opt_field :: "string \<Rightarrow> ('a \<Rightarrow> json) \<Rightarrow> 'a option \<Rightarrow> (string \<times> json) list" where
  "opt_field k f v = (case v of None \<Rightarrow> [] | Some x \<Rightarrow> [(k, f x)])"

abbreviation in_object :: "(f64 \<Rightarrow> string) \<Rightarrow> json_writer \<Rightarrow> (string \<times> json) list \<Rightarrow> json_writer" where
  "in_object ryu w fs \<equiv> holding (pre_value w) ''{'' (fields_text ryu fs)"

abbreviation in_array :: "(f64 \<Rightarrow> string) \<Rightarrow> json_writer \<Rightarrow> json list \<Rightarrow> json_writer" where
  "in_array ryu w vs \<equiv> holding (pre_value w) ''['' (map (render ryu) vs)"

lemma begin_in: "begin_object w = in_object ryu w []" "begin_array w = in_array ryu w []"
  by (simp_all add: holding_begin fields_text_def)

lemma end_in:
  "end_object (in_object ryu w fs) = emit (render ryu (JObject fs)) w"
  "end_array (in_array ryu w vs) = emit (render ryu (JArray vs)) w"
  by (simp_all only: fields_text_def emit_object emit_array)

lemma emit_key_in:
  "emit (render ryu v) (jw_key k (in_object ryu w fs)) = in_object ryu w (fs @ [(k, v)])"
  by (simp add: emit_key_holding fields_text_def)

lemma emit_in: "emit (render ryu v) (in_array ryu w vs) = in_array ryu w (vs @ [v])"
  by (simp add: emit_holding)

lemma field_in:
  "field_str k s (in_object ryu w fs) = in_object ryu w (fs @ [(k, JString s)])"
  "field_i64 k i (in_object ryu w fs) = in_object ryu w (fs @ [(k, JInt i)])"
  "field_u16 k n (in_object ryu w fs) = in_object ryu w (fs @ [(k, JInt (int n))])"
  "field_u64 k n (in_object ryu w fs) = in_object ryu w (fs @ [(k, JInt (int n))])"
  "field_f64 ryu k x (in_object ryu w fs) = in_object ryu w (fs @ [(k, JFloat x)])"
  "field_bool k b (in_object ryu w fs) = in_object ryu w (fs @ [(k, JBool b)])"
  by (simp_all only: field_str_def field_i64_def field_u16_def field_u64_def field_f64_def
      field_bool_def emit_values [where ryu = ryu] emit_key_in)

lemma field_opt_in:
  "field_str_opt k s (in_object ryu w fs) = in_object ryu w (fs @ opt_field k JString s)"
  "field_f64_opt ryu k x (in_object ryu w fs) = in_object ryu w (fs @ opt_field k JFloat x)"
  "field_u64_opt k n (in_object ryu w fs) = in_object ryu w (fs @ opt_field k (\<lambda>n. JInt (int n)) n)"
  by (simp_all add: field_str_opt_def field_f64_opt_def field_u64_opt_def opt_field_def field_in
      split: option.split)

text \<open>Loops that write the entries of a map, or the elements of a list.\<close>

lemma fold_keys_in:
  assumes "\<And>e w. e \<in> set m \<Longrightarrow> f (snd e) w = emit (render ryu (g (snd e))) w"
  shows "fold (\<lambda>e w. f (snd e) (jw_key (fst e) w)) m (in_object ryu w fs) =
     in_object ryu w (fs @ map (\<lambda>e. (fst e, g (snd e))) m)"
  using assms by (induction m arbitrary: fs) (simp_all add: emit_key_in)

lemma fold_elems_in:
  assumes "\<And>x w. x \<in> set xs \<Longrightarrow> f x w = emit (render ryu (g x)) w"
  shows "fold f xs (in_array ryu w vs) = in_array ryu w (vs @ map g xs)"
  using assms
proof (induction xs arbitrary: vs)
  case (Cons x xs)
  have "f x (in_array ryu w vs) = in_array ryu w (vs @ [g x])"
    using Cons.prems [of x] by (simp only: emit_in list.set_intros)
  then have "fold f (x # xs) (in_array ryu w vs) = fold f xs (in_array ryu w (vs @ [g x]))" by simp
  also have "\<dots> = in_array ryu w ((vs @ [g x]) @ map g xs)"
    using Cons.prems by (intro Cons.IH) simp
  finally show ?case by simp
qed simp

lemma emit_new: "jw_buf (emit s writer_new) = s"
  by (simp add: emit_def pre_value_def writer_new_def put_def)

end
