(* ===== verification/OmiMsg.thy ===== *)
theory OmiMsg
  imports OdfTree
begin

text \<open>
  \<open>src/omi/error.rs\<close>, \<open>mod.rs\<close>, \<open>read.rs\<close>, \<open>write.rs\<close>, \<open>delete.rs\<close>,
  \<open>cancel.rs\<close> and \<open>response.rs\<close>: the messages of the protocol, their validation,
  and the responses the engine builds. \<open>u64\<close> and \<open>u16\<close> fields are natural numbers,
  the \<open>i64\<close> ttl is an integer; nothing here computes with them.
\<close>

section \<open>Errors\<close>

datatype parse_error =
    InvalidJson string
  | MissingField string
  | InvalidField string string
  | InvalidOperationCount nat
  | UnsupportedVersion string
  | MutuallyExclusive string string

fun parse_error_text :: "parse_error \<Rightarrow> string" where
  "parse_error_text (InvalidJson msg) = ''Invalid JSON: '' @ msg"
| "parse_error_text (MissingField f) = ''Missing field: '' @ f"
| "parse_error_text (InvalidField f reason) = ''Invalid field '' @ quote f @ '': '' @ reason"
| "parse_error_text (InvalidOperationCount n) = ''Expected exactly 1 operation, found '' @ dec_of_nat n"
| "parse_error_text (UnsupportedVersion v) = ''Unsupported OMI version: '' @ v"
| "parse_error_text (MutuallyExclusive a b) =
     ''Fields '' @ quote a @ '' and '' @ quote b @ '' are mutually exclusive''"

section \<open>Requests\<close>

datatype read_kind = OneTime | Subscription | PollRead

record read_op =
  rd_path :: "string option"
  rd_rid :: "string option"
  rd_newest :: "nat option"
  rd_oldest :: "nat option"
  rd_begin :: "f64 option"
  rd_end :: "f64 option"
  rd_depth :: "nat option"
  rd_interval :: "f64 option"
  rd_callback :: "string option"

definition read_validate :: "read_op \<Rightarrow> parse_error + unit" where
  "read_validate op =
     (case (rd_path op, rd_rid op) of
        (Some _, Some _) \<Rightarrow> Inl (MutuallyExclusive ''path'' ''rid'')
      | (None, None) \<Rightarrow> Inl (MissingField ''path or rid'')
      | _ \<Rightarrow> Inr ())"

definition read_kind_of :: "read_op \<Rightarrow> read_kind" where
  "read_kind_of op =
     (if rd_rid op \<noteq> None then PollRead
      else if rd_interval op \<noteq> None \<or> rd_callback op \<noteq> None then Subscription
      else OneTime)"

record write_item =
  wi_path :: string
  wi_v :: omi_value
  wi_t :: "f64 option"

datatype write_op =
    WriteSingle string omi_value "f64 option"
  | WriteBatch "write_item list"
  | WriteTree string objects

record delete_op =
  de_path :: string

definition delete_validate :: "delete_op \<Rightarrow> parse_error + unit" where
  "delete_validate op =
     (if \<not> starts_with ''/'' (de_path op)
      then Inl (InvalidField ''path'' (''must start with '' @ quote ''/''))
      else if de_path op = ''/''
      then Inl (InvalidField ''path'' (''cannot delete root '' @ quote ''/''))
      else Inr ())"

record cancel_op =
  ca_rid :: "string list"

definition cancel_validate :: "cancel_op \<Rightarrow> parse_error + unit" where
  "cancel_validate op =
     (if ca_rid op = [] then Inl (InvalidField ''rid'' ''rid array must not be empty'') else Inr ())"

section \<open>Responses\<close>

datatype status_code =
    StOk | StCreated | StBadRequest | StUnauthorized | StForbidden | StNotFound | StTimeout
  | StPayloadTooLarge | StInternalError | StNotImplemented

definition as_u16 :: "status_code \<Rightarrow> nat" where
  "as_u16 s = (case s of StOk \<Rightarrow> 200 | StCreated \<Rightarrow> 201 | StBadRequest \<Rightarrow> 400 | StUnauthorized \<Rightarrow> 401
     | StForbidden \<Rightarrow> 403 | StNotFound \<Rightarrow> 404 | StTimeout \<Rightarrow> 408 | StPayloadTooLarge \<Rightarrow> 413
     | StInternalError \<Rightarrow> 500 | StNotImplemented \<Rightarrow> 501)"

definition status_desc :: "status_code \<Rightarrow> string" where
  "status_desc s = (case s of StOk \<Rightarrow> ''OK'' | StCreated \<Rightarrow> ''Created'' | StBadRequest \<Rightarrow> ''Bad Request''
     | StUnauthorized \<Rightarrow> ''Unauthorized'' | StForbidden \<Rightarrow> ''Forbidden'' | StNotFound \<Rightarrow> ''Not Found''
     | StTimeout \<Rightarrow> ''Timeout'' | StPayloadTooLarge \<Rightarrow> ''Payload Too Large''
     | StInternalError \<Rightarrow> ''Internal Server Error'' | StNotImplemented \<Rightarrow> ''Not Implemented'')"

datatype result_payload =
    PayNull
  | ReadValues string "odf_value list" "(string, omi_value) btree option"
  | JsonString string

record item_status =
  is_path :: string
  is_status :: nat
  is_desc :: "string option"

datatype response_result = ResBatch "item_status list" | ResSingle result_payload

record response_body =
  rs_status :: nat
  rs_rid :: "string option"
  rs_desc :: "string option"
  rs_result :: "response_result option"

datatype operation =
    OpRead read_op
  | OpWrite write_op
  | OpDelete delete_op
  | OpCancel cancel_op
  | OpResponse response_body

record omi_message =
  om_version :: string
  om_ttl :: int
  om_operation :: operation

definition wrap :: "response_body \<Rightarrow> omi_message" where
  "wrap body = \<lparr>om_version = ''1.0'', om_ttl = 0, om_operation = OpResponse body\<rparr>"

definition ok_null :: omi_message where
  "ok_null = wrap \<lparr>rs_status = as_u16 StOk, rs_rid = None, rs_desc = None,
     rs_result = Some (ResSingle PayNull)\<rparr>"

definition ok_read_result_with_meta ::
  "string \<Rightarrow> odf_value list \<Rightarrow> (string, omi_value) btree option \<Rightarrow> omi_message"
where
  "ok_read_result_with_meta path vals meta = wrap \<lparr>rs_status = as_u16 StOk, rs_rid = None,
     rs_desc = None, rs_result = Some (ResSingle (ReadValues path vals meta))\<rparr>"

definition ok_read_result :: "string \<Rightarrow> odf_value list \<Rightarrow> omi_message" where
  "ok_read_result path vals = ok_read_result_with_meta path vals None"

definition ok_json_string :: "string \<Rightarrow> omi_message" where
  "ok_json_string result = wrap \<lparr>rs_status = as_u16 StOk, rs_rid = None, rs_desc = None,
     rs_result = Some (ResSingle (JsonString result))\<rparr>"

definition ok_with_rid_null :: "string \<Rightarrow> omi_message" where
  "ok_with_rid_null rid = wrap \<lparr>rs_status = as_u16 StOk, rs_rid = Some rid, rs_desc = None,
     rs_result = Some (ResSingle PayNull)\<rparr>"

definition write_ok_with_warning :: "string \<Rightarrow> omi_message" where
  "write_ok_with_warning desc = wrap \<lparr>rs_status = as_u16 StOk, rs_rid = None, rs_desc = Some desc,
     rs_result = None\<rparr>"

definition created_response :: omi_message where
  "created_response = wrap \<lparr>rs_status = as_u16 StCreated, rs_rid = None,
     rs_desc = Some (status_desc StCreated), rs_result = None\<rparr>"

definition not_found :: "string \<Rightarrow> omi_message" where
  "not_found path = wrap \<lparr>rs_status = as_u16 StNotFound, rs_rid = None,
     rs_desc = Some (''Path not found: '' @ path), rs_result = None\<rparr>"

definition forbidden :: "string \<Rightarrow> omi_message" where
  "forbidden desc = wrap \<lparr>rs_status = as_u16 StForbidden, rs_rid = None, rs_desc = Some desc,
     rs_result = None\<rparr>"

definition bad_request :: "string \<Rightarrow> omi_message" where
  "bad_request desc = wrap \<lparr>rs_status = as_u16 StBadRequest, rs_rid = None, rs_desc = Some desc,
     rs_result = None\<rparr>"

definition unauthorized :: "string \<Rightarrow> omi_message" where
  "unauthorized desc = wrap \<lparr>rs_status = as_u16 StUnauthorized, rs_rid = None, rs_desc = Some desc,
     rs_result = None\<rparr>"

definition payload_too_large :: "string \<Rightarrow> omi_message" where
  "payload_too_large desc = wrap \<lparr>rs_status = as_u16 StPayloadTooLarge, rs_rid = None,
     rs_desc = Some desc, rs_result = None\<rparr>"

definition error_message :: "string \<Rightarrow> omi_message" where
  "error_message desc = wrap \<lparr>rs_status = as_u16 StInternalError, rs_rid = None, rs_desc = Some desc,
     rs_result = None\<rparr>"

definition not_implemented :: "string \<Rightarrow> omi_message" where
  "not_implemented desc = wrap \<lparr>rs_status = as_u16 StNotImplemented, rs_rid = None,
     rs_desc = Some desc, rs_result = None\<rparr>"

definition timeout_response :: omi_message where
  "timeout_response = wrap \<lparr>rs_status = as_u16 StTimeout, rs_rid = None,
     rs_desc = Some (status_desc StTimeout), rs_result = None\<rparr>"

definition partial_batch :: "item_status list \<Rightarrow> omi_message" where
  "partial_batch statuses = wrap \<lparr>rs_status = as_u16 StOk, rs_rid = None, rs_desc = None,
     rs_result = Some (ResBatch statuses)\<rparr>"

definition subscription_event :: "string \<Rightarrow> string \<Rightarrow> odf_value list \<Rightarrow> omi_message" where
  "subscription_event rid path vals = wrap \<lparr>rs_status = as_u16 StOk, rs_rid = Some rid,
     rs_desc = None, rs_result = Some (ResSingle (ReadValues path vals None))\<rparr>"

text \<open>The status of a response message; 0 for a request.\<close>

definition response_status :: "omi_message \<Rightarrow> nat" where
  "response_status msg = (case om_operation msg of OpResponse body \<Rightarrow> rs_status body | _ \<Rightarrow> 0)"

lemma response_status_simps [simp]:
  "response_status ok_null = 200"
  "response_status (ok_read_result_with_meta p vs m) = 200"
  "response_status (ok_read_result p vs) = 200"
  "response_status (ok_json_string s) = 200"
  "response_status (ok_with_rid_null r) = 200"
  "response_status (write_ok_with_warning d) = 200"
  "response_status created_response = 201"
  "response_status (not_found p) = 404"
  "response_status (forbidden d) = 403"
  "response_status (bad_request d) = 400"
  "response_status (partial_batch ss) = 200"
  by (simp_all add: response_status_def wrap_def as_u16_def ok_null_def ok_read_result_with_meta_def
      ok_read_result_def ok_json_string_def ok_with_rid_null_def write_ok_with_warning_def
      created_response_def not_found_def forbidden_def bad_request_def partial_batch_def)

section \<open>Depth of a parsed object tree\<close>

definition max_object_depth :: nat where "max_object_depth = 8"

lemma sum_list_size_children:
  "sum_list (map (\<lambda>e. Suc (size (snd e))) (entries (obj_objects obj))) < Suc (size (obj::object))"
proof (cases obj)
  case (Object i t d its obs)
  have "sum_list (map (\<lambda>e. Suc (size (snd e))) m) \<le> size_list (size_prod (\<lambda>_. 0) size) m"
    for m :: "(string \<times> object) list"
    by (induction m) auto
  then have "sum_list (map (\<lambda>e. Suc (size (snd e))) m) < Suc (Suc (Suc (size_list (size_prod (\<lambda>_. 0) size) m)))"
    for m :: "(string \<times> object) list"
    by (meson le_imp_less_Suc less_Suc_eq)
  then show ?thesis
    using Object by (cases obs) simp_all
qed

text \<open>The loop over an explicit stack; the list has the top of the stack first.\<close>

function depth_loop :: "(object \<times> nat) list \<Rightarrow> nat \<Rightarrow> nat" where
  "depth_loop [] max_depth = max_depth"
| "depth_loop ((obj, depth) # stack) max_depth =
     depth_loop
       ((case obj_objects obj of
           None \<Rightarrow> []
         | Some children \<Rightarrow> rev (map (\<lambda>e. (snd e, depth + 1)) children)) @ stack)
       (if max_depth < depth then depth else max_depth)"
  by pat_completeness auto

termination
proof (relation "measure (\<lambda>(stack, _). sum_list (map (\<lambda>e. Suc (size (fst e))) stack))")
  fix obj :: object and depth :: nat and stack :: "(object \<times> nat) list" and max_depth :: nat
  show "(((case obj_objects obj of None \<Rightarrow> []
           | Some children \<Rightarrow> rev (map (\<lambda>e. (snd e, depth + 1)) children)) @ stack,
          if max_depth < depth then depth else max_depth), (obj, depth) # stack, max_depth)
        \<in> measure (\<lambda>(stack, _). sum_list (map (\<lambda>e. Suc (size (fst e))) stack))"
    using sum_list_size_children [of obj]
    by (auto split: option.splits simp: o_def sum_list_rev simp flip: rev_map)
qed simp

definition parsed_object_tree_depth :: "objects \<Rightarrow> nat" where
  "parsed_object_tree_depth objects = depth_loop (rev (map (\<lambda>e. (snd e, 1)) objects)) 0"

text \<open>The height of an object, by recursion.\<close>

fun max0 :: "nat list \<Rightarrow> nat" where
  "max0 [] = 0"
| "max0 (x # xs) = max x (max0 xs)"

lemma max0_append [simp]: "max0 (xs @ ys) = max (max0 xs) (max0 ys)"
  by (induction xs) auto

lemma max0_rev [simp]: "max0 (rev xs) = max0 xs"
  by (induction xs) (auto simp: max.commute)

lemma max0_add: "max0 (map (\<lambda>e. f e + d) m) = (if m = [] then 0 else max0 (map f m) + d)"
  by (induction m) (auto simp: max_def)

fun obj_height :: "object \<Rightarrow> nat" where
  "obj_height (Object i t d its obs) =
     Suc (case obs of None \<Rightarrow> 0 | Some m \<Rightarrow> max0 (map (\<lambda>e. obj_height (snd e)) m))"

definition objects_height :: "objects \<Rightarrow> nat" where
  "objects_height m = max0 (map (\<lambda>e. obj_height (snd e)) m)"

lemma obj_height_alt: "obj_height obj = Suc (objects_height (entries (obj_objects obj)))"
  by (cases obj) (auto simp: objects_height_def split: option.split)

lemma children_pushed:
  "(case obj_objects obj of None \<Rightarrow> [] | Some children \<Rightarrow> rev (map (\<lambda>e. (snd e, depth + 1)) children))
    = rev (map (\<lambda>e. (snd e, depth + 1)) (entries (obj_objects obj)))"
  by (simp split: option.split)

lemma depth_loop_spec:
  "depth_loop stack max_depth = max max_depth (max0 (map (\<lambda>(obj, d). obj_height obj + d - 1) stack))"
proof (induction stack max_depth rule: depth_loop.induct)
  case (2 obj depth stack max_depth)
  define children where "children = entries (obj_objects obj)"
  have h: "max0 (map (\<lambda>e. obj_height (snd e) + depth) children)
      = (if children = [] then 0 else objects_height children + depth)"
    using max0_add [of "\<lambda>e. obj_height (snd e)" depth children] by (simp add: objects_height_def)
  have o: "obj_height obj + depth - 1 = objects_height children + depth"
    by (simp add: obj_height_alt children_def)
  have n: "children = [] \<Longrightarrow> objects_height children = 0" by (simp add: objects_height_def)
  define md where "md = (if max_depth < depth then depth else max_depth)"
  have "depth_loop ((obj, depth) # stack) max_depth =
      depth_loop (rev (map (\<lambda>e. (snd e, depth + 1)) children) @ stack) md"
    unfolding depth_loop.simps(2) children_pushed children_def md_def ..
  also have "\<dots> = max md (max0 (map (\<lambda>(obj, d). obj_height obj + d - 1)
      (rev (map (\<lambda>e. (snd e, depth + 1)) children) @ stack)))"
    using 2 unfolding children_pushed children_def md_def .
  also have "map (\<lambda>(obj, d). obj_height obj + d - 1) (rev (map (\<lambda>e. (snd e, depth + 1)) children) @ stack)
      = rev (map (\<lambda>e. obj_height (snd e) + depth) children) @
        map (\<lambda>(obj, d). obj_height obj + d - 1) stack"
    by (simp add: o_def rev_map)
  finally have "depth_loop ((obj, depth) # stack) max_depth = max md
      (max (if children = [] then 0 else objects_height children + depth)
        (max0 (map (\<lambda>(obj, d). obj_height obj + d - 1) stack)))"
    by (simp only: max0_append max0_rev h)
  moreover have "max max_depth (max0 (map (\<lambda>(obj, d). obj_height obj + d - 1) ((obj, depth) # stack)))
      = max max_depth (max (objects_height children + depth)
          (max0 (map (\<lambda>(obj, d). obj_height obj + d - 1) stack)))"
    by (simp only: list.map max0.simps prod.case o)
  ultimately show ?case
    using n by (auto simp: md_def max_def)
qed simp

text \<open>The depth of parsed objects, computed by a loop over an explicit stack, is the
  height of the object tree: the length of the longest chain of nested objects.\<close>

theorem parsed_object_tree_depth_eq: "parsed_object_tree_depth m = objects_height m"
  by (simp add: parsed_object_tree_depth_def depth_loop_spec o_def objects_height_def flip: rev_map)

end
