(* ===== verification/Serializer.thy ===== *)
theory Serializer
  imports JsonWriter OmiMsg
begin

text \<open>
  \<open>src/json/serializer.rs\<close>, the \<open>ToJson\<close> implementations for the O-DF values and the
  protocol messages. A function that reads a ring buffer returns an option, as its indexing
  may panic. The second half gives each type its JSON tree and proves that the writer, call
  by call, produces exactly the rendering of that tree: every comma, bracket and quote.
\<close>

section \<open>Values and objects\<close>

definition value_to_json :: "(f64 \<Rightarrow> string) \<Rightarrow> omi_value \<Rightarrow> json_writer \<Rightarrow> json_writer" where
  "value_to_json ryu v w =
     (case v of Null \<Rightarrow> jw_null w | Bool b \<Rightarrow> bool_val b w | Number n \<Rightarrow> f64_val ryu n w
      | Str s \<Rightarrow> jw_string s w)"

definition timed_to_json :: "(f64 \<Rightarrow> string) \<Rightarrow> odf_value \<Rightarrow> json_writer \<Rightarrow> json_writer" where
  "timed_to_json ryu x w =
     (let w = begin_object w;
          w = jw_key ''v'' w;
          w = value_to_json ryu (val_v x) w;
          w = field_f64_opt ryu ''t'' (val_t x) w
      in end_object w)"

definition ring_to_json :: "(f64 \<Rightarrow> string) \<Rightarrow> ring_buffer \<Rightarrow> json_writer \<Rightarrow> json_writer option" where
  "ring_to_json ryu rb w = do {
     vals \<leftarrow> rb_newest rb (rb_len rb);
     Some (end_array (fold (timed_to_json ryu) vals (begin_array w)))
   }"

definition meta_to_json ::
  "(f64 \<Rightarrow> string) \<Rightarrow> (string, omi_value) btree \<Rightarrow> json_writer \<Rightarrow> json_writer"
where
  "meta_to_json ryu m w =
     end_object (fold (\<lambda>e w. value_to_json ryu (snd e) (jw_key (fst e) w)) m (begin_object w))"

definition item_to_json :: "(f64 \<Rightarrow> string) \<Rightarrow> info_item \<Rightarrow> json_writer \<Rightarrow> json_writer option" where
  "item_to_json ryu item w = do {
     let w = begin_object w;
     let w = field_str_opt ''type'' (it_type item) w;
     let w = field_str_opt ''desc'' (it_desc item) w;
     let w = (case it_meta item of None \<Rightarrow> w | Some m \<Rightarrow> meta_to_json ryu m (jw_key ''meta'' w));
     w \<leftarrow> (if rb_is_empty (it_values item) then Some w
           else ring_to_json ryu (it_values item) (jw_key ''values'' w));
     Some (end_object w)
   }"

definition items_to_json ::
  "(f64 \<Rightarrow> string) \<Rightarrow> items \<Rightarrow> json_writer \<Rightarrow> json_writer option"
where
  "items_to_json ryu m w = do {
     w \<leftarrow> fold_opt (\<lambda>e w. item_to_json ryu (snd e) (jw_key (fst e) w)) m (begin_object w);
     Some (end_object w)
   }"

text \<open>\<open>usize\<close> is 32 bits wide on the device.\<close>

definition usize_max :: nat where "usize_max = 2 ^ 32 - 1"

lemma fold_opt_cong [fundef_cong]:
  "xs = ys \<Longrightarrow> s = t \<Longrightarrow> (\<And>x s. x \<in> set ys \<Longrightarrow> f x s = g x s) \<Longrightarrow> fold_opt f xs s = fold_opt g ys t"
  by (induction xs arbitrary: ys s t) (auto split: option.split)

fun obj_to_json_depth ::
  "(f64 \<Rightarrow> string) \<Rightarrow> object \<Rightarrow> nat \<Rightarrow> json_writer \<Rightarrow> json_writer option"
where
  "obj_to_json_depth ryu (Object oid ty de its obs) depth w = do {
     let w = begin_object w;
     let w = field_str ''id'' oid w;
     let w = field_str_opt ''type'' ty w;
     let w = field_str_opt ''desc'' de w;
     w \<leftarrow> (if depth = 0 then Some w else do {
       w \<leftarrow> (case its of None \<Rightarrow> Some w | Some m \<Rightarrow> items_to_json ryu m (jw_key ''items'' w));
       (case obs of
          None \<Rightarrow> Some w
        | Some m \<Rightarrow> do {
            w \<leftarrow> fold_opt (\<lambda>e w. obj_to_json_depth ryu (snd e) (depth - 1) (jw_key (fst e) w)) m
                  (begin_object (jw_key ''objects'' w));
            Some (end_object w)
          })
     });
     Some (end_object w)
   }"

definition obj_to_json :: "(f64 \<Rightarrow> string) \<Rightarrow> object \<Rightarrow> json_writer \<Rightarrow> json_writer option" where
  "obj_to_json ryu obj w = obj_to_json_depth ryu obj usize_max w"

definition objects_to_json_depth ::
  "(f64 \<Rightarrow> string) \<Rightarrow> objects \<Rightarrow> nat \<Rightarrow> json_writer \<Rightarrow> json_writer option"
where
  "objects_to_json_depth ryu m depth w = do {
     w \<leftarrow> fold_opt (\<lambda>e w. obj_to_json_depth ryu (snd e) depth (jw_key (fst e) w)) m (begin_object w);
     Some (end_object w)
   }"

section \<open>Responses\<close>

definition payload_to_json :: "(f64 \<Rightarrow> string) \<Rightarrow> result_payload \<Rightarrow> json_writer \<Rightarrow> json_writer" where
  "payload_to_json ryu p w =
     (case p of
        PayNull \<Rightarrow> jw_null w
      | ReadValues path vals meta \<Rightarrow>
          (let w = begin_object w;
               w = field_str ''path'' path w;
               w = (case meta of
                      None \<Rightarrow> w
                    | Some m \<Rightarrow> if m = [] then w else meta_to_json ryu m (jw_key ''meta'' w));
               w = jw_key ''values'' w;
               w = end_array (fold (timed_to_json ryu) vals (begin_array w))
           in end_object w)
      | JsonString s \<Rightarrow> raw_json s w)"

definition status_to_json :: "item_status \<Rightarrow> json_writer \<Rightarrow> json_writer" where
  "status_to_json st w =
     (let w = begin_object w;
          w = field_str ''path'' (is_path st) w;
          w = field_u16 ''status'' (is_status st) w;
          w = field_str_opt ''desc'' (is_desc st) w
      in end_object w)"

definition result_to_json :: "(f64 \<Rightarrow> string) \<Rightarrow> response_result \<Rightarrow> json_writer \<Rightarrow> json_writer" where
  "result_to_json ryu r w =
     (case r of
        ResBatch statuses \<Rightarrow> end_array (fold status_to_json statuses (begin_array w))
      | ResSingle p \<Rightarrow> payload_to_json ryu p w)"

definition body_to_json :: "(f64 \<Rightarrow> string) \<Rightarrow> response_body \<Rightarrow> json_writer \<Rightarrow> json_writer" where
  "body_to_json ryu body w =
     (let w = begin_object w;
          w = field_u16 ''status'' (rs_status body) w;
          w = (case rs_rid body of None \<Rightarrow> w | Some rid \<Rightarrow> field_str ''rid'' rid w);
          w = (case rs_desc body of None \<Rightarrow> w | Some desc \<Rightarrow> field_str ''desc'' desc w);
          w = (case rs_result body of
                 None \<Rightarrow> w
               | Some r \<Rightarrow> result_to_json ryu r (jw_key ''result'' w))
      in end_object w)"

section \<open>Requests and messages\<close>

definition read_to_json :: "(f64 \<Rightarrow> string) \<Rightarrow> read_op \<Rightarrow> json_writer \<Rightarrow> json_writer" where
  "read_to_json ryu op w =
     (let w = begin_object w;
          w = field_str_opt ''path'' (rd_path op) w;
          w = field_str_opt ''rid'' (rd_rid op) w;
          w = field_u64_opt ''newest'' (rd_newest op) w;
          w = field_u64_opt ''oldest'' (rd_oldest op) w;
          w = field_f64_opt ryu ''begin'' (rd_begin op) w;
          w = field_f64_opt ryu ''end'' (rd_end op) w;
          w = field_u64_opt ''depth'' (rd_depth op) w;
          w = field_f64_opt ryu ''interval'' (rd_interval op) w;
          w = field_str_opt ''callback'' (rd_callback op) w
      in end_object w)"

definition write_item_to_json :: "(f64 \<Rightarrow> string) \<Rightarrow> write_item \<Rightarrow> json_writer \<Rightarrow> json_writer" where
  "write_item_to_json ryu item w =
     (let w = begin_object w;
          w = field_str ''path'' (wi_path item) w;
          w = jw_key ''v'' w;
          w = value_to_json ryu (wi_v item) w;
          w = field_f64_opt ryu ''t'' (wi_t item) w
      in end_object w)"

definition write_to_json :: "(f64 \<Rightarrow> string) \<Rightarrow> write_op \<Rightarrow> json_writer \<Rightarrow> json_writer option" where
  "write_to_json ryu op w =
     (case op of
        WriteSingle path v t \<Rightarrow>
          (let w = begin_object w;
               w = field_str ''path'' path w;
               w = jw_key ''v'' w;
               w = value_to_json ryu v w;
               w = field_f64_opt ryu ''t'' t w
           in Some (end_object w))
      | WriteBatch batch \<Rightarrow>
          (let w = begin_object w;
               w = jw_key ''items'' w;
               w = end_array (fold (write_item_to_json ryu) batch (begin_array w))
           in Some (end_object w))
      | WriteTree path objs \<Rightarrow> do {
          let w = begin_object w;
          let w = field_str ''path'' path w;
          let w = jw_key ''objects'' w;
          w \<leftarrow> objects_to_json_depth ryu objs usize_max w;
          Some (end_object w)
        })"

definition delete_to_json :: "delete_op \<Rightarrow> json_writer \<Rightarrow> json_writer" where
  "delete_to_json op w =
     (let w = begin_object w; w = field_str ''path'' (de_path op) w in end_object w)"

definition cancel_to_json :: "cancel_op \<Rightarrow> json_writer \<Rightarrow> json_writer" where
  "cancel_to_json op w =
     (let w = begin_object w;
          w = jw_key ''rid'' w;
          w = end_array (fold jw_string (ca_rid op) (begin_array w))
      in end_object w)"

definition message_to_json :: "(f64 \<Rightarrow> string) \<Rightarrow> omi_message \<Rightarrow> json_writer \<Rightarrow> json_writer option" where
  "message_to_json ryu msg w = do {
     let w = begin_object w;
     let w = field_str ''omi'' (om_version msg) w;
     let w = field_i64 ''ttl'' (om_ttl msg) w;
     w \<leftarrow> (case om_operation msg of
             OpRead op \<Rightarrow> Some (read_to_json ryu op (jw_key ''read'' w))
           | OpWrite op \<Rightarrow> write_to_json ryu op (jw_key ''write'' w)
           | OpDelete op \<Rightarrow> Some (delete_to_json op (jw_key ''delete'' w))
           | OpCancel op \<Rightarrow> Some (cancel_to_json op (jw_key ''cancel'' w))
           | OpResponse body \<Rightarrow> Some (body_to_json ryu body (jw_key ''response'' w)));
     Some (end_object w)
   }"

definition to_json_string :: "(f64 \<Rightarrow> string) \<Rightarrow> omi_message \<Rightarrow> string option" where
  "to_json_string ryu msg = map_option into_string (message_to_json ryu msg writer_new)"

section \<open>The JSON tree of a message\<close>

definition value_json :: "omi_value \<Rightarrow> json" where
  "value_json v = (case v of Null \<Rightarrow> JNull | Bool b \<Rightarrow> JBool b | Number n \<Rightarrow> JFloat n | Str s \<Rightarrow> JString s)"

definition timed_json :: "odf_value \<Rightarrow> json" where
  "timed_json x = JObject ([(''v'', value_json (val_v x))] @ opt_field ''t'' JFloat (val_t x))"

definition meta_json :: "(string, omi_value) btree \<Rightarrow> json" where
  "meta_json m = JObject (map (\<lambda>e. (fst e, value_json (snd e))) m)"

definition history_json :: "odf_value list \<Rightarrow> json" where
  "history_json vs = JArray (map timed_json (rev vs))"

definition item_json :: "info_item \<Rightarrow> json" where
  "item_json item = JObject
     (opt_field ''type'' JString (it_type item) @ opt_field ''desc'' JString (it_desc item) @
      opt_field ''meta'' meta_json (it_meta item) @
      (if item_history item = [] then [] else [(''values'', history_json (item_history item))]))"

definition items_json :: "items \<Rightarrow> json" where
  "items_json m = JObject (map (\<lambda>e. (fst e, item_json (snd e))) m)"

fun obj_json :: "nat \<Rightarrow> object \<Rightarrow> json" where
  "obj_json depth (Object oid ty de its obs) = JObject
     ([(''id'', JString oid)] @ opt_field ''type'' JString ty @ opt_field ''desc'' JString de @
      (if depth = 0 then []
       else opt_field ''items'' items_json its @
         (case obs of None \<Rightarrow> []
          | Some m \<Rightarrow> [(''objects'', JObject (map (\<lambda>e. (fst e, obj_json (depth - 1) (snd e))) m))])))"

definition objects_json :: "nat \<Rightarrow> objects \<Rightarrow> json" where
  "objects_json depth m = JObject (map (\<lambda>e. (fst e, obj_json depth (snd e))) m)"

definition payload_json :: "result_payload \<Rightarrow> json" where
  "payload_json p =
     (case p of
        PayNull \<Rightarrow> JNull
      | ReadValues path vals meta \<Rightarrow> JObject
          ([(''path'', JString path)] @
           opt_field ''meta'' meta_json (if meta = Some [] then None else meta) @
           [(''values'', JArray (map timed_json vals))])
      | JsonString s \<Rightarrow> JRaw s)"

definition status_json :: "item_status \<Rightarrow> json" where
  "status_json st = JObject
     ([(''path'', JString (is_path st)), (''status'', JInt (int (is_status st)))] @
      opt_field ''desc'' JString (is_desc st))"

definition result_json :: "response_result \<Rightarrow> json" where
  "result_json r = (case r of ResBatch ss \<Rightarrow> JArray (map status_json ss) | ResSingle p \<Rightarrow> payload_json p)"

definition body_json :: "response_body \<Rightarrow> json" where
  "body_json body = JObject
     ([(''status'', JInt (int (rs_status body)))] @ opt_field ''rid'' JString (rs_rid body) @
      opt_field ''desc'' JString (rs_desc body) @ opt_field ''result'' result_json (rs_result body))"

definition read_json :: "read_op \<Rightarrow> json" where
  "read_json op = JObject
     (opt_field ''path'' JString (rd_path op) @ opt_field ''rid'' JString (rd_rid op) @
      opt_field ''newest'' (\<lambda>n. JInt (int n)) (rd_newest op) @
      opt_field ''oldest'' (\<lambda>n. JInt (int n)) (rd_oldest op) @
      opt_field ''begin'' JFloat (rd_begin op) @ opt_field ''end'' JFloat (rd_end op) @
      opt_field ''depth'' (\<lambda>n. JInt (int n)) (rd_depth op) @
      opt_field ''interval'' JFloat (rd_interval op) @ opt_field ''callback'' JString (rd_callback op))"

definition write_item_json :: "write_item \<Rightarrow> json" where
  "write_item_json item = JObject
     ([(''path'', JString (wi_path item)), (''v'', value_json (wi_v item))] @
      opt_field ''t'' JFloat (wi_t item))"

definition write_json :: "write_op \<Rightarrow> json" where
  "write_json op =
     (case op of
        WriteSingle path v t \<Rightarrow> JObject
          ([(''path'', JString path), (''v'', value_json v)] @ opt_field ''t'' JFloat t)
      | WriteBatch batch \<Rightarrow> JObject [(''items'', JArray (map write_item_json batch))]
      | WriteTree path objs \<Rightarrow> JObject
          [(''path'', JString path), (''objects'', objects_json usize_max objs)])"

definition operation_json :: "operation \<Rightarrow> string \<times> json" where
  "operation_json op =
     (case op of
        OpRead r \<Rightarrow> (''read'', read_json r)
      | OpWrite x \<Rightarrow> (''write'', write_json x)
      | OpDelete d \<Rightarrow> (''delete'', JObject [(''path'', JString (de_path d))])
      | OpCancel c \<Rightarrow> (''cancel'', JObject [(''rid'', JArray (map JString (ca_rid c)))])
      | OpResponse b \<Rightarrow> (''response'', body_json b))"

definition message_json :: "omi_message \<Rightarrow> json" where
  "message_json msg = JObject
     [(''omi'', JString (om_version msg)), (''ttl'', JInt (om_ttl msg)), operation_json (om_operation msg)]"

section \<open>The writer produces the rendering of the tree\<close>

named_theorems writes \<open>what a function that writes a value emits\<close>

lemma emit_opt_key_in:
  "(case v of None \<Rightarrow> in_object ryu w fs
    | Some x \<Rightarrow> emit (render ryu (f x)) (jw_key k (in_object ryu w fs))) =
     in_object ryu w (fs @ opt_field k f v)"
  by (simp add: opt_field_def emit_key_in split: option.split)

lemma value_writes [writes]: "value_to_json ryu v w = emit (render ryu (value_json v)) w"
  by (cases v) (simp_all only: value_to_json_def value_json_def omi_value.case emit_values [where ryu = ryu])

lemma timed_writes [writes]: "timed_to_json ryu x w = emit (render ryu (timed_json x)) w"
  unfolding timed_to_json_def Let_def begin_in [where ryu = ryu] writes emit_key_in field_opt_in end_in
  by (simp add: timed_json_def)

lemma meta_writes [writes]: "meta_to_json ryu m w = emit (render ryu (meta_json m)) w"
  unfolding meta_to_json_def begin_in [where ryu = ryu]
  by (subst fold_keys_in [where g = value_json]) (simp_all only: writes end_in meta_json_def append_Nil)

lemma array_writes:
  assumes "\<And>x w. x \<in> set xs \<Longrightarrow> f x w = emit (render ryu (g x)) w"
  shows "end_array (fold f xs (begin_array w)) = emit (render ryu (JArray (map g xs))) w"
  using fold_elems_in [of xs f ryu g w "[]"] assms
  by (simp only: begin_in [where ryu = ryu] append_Nil end_in)

lemma ring_writes [writes]:
  "rb_inv rb \<Longrightarrow> ring_to_json ryu rb w = Some (emit (render ryu (history_json (rb_abs rb))) w)"
  by (simp add: ring_to_json_def rb_newest_abs length_rb_abs rb_inv_def history_json_def
      array_writes [where g = timed_json, OF timed_writes] del: render.simps)

lemma item_writes [writes]:
  assumes "item_ok item"
  shows "item_to_json ryu item w = Some (emit (render ryu (item_json item)) w)"
proof -
  have inv: "rb_inv (it_values item)" using assms by (simp add: item_ok_def)
  have e: "rb_is_empty (it_values item) \<longleftrightarrow> item_history item = []"
    using inv length_rb_abs [of "it_values item"]
    by (auto simp: rb_is_empty_def item_history_def rb_inv_def)
  have "item_to_json ryu item w = Some (end_object (in_object ryu w
     (opt_field ''type'' JString (it_type item) @ opt_field ''desc'' JString (it_desc item) @
      opt_field ''meta'' meta_json (it_meta item) @
      (if item_history item = [] then [] else [(''values'', history_json (item_history item))]))))"
    unfolding item_to_json_def Let_def begin_in [where ryu = ryu] field_opt_in meta_writes
      ring_writes [OF inv] e
    by (cases "it_meta item") (simp_all add: item_history_def emit_key_in opt_field_def [of "''meta''"])
  then show ?thesis by (simp only: end_in item_json_def)
qed

lemma fold_opt_keys_in:
  assumes "\<And>e w. e \<in> set m \<Longrightarrow> f (snd e) w = Some (emit (render ryu (g (snd e))) w)"
  shows "fold_opt (\<lambda>e w. f (snd e) (jw_key (fst e) w)) m (in_object ryu w fs) =
     Some (in_object ryu w (fs @ map (\<lambda>e. (fst e, g (snd e))) m))"
  using assms by (induction m arbitrary: fs) (simp_all add: emit_key_in)

lemma items_writes [writes]:
  "items_ok (Some m) \<Longrightarrow> items_to_json ryu m w = Some (emit (render ryu (items_json m)) w)"
  unfolding items_to_json_def begin_in [where ryu = ryu] items_json_def
  by (subst fold_opt_keys_in [where g = item_json]) (auto simp: items_ok_def item_writes end_in simp del: render.simps)

lemma obj_writes [writes]:
  "obj_ok obj \<Longrightarrow> obj_to_json_depth ryu obj depth w = Some (emit (render ryu (obj_json depth obj)) w)"
proof (induction obj arbitrary: depth w)
  case (Object oid ty de its obs)
  have io: "its = Some m \<Longrightarrow> items_ok (Some m)" for m using Object(2) by simp
  define h where "h = [(''id'', JString oid)] @ opt_field ''type'' JString ty @ opt_field ''desc'' JString de"
  have head: "field_str_opt ''desc'' de (field_str_opt ''type'' ty (field_str ''id'' oid (begin_object w))) =
      in_object ryu w h"
    unfolding begin_in [where ryu = ryu] field_in field_opt_in by (simp add: h_def)
  show ?case
  proof (cases "depth = 0")
    case True
    then show ?thesis by (simp add: head end_in h_def del: render.simps)
  next
    case False
    define fs where "fs = h @ opt_field ''items'' items_json its"
    have i: "(case its of None \<Rightarrow> Some (in_object ryu w h)
       | Some m \<Rightarrow> items_to_json ryu m (jw_key ''items'' (in_object ryu w h))) = Some (in_object ryu w fs)"
      using io by (cases its) (simp_all add: items_writes emit_key_in fs_def opt_field_def)
    have o: "fold_opt (\<lambda>e w. obj_to_json_depth ryu (snd e) (depth - 1) (jw_key (fst e) w)) m
        (begin_object (jw_key ''objects'' (in_object ryu w fs))) =
        Some (in_object ryu (jw_key ''objects'' (in_object ryu w fs))
          (map (\<lambda>e. (fst e, obj_json (depth - 1) (snd e))) m))" if "obs = Some m" for m
    proof -
      have "obj_to_json_depth ryu (snd e) (depth - 1) w' =
          Some (emit (render ryu (obj_json (depth - 1) (snd e))) w')" if "e \<in> set m" for e w'
        using Object that \<open>obs = Some m\<close> by (cases e) (fastforce simp: snds.simps)
      then show ?thesis
        unfolding begin_in [where ryu = ryu]
        by (subst fold_opt_keys_in [where g = "obj_json (depth - 1)"]) simp_all
    qed
    have j: "obj_json depth (Object oid ty de its obs) = JObject (fs @ (case obs of None \<Rightarrow> []
        | Some m \<Rightarrow> [(''objects'', JObject (map (\<lambda>e. (fst e, obj_json (depth - 1) (snd e))) m))]))"
      using False by (cases obs) (simp_all add: fs_def h_def)
    show ?thesis
      using False o unfolding j obj_to_json_depth.simps Let_def head
      by (cases obs) (simp_all add: i end_in emit_key_in del: render.simps obj_json.simps)
  qed
qed

lemma objects_writes [writes]:
  "objs_ok m \<Longrightarrow> objects_to_json_depth ryu m depth w = Some (emit (render ryu (objects_json depth m)) w)"
  unfolding objects_to_json_depth_def begin_in [where ryu = ryu] objects_json_def
  by (subst fold_opt_keys_in [where g = "obj_json depth"])
    (auto simp: objs_ok_def obj_writes end_in simp del: render.simps)

lemma payload_writes [writes]: "payload_to_json ryu p w = emit (render ryu (payload_json p)) w"
proof (cases p)
  case (ReadValues path vals meta)
  have "payload_to_json ryu p w = end_object (in_object ryu w
      ([(''path'', JString path)] @ opt_field ''meta'' meta_json (if meta = Some [] then None else meta) @
       [(''values'', JArray (map timed_json vals))]))"
    unfolding ReadValues payload_to_json_def result_payload.case Let_def
      array_writes [where g = timed_json, OF timed_writes] meta_writes
      begin_in(1) [where ryu = ryu] field_in
    by (cases meta) (simp_all add: emit_key_in opt_field_def del: render.simps)
  then show ?thesis by (simp only: ReadValues end_in payload_json_def result_payload.case)
qed (simp_all only: payload_to_json_def payload_json_def result_payload.case emit_values [where ryu = ryu])

lemma status_writes [writes]: "status_to_json st w = emit (render ryu (status_json st)) w"
  unfolding status_to_json_def Let_def begin_in [where ryu = ryu] field_in field_opt_in end_in
  by (simp add: status_json_def)

lemma result_writes [writes]: "result_to_json ryu r w = emit (render ryu (result_json r)) w"
  by (cases r) (simp_all only: result_to_json_def result_json_def response_result.case payload_writes
      array_writes [where g = status_json, OF status_writes])

lemma body_writes [writes]: "body_to_json ryu body w = emit (render ryu (body_json body)) w"
proof -
  have opt: "(case v of None \<Rightarrow> w | Some x \<Rightarrow> field_str k x w) = field_str_opt k v w" for k v w
    by (simp add: field_str_opt_def)
  show ?thesis
    unfolding body_to_json_def Let_def opt begin_in [where ryu = ryu] field_in field_opt_in result_writes
      emit_opt_key_in end_in
    by (simp add: body_json_def)
qed

lemma read_writes [writes]: "read_to_json ryu op w = emit (render ryu (read_json op)) w"
  unfolding read_to_json_def Let_def begin_in [where ryu = ryu] field_opt_in end_in
  by (simp add: read_json_def)

lemma write_item_writes [writes]: "write_item_to_json ryu item w = emit (render ryu (write_item_json item)) w"
  unfolding write_item_to_json_def Let_def begin_in [where ryu = ryu] field_in value_writes emit_key_in
    field_opt_in end_in
  by (simp add: write_item_json_def)

definition write_ok :: "write_op \<Rightarrow> bool" where
  "write_ok op = (case op of WriteTree _ objs \<Rightarrow> objs_ok objs | _ \<Rightarrow> True)"

lemma write_writes [writes]:
  "write_ok op \<Longrightarrow> write_to_json ryu op w = Some (emit (render ryu (write_json op)) w)"
proof (cases op)
  case (WriteSingle path v t)
  show ?thesis
    unfolding WriteSingle write_to_json_def write_op.case Let_def begin_in [where ryu = ryu] field_in
      value_writes emit_key_in field_opt_in end_in
    by (simp add: write_json_def)
next
  case (WriteBatch batch)
  show ?thesis
    unfolding WriteBatch write_to_json_def write_op.case Let_def
      array_writes [where g = write_item_json, OF write_item_writes] begin_in(1) [where ryu = ryu] emit_key_in end_in
    by (simp add: write_json_def)
next
  case (WriteTree path objs)
  moreover assume "write_ok op"
  ultimately have "objs_ok objs" by (simp add: write_ok_def)
  then show ?thesis
    unfolding WriteTree write_to_json_def write_op.case Let_def begin_in(1) [where ryu = ryu] field_in
    by (simp add: objects_writes emit_key_in end_in write_json_def del: render.simps)
qed

definition message_ok :: "omi_message \<Rightarrow> bool" where
  "message_ok msg = (case om_operation msg of OpWrite op \<Rightarrow> write_ok op | _ \<Rightarrow> True)"

lemma operation_writes:
  assumes "message_ok msg"
  shows "(case om_operation msg of
             OpRead op \<Rightarrow> Some (read_to_json ryu op (jw_key ''read'' w))
           | OpWrite op \<Rightarrow> write_to_json ryu op (jw_key ''write'' w)
           | OpDelete op \<Rightarrow> Some (delete_to_json op (jw_key ''delete'' w))
           | OpCancel op \<Rightarrow> Some (cancel_to_json op (jw_key ''cancel'' w))
           | OpResponse body \<Rightarrow> Some (body_to_json ryu body (jw_key ''response'' w))) =
     Some (emit (render ryu (snd (operation_json (om_operation msg)))) (jw_key (fst (operation_json (om_operation msg))) w))"
proof -
  have d: "delete_to_json op w = emit (render ryu (JObject [(''path'', JString (de_path op))])) w" for op w
    unfolding delete_to_json_def Let_def begin_in [where ryu = ryu] field_in end_in by simp
  have str: "jw_string r w = emit (render ryu (JString r)) w" for r w
    by (rule emit_values)
  have c: "cancel_to_json op w = emit (render ryu (JObject [(''rid'', JArray (map JString (ca_rid op)))])) w" for op w
    unfolding cancel_to_json_def Let_def array_writes [where g = JString, OF str] begin_in(1) [where ryu = ryu]
      emit_key_in end_in by simp
  show ?thesis
    using assms
    by (cases "om_operation msg")
      (simp_all add: operation_json_def message_ok_def read_writes write_writes d c body_writes del: render.simps)
qed

lemma message_writes:
  "message_ok msg \<Longrightarrow> message_to_json ryu msg w = Some (emit (render ryu (message_json msg)) w)"
  unfolding message_to_json_def Let_def begin_in [where ryu = ryu] field_in
  by (simp add: operation_writes emit_key_in end_in message_json_def del: render.simps)

section \<open>Properties\<close>

text \<open>C15: Serializing a message never panics, and the text is the rendering of its JSON tree:
  the writer's stack machine places every comma, colon, bracket and quote where the grammar
  wants it, for every operation and any depth of objects.
\<close>

theorem serialize_message:
  assumes "message_ok msg"
  shows "to_json_string ryu msg = Some (render ryu (message_json msg))"
  using message_writes [OF assms] by (simp add: to_json_string_def into_string_def emit_new del: render.simps)

definition sample_read :: omi_message where
  "sample_read = \<lparr>om_version = ''1.0'', om_ttl = 0, om_operation = OpDelete \<lparr>de_path = ''/A''\<rparr>\<rparr>"

theorem serialize_message_witness:
  "to_json_string (\<lambda>_. []) sample_read = Some (render (\<lambda>_. []) (message_json sample_read))"
  by (rule serialize_message) (simp add: sample_read_def message_ok_def)

end
