(* ===== verification/Encoding.thy ===== *)
theory Encoding
  imports Utf8 "HOL-Library.Word"
begin

text \<open>
  \<open>src/gpio/encoding.rs\<close>: the hex and base64 codecs. A decoder returns the sum type of
  its \<open>Result\<close>; \<open>decode_hex\<close> slices its argument at every second byte, which
  panics (\<open>None\<close>) inside a multi-byte character. The \<open>u32\<close> accumulator of the
  base64 decoder stays below \<open>2 ^ 14\<close>, so natural numbers with the bit operations stand
  for it.
\<close>

unbundle bit_operations_syntax

datatype data_encoding = EncString | EncHex | EncBase64

definition encoding_as_str :: "data_encoding \<Rightarrow> string" where
  "encoding_as_str e = (case e of EncString \<Rightarrow> ''string'' | EncHex \<Rightarrow> ''hex'' | EncBase64 \<Rightarrow> ''base64'')"

datatype encoding_error = EncodingError string

definition encoding_from_str :: "string \<Rightarrow> encoding_error + data_encoding" where
  "encoding_from_str s =
     (if s = ''string'' then Inr EncString
      else if s = ''hex'' then Inr EncHex
      else if s = ''base64'' then Inr EncBase64
      else Inl (EncodingError (''unknown encoding: '' @ s)))"

section \<open>Hex\<close>

definition hex_digit :: "char \<Rightarrow> nat option" where
  "hex_digit c =
     (let b = byte_of c in
      if 48 \<le> b \<and> b \<le> 57 then Some (b - 48)
      else if 97 \<le> b \<and> b \<le> 102 then Some (b - 87)
      else if 65 \<le> b \<and> b \<le> 70 then Some (b - 55)
      else None)"

text \<open>\<open>u8::from_str_radix\<close> on two bytes, base 16: a leading plus sign is allowed.\<close>

definition u8_from_hex2 :: "char \<Rightarrow> char \<Rightarrow> nat option" where
  "u8_from_hex2 a b =
     (if a = CHR ''+'' then hex_digit b
      else do { h \<leftarrow> hex_digit a; l \<leftarrow> hex_digit b; Some (16 * h + l) })"

fun decode_hex_loop :: "nat \<Rightarrow> string \<Rightarrow> (encoding_error + string) option" where
  "decode_hex_loop i (a # b # rest) =
     (if \<not> (char_boundary (a # b # rest) \<and> char_boundary rest) then None
      else case u8_from_hex2 a b of
             None \<Rightarrow> Some (Inl (EncodingError (''invalid hex at position '' @ dec_of_nat i)))
           | Some byte \<Rightarrow> do {
               r \<leftarrow> decode_hex_loop (i + 2) rest;
               Some (rbind r (\<lambda>bytes. Inr (char_of byte # bytes)))
             })"
| "decode_hex_loop i _ = Some (Inr [])"

definition decode_hex :: "string \<Rightarrow> (encoding_error + string) option" where
  "decode_hex s =
     (if length s mod 2 \<noteq> 0 then Some (Inl (EncodingError ''hex string must have even length''))
      else decode_hex_loop 0 s)"

definition hex_char :: "nat \<Rightarrow> char" where
  "hex_char d = ''0123456789abcdef'' ! d"

definition encode_hex :: "string \<Rightarrow> string" where
  "encode_hex data = concat (map (\<lambda>b. [hex_char (byte_of b div 16), hex_char (byte_of b mod 16)]) data)"

section \<open>Base64\<close>

definition b64_chars :: string where
  "b64_chars = ''ABCDEFGHIJKLMNOPQRSTUVWXYZabcdefghijklmnopqrstuvwxyz0123456789+/''"

datatype b64_class = B64Val nat | B64Skip | B64Bad

definition b64_class_of :: "char \<Rightarrow> b64_class" where
  "b64_class_of c =
     (let b = byte_of c in
      if 65 \<le> b \<and> b \<le> 90 then B64Val (b - 65)
      else if 97 \<le> b \<and> b \<le> 122 then B64Val (b - 97 + 26)
      else if 48 \<le> b \<and> b \<le> 57 then B64Val (b - 48 + 52)
      else if c = CHR ''+'' then B64Val 62
      else if c = CHR ''/'' then B64Val 63
      else if b = 10 \<or> b = 13 \<or> b = 32 then B64Skip
      else B64Bad)"

fun decode_base64_loop :: "string \<Rightarrow> nat \<Rightarrow> nat \<Rightarrow> encoding_error + string" where
  "decode_base64_loop [] buf bits = Inr []"
| "decode_base64_loop (c # s) buf bits =
     (case b64_class_of c of
        B64Bad \<Rightarrow> Inl (EncodingError (''invalid base64 character: '' @ encode_utf8 (byte_of c)))
      | B64Skip \<Rightarrow> decode_base64_loop s buf bits
      | B64Val v \<Rightarrow>
          (let buf = push_bit 6 buf OR v; bits = bits + 6
           in if 8 \<le> bits
              then (let bits = bits - 8
                    in rbind (decode_base64_loop s (buf AND (2 ^ bits - 1)) bits)
                         (\<lambda>bytes. Inr (char_of (drop_bit bits buf mod 256) # bytes)))
              else decode_base64_loop s buf bits))"

definition trim_end_eq :: "string \<Rightarrow> string" where
  "trim_end_eq s = rev (dropWhile (\<lambda>c. c = CHR ''='') (rev s))"

definition decode_base64 :: "string \<Rightarrow> encoding_error + string" where
  "decode_base64 s = decode_base64_loop (trim_end_eq s) 0 0"

definition b64_triple :: "nat \<Rightarrow> nat \<Rightarrow> nat \<Rightarrow> nat" where
  "b64_triple b0 b1 b2 = push_bit 16 b0 OR push_bit 8 b1 OR b2"

definition b64_at :: "nat \<Rightarrow> nat \<Rightarrow> char" where
  "b64_at n triple = b64_chars ! (drop_bit n triple AND 0x3F)"

fun encode_base64 :: "string \<Rightarrow> string" where
  "encode_base64 [] = []"
| "encode_base64 [a] =
     (let t = b64_triple (byte_of a) 0 0 in [b64_at 18 t, b64_at 12 t, CHR ''='', CHR ''=''])"
| "encode_base64 [a, b] =
     (let t = b64_triple (byte_of a) (byte_of b) 0
      in [b64_at 18 t, b64_at 12 t, b64_at 6 t, CHR ''=''])"
| "encode_base64 (a # b # c # rest) =
     (let t = b64_triple (byte_of a) (byte_of b) (byte_of c)
      in [b64_at 18 t, b64_at 12 t, b64_at 6 t, b64_at 0 t] @ encode_base64 rest)"

section \<open>The codec of an encoding\<close>

definition decode :: "data_encoding \<Rightarrow> string \<Rightarrow> (encoding_error + string) option" where
  "decode e s =
     (case e of
        EncString \<Rightarrow> Some (Inr s)
      | EncHex \<Rightarrow> decode_hex s
      | EncBase64 \<Rightarrow> Some (decode_base64 s))"

definition encode :: "data_encoding \<Rightarrow> string \<Rightarrow> string" where
  "encode e data =
     (case e of
        EncString \<Rightarrow> from_utf8_lossy data
      | EncHex \<Rightarrow> encode_hex data
      | EncBase64 \<Rightarrow> encode_base64 data)"

section \<open>Hex round trip\<close>

lemma hex_char_digit: "d < 16 \<Longrightarrow> hex_digit (hex_char d) = Some d"
proof -
  have "\<forall>d \<in> {0..<16}. hex_digit (hex_char d) = Some d"
    by (simp add: hex_digit_def hex_char_def atLeastLessThan_nat_numeral)
  then show "d < 16 \<Longrightarrow> ?thesis" by simp
qed

lemma hex_char_plain: "d < 16 \<Longrightarrow> graphic (hex_char d) \<and> hex_char d \<noteq> CHR ''+'' \<and> ascii (hex_char d)"
proof -
  have "\<forall>d \<in> {0..<16}. graphic (hex_char d) \<and> hex_char d \<noteq> CHR ''+'' \<and> ascii (hex_char d)"
    by (simp add: graphic_def ascii_def hex_char_def atLeastLessThan_nat_numeral)
  then show "d < 16 \<Longrightarrow> ?thesis" by simp
qed

lemma byte_nibbles: "byte_of c div 16 < (16::nat)" "byte_of c mod 16 < (16::nat)"
  by (simp_all add: less_mult_imp_div_less)

lemma u8_from_hex2_encode:
  "u8_from_hex2 (hex_char (byte_of c div 16)) (hex_char (byte_of c mod 16)) = Some (byte_of c)"
  by (simp add: u8_from_hex2_def hex_char_plain hex_char_digit byte_nibbles)

lemma ascii_boundary: "\<forall>c \<in> set s. ascii c \<Longrightarrow> char_boundary s"
  by (cases s) (auto simp: char_boundary_def ascii_def utf8_cont_def)

lemma encode_hex_simps [simp]:
  "encode_hex [] = []"
  "encode_hex (b # d) = hex_char (byte_of b div 16) # hex_char (byte_of b mod 16) # encode_hex d"
  by (simp_all add: encode_hex_def)

lemma encode_hex_ascii: "\<forall>c \<in> set (encode_hex d). ascii c"
  by (induction d) (simp_all add: hex_char_plain byte_nibbles)

lemma decode_hex_loop_encode: "decode_hex_loop i (encode_hex d) = Some (Inr d)"
proof (induction d arbitrary: i)
  case (Cons c d)
  then show ?case
    using ascii_boundary [OF encode_hex_ascii [of "c # d"]] ascii_boundary [OF encode_hex_ascii [of d]]
    by (simp add: u8_from_hex2_encode)
qed simp

lemma length_encode_hex: "length (encode_hex d) = 2 * length d"
  by (induction d) simp_all

lemma decode_encode_hex: "decode_hex (encode_hex d) = Some (Inr d)"
  by (simp add: decode_hex_def length_encode_hex decode_hex_loop_encode)

section \<open>Base64 round trip\<close>

lemma b64_class_chars: "i < 64 \<Longrightarrow> b64_class_of (b64_chars ! i) = B64Val i \<and> b64_chars ! i \<noteq> CHR ''=''"
proof -
  have 1: "map b64_class_of b64_chars = map B64Val [0..<64]"
    by (simp add: b64_chars_def b64_class_of_def upt_rec)
  have 2: "length b64_chars = 64" by (simp add: b64_chars_def)
  have 3: "CHR ''='' \<notin> set b64_chars" by (simp add: b64_chars_def)
  assume i: "i < 64"
  with 2 have "b64_chars ! i \<in> set b64_chars" by simp
  moreover have "map b64_class_of b64_chars ! i = map B64Val [0..<64] ! i" by (simp only: 1)
  ultimately show ?thesis using 2 3 i by (metis add_0 diff_zero length_upt nth_map nth_upt)
qed

lemma or_disjoint: "b < 2 ^ n \<Longrightarrow> push_bit n a OR b = a * 2 ^ n + (b::nat)"
proof -
  assume "b < 2 ^ n"
  then have t: "take_bit n b = b" by (simp add: take_bit_nat_eq_self)
  have "push_bit n a AND take_bit n b = 0"
    by (rule bit_eqI) (auto simp: bit_simps)
  then have "push_bit n a OR b = push_bit n a + b"
    using t disjunctive_add_eq_or [of "push_bit n a" b] by simp
  then show ?thesis by (simp add: push_bit_eq_mult)
qed

lemma and_mask_mod: "(x::nat) AND (2 ^ n - 1) = x mod 2 ^ n"
  by (metis mask_nat_def take_bit_eq_mask take_bit_nat_def)

lemma b64_triple_eq: "b1 < 256 \<Longrightarrow> b2 < 256 \<Longrightarrow> b64_triple b0 b1 b2 = b0 * 65536 + b1 * 256 + b2"
  unfolding b64_triple_def
  using or_disjoint [of "b1 * 256" 16 b0] or_disjoint [of b2 8 "b0 * 256 + b1"]
  by (simp add: push_bit_eq_mult algebra_simps flip: or.assoc)

lemma decode_b64_step:
  assumes "i < 64"
  shows "decode_base64_loop (b64_chars ! i # s) buf bits =
    (if 8 \<le> bits + 6
     then rbind (decode_base64_loop s ((buf * 64 + i) mod 2 ^ (bits - 2)) (bits - 2))
       (\<lambda>bytes. Inr (char_of ((buf * 64 + i) div 2 ^ (bits - 2) mod 256) # bytes))
     else decode_base64_loop s (buf * 64 + i) (bits + 6))"
proof -
  have "push_bit 6 buf OR i = buf * 64 + i" using or_disjoint [of i 6 buf] assms by simp
  moreover have "bits + 6 - 8 = bits - 2" by simp
  ultimately show ?thesis
    unfolding decode_base64_loop.simps b64_class_chars [OF assms, THEN conjunct1]
    by (simp only: Let_def b64_class.case and_mask_mod drop_bit_eq_div)
qed

lemma trim_end_eq_append: "xs \<noteq> [] \<Longrightarrow> last xs \<noteq> CHR ''='' \<Longrightarrow> trim_end_eq (xs @ s) = xs @ trim_end_eq s"
proof -
  assume "xs \<noteq> []" "last xs \<noteq> CHR ''=''"
  then have "dropWhile (\<lambda>c. c = CHR ''='') (rev xs) = rev xs"
    by (cases xs rule: rev_cases) auto
  then have "dropWhile (\<lambda>c. c = CHR ''='') (rev s @ rev xs) = dropWhile (\<lambda>c. c = CHR ''='') (rev s) @ rev xs"
    by (auto simp: dropWhile_append dropWhile_eq_Nil_conv)
  then show ?thesis by (simp add: trim_end_eq_def)
qed

lemma b64_at_index: "b64_at n t = b64_chars ! (t div 2 ^ n mod 64)"
  using and_mask_mod [of "drop_bit n t" 6] by (simp add: b64_at_def drop_bit_eq_div)

lemma div_mod_digits: "(b::nat) < m \<Longrightarrow> (a * m + b) div m = a \<and> (a * m + b) mod m = b"
  by simp

text \<open>The four base64 digits of three bytes, by the bits they share.\<close>

lemma b64_digits:
  assumes "q0 < 64" "r0 < 4" "q1 < 16" "r1 < 16" "q2 < 4" "r2 < 64"
    and t: "t = b64_triple (q0 * 4 + r0) (q1 * 16 + r1) (q2 * 64 + r2)"
  shows "b64_at 18 t = b64_chars ! q0" "b64_at 12 t = b64_chars ! (r0 * 16 + q1)"
    "b64_at 6 t = b64_chars ! (r1 * 4 + q2)" "b64_at 0 t = b64_chars ! r2"
proof -
  have t': "t = (((q0 * 64 + (r0 * 16 + q1)) * 64 + (r1 * 4 + q2)) * 64 + r2)"
    using assms by (simp add: b64_triple_eq algebra_simps)
  have 0: "t div 2 ^ 0 mod 64 = r2" using div_mod_digits [OF assms(6)] by (simp only: t' power_0 div_by_1)
  have 6: "t div 2 ^ 6 = (q0 * 64 + (r0 * 16 + q1)) * 64 + (r1 * 4 + q2)" using assms by (simp add: t')
  have 12: "t div 2 ^ 12 = q0 * 64 + (r0 * 16 + q1)"
    using assms div_mult2_eq [of t "2 ^ 6" "2 ^ 6"] unfolding 6 by simp
  have 18: "t div 2 ^ 18 = q0"
    using assms div_mult2_eq [of t "2 ^ 12" "2 ^ 6"] unfolding 12 by simp
  show "b64_at 18 t = b64_chars ! q0" "b64_at 12 t = b64_chars ! (r0 * 16 + q1)"
    "b64_at 6 t = b64_chars ! (r1 * 4 + q2)" "b64_at 0 t = b64_chars ! r2"
    unfolding b64_at_index 0 6 12 18
    using assms(1-6) div_mod_digits [of "r0 * 16 + q1" 64 q0]
      div_mod_digits [of "r1 * 4 + q2" 64 "q0 * 64 + (r0 * 16 + q1)"]
    by simp_all
qed

lemma decode_b64_digits:
  assumes "q0 < 64" "r0 < 4" "q1 < 16" "r1 < 16" "q2 < 4" "r2 < 64"
  shows "decode_base64_loop (b64_chars ! q0 # b64_chars ! (r0 * 16 + q1) # s) 0 0 =
      rbind (decode_base64_loop s q1 4) (\<lambda>bytes. Inr (char_of (q0 * 4 + r0) # bytes))"
    and "decode_base64_loop (b64_chars ! (r1 * 4 + q2) # s) q1 4 =
      rbind (decode_base64_loop s q2 2) (\<lambda>bytes. Inr (char_of (q1 * 16 + r1) # bytes))"
    and "decode_base64_loop (b64_chars ! r2 # s) q2 2 =
      rbind (decode_base64_loop s 0 0) (\<lambda>bytes. Inr (char_of (q2 * 64 + r2) # bytes))"
proof -
  have d: "(q0 * 64 + (r0 * 16 + q1)) div 16 = q0 * 4 + r0" "(q0 * 64 + (r0 * 16 + q1)) mod 16 = q1"
    "(q1 * 64 + (r1 * 4 + q2)) div 4 = q1 * 16 + r1" "(q1 * 64 + (r1 * 4 + q2)) mod 4 = q2"
    using div_mod_digits [of q1 16 "q0 * 4 + r0"] div_mod_digits [of q2 4 "q1 * 16 + r1"] assms
    by (simp_all add: algebra_simps)
  show "decode_base64_loop (b64_chars ! q0 # b64_chars ! (r0 * 16 + q1) # s) 0 0 =
      rbind (decode_base64_loop s q1 4) (\<lambda>bytes. Inr (char_of (q0 * 4 + r0) # bytes))"
    using assms d by (simp add: decode_b64_step del: decode_base64_loop.simps)
  show "decode_base64_loop (b64_chars ! (r1 * 4 + q2) # s) q1 4 =
      rbind (decode_base64_loop s q2 2) (\<lambda>bytes. Inr (char_of (q1 * 16 + r1) # bytes))"
    using assms d by (simp add: decode_b64_step del: decode_base64_loop.simps)
  show "decode_base64_loop (b64_chars ! r2 # s) q2 2 =
      rbind (decode_base64_loop s 0 0) (\<lambda>bytes. Inr (char_of (q2 * 64 + r2) # bytes))"
    using assms by (simp add: decode_b64_step del: decode_base64_loop.simps)
qed

lemma byte_split:
  "\<exists>q r. byte_of c = q * 4 + r \<and> q < 64 \<and> r < (4::nat)" 
  "\<exists>q r. byte_of c = q * 16 + r \<and> q < 16 \<and> r < (16::nat)"
  "\<exists>q r. byte_of c = q * 64 + r \<and> q < 4 \<and> r < (64::nat)"
proof -
  have "byte_of c < (256::nat)" by simp
  then have "byte_of c div 4 < (64::nat)" "byte_of c div 16 < (16::nat)" "byte_of c div 64 < (4::nat)"
    by (simp_all add: less_mult_imp_div_less)
  then show "\<exists>q r. byte_of c = q * 4 + r \<and> q < 64 \<and> r < (4::nat)" 
    "\<exists>q r. byte_of c = q * 16 + r \<and> q < 16 \<and> r < (16::nat)"
    "\<exists>q r. byte_of c = q * 64 + r \<and> q < 4 \<and> r < (64::nat)"
    by (metis div_mult_mod_eq mod_less_divisor zero_less_numeral)+
qed

lemma b64_plain: "i < 64 \<Longrightarrow> b64_chars ! i \<noteq> CHR ''=''"
  using b64_class_chars by blast

lemma trim_end_eq_pad [simp]: "trim_end_eq [] = []" "trim_end_eq [CHR ''=''] = []"
  "trim_end_eq [CHR ''='', CHR ''=''] = []"
  by (simp_all add: trim_end_eq_def)

lemma decode_encode_base64: "decode_base64 (encode_base64 d) = Inr d"
proof (induction d rule: encode_base64.induct)
  case 1
  then show ?case by (simp add: decode_base64_def)
next
  case (2 a)
  obtain q0 r0 where a: "byte_of a = q0 * 4 + r0" "q0 < 64" "r0 < (4::nat)" using byte_split by blast
  note d = b64_digits [OF a(2,3) zero_less_numeral zero_less_numeral zero_less_numeral zero_less_numeral refl, simplified]
  have "b64_chars ! (r0 * 16) \<noteq> CHR ''=''" using a by (intro b64_plain) simp
  with a d show ?case
    using trim_end_eq_append [of "[b64_chars ! q0, b64_chars ! (r0 * 16)]" "[CHR ''='', CHR ''='']"]
      decode_b64_digits(1) [of q0 r0 0 0 0 0 "[]"]
    by (simp add: decode_base64_def Let_def flip: a(1))
next
  case (3 a b)
  obtain q0 r0 where a: "byte_of a = q0 * 4 + r0" "q0 < 64" "r0 < (4::nat)" using byte_split by blast
  obtain q1 r1 where b: "byte_of b = q1 * 16 + r1" "q1 < 16" "r1 < (16::nat)" using byte_split by blast
  note d = b64_digits [OF a(2,3) b(2,3) zero_less_numeral zero_less_numeral refl, simplified]
  have "b64_chars ! (r1 * 4) \<noteq> CHR ''=''" using b by (intro b64_plain) simp
  with a b d show ?case
    using trim_end_eq_append [of "[b64_chars ! q0, b64_chars ! (r0 * 16 + q1), b64_chars ! (r1 * 4)]" "[CHR ''='']"]
      decode_b64_digits(1) [of q0 r0 q1 r1 0 0] decode_b64_digits(2) [of q0 r0 q1 r1 0 0 "[]"]
    by (simp add: decode_base64_def Let_def flip: a(1) b(1))
next
  case (4 a b c rest)
  obtain q0 r0 where a: "byte_of a = q0 * 4 + r0" "q0 < 64" "r0 < (4::nat)" using byte_split by blast
  obtain q1 r1 where b: "byte_of b = q1 * 16 + r1" "q1 < 16" "r1 < (16::nat)" using byte_split by blast
  obtain q2 r2 where c: "byte_of c = q2 * 64 + r2" "q2 < 4" "r2 < (64::nat)" using byte_split by blast
  note d = b64_digits [OF a(2,3) b(2,3) c(2,3) refl]
  define ds where "ds = [b64_chars ! q0, b64_chars ! (r0 * 16 + q1), b64_chars ! (r1 * 4 + q2), b64_chars ! r2]"
  have e: "encode_base64 (a # b # c # rest) = ds @ encode_base64 rest"
    using d unfolding ds_def by (simp add: Let_def a(1) b(1) c(1))
  have "trim_end_eq (ds @ encode_base64 rest) = ds @ trim_end_eq (encode_base64 rest)"
    using c by (intro trim_end_eq_append) (simp_all add: ds_def b64_plain)
  moreover have "char_of (q0 * 4 + r0) = a" "char_of (q1 * 16 + r1) = b" "char_of (q2 * 64 + r2) = c"
    by (simp_all flip: a(1) b(1) c(1))
  ultimately show ?case
    using 4 decode_b64_digits [OF a(2,3) b(2,3) c(2,3)]
    unfolding e by (simp add: decode_base64_def ds_def)
qed

section \<open>Properties\<close>

text \<open>C14: Encoding bytes and decoding the text gives the bytes back, for each of the three
  encodings (for the string encoding when the bytes are valid UTF-8, which the text of an
  O-DF value is).
\<close>

theorem decode_encode_roundtrip:
  assumes "e = EncString \<Longrightarrow> utf8_valid data"
  shows "decode e (encode e data) = Some (Inr data)"
  using assms
  by (cases e) (simp_all add: decode_def encode_def decode_encode_hex decode_encode_base64 from_utf8_lossy_valid)

theorem decode_encode_roundtrip_witness:
  "decode EncHex (encode EncHex ''Hi'') = Some (Inr ''Hi'')"
  using decode_encode_roundtrip [of EncHex "''Hi''"] by simp

text \<open>The hex decoder panics when a pair of bytes splits a character: the text is
  \<open>a\<close>, e with an acute accent (two bytes), \<open>b\<close>, and it is valid UTF-8.\<close>

lemma decode_hex_panics:
  "utf8_valid [CHR ''a'', CHR 0xC3, CHR 0xA9, CHR ''b''] \<and>
   decode_hex [CHR ''a'', CHR 0xC3, CHR 0xA9, CHR ''b''] = None"
  by (simp add: utf8_valid.simps Let_def utf8_width_def utf8_second_def utf8_cont_def
      decode_hex_def char_boundary_def)

end
