(* ===== verification/Script.thy ===== *)
theory Script
  imports OdfTree Encoding
begin

text \<open>
  \<open>src/scripting\<close>: the conversions between O-DF values and JavaScript values
  (\<open>convert.rs\<close>), the two functions a script can call, \<open>odf.writeItem\<close> and
  \<open>odf.readItem\<close> (\<open>bindings.rs\<close>), the limits of \<open>engine.rs\<close> and the lookup of a
  script by its \<open>javascript://\<close> URL (\<open>resolve.rs\<close>).

  The mJS interpreter is vendored C code. It is a parameter: running a script in a machine
  state gives a tree \<open>js_run\<close> whose inner nodes are the calls of the two host functions,
  each continued with the machine after the call and the value returned, and whose leaves are
  the outcome. A finite tree is what the documented operation limit of mJS gives. The host
  functions themselves are the code's and are modelled here. What the engine puts into the
  globals \<open>event\<close> and \<open>odf\<close> is the argument \<open>js_env\<close>; a call carries whether the
  global \<open>__ctx\<close> still holds the context pointer, which a script may overwrite.
\<close>

section \<open>JavaScript values\<close>

datatype 'f js_val =
    JsUndefined
  | JsNull
  | JsBool bool
  | JsNumber f64
  | JsStr string
  | JsObj "(string \<times> 'f js_val) list"
  | JsArr "'f js_val list"
  | JsFun 'f
  | JsForeign

fun js_is_function :: "'f js_val \<Rightarrow> bool" where
  "js_is_function (JsFun _) = True"
| "js_is_function _ = False"

definition mjs_to_omi :: "'f js_val \<Rightarrow> omi_value" where
  "mjs_to_omi v =
     (case v of
        JsNumber n \<Rightarrow> Number n
      | JsBool b \<Rightarrow> Bool b
      | JsStr s \<Rightarrow> Str (from_utf8_lossy s)
      | _ \<Rightarrow> Null)"

definition omi_to_mjs :: "omi_value \<Rightarrow> 'f js_val" where
  "omi_to_mjs v =
     (case v of Number n \<Rightarrow> JsNumber n | Bool b \<Rightarrow> JsBool b | Str s \<Rightarrow> JsStr s | Null \<Rightarrow> JsNull)"

definition js_timestamp :: "f64 option \<Rightarrow> 'f js_val" where
  "js_timestamp t = (case t of Some x \<Rightarrow> JsNumber x | None \<Rightarrow> JsNull)"

definition js_event :: "omi_value \<Rightarrow> string \<Rightarrow> f64 option \<Rightarrow> 'f js_val" where
  "js_event v path t =
     JsObj [(''value'', omi_to_mjs v), (''path'', JsStr path), (''timestamp'', js_timestamp t)]"

definition delivery_to_mjs_event :: "string \<Rightarrow> odf_value list \<Rightarrow> 'f js_val" where
  "delivery_to_mjs_event path vals =
     JsObj ((''values'', JsArr (map (\<lambda>e. js_event (val_v e) path (val_t e)) vals)) #
       (case vals of
          [] \<Rightarrow> []
        | first # _ \<Rightarrow>
            [(''value'', omi_to_mjs (val_v first)), (''path'', JsStr path),
             (''timestamp'', js_timestamp (val_t first))]))"

definition js_entry :: "'f js_val \<Rightarrow> f64 option \<Rightarrow> 'f js_val" where
  "js_entry v t = JsObj ((''v'', v) # (case t of None \<Rightarrow> [] | Some x \<Rightarrow> [(''t'', JsNumber x)]))"

definition js_opt_str :: "string \<Rightarrow> string option \<Rightarrow> (string \<times> 'f js_val) list" where
  "js_opt_str k v = (case v of None \<Rightarrow> [] | Some s \<Rightarrow> [(k, JsStr s)])"

definition info_item_to_mjs :: "info_item \<Rightarrow> 'f js_val option" where
  "info_item_to_mjs item = do {
     vals \<leftarrow> query_values item None None None None;
     Some (JsObj (js_opt_str ''type'' (it_type item) @ js_opt_str ''desc'' (it_desc item) @
       [(''values'', JsArr (map (\<lambda>e. js_entry (omi_to_mjs (val_v e)) (val_t e)) vals))] @
       (case vals of [] \<Rightarrow> [] | first # _ \<Rightarrow> [(''value'', omi_to_mjs (val_v first))])))
   }"

definition info_item_to_mjs_with_override :: "info_item \<Rightarrow> 'f js_val \<Rightarrow> 'f js_val option" where
  "info_item_to_mjs_with_override item newest = do {
     vals \<leftarrow> query_values item None None None None;
     Some (JsObj (js_opt_str ''type'' (it_type item) @ js_opt_str ''desc'' (it_desc item) @
       [(''values'', JsArr (case vals of
            [] \<Rightarrow> []
          | first # rest \<Rightarrow> js_entry newest (val_t first) #
              map (\<lambda>e. js_entry (omi_to_mjs (val_v e)) (val_t e)) rest))]))
   }"

section \<open>The interpreter\<close>

datatype js_status = JsOk | JsOpLimit | JsFailed

datatype host_fn = HostWriteItem | HostReadItem

datatype ('m, 'f) js_run =
    JsDone 'm js_status nat "'f js_val"
  | JsCall host_fn "'f js_val list" bool 'm "'m \<Rightarrow> 'f js_val \<Rightarrow> ('m, 'f) js_run"

record 'f js_env =
  env_event :: "'f js_val"
  env_can_write :: bool

record ('m, 'f) mjs =
  mjs_exec :: "'m \<Rightarrow> 'f js_env option \<Rightarrow> string \<Rightarrow> ('m, 'f) js_run"
  mjs_apply :: "'m \<Rightarrow> 'f js_env \<Rightarrow> 'f js_val \<Rightarrow> ('m, 'f) js_run"
  mjs_gc :: "'m \<Rightarrow> 'm"

definition max_script_exec_ms :: nat where "max_script_exec_ms = 5000"

definition max_script_depth :: nat where "max_script_depth = 4"

section \<open>The host functions\<close>

datatype write_encoding = WeString | WeHex | WeBase64

definition to_data_encoding :: "write_encoding \<Rightarrow> data_encoding" where
  "to_data_encoding e = (case e of WeString \<Rightarrow> EncString | WeHex \<Rightarrow> EncHex | WeBase64 \<Rightarrow> EncBase64)"

record pending_write =
  pw_path :: string
  pw_value :: omi_value
  pw_encoding :: "write_encoding option"

record 'f script_ctx =
  cx_pending :: "pending_write list"
  cx_depth :: nat
  cx_onread_path :: "string option"
  cx_onread_fns :: "(string, 'f js_val) btree option"

text \<open>A written text as bytes in its encoding; the engine stores them as a string, lossily
  when they are not UTF-8, and keeps the text as it is when it does not decode.\<close>

definition decode_value :: "omi_value \<Rightarrow> write_encoding option \<Rightarrow> omi_value option" where
  "decode_value v encoding =
     (case encoding of
        None \<Rightarrow> Some v
      | Some enc \<Rightarrow>
          (case v of
             Str s \<Rightarrow> do {
               r \<leftarrow> decode (to_data_encoding enc) s;
               Some (case r of
                       Inr bytes \<Rightarrow> Str (case from_utf8 bytes of Some t \<Rightarrow> t | None \<Rightarrow> from_utf8_lossy bytes)
                     | Inl _ \<Rightarrow> v)
             }
           | _ \<Rightarrow> Some v))"

definition js_encoding_option :: "'f js_val list \<Rightarrow> write_encoding option" where
  "js_encoding_option args =
     (if 3 \<le> length args then
        (case args ! 2 of
           JsObj opts \<Rightarrow>
             (case map_of opts ''type'' of
                Some (JsStr ty) \<Rightarrow>
                  if ty = ''hex'' then Some WeHex
                  else if ty = ''base64'' then Some WeBase64
                  else if ty = ''string'' then Some WeString
                  else None
              | _ \<Rightarrow> None)
         | _ \<Rightarrow> None)
      else None)"

definition js_odf_write_item ::
  "'f js_val list \<Rightarrow> bool \<Rightarrow> 'f script_ctx \<Rightarrow> 'f script_ctx \<times> 'f js_val"
where
  "js_odf_write_item args has_ctx ctx =
     (if length args < 2 then (ctx, JsBool False)
      else (case args ! 1 of
              JsStr bytes \<Rightarrow>
                (case from_utf8 bytes of
                   None \<Rightarrow> (ctx, JsBool False)
                 | Some path \<Rightarrow>
                     if \<not> has_ctx then (ctx, JsBool False)
                     else if max_script_depth \<le> cx_depth ctx + 1 then (ctx, JsBool False)
                     else (ctx\<lparr>cx_pending := cx_pending ctx @
                             [\<lparr>pw_path = path, pw_value = mjs_to_omi (args ! 0),
                               pw_encoding = js_encoding_option args\<rparr>]\<rparr>,
                           JsBool True))
            | _ \<Rightarrow> (ctx, JsBool False)))"

definition strip_value_suffix :: "string \<Rightarrow> object_tree \<Rightarrow> string \<times> bool" where
  "strip_value_suffix path tree =
     (if \<not> ends_with ''/value'' path \<or> path = ''/value'' then (path, False)
      else (case resolve tree path of
              Inr (PtInfoItem _) \<Rightarrow> (path, False)
            | _ \<Rightarrow> (take (length path - length ''/value'') path, True)))"

definition newest_or_null :: "info_item \<Rightarrow> 'f js_val option" where
  "newest_or_null item = do {
     newest \<leftarrow> query_values item (Some 1) None None None;
     Some (case newest of [] \<Rightarrow> JsNull | e # _ \<Rightarrow> omi_to_mjs (val_v e))
   }"

definition has_pending :: "string \<Rightarrow> pending_write list \<Rightarrow> bool" where
  "has_pending path pws = list_ex (\<lambda>pw. pw_path pw = path) pws"

definition last_pending :: "string \<Rightarrow> pending_write list \<Rightarrow> pending_write option" where
  "last_pending path pws = List.find (\<lambda>pw. pw_path pw = path) (rev pws)"

text \<open>The stored value of an item read from within its own \<open>onread\<close> script.\<close>

definition read_stored :: "object_tree \<Rightarrow> string \<Rightarrow> bool \<Rightarrow> 'f js_val option" where
  "read_stored tree path wants_raw =
     (case resolve tree path of
        Inr (PtInfoItem item) \<Rightarrow>
          if \<not> is_readable item \<or> rb_is_empty (it_values item) then Some JsNull
          else if wants_raw then newest_or_null item
          else info_item_to_mjs item
      | _ \<Rightarrow> Some JsNull)"

text \<open>The machine, the pending writes and the value after a nested script; a missing value
  means that the stored one is used.\<close>

type_synonym ('m, 'f) nested_onread =
  "info_item \<Rightarrow> string \<Rightarrow> 'f script_ctx \<Rightarrow> 'm \<Rightarrow> ('f script_ctx \<times> 'm \<times> 'f js_val option) option"

definition read_item ::
  "object_tree \<Rightarrow> ('m, 'f) nested_onread \<Rightarrow> string \<Rightarrow> bool \<Rightarrow> info_item \<Rightarrow>
   'f script_ctx \<Rightarrow> 'm \<Rightarrow> ('f script_ctx \<times> 'm \<times> 'f js_val) option"
where
  "read_item tree nested path wants_raw item ctx m =
     (if \<not> is_readable item then Some (ctx, m, JsNull)
      else do {
        (ctx', m', transformed) \<leftarrow>
          (if get_onread_script item \<noteq> None then nested item path ctx m else Some (ctx, m, None));
        case transformed of
          Some v \<Rightarrow>
            if wants_raw then Some (ctx', m', v)
            else do { obj \<leftarrow> info_item_to_mjs_with_override item v; Some (ctx', m', obj) }
        | None \<Rightarrow>
            if rb_is_empty (it_values item) \<and> \<not> has_pending path (cx_pending ctx')
            then Some (ctx', m', JsNull)
            else do {
              v \<leftarrow> (if wants_raw then newest_or_null item else info_item_to_mjs item);
              Some (ctx', m', v)
            }
      })"

definition js_odf_read_item ::
  "object_tree \<Rightarrow> ('m, 'f) nested_onread \<Rightarrow> 'f js_val list \<Rightarrow> bool \<Rightarrow> 'f script_ctx \<Rightarrow> 'm \<Rightarrow>
   ('f script_ctx \<times> 'm \<times> 'f js_val) option"
where
  "js_odf_read_item tree nested args has_ctx ctx m =
     (case args of
        JsStr bytes # _ \<Rightarrow>
          (case from_utf8 bytes of
             None \<Rightarrow> Some (ctx, m, JsNull)
           | Some path0 \<Rightarrow>
               if \<not> has_ctx then Some (ctx, m, JsNull)
               else
                 (let (path, wants_raw) = strip_value_suffix path0 tree
                  in if cx_onread_path ctx = Some path
                     then do { v \<leftarrow> read_stored tree path wants_raw; Some (ctx, m, v) }
                     else if wants_raw \<and> last_pending path (cx_pending ctx) \<noteq> None
                     then Some (ctx, m,
                       omi_to_mjs (pw_value (the (last_pending path (cx_pending ctx)))))
                     else (case resolve tree path of
                             Inr (PtInfoItem item) \<Rightarrow> read_item tree nested path wants_raw item ctx m
                           | _ \<Rightarrow> Some (ctx, m, JsNull))))
      | _ \<Rightarrow> Some (ctx, m, JsNull))"

section \<open>Running a script\<close>

type_synonym ('m, 'f) read_host =
  "'f js_val list \<Rightarrow> bool \<Rightarrow> 'f script_ctx \<Rightarrow> 'm \<Rightarrow> ('f script_ctx \<times> 'm \<times> 'f js_val) option"

primrec run_js ::
  "('m, 'f) read_host \<Rightarrow> bool \<Rightarrow> ('m, 'f) js_run \<Rightarrow> 'f script_ctx \<Rightarrow>
   ('f script_ctx \<times> 'm \<times> js_status \<times> nat \<times> 'f js_val) option"
where
  "run_js rd has_ctx (JsDone m st elapsed v) = (\<lambda>ctx. Some (ctx, m, st, elapsed, v))"
| "run_js rd has_ctx (JsCall f args ctx_set m k) = (\<lambda>ctx.
     case f of
       HostWriteItem \<Rightarrow>
         (let (ctx', v) = js_odf_write_item args (ctx_set \<and> has_ctx) ctx
          in run_js rd has_ctx (k m v) ctx')
     | HostReadItem \<Rightarrow>
         Option.bind (rd args (ctx_set \<and> has_ctx) ctx m)
           (\<lambda>r. run_js rd has_ctx (k (fst (snd r)) (snd (snd r))) (fst r)))"

definition execute_nested_onread ::
  "('m, 'f) mjs \<Rightarrow> ('m, 'f) read_host \<Rightarrow> ('m, 'f) nested_onread"
where
  "execute_nested_onread api rd item path ctx m =
     (if get_onread_script item = None then Some (ctx, m, None)
      else if max_script_depth \<le> cx_depth ctx + 1 then Some (ctx, m, None)
      else (case Option.bind (cx_onread_fns ctx) (\<lambda>fns. map_of fns path) of
              None \<Rightarrow> Some (ctx, m, None)
            | Some func \<Rightarrow>
                if \<not> js_is_function func then Some (ctx, m, None)
                else do {
                  newest \<leftarrow> query_values item (Some 1) None None None;
                  let (stored, ts) = (case newest of [] \<Rightarrow> (Null, None) | e # _ \<Rightarrow> (val_v e, val_t e));
                  let env = \<lparr>env_event = js_event stored path ts, env_can_write = False\<rparr>;
                  let nested_ctx = ctx\<lparr>cx_depth := cx_depth ctx + 1, cx_onread_path := Some path\<rparr>;
                  (ctx', m', st, elapsed, res) \<leftarrow> run_js rd True (mjs_apply api m env func) nested_ctx;
                  Some (ctx\<lparr>cx_pending := cx_pending ctx'\<rparr>, m',
                        if st = JsOk \<and> res \<noteq> JsNull \<and> res \<noteq> JsUndefined then Some res else None)
                }))"

text \<open>\<open>odf.readItem\<close> may run another item's script, whose reads may run further ones; the
  depth check of \<open>execute_nested_onread\<close> ends that. \<open>read_host_at n\<close> allows \<open>n\<close>
  nested levels; the lemma \<open>read_host_at_enough\<close> shows that the missing levels below the
  depth limit are never entered.\<close>

primrec read_host_at :: "nat \<Rightarrow> ('m, 'f) mjs \<Rightarrow> object_tree \<Rightarrow> ('m, 'f) read_host" where
  "read_host_at 0 api tree = js_odf_read_item tree (\<lambda>item path ctx m. Some (ctx, m, None))"
| "read_host_at (Suc n) api tree =
     js_odf_read_item tree (execute_nested_onread api (read_host_at n api tree))"

definition run_script ::
  "('m, 'f) mjs \<Rightarrow> object_tree \<Rightarrow> bool \<Rightarrow> ('m, 'f) js_run \<Rightarrow> 'f script_ctx \<Rightarrow>
   ('f script_ctx \<times> 'm \<times> js_status \<times> nat \<times> 'f js_val) option"
where
  "run_script api tree has_ctx run ctx = run_js (read_host_at max_script_depth api tree) has_ctx run ctx"

section \<open>Script URLs\<close>

datatype script_resolve_error =
    InvalidUrl string
  | PathNotFound string
  | NotInfoItem string
  | NotMetaData string
  | EmptyValue string
  | NonStringValue string

fun script_resolve_error_text :: "script_resolve_error \<Rightarrow> string" where
  "script_resolve_error_text (InvalidUrl msg) = ''invalid javascript:// URL: '' @ msg"
| "script_resolve_error_text (PathNotFound msg) = ''path not found: '' @ msg"
| "script_resolve_error_text (NotInfoItem p) = ''target is not an InfoItem: '' @ p"
| "script_resolve_error_text (NotMetaData p) = ''target is not a MetaData InfoItem: '' @ p"
| "script_resolve_error_text (EmptyValue p) = ''MetaData InfoItem has no values: '' @ p"
| "script_resolve_error_text (NonStringValue p) = ''MetaData InfoItem value is not a string: '' @ p"

definition javascript_scheme :: string where "javascript_scheme = ''javascript://''"

definition is_javascript_url :: "string \<Rightarrow> bool" where
  "is_javascript_url url = starts_with javascript_scheme url"

definition parse_javascript_url :: "string \<Rightarrow> script_resolve_error + string" where
  "parse_javascript_url url =
     rbind (ok_or (InvalidUrl ''missing javascript:// prefix'') (strip_prefix javascript_scheme url)) (\<lambda>rest.
       if rest = [] then Inl (InvalidUrl ''empty path'')
       else if \<not> starts_with ''/'' rest
       then Inl (InvalidUrl (''path must start with '' @ quote ''/'' @ '': '' @ rest))
       else Inr rest)"

definition is_metadata_path :: "string \<Rightarrow> bool" where
  "is_metadata_path path =
     (let trimmed = (case strip_prefix ''/'' path of Some r \<Rightarrow> r | None \<Rightarrow> path);
          segments = split_on CHR ''/'' trimmed
      in if length segments < 3 then False
         else List.member (take (length segments - 1) segments) ''MetaData'')"

definition resolve_script_url :: "object_tree \<Rightarrow> string \<Rightarrow> (script_resolve_error + string) option" where
  "resolve_script_url tree url =
     (case parse_javascript_url url of
        Inl e \<Rightarrow> Some (Inl e)
      | Inr path \<Rightarrow>
          (case resolve tree path of
             Inl (NotFound msg) \<Rightarrow> Some (Inl (PathNotFound msg))
           | Inl (InvalidPath msg) \<Rightarrow> Some (Inl (InvalidUrl msg))
           | Inl (Forbidden msg) \<Rightarrow> Some (Inl (PathNotFound msg))
           | Inr (PtObject _) \<Rightarrow> Some (Inl (NotInfoItem path))
           | Inr (PtRoot _) \<Rightarrow> Some (Inl (NotInfoItem path))
           | Inr (PtInfoItem item) \<Rightarrow>
               if \<not> is_metadata_path path then Some (Inl (NotMetaData path))
               else do {
                 vals \<leftarrow> query_values item (Some 1) None None None;
                 Some (case vals of
                         [] \<Rightarrow> Inl (EmptyValue path)
                       | newest # _ \<Rightarrow>
                           (case val_v newest of
                              Str s \<Rightarrow> if s = [] then Inl (EmptyValue path) else Inr s
                            | _ \<Rightarrow> Inl (NonStringValue path)))
               }))"

end
