(* ===== verification/Engine.thy ===== *)
theory Engine
  imports Serializer Script Subs
begin

text \<open>
  \<open>src/omi/engine.rs\<close>: the request engine, which owns the object tree, the subscription
  registry and the script interpreter. Every handler takes the engine and returns it with
  its result; the option is \<open>None\<close> when the code panics. The interpreter \<open>api\<close> and the
  float formatter \<open>ryu\<close> are the parameters described in the theories \<open>Script\<close> and
  \<open>JsonWriter\<close>. Logging and its rate limiter are left out.

  The request counts \<open>newest\<close>, \<open>oldest\<close> and \<open>depth\<close> are \<open>u64\<close> and are cast to the
  32 bit \<open>usize\<close> of the device.
\<close>

section \<open>The engine\<close>

record 'm engine =
  en_tree :: object_tree
  en_subs :: registry
  en_pending :: "delivery list"
  en_script :: "'m option"

definition engine_new :: "'m option \<Rightarrow> 'm engine" where
  "engine_new script =
     \<lparr>en_tree = tree_new, en_subs = reg_new, en_pending = [], en_script = script\<rparr>"

definition take_deliveries :: "'m engine \<Rightarrow> delivery list \<times> 'm engine" where
  "take_deliveries en = (en_pending en, en\<lparr>en_pending := []\<rparr>)"

definition as_usize :: "nat \<Rightarrow> nat" where
  "as_usize n = n mod 2 ^ 32"

section \<open>Errors as responses\<close>

definition error_response :: "status_code \<Rightarrow> string \<Rightarrow> omi_message" where
  "error_response st desc =
     \<lparr>om_version = ''1.0'', om_ttl = 0,
      om_operation = OpResponse \<lparr>rs_status = as_u16 st, rs_rid = None, rs_desc = Some desc, rs_result = None\<rparr>\<rparr>"

fun tree_error_status :: "tree_error \<Rightarrow> status_code" where
  "tree_error_status (NotFound _) = StNotFound"
| "tree_error_status (Forbidden _) = StForbidden"
| "tree_error_status (InvalidPath _) = StBadRequest"

fun tree_error_msg :: "tree_error \<Rightarrow> string" where
  "tree_error_msg (NotFound msg) = msg"
| "tree_error_msg (Forbidden msg) = msg"
| "tree_error_msg (InvalidPath msg) = msg"

definition tree_error_to_response :: "tree_error \<Rightarrow> omi_message" where
  "tree_error_to_response e = error_response (tree_error_status e) (tree_error_msg e)"

definition tree_error_to_item_status :: "string \<Rightarrow> tree_error \<Rightarrow> item_status" where
  "tree_error_to_item_status path e =
     \<lparr>is_path = path, is_status = as_u16 (tree_error_status e), is_desc = Some (tree_error_msg e)\<rparr>"

section \<open>Scripts on reading\<close>

definition has_nul :: "string \<Rightarrow> bool" where
  "has_nul s = List.member s CHR 0x00"

fun is_prefix_of :: "string \<Rightarrow> string \<Rightarrow> bool" where
  "is_prefix_of [] s = True"
| "is_prefix_of (c # p) [] = False"
| "is_prefix_of (c # p) (d # s) = (c = d \<and> is_prefix_of p s)"

fun str_contains :: "string \<Rightarrow> string \<Rightarrow> bool" where
  "str_contains p [] = (p = [])"
| "str_contains p (c # s) = (is_prefix_of p (c # s) \<or> str_contains p s)"

definition empty_ctx :: "nat \<Rightarrow> string option \<Rightarrow> (string, 'f js_val) btree option \<Rightarrow> 'f script_ctx" where
  "empty_ctx depth path fns =
     \<lparr>cx_pending = [], cx_depth = depth, cx_onread_path = path, cx_onread_fns = fns\<rparr>"

text \<open>The functions compiled from the \<open>onread\<close> scripts of the other items. No context is
  set while they are compiled.\<close>

definition compile_onread ::
  "('m, 'f) mjs \<Rightarrow> object_tree \<Rightarrow> string \<Rightarrow> string \<times> string \<Rightarrow>
   'm \<times> (string, 'f js_val) btree \<Rightarrow> ('m \<times> (string, 'f js_val) btree) option"
where
  "compile_onread api tree path = (\<lambda>(item_path, script) (m, fns).
     if item_path = path then Some (m, fns)
     else let func_src = ''(function() { return '' @ script @ ''; })''
          in if has_nul func_src then Some (m, fns)
             else do {
               (ctx, m, st, elapsed, func) \<leftarrow>
                 run_script api tree False (mjs_exec api m None func_src) (empty_ctx 0 None None);
               Some (m, if st = JsOk \<and> js_is_function func then bt_insert item_path func fns else fns)
             })"

definition run_onread_script ::
  "('m, 'f) mjs \<Rightarrow> string \<Rightarrow> omi_value \<Rightarrow> f64 option \<Rightarrow> 'm engine \<Rightarrow>
   (omi_value option \<times> 'm engine) option"
where
  "run_onread_script api path v ts en =
     (case resolve (en_tree en) path of
        Inr (PtInfoItem item) \<Rightarrow>
          (case get_onread_script item of
             None \<Rightarrow> Some (None, en)
           | Some script_src \<Rightarrow>
               (case en_script en of
                  None \<Rightarrow> Some (None, en)
                | Some m \<Rightarrow> do {
                    (m, fns) \<leftarrow>
                      (if str_contains ''readItem'' script_src
                       then fold_opt (compile_onread api (en_tree en) path)
                              (collect_onread_scripts (en_tree en)) (m, [])
                       else Some (m, []));
                    if has_nul script_src then Some (None, en\<lparr>en_script := Some m\<rparr>)
                    else do {
                      let env = \<lparr>env_event = js_event v path ts, env_can_write = False\<rparr>;
                      (ctx, m, st, elapsed, res) \<leftarrow>
                        run_script api (en_tree en) True (mjs_exec api m (Some env) script_src)
                          (empty_ctx 0 (Some path) (Some fns));
                      let result = (if max_script_exec_ms \<le> elapsed then None
                                    else if st \<noteq> JsOk then None
                                    else if res \<noteq> JsNull \<and> res \<noteq> JsUndefined
                                    then Some (mjs_to_omi res) else None);
                      Some (result, en\<lparr>en_script := Some (mjs_gc api m)\<rparr>)
                    }
                  }))
      | _ \<Rightarrow> Some (None, en))"

text \<open>\<open>values.first_mut()\<close> replaced by a transformed value.\<close>

definition set_newest :: "omi_value option \<Rightarrow> odf_value list \<Rightarrow> odf_value list" where
  "set_newest v vals =
     (case v of
        None \<Rightarrow> vals
      | Some x \<Rightarrow> (case vals of [] \<Rightarrow> [] | newest # rest \<Rightarrow> newest\<lparr>val_v := x\<rparr> # rest))"

section \<open>Reading\<close>

definition process_read_one_time ::
  "('m, 'f) mjs \<Rightarrow> (f64 \<Rightarrow> string) \<Rightarrow> read_op \<Rightarrow> 'm engine \<Rightarrow> (omi_message \<times> 'm engine) option"
where
  "process_read_one_time api ryu op en =
     (let path = case_option ''/'' id (rd_path op);
          depth = case_option usize_max as_usize (rd_depth op)
      in case resolve (en_tree en) path of
           Inr (PtInfoItem item) \<Rightarrow>
             if \<not> is_readable item
             then Some (forbidden (''InfoItem at '' @ quote path @ '' is not readable''), en)
             else do {
               let has_onread = (get_onread_script item \<noteq> None);
               vals \<leftarrow> query_values item (map_option as_usize (rd_newest op))
                 (map_option as_usize (rd_oldest op)) (rd_begin op) (rd_end op);
               (vals, en) \<leftarrow>
                 (if has_onread then do {
                    let (event_value, event_ts) =
                      (case vals of newest # _ \<Rightarrow> (val_v newest, val_t newest) | [] \<Rightarrow> (Null, None));
                    (transformed, en) \<leftarrow> run_onread_script api path event_value event_ts en;
                    Some (set_newest transformed vals, en)
                  } else Some (vals, en));
               let meta = (case resolve (en_tree en) path of
                             Inr (PtInfoItem item) \<Rightarrow> it_meta item
                           | _ \<Rightarrow> None);
               Some (ok_read_result_with_meta path vals meta, en)
             }
         | Inr (PtObject obj) \<Rightarrow> do {
             w \<leftarrow> obj_to_json_depth ryu obj depth writer_new;
             Some (ok_json_string (into_string w), en)
           }
         | Inr (PtRoot m) \<Rightarrow> do {
             w \<leftarrow> objects_to_json_depth ryu m depth writer_new;
             Some (ok_json_string (into_string w), en)
           }
         | Inl e \<Rightarrow> Some (tree_error_to_response e, en))"

definition process_read_subscription ::
  "read_op \<Rightarrow> int \<Rightarrow> f64 \<Rightarrow> session_id option \<Rightarrow> 'm engine \<Rightarrow> (omi_message \<times> 'm engine) option"
where
  "process_read_subscription op ttl now ws en =
     (if ttl \<le> 0 then Some (bad_request ''Subscription requires ttl > 0'', en)
      else do {
        let path = case_option ''/'' id (rd_path op);
        let interval = case_option (Fin (- 1)) id (rd_interval op);
        let target = (case rd_callback op of
                        Some url \<Rightarrow> Callback url
                      | None \<Rightarrow> (case ws of Some session \<Rightarrow> WebSocket session | None \<Rightarrow> Poll));
        (subs, r) \<leftarrow> create path interval target (f64_of_int ttl) now (en_subs en);
        Some (case r of Inr rid \<Rightarrow> ok_with_rid_null rid | Inl e \<Rightarrow> bad_request e, en\<lparr>en_subs := subs\<rparr>)
      })"

definition process_read_poll :: "read_op \<Rightarrow> f64 \<Rightarrow> 'm engine \<Rightarrow> (omi_message \<times> 'm engine) option" where
  "process_read_poll op now en = do {
     let rid = case_option [] id (rd_rid op);
     (subs, r) \<leftarrow> poll rid now (en_subs en);
     Some (case r of
             PollOk path vals \<Rightarrow> ok_read_result path vals
           | NotPollable \<Rightarrow> bad_request (''Subscription '' @ quote rid @ '' is not pollable'')
           | PollNotFound \<Rightarrow> error_response StNotFound (''Subscription '' @ quote rid @ '' not found''),
           en\<lparr>en_subs := subs\<rparr>)
   }"

definition process_read ::
  "('m, 'f) mjs \<Rightarrow> (f64 \<Rightarrow> string) \<Rightarrow> read_op \<Rightarrow> int \<Rightarrow> f64 \<Rightarrow> session_id option \<Rightarrow> 'm engine \<Rightarrow>
   (omi_message \<times> 'm engine) option"
where
  "process_read api ryu op ttl now ws en =
     (case read_kind_of op of
        OneTime \<Rightarrow> process_read_one_time api ryu op en
      | Subscription \<Rightarrow> process_read_subscription op ttl now ws en
      | PollRead \<Rightarrow> process_read_poll op now en)"

section \<open>Interval subscriptions\<close>

text \<open>The closure handed to \<open>tick_intervals\<close>; reading a well-formed item does not panic.\<close>

definition read_current :: "object_tree \<Rightarrow> string \<Rightarrow> odf_value list option" where
  "read_current tree path =
     (case resolve tree path of
        Inr (PtInfoItem item) \<Rightarrow> query_values item (Some 1) None None None
      | _ \<Rightarrow> None)"

definition tick_transform ::
  "('m, 'f) mjs \<Rightarrow> delivery \<Rightarrow> delivery list \<times> 'm engine \<Rightarrow> (delivery list \<times> 'm engine) option"
where
  "tick_transform api d = (\<lambda>(ds, en).
     case dl_values d of
       [] \<Rightarrow> Some (ds @ [d], en)
     | newest # _ \<Rightarrow>
         (let has_onread = (case resolve (en_tree en) (dl_path d) of
                              Inr (PtInfoItem item) \<Rightarrow> get_onread_script item \<noteq> None
                            | _ \<Rightarrow> False)
          in if has_onread then do {
               (transformed, en) \<leftarrow> run_onread_script api (dl_path d) (val_v newest) (val_t newest) en;
               Some (ds @ [d\<lparr>dl_values := set_newest transformed (dl_values d)\<rparr>], en)
             } else Some (ds @ [d], en)))"

definition tick :: "('m, 'f) mjs \<Rightarrow> f64 \<Rightarrow> 'm engine \<Rightarrow> (delivery list \<times> 'm engine) option" where
  "tick api now en = do {
     (subs, deliveries, next_trigger) \<leftarrow> tick_intervals now (read_current (en_tree en)) (en_subs en);
     fold_opt (tick_transform api) deliveries ([], en\<lparr>en_subs := subs\<rparr>)
   }"

section \<open>Writing\<close>

definition notify_write_event ::
  "string \<Rightarrow> f64 \<Rightarrow> 'm engine \<Rightarrow> (delivery list \<times> 'm engine) option"
where
  "notify_write_event path now en =
     (case resolve (en_tree en) path of
        Inr (PtInfoItem item) \<Rightarrow> do {
          vals \<leftarrow> query_values item (Some 1) None None None;
          (subs, ds) \<leftarrow> notify_event path vals now (en_subs en);
          Some (ds, en\<lparr>en_subs := subs\<rparr>)
        }
      | _ \<Rightarrow> Some ([], en))"

fun walk_item_paths :: "string \<Rightarrow> object \<Rightarrow> string list" where
  "walk_item_paths prefix (Object oid ty de its obs) =
     (let obj_path = (if prefix = ''/'' then ''/'' @ oid else prefix @ ''/'' @ oid)
      in (case its of None \<Rightarrow> [] | Some m \<Rightarrow> map (\<lambda>e. obj_path @ ''/'' @ fst e) m) @
         (case obs of None \<Rightarrow> []
          | Some m \<Rightarrow> concat (map (\<lambda>e. walk_item_paths obj_path (snd e)) m)))"

definition collect_info_item_paths :: "string \<Rightarrow> objects \<Rightarrow> string list" where
  "collect_info_item_paths base objs = concat (map (\<lambda>e. walk_item_paths base (snd e)) objs)"

definition clamp_if_constrained :: "string \<Rightarrow> omi_value \<Rightarrow> 'm engine \<Rightarrow> omi_value option" where
  "clamp_if_constrained path v en =
     (case v of
        Number n \<Rightarrow>
          (case resolve (en_tree en) path of
             Inr (PtInfoItem item) \<Rightarrow>
               (case meta_get item ''max_duty'' of
                  Some (Number hi) \<Rightarrow> do {
                    clamped \<leftarrow> f64_clamp (Fin 0) hi n;
                    Some (if f64_epsilon < f64_abs (clamped - n) then Number clamped else v)
                  }
                | _ \<Rightarrow> Some v)
           | _ \<Rightarrow> Some v)
      | _ \<Rightarrow> Some v)"

definition insert_meta :: "string \<Rightarrow> omi_value \<Rightarrow> info_item \<Rightarrow> info_item" where
  "insert_meta k v item = item\<lparr>it_meta := Some (bt_insert k v (entries (it_meta item)))\<rparr>"

text \<open>A change of the metadata of the item at a path, through \<open>resolve_mut\<close>.\<close>

definition set_meta_at :: "string \<Rightarrow> string \<Rightarrow> omi_value \<Rightarrow> 'm engine \<Rightarrow> 'm engine" where
  "set_meta_at path k v en =
     (case resolve_mut (en_tree en) path of
        Inr (PmInfoItem item store) \<Rightarrow> en\<lparr>en_tree := store (insert_meta k v item)\<rparr>
      | _ \<Rightarrow> en)"

definition mark_writable :: "string \<Rightarrow> 'm engine \<Rightarrow> 'm engine" where
  "mark_writable path en = set_meta_at path ''writable'' (Bool True) en"

text \<open>The value of a pending write after its encoding was applied.\<close>

definition decode_pending :: "pending_write \<Rightarrow> omi_value option" where
  "decode_pending pw = decode_value (pw_value pw) (pw_encoding pw)"

text \<open>One collected write, with the function that writes at the next depth.\<close>

type_synonym 'm writer =
  "string \<Rightarrow> omi_value \<Rightarrow> 'm engine \<Rightarrow> ((omi_message \<times> delivery list) \<times> 'm engine) option"

definition apply_pending ::
  "'m writer \<Rightarrow> pending_write \<Rightarrow> delivery list \<times> 'm engine \<Rightarrow> (delivery list \<times> 'm engine) option"
where
  "apply_pending write pw = (\<lambda>(deliveries, en). do {
     v \<leftarrow> decode_pending pw;
     ((resp, d), en) \<leftarrow> write (pw_path pw) v en;
     let en = (case pw_encoding pw of
                 None \<Rightarrow> en
               | Some enc \<Rightarrow>
                   set_meta_at (pw_path pw) ''tx_encoding''
                     (Str (encoding_as_str (to_data_encoding enc))) en);
     Some (deliveries @ d, en)
   })"

definition onwrite_script :: "object_tree \<Rightarrow> string \<Rightarrow> string option" where
  "onwrite_script tree path =
     (case resolve tree path of
        Inr (PtInfoItem item) \<Rightarrow>
          (case meta_get item ''onwrite'' of Some (Str src) \<Rightarrow> Some src | _ \<Rightarrow> None)
      | _ \<Rightarrow> None)"

definition run_onwrite_script ::
  "('m, 'f) mjs \<Rightarrow> 'm writer \<Rightarrow> string \<Rightarrow> omi_value \<Rightarrow> f64 option \<Rightarrow> nat \<Rightarrow> 'm engine \<Rightarrow>
   ((delivery list \<times> string option) \<times> 'm engine) option"
where
  "run_onwrite_script api write path v ts depth en =
     (if max_script_depth \<le> depth then Some (([], None), en)
      else case onwrite_script (en_tree en) path of
             None \<Rightarrow> Some (([], None), en)
           | Some script_src \<Rightarrow>
               (case en_script en of
                  None \<Rightarrow> Some (([], None), en)
                | Some m \<Rightarrow>
                    if has_nul script_src then Some (([], None), en)
                    else do {
                      let env = \<lparr>env_event = js_event v path ts, env_can_write = True\<rparr>;
                      (ctx, m, st, elapsed, res) \<leftarrow>
                        run_script api (en_tree en) True (mjs_exec api m (Some env) script_src)
                          (empty_ctx depth None None);
                      let script_error =
                        (if max_script_exec_ms \<le> elapsed
                         then Some (''script exceeded time limit after '' @ dec_of_nat elapsed @ ''ms'')
                         else if st = JsOpLimit then Some ''script exceeded operation limit''
                         else None);
                      (deliveries, en) \<leftarrow>
                        fold_opt (apply_pending write) (cx_pending ctx) ([], en\<lparr>en_script := Some m\<rparr>);
                      let en = (if depth = 0
                                then en\<lparr>en_script := map_option (mjs_gc api) (en_script en)\<rparr> else en);
                      Some ((deliveries, script_error), en)
                    }))"

text \<open>The script of a written item runs one level deeper, up to the depth limit.\<close>

lemma run_onwrite_script_cong [fundef_cong]:
  assumes "api = api'" "path = path'" "v = v'" "ts = ts'" "depth = depth'" "en = en'"
    and "\<And>p x e. depth' < max_script_depth \<Longrightarrow> write p x e = write' p x e"
  shows "run_onwrite_script api write path v ts depth en =
    run_onwrite_script api' write' path' v' ts' depth' en'"
proof (cases "max_script_depth \<le> depth'")
  case False
  then have "write = write'" using assms(7) by (intro ext) simp
  then show ?thesis using assms(1-6) by simp
qed (simp add: run_onwrite_script_def assms(5,6))

function write_single_inner ::
  "('m, 'f) mjs \<Rightarrow> string \<Rightarrow> omi_value \<Rightarrow> f64 option \<Rightarrow> f64 \<Rightarrow> nat \<Rightarrow> 'm engine \<Rightarrow>
   ((omi_message \<times> delivery list) \<times> 'm engine) option"
where
  "write_single_inner api path v t now depth en =
     (let target = resolve (en_tree en) path
      in if (case target of Inr (PtInfoItem item) \<Rightarrow> \<not> is_writable item | _ \<Rightarrow> False)
         then Some ((forbidden (''InfoItem at '' @ quote path @ '' is not writable''), []), en)
         else if (case target of Inr (PtObject _) \<Rightarrow> True | Inr (PtRoot _) \<Rightarrow> True | _ \<Rightarrow> False)
         then Some ((bad_request (''Cannot write value to object path '' @ quote path), []), en)
         else if (case target of Inl (Forbidden _) \<Rightarrow> True | Inl (InvalidPath _) \<Rightarrow> True | _ \<Rightarrow> False)
         then Some ((tree_error_to_response (projl target), []), en)
         else do {
           v \<leftarrow> clamp_if_constrained path v en;
           let t = (case t of None \<Rightarrow> Some now | Some x \<Rightarrow> Some x);
           (tree, r) \<leftarrow> write_value path v t (en_tree en);
           let en = en\<lparr>en_tree := tree\<rparr>;
           case r of
             Inr created \<Rightarrow> do {
               let en = (if created then mark_writable path en else en);
               ((deliveries, script_err), en) \<leftarrow>
                 run_onwrite_script api (\<lambda>p x e. write_single_inner api p x t now (depth + 1) e)
                   path v t depth en;
               (own, en) \<leftarrow> notify_write_event path now en;
               let response = (case script_err of
                                 Some warning \<Rightarrow> write_ok_with_warning warning
                               | None \<Rightarrow> if created then created_response else ok_null);
               Some ((response, deliveries @ own), en)
             }
           | Inl e \<Rightarrow> Some ((tree_error_to_response e, []), en)
         })"
  by pat_completeness auto
termination
  by (relation "measure (\<lambda>(api, path, v, t, now, depth, en). max_script_depth - depth)") auto

declare write_single_inner.simps [simp del]

definition write_single ::
  "('m, 'f) mjs \<Rightarrow> string \<Rightarrow> omi_value \<Rightarrow> f64 option \<Rightarrow> f64 \<Rightarrow> 'm engine \<Rightarrow>
   ((omi_message \<times> delivery list) \<times> 'm engine) option"
where
  "write_single api path v t now en = write_single_inner api path v t now 0 en"

definition write_batch_item ::
  "('m, 'f) mjs \<Rightarrow> write_item \<Rightarrow> f64 \<Rightarrow> 'm engine \<Rightarrow> ((item_status \<times> delivery list) \<times> 'm engine) option"
where
  "write_batch_item api item now en =
     (let path = wi_path item; v = wi_v item; t = wi_t item; target = resolve (en_tree en) path
      in if (case target of Inr (PtInfoItem existing) \<Rightarrow> \<not> is_writable existing | _ \<Rightarrow> False)
         then Some ((\<lparr>is_path = path, is_status = as_u16 StForbidden,
                is_desc = Some (''InfoItem at '' @ quote path @ '' is not writable'')\<rparr>, []), en)
         else if (case target of Inr (PtObject _) \<Rightarrow> True | Inr (PtRoot _) \<Rightarrow> True | _ \<Rightarrow> False)
         then Some ((\<lparr>is_path = path, is_status = as_u16 StBadRequest,
                is_desc = Some (''Cannot write value to object path '' @ quote path)\<rparr>, []), en)
         else if (case target of Inl (Forbidden _) \<Rightarrow> True | Inl (InvalidPath _) \<Rightarrow> True | _ \<Rightarrow> False)
         then Some ((tree_error_to_item_status path (projl target), []), en)
         else do {
           (tree, r) \<leftarrow> write_value path v t (en_tree en);
           let en = en\<lparr>en_tree := tree\<rparr>;
           case r of
             Inr created \<Rightarrow> do {
               let en = (if created then mark_writable path en else en);
               ((deliveries, script_err), en) \<leftarrow>
                 run_onwrite_script api (\<lambda>p x e. write_single_inner api p x t now 1 e) path v t 0 en;
               (own, en) \<leftarrow> notify_write_event path now en;
               Some ((\<lparr>is_path = path, is_status = as_u16 (if created then StCreated else StOk),
                       is_desc = script_err\<rparr>, deliveries @ own), en)
             }
           | Inl e \<Rightarrow> Some ((tree_error_to_item_status path e, []), en)
         })"

definition process_write_batch ::
  "('m, 'f) mjs \<Rightarrow> write_item list \<Rightarrow> f64 \<Rightarrow> 'm engine \<Rightarrow> ((omi_message \<times> delivery list) \<times> 'm engine) option"
where
  "process_write_batch api batch now en = do {
     ((statuses, ds), en) \<leftarrow>
       fold_opt (\<lambda>item ((statuses, ds), en). do {
           ((st, d), en) \<leftarrow> write_batch_item api item now en;
           Some ((statuses @ [st], ds @ d), en)
         }) batch (([], []), en);
     Some ((partial_batch statuses, ds), en)
   }"

definition process_write ::
  "('m, 'f) mjs \<Rightarrow> write_op \<Rightarrow> f64 \<Rightarrow> 'm engine \<Rightarrow> ((omi_message \<times> delivery list) \<times> 'm engine) option"
where
  "process_write api op now en =
     (case op of
        WriteSingle path v t \<Rightarrow> write_single api path v t now en
      | WriteBatch batch \<Rightarrow> process_write_batch api batch now en
      | WriteTree path objs \<Rightarrow>
          (let item_paths = collect_info_item_paths path objs;
               (tree, r) = write_tree path objs (en_tree en);
               en = en\<lparr>en_tree := tree\<rparr>
           in case r of
                Inr _ \<Rightarrow> do {
                  (deliveries, en) \<leftarrow>
                    fold_opt (\<lambda>p (ds, en). do {
                        (d, en) \<leftarrow> notify_write_event p now en;
                        Some (ds @ d, en)
                      }) item_paths ([], en);
                  Some ((ok_null, deliveries), en)
                }
              | Inl e \<Rightarrow> Some ((tree_error_to_response e, []), en)))"

section \<open>Callback scripts\<close>

definition run_callback_script ::
  "('m, 'f) mjs \<Rightarrow> string \<Rightarrow> string \<Rightarrow> odf_value list \<Rightarrow> f64 \<Rightarrow> 'm engine \<Rightarrow> (delivery list \<times> 'm engine) option"
where
  "run_callback_script api url path vals now en = do {
     resolved \<leftarrow> resolve_script_url (en_tree en) url;
     case resolved of
       Inl _ \<Rightarrow> Some ([], en)
     | Inr script_src \<Rightarrow>
         (case en_script en of
            None \<Rightarrow> Some ([], en)
          | Some m \<Rightarrow>
              if has_nul script_src then Some ([], en)
              else do {
                let env = \<lparr>env_event = delivery_to_mjs_event path vals, env_can_write = True\<rparr>;
                (ctx, m, st, elapsed, res) \<leftarrow>
                  run_script api (en_tree en) True (mjs_exec api m (Some env) script_src)
                    (empty_ctx 0 None None);
                (deliveries, en) \<leftarrow>
                  fold_opt (apply_pending (\<lambda>p x e. write_single_inner api p x None now 1 e))
                    (cx_pending ctx) ([], en\<lparr>en_script := Some m\<rparr>);
                Some (deliveries, en\<lparr>en_script := map_option (mjs_gc api) (en_script en)\<rparr>)
              })
   }"

section \<open>Deleting, cancelling, and the dispatch\<close>

definition process_delete :: "delete_op \<Rightarrow> 'm engine \<Rightarrow> omi_message \<times> 'm engine" where
  "process_delete op en =
     (let (tree, r) = tree_delete (de_path op) (en_tree en)
      in (case r of Inr _ \<Rightarrow> ok_null | Inl e \<Rightarrow> tree_error_to_response e, en\<lparr>en_tree := tree\<rparr>))"

definition process_cancel :: "cancel_op \<Rightarrow> 'm engine \<Rightarrow> omi_message \<times> 'm engine" where
  "process_cancel op en = (ok_null, en\<lparr>en_subs := fst (cancel (ca_rid op) (en_subs en))\<rparr>)"

definition process ::
  "('m, 'f) mjs \<Rightarrow> (f64 \<Rightarrow> string) \<Rightarrow> omi_message \<Rightarrow> f64 \<Rightarrow> session_id option \<Rightarrow> 'm engine \<Rightarrow>
   ((omi_message \<times> delivery list) \<times> 'm engine) option"
where
  "process api ryu msg now ws en =
     (case om_operation msg of
        OpRead op \<Rightarrow> do {
          (resp, en) \<leftarrow> process_read api ryu op (om_ttl msg) now ws en;
          Some ((resp, []), en)
        }
      | OpWrite op \<Rightarrow> process_write api op now en
      | OpDelete op \<Rightarrow> (let (resp, en) = process_delete op en in Some ((resp, []), en))
      | OpCancel op \<Rightarrow> (let (resp, en) = process_cancel op en in Some ((resp, []), en))
      | OpResponse _ \<Rightarrow>
          Some ((bad_request ''Engine processes requests, not responses'', []), en))"

end
