(* ===== verification/ScriptSpec.thy ===== *)
theory ScriptSpec
  imports Script OdfTreeSpec
begin

text \<open>
  What is proved of the script bindings, for every interpreter: running a script over a
  well-formed tree never panics; the host functions change nothing but the list of collected
  writes, which only grows; at the deepest script level no write is collected at all; and the
  nesting of \<open>onread\<close> scripts is cut off by the depth check, so that the number of levels
  \<open>read_host_at\<close> allows does not matter.
\<close>

section \<open>Induction over runs\<close>

lemma js_run_induct [case_names JsDone JsCall]:
  assumes "\<And>m st el v. P (JsDone m st el v)"
    and "\<And>f args ok m k. (\<And>m' v. P (k m' v)) \<Longrightarrow> P (JsCall f args ok m k)"
  shows "P run"
  by (induction run) (auto intro!: assms)

section \<open>Resolving items\<close>

lemma resolve_item:
  "resolve tree path = Inr (PtInfoItem item) \<longleftrightarrow>
     (\<exists>segs. parse_path path = Inr segs \<and> item_at (tr_objects tree) segs = Some item)"
proof (cases "parse_path path")
  case (Inr segs)
  show ?thesis
  proof (cases segs)
    case Nil
    with Inr show ?thesis by (simp add: resolve_def)
  next
    case (Cons first rest)
    with Inr show ?thesis
      using resolve_spec [of path first rest tree "PtInfoItem item"]
      by (auto split: option.splits)
  qed
qed (simp add: resolve_def)

lemma resolve_item_ok: "tree_ok tree \<Longrightarrow> resolve tree path = Inr (PtInfoItem item) \<Longrightarrow> item_ok item"
  by (auto simp: resolve_item tree_ok_def intro: item_at_ok)

section \<open>The host functions do not panic\<close>

lemma newest_or_null_ok [panic_free]: "item_ok item \<Longrightarrow> newest_or_null item \<noteq> None"
  by (simp add: newest_or_null_def query_values_ok)

lemma info_item_to_mjs_ok [panic_free]: "item_ok item \<Longrightarrow> info_item_to_mjs item \<noteq> None"
  by (simp add: info_item_to_mjs_def query_values_ok)

lemma info_item_override_ok [panic_free]: "item_ok item \<Longrightarrow> info_item_to_mjs_with_override item v \<noteq> None"
  by (simp add: info_item_to_mjs_with_override_def query_values_ok)

lemma read_stored_ok [panic_free]: "tree_ok tree \<Longrightarrow> read_stored tree path raw \<noteq> None"
  using newest_or_null_ok info_item_to_mjs_ok
  by (auto simp: read_stored_def dest: resolve_item_ok split: sum.split path_target.split)

lemma read_item_ok:
  assumes "item_ok item" "\<And>c m. nested item path c m \<noteq> None"
  shows "read_item tree nested path raw item ctx m \<noteq> None"
proof -
  have n: "(nested item path ctx m = None) = False" using assms(2) by blast
  note ok = newest_or_null_ok [OF assms(1)] info_item_to_mjs_ok [OF assms(1)] info_item_override_ok [OF assms(1)]
  show ?thesis
    using n ok
    by (auto simp: read_item_def bind_eq_None_conv simp del: not_None_eq split: option.split prod.split bind_split)
qed

lemma js_odf_read_item_ok:
  assumes "tree_ok tree" "\<And>item path c m. item_ok item \<Longrightarrow> nested item path c m \<noteq> None"
  shows "js_odf_read_item tree nested args hc ctx m \<noteq> None"
proof (cases "\<exists>bytes rest path0. args = JsStr bytes # rest \<and> from_utf8 bytes = Some path0 \<and> hc")
  case True
  then obtain bytes rest path0 where a: "args = JsStr bytes # rest" "from_utf8 bytes = Some path0" hc by blast
  obtain path raw where p: "strip_value_suffix path0 tree = (path, raw)" by fastforce
  have i: "(read_item tree nested path raw item ctx m = None) = False"
    if "resolve tree path = Inr (PtInfoItem item)" for item raw
    using read_item_ok [of item nested path tree raw ctx m] assms(2) resolve_item_ok [OF assms(1) that] by blast
  show ?thesis
    using a p i
    by (simp add: js_odf_read_item_def read_stored_ok [OF assms(1)] del: not_None_eq split: sum.split path_target.split bind_split)
qed (auto simp: js_odf_read_item_def Let_def split: list.split js_val.split option.split)

lemma run_js_ok:
  assumes "\<And>args hc c m. rd args hc c m \<noteq> None"
  shows "run_js rd has_ctx run ctx \<noteq> None"
proof (induction run arbitrary: ctx rule: js_run_induct)
  case (JsCall f args ok m k)
  then show ?case
    using assms [of args "ok \<and> has_ctx" ctx m]
    by (cases f) (auto simp: Let_def split: prod.split)
qed simp

lemma execute_nested_onread_ok:
  assumes "item_ok item" "\<And>args hc c m. rd args hc c m \<noteq> None"
  shows "execute_nested_onread api rd item path ctx m \<noteq> None"
proof -
  have n: "(run_js rd True run c = None) = False" for run c using run_js_ok assms(2) by blast
  show ?thesis
    unfolding execute_nested_onread_def query_values_ok [OF assms(1)] Let_def
    by (auto simp: n simp del: not_None_eq split: option.split prod.split bind_split)
qed

lemma read_host_at_ok: "tree_ok tree \<Longrightarrow> read_host_at n api tree args hc ctx m \<noteq> None"
proof (induction n arbitrary: args hc ctx m)
  case 0
  show ?case unfolding read_host_at.simps by (rule js_odf_read_item_ok [OF 0]) simp
next
  case (Suc n)
  then show ?case
    unfolding read_host_at.simps by (intro js_odf_read_item_ok execute_nested_onread_ok) auto
qed

lemma run_script_ok [panic_free]:
  "tree_ok tree \<Longrightarrow> \<exists>ctx' m st el v. run_script api tree hc run ctx = Some (ctx', m, st, el, v)"
  using run_js_ok [of "read_host_at max_script_depth api tree" hc run ctx] read_host_at_ok [of tree max_script_depth api]
  by (auto simp: run_script_def)

section \<open>What a script can do to its context\<close>

text \<open>A condition on the arguments of every \<open>odf.writeItem\<close> call a run can make.\<close>

primrec writes_all :: "('f js_val list \<Rightarrow> bool) \<Rightarrow> ('m, 'f) js_run \<Rightarrow> bool" where
  "writes_all W (JsDone m st elapsed v) = True"
| "writes_all W (JsCall f args ok m k) =
     ((f = HostWriteItem \<longrightarrow> W args) \<and> (\<forall>m' v. writes_all W (k m' v)))"

definition interp_writes :: "('f js_val list \<Rightarrow> bool) \<Rightarrow> ('m, 'f) mjs \<Rightarrow> bool" where
  "interp_writes W api \<longleftrightarrow>
     (\<forall>m env src. writes_all W (mjs_exec api m env src)) \<and>
     (\<forall>m env f. writes_all W (mjs_apply api m env f))"

lemma writes_all_True: "writes_all (\<lambda>_. True) run"
  by (induction run rule: js_run_induct) auto

lemma interp_writes_True: "interp_writes (\<lambda>_. True) api"
  by (simp add: interp_writes_def writes_all_True)

text \<open>A relation between the context before and after. It has to be a preorder that one
  \<open>odf.writeItem\<close> call with allowed arguments respects, and that survives the switch to
  a nested script and back; then every run of a script respects it.\<close>

locale context_relation =
  fixes W :: "'f js_val list \<Rightarrow> bool"
    and R :: "'f script_ctx \<Rightarrow> 'f script_ctx \<Rightarrow> bool"
  assumes refl: "R c c"
    and trans: "R a b \<Longrightarrow> R b c \<Longrightarrow> R a c"
    and call: "W args \<Longrightarrow> js_odf_write_item args hc c = (c', v) \<Longrightarrow> R c c'"
    and nested: "R (c\<lparr>cx_depth := Suc (cx_depth c), cx_onread_path := Some path\<rparr>) d \<Longrightarrow>
      R c (c\<lparr>cx_pending := cx_pending d\<rparr>)"
begin

definition host_step :: "('m, 'f) read_host \<Rightarrow> bool" where
  "host_step rd \<longleftrightarrow> (\<forall>args hc c m c' m' v. rd args hc c m = Some (c', m', v) \<longrightarrow> R c c')"

lemma run_js_step:
  assumes "host_step rd"
  shows "writes_all W run \<Longrightarrow> run_js rd hc run c = Some (c', m, st, el, v) \<Longrightarrow> R c c'"
proof (induction run arbitrary: c rule: js_run_induct)
  case (JsCall f args ok m0 k)
  have k: "writes_all W (k m' v')" for m' v' using JsCall.prems(1) by simp
  show ?case
  proof (cases f)
    case HostWriteItem
    obtain c1 v1 where 1: "js_odf_write_item args (ok \<and> hc) c = (c1, v1)" by fastforce
    then have "run_js rd hc (k m0 v1) c1 = Some (c', m, st, el, v)"
      using JsCall.prems HostWriteItem by simp
    then have "R c1 c'" by (rule JsCall.IH [OF k])
    moreover have "R c c1" using 1 JsCall.prems(1) HostWriteItem by (intro call) auto
    ultimately show ?thesis by (blast intro: trans)
  next
    case HostReadItem
    then obtain c1 m1 v1 where 1: "rd args (ok \<and> hc) c m0 = Some (c1, m1, v1)"
      "run_js rd hc (k m1 v1) c1 = Some (c', m, st, el, v)"
      using JsCall.prems by (auto split: bind_splits)
    have "R c1 c'" using 1(2) by (rule JsCall.IH [OF k])
    moreover have "R c c1" using 1(1) assms unfolding host_step_def by blast
    ultimately show ?thesis by (blast intro: trans)
  qed
qed (auto intro: refl)

lemma nested_step:
  assumes "interp_writes W api" "host_step rd" "execute_nested_onread api rd item path c m = Some (c', m', v)"
  shows "R c c'"
proof -
  have "R c (c\<lparr>cx_pending := cx_pending d\<rparr>)"
    if "run_js rd True (mjs_apply api m1 env f) (c\<lparr>cx_depth := Suc (cx_depth c), cx_onread_path := Some path\<rparr>) =
      Some (d, m2, st, el, r)" for m1 env f d m2 st el r
    using run_js_step [OF assms(2) _ that] assms(1) by (intro nested) (auto simp: interp_writes_def)
  then show ?thesis
    using assms(3)
    by (auto simp: execute_nested_onread_def Let_def intro: refl
        split: if_splits option.splits bind_splits prod.splits)
qed

lemma read_item_step:
  assumes "\<And>c c' m m' v. nest item path c m = Some (c', m', v) \<Longrightarrow> R c c'"
    and "read_item tree nest path raw item c m = Some (c', m', v)"
  shows "R c c'"
  using assms by (auto simp: read_item_def intro: refl split: if_splits option.splits bind_splits)

lemma read_host_step:
  assumes "\<And>item path c c' m m' v. nest item path c m = Some (c', m', v) \<Longrightarrow> R c c'"
  shows "host_step (js_odf_read_item tree nest)"
  unfolding host_step_def js_odf_read_item_def
  using read_item_step [where nest = nest, OF assms]
  by (auto simp: Let_def intro: refl split: list.splits js_val.splits option.splits prod.splits if_splits
      bind_splits sum.splits path_target.splits)

lemma read_host_at_step: "interp_writes W api \<Longrightarrow> host_step (read_host_at n api tree)"
proof (induction n)
  case (Suc n)
  then show ?case
    unfolding read_host_at.simps by (intro read_host_step) (rule nested_step)
qed (auto intro: read_host_step refl)

lemma run_script_step:
  assumes "interp_writes W api" "writes_all W run" "run_script api tree hc run c = Some (c', m, st, el, v)"
  shows "R c c'"
  using run_js_step [OF read_host_at_step [OF assms(1)] assms(2)] assms(3) by (simp add: run_script_def)

end

text \<open>The context after a script: more writes may have been collected, and none at the depth
  limit.\<close>

definition ctx_step :: "'f script_ctx \<Rightarrow> 'f script_ctx \<Rightarrow> bool" where
  "ctx_step c c' \<longleftrightarrow>
     cx_depth c' = cx_depth c \<and> cx_onread_path c' = cx_onread_path c \<and>
     cx_onread_fns c' = cx_onread_fns c \<and> prefix (cx_pending c) (cx_pending c') \<and>
     (max_script_depth \<le> cx_depth c + 1 \<longrightarrow> cx_pending c' = cx_pending c)"

lemma ctx_step_depth: "ctx_step c c' \<Longrightarrow> cx_depth c' = cx_depth c"
  by (simp add: ctx_step_def)

lemma write_item_step: "js_odf_write_item args hc c = (c', v) \<Longrightarrow> ctx_step c c'"
  by (auto simp: js_odf_write_item_def ctx_step_def split: if_splits js_val.splits option.splits)

interpretation grow: context_relation "\<lambda>_. True" ctx_step
proof unfold_locales
  show "ctx_step a c" if "ctx_step a b" "ctx_step b c" for a b c :: "'f script_ctx"
    using that by (auto simp: ctx_step_def intro: prefix_order.trans)
qed (auto simp: ctx_step_def dest: write_item_step)

lemma script_grows_pending: "run_script api tree hc run c = Some (c', m, st, el, v) \<Longrightarrow> ctx_step c c'"
  by (rule grow.run_script_step [OF interp_writes_True writes_all_True])

text \<open>The collected writes can be decoded, if every write the script asks for can be.\<close>

definition decodable_args :: "'f js_val list \<Rightarrow> bool" where
  "decodable_args args \<longleftrightarrow>
     decode_value (mjs_to_omi (args ! 0)) (js_encoding_option args) \<noteq> None"

definition pending_decodable :: "'f script_ctx \<Rightarrow> bool" where
  "pending_decodable c \<longleftrightarrow> (\<forall>pw \<in> set (cx_pending c). decode_value (pw_value pw) (pw_encoding pw) \<noteq> None)"

interpretation dec: context_relation decodable_args "\<lambda>c c'. pending_decodable c \<longrightarrow> pending_decodable c'"
  by unfold_locales
    (auto simp: pending_decodable_def decodable_args_def js_odf_write_item_def
      split: if_splits js_val.splits option.splits)

section \<open>The number of nested levels does not matter\<close>

definition hosts_agree :: "nat \<Rightarrow> ('m, 'f) read_host \<Rightarrow> ('m, 'f) read_host \<Rightarrow> bool" where
  "hosts_agree d r1 r2 \<longleftrightarrow> (\<forall>args hc c m. d \<le> cx_depth c \<longrightarrow> r1 args hc c m = r2 args hc c m)"

lemma run_js_agree:
  assumes "hosts_agree d r1 r2" "grow.host_step r2"
  shows "d \<le> cx_depth c \<Longrightarrow> run_js r1 hc run c = run_js r2 hc run c"
proof (induction run arbitrary: c rule: js_run_induct)
  case (JsCall f args ok m k)
  show ?case
  proof (cases f)
    case HostWriteItem
    obtain c1 v1 where 1: "js_odf_write_item args (ok \<and> hc) c = (c1, v1)" by fastforce
    then have "d \<le> cx_depth c1" using JsCall.prems write_item_step ctx_step_depth by metis
    with 1 HostWriteItem JsCall.IH show ?thesis by auto
  next
    case HostReadItem
    have e: "r1 args (ok \<and> hc) c m = r2 args (ok \<and> hc) c m"
      using assms(1) JsCall.prems by (simp add: hosts_agree_def)
    show ?thesis
    proof (cases "r2 args (ok \<and> hc) c m")
      case (Some r)
      obtain c1 m1 v1 where r: "r = (c1, m1, v1)" by (cases r)
      then have "ctx_step c c1" using Some assms(2) unfolding grow.host_step_def by blast
      then have "d \<le> cx_depth c1" using JsCall.prems ctx_step_depth by metis
      then have "run_js r1 hc (k m1 v1) c1 = run_js r2 hc (k m1 v1) c1" by (rule JsCall.IH)
      then show ?thesis using e Some r HostReadItem by simp
    qed (simp add: e HostReadItem)
  qed
qed simp

lemma nested_agree:
  assumes "hosts_agree (Suc d) r1 r2" "grow.host_step r2" "d \<le> cx_depth c"
  shows "execute_nested_onread api r1 item path c m = execute_nested_onread api r2 item path c m"
proof -
  have "run_js r1 True run (c\<lparr>cx_depth := cx_depth c + 1, cx_onread_path := p\<rparr>)
      = run_js r2 True run (c\<lparr>cx_depth := cx_depth c + 1, cx_onread_path := p\<rparr>)" for run p
    by (rule run_js_agree [OF assms(1,2)]) (simp add: assms(3))
  then show ?thesis
    unfolding execute_nested_onread_def Let_def by (simp only: prod.case_distrib split_def)
qed

lemma read_host_agree:
  assumes "\<And>item path c m. d \<le> cx_depth c \<Longrightarrow> n1 item path c m = n2 item path c m"
  shows "hosts_agree d (js_odf_read_item tree n1) (js_odf_read_item tree n2)"
  using assms
  by (auto simp: hosts_agree_def js_odf_read_item_def read_item_def Let_def split: list.split js_val.split
      option.split prod.split sum.split path_target.split)

lemma read_host_at_enough:
  "max_script_depth \<le> d + n + 1 \<Longrightarrow> hosts_agree d (read_host_at (n + k) api tree) (read_host_at n api tree)"
proof (induction n arbitrary: d)
  case 0
  have none: "execute_nested_onread api rd item path c m = Some (c, m, None)"
    if "d \<le> cx_depth c" for rd item path c m
    using that 0 by (simp add: execute_nested_onread_def)
  show ?case
  proof (cases k)
    case 0
    then show ?thesis by (simp add: hosts_agree_def)
  next
    case (Suc k')
    then show ?thesis
      unfolding Suc add_0 read_host_at.simps by (intro read_host_agree) (simp add: none)
  qed
next
  case (Suc n)
  then have "hosts_agree (Suc d) (read_host_at (n + k) api tree) (read_host_at n api tree)" by simp
  then show ?case
    unfolding add_Suc read_host_at.simps
    by (intro read_host_agree nested_agree grow.read_host_at_step interp_writes_True)
qed

end
