(* ===== verification/EngineTree.thy ===== *)
theory EngineTree
  imports Engine ScriptSpec SubsTick
begin

text \<open>
  How the engine's steps change the tree, in terms of the partial map from paths to items:
  the guard on the target of a write, the stored value, the change of one metadata entry and
  the merge of a tree whose keys need not agree with the ids of its objects. The relations
  \<open>protects\<close> and \<open>all_items\<close> are what the cascade of scripts keeps.
\<close>

section \<open>Metadata\<close>

lemma meta_get_insert [simp]: "meta_get (insert_meta k v item) k' = (if k' = k then Some v else meta_get item k')"
  by (auto simp: meta_get_def insert_meta_def split: option.splits)

lemma insert_meta_values [simp]: "it_values (insert_meta k v item) = it_values item"
  by (simp add: insert_meta_def)

lemma insert_meta_ok [inv_intros]: "item_ok item \<Longrightarrow> item_ok (insert_meta k v item)"
  by (auto simp: item_ok_def insert_meta_def split: option.splits)

lemma resolve_from_object_mut_exists:
  "item_in ob segs = Some item \<Longrightarrow> \<exists>store. resolve_from_object_mut ob segs = Inr (PmInfoItem item store)"
proof (induction ob segs rule: resolve_from_object_mut.induct)
  case (3 ob name n segs)
  then show ?case by (cases "get_child ob name") (auto simp: item_in_child)
qed auto

lemma resolve_mut_exists:
  assumes "parse_path path = Inr segs" "item_at (tr_objects tree) segs = Some item"
  shows "\<exists>store. resolve_mut tree path = Inr (PmInfoItem item store)"
proof -
  from assms(2) obtain first rest ob where f: "segs = first # rest" "map_of (tr_objects tree) first = Some ob"
    "item_in ob rest = Some item" "rest \<noteq> []"
    by (cases segs; cases "tl segs") (auto split: bind_splits)
  then show ?thesis
    using resolve_from_object_mut_exists [OF f(3)] assms(1) by (auto simp: resolve_mut_def)
qed

lemma set_meta_at_spec:
  fixes en :: "'m engine" and path :: string and k :: string and v :: omi_value
  assumes ok: "tree_ok (en_tree en)"
  defines "en' \<equiv> set_meta_at path k v en"
  shows "tree_ok (en_tree en') \<and> en_subs en' = en_subs en \<and> en_script en' = en_script en \<and>
    item_at (tr_objects (en_tree en')) =
      (case parse_path path of
         Inl _ \<Rightarrow> item_at (tr_objects (en_tree en))
       | Inr segs \<Rightarrow>
           (case item_at (tr_objects (en_tree en)) segs of
              None \<Rightarrow> item_at (tr_objects (en_tree en))
            | Some item \<Rightarrow> (item_at (tr_objects (en_tree en)))(segs := Some (insert_meta k v item))))"
proof (cases "\<exists>item store. resolve_mut (en_tree en) path = Inr (PmInfoItem item store)")
  case True
  then obtain item store where r: "resolve_mut (en_tree en) path = Inr (PmInfoItem item store)" by blast
  then obtain segs where p: "parse_path path = Inr segs" by (cases "parse_path path") (auto simp: resolve_mut_def)
  note l = resolve_mut_lens [OF ok p r]
  then have i: "item_at (tr_objects (en_tree en)) segs = Some item" using p by (auto simp: resolve_item)
  moreover have "item_ok item" using l ok by (auto intro: resolve_item_ok)
  ultimately show ?thesis using l r p by (simp add: en'_def set_meta_at_def insert_meta_ok)
next
  case False
  then have "en' = en"
    by (auto simp: en'_def set_meta_at_def split: sum.split path_target_mut.split)
  moreover have "item_at (tr_objects (en_tree en)) segs = None" if "parse_path path = Inr segs" for segs
    using False resolve_mut_exists [OF that, of "en_tree en"] by (metis not_None_eq)
  ultimately show ?thesis using ok by (simp split: sum.split)
qed

section \<open>The target of a write\<close>

definition writable_target :: "object_tree \<Rightarrow> string \<Rightarrow> bool" where
  "writable_target tree path =
     (case resolve tree path of
        Inr (PtInfoItem item) \<Rightarrow> is_writable item
      | Inr _ \<Rightarrow> False
      | Inl (NotFound _) \<Rightarrow> True
      | Inl _ \<Rightarrow> False)"

definition stored :: "'m engine \<Rightarrow> string \<Rightarrow> object_tree \<Rightarrow> tree_error + bool \<Rightarrow> 'm engine" where
  "stored en path tree r =
     (if r = Inr True then mark_writable path (en\<lparr>en_tree := tree\<rparr>) else en\<lparr>en_tree := tree\<rparr>)"

lemma write_value_total:
  assumes ok: "tree_ok tree"
  shows "\<exists>tree' r. write_value path v t tree = Some (tree', r) \<and> tree_ok tree' \<and>
    (case r of
       Inl _ \<Rightarrow> tree' = tree
     | Inr created \<Rightarrow> \<exists>segs. parse_path path = Inr segs \<and>
         created = (item_at (tr_objects tree) segs = None) \<and>
         item_at (tr_objects tree') = (item_at (tr_objects tree))
           (segs := written (tr_default_capacity tree) v t (item_at (tr_objects tree) segs)))"
proof (cases "\<exists>first segs name. parse_path path = Inr (first # segs @ [name])")
  case True
  then obtain first segs name where p: "parse_path path = Inr (first # segs @ [name])" by blast
  then show ?thesis using write_value_refines [OF ok p, of v t] by fastforce
next
  case False
  then show ?thesis using write_value_bad_path [of path v t tree] ok by fastforce
qed

lemma stored_spec:
  assumes ok: "tree_ok (en_tree en)"
    and w: "write_value path v t (en_tree en) = Some (tree, r)"
  shows "tree_ok (en_tree (stored en path tree r)) \<and> en_subs (stored en path tree r) = en_subs en \<and>
    en_script (stored en path tree r) = en_script en \<and>
    (case r of
       Inl _ \<Rightarrow> item_at (tr_objects (en_tree (stored en path tree r))) = item_at (tr_objects (en_tree en))
     | Inr created \<Rightarrow> \<exists>segs item. parse_path path = Inr segs \<and>
         created = (item_at (tr_objects (en_tree en)) segs = None) \<and>
         written (tr_default_capacity (en_tree en)) v t (item_at (tr_objects (en_tree en)) segs) = Some item \<and>
         item_ok item \<and>
         item_history item = written_history (tr_default_capacity (en_tree en)) (value_new v t)
           (item_at (tr_objects (en_tree en)) segs) \<and>
         it_meta item = Option.bind (item_at (tr_objects (en_tree en)) segs) it_meta \<and>
         item_at (tr_objects (en_tree (stored en path tree r))) = (item_at (tr_objects (en_tree en)))
           (segs := Some (if created then insert_meta ''writable'' (Bool True) item else item)))"
proof -
  obtain tree' r' where t: "write_value path v t (en_tree en) = Some (tree', r')" "tree_ok tree'"
    "case r' of
       Inl _ \<Rightarrow> tree' = en_tree en
     | Inr created \<Rightarrow> \<exists>segs. parse_path path = Inr segs \<and>
         created = (item_at (tr_objects (en_tree en)) segs = None) \<and>
         item_at (tr_objects tree') = (item_at (tr_objects (en_tree en)))
           (segs := written (tr_default_capacity (en_tree en)) v t (item_at (tr_objects (en_tree en)) segs))"
    using write_value_total [OF ok] by blast
  with w have e: "tree' = tree" "r' = r" by simp_all
  show ?thesis
  proof (cases r)
    case (Inl err)
    with t e show ?thesis by (simp add: stored_def ok)
  next
    case (Inr created)
    then obtain segs where s: "parse_path path = Inr segs"
      "created = (item_at (tr_objects (en_tree en)) segs = None)"
      "item_at (tr_objects tree) = (item_at (tr_objects (en_tree en)))
         (segs := written (tr_default_capacity (en_tree en)) v t (item_at (tr_objects (en_tree en)) segs))"
      using t(3) e by auto
    have cap: "0 < tr_default_capacity (en_tree en)" using ok by (simp add: tree_ok_def)
    have i: "item_at (tr_objects (en_tree en)) segs = Some item \<Longrightarrow> item_ok item" for item
      using ok by (auto simp: tree_ok_def intro: item_at_ok)
    obtain item where w': "written (tr_default_capacity (en_tree en)) v t (item_at (tr_objects (en_tree en)) segs) = Some item"
      "item_ok item" "item_history item = written_history (tr_default_capacity (en_tree en)) (value_new v t)
           (item_at (tr_objects (en_tree en)) segs)"
      "it_meta item = Option.bind (item_at (tr_objects (en_tree en)) segs) it_meta"
      using written_ok [OF cap i] by metis
    have ok': "tree_ok (en_tree (en\<lparr>en_tree := tree\<rparr>))" using t(2) e by simp
    show ?thesis
      using s w' t(2) e set_meta_at_spec [OF ok', of path "''writable''" "Bool True"]
      by (cases created) (auto simp: Inr stored_def mark_writable_def)
  qed
qed

section \<open>Protected items\<close>

definition protects :: "object_tree \<Rightarrow> object_tree \<Rightarrow> bool" where
  "protects tree tree' \<longleftrightarrow>
     (\<forall>p item. item_at (tr_objects tree) p = Some item \<longrightarrow> \<not> is_writable item \<longrightarrow>
        (\<exists>item'. item_at (tr_objects tree') p = Some item' \<and> it_values item' = it_values item \<and>
           \<not> is_writable item'))"

lemma protects_refl: "protects t t"
  by (auto simp: protects_def)

lemma protects_trans: "protects a b \<Longrightarrow> protects b c \<Longrightarrow> protects a c"
  unfolding protects_def by metis

lemma set_meta_protects:
  assumes ok: "tree_ok (en_tree en)" and k: "k \<noteq> ''writable''"
  shows "protects (en_tree en) (en_tree (set_meta_at path k v en))"
  using set_meta_at_spec [OF ok, of path k v] k
  by (auto simp: protects_def is_writable_def split: sum.splits option.splits)

lemma stored_protects:
  assumes ok: "tree_ok (en_tree en)" and target: "writable_target (en_tree en) path"
    and w: "write_value path v t (en_tree en) = Some (tree, r)"
  shows "protects (en_tree en) (en_tree (stored en path tree r))"
proof (cases r)
  case (Inl e)
  with stored_spec [OF ok w] show ?thesis by (auto simp: protects_def)
next
  case (Inr created)
  with stored_spec [OF ok w] obtain segs item where s: "parse_path path = Inr segs"
    "item_at (tr_objects (en_tree (stored en path tree r))) = (item_at (tr_objects (en_tree en)))
       (segs := Some (if created then insert_meta ''writable'' (Bool True) item else item))"
    by auto
  have "is_writable i" if "item_at (tr_objects (en_tree en)) segs = Some i" for i
    using target that s(1) resolve_item [of "en_tree en" path i] by (simp add: writable_target_def)
  with s(2) show ?thesis by (auto simp: protects_def)
qed

lemma delete_keeps:
  assumes "tree_ok tree" "tree_delete path tree = (tree', r)"
  shows "tree_ok tree' \<and> (\<forall>p item. item_at (tr_objects tree') p = Some item \<longrightarrow> item_at (tr_objects tree) p = Some item)"
proof (cases "\<exists>first rest. parse_path path = Inr (first # rest)")
  case True
  then obtain first rest where "parse_path path = Inr (first # rest)" by blast
  from tree_delete_refines [OF assms(1) this assms(2)] show ?thesis by (auto split: if_splits)
next
  case False
  then have "tree' = tree"
    using assms(2) by (auto simp: tree_delete_def split: sum.splits list.splits)
  with assms(1) show ?thesis by simp
qed

section \<open>A condition on all items\<close>

definition all_items :: "(info_item \<Rightarrow> bool) \<Rightarrow> objects \<Rightarrow> bool" where
  "all_items Q m \<longleftrightarrow> (\<forall>p item. item_at m p = Some item \<longrightarrow> Q item)"

definition all_items_in :: "(info_item \<Rightarrow> bool) \<Rightarrow> object \<Rightarrow> bool" where
  "all_items_in Q ob \<longleftrightarrow> (\<forall>p item. item_in ob p = Some item \<longrightarrow> Q item)"

lemma all_items_lookup: "all_items Q m \<Longrightarrow> map_of m k = Some ob \<Longrightarrow> all_items_in Q ob"
  unfolding all_items_def all_items_in_def
  by (metis bind.bind_lunit item_at.simps(2))

lemma all_items_insert: "all_items Q m \<Longrightarrow> all_items_in Q ob \<Longrightarrow> all_items Q (bt_insert k ob m)"
  by (auto simp: all_items_def all_items_in_def item_at_insert)

lemma all_items_update: "all_items Q m \<Longrightarrow> all_items_in Q ob \<Longrightarrow> all_items Q (bt_update k ob m)"
  unfolding all_items_def
proof (intro allI impI)
  fix p item
  assume a: "\<forall>p item. item_at m p = Some item \<longrightarrow> Q item" "all_items_in Q ob"
    and i: "item_at (bt_update k ob m) p = Some item"
  show "Q item"
  proof (cases p)
    case (Cons first rest)
    with i obtain ob' where o: "map_of (bt_update k ob m) first = Some ob'" "item_in ob' rest = Some item"
      by (auto split: bind_splits)
    show ?thesis
    proof (cases "map_of m first = Some ob'")
      case True
      with o Cons a(1) show ?thesis by (metis bind.bind_lunit item_at.simps(2))
    next
      case False
      with o a(2) show ?thesis by (auto simp: map_of_bt_update all_items_in_def split: if_splits)
    qed
  qed (use i in simp)
qed

lemma all_items_in_merge: "obj_ok b \<Longrightarrow> all_items_in Q a \<Longrightarrow> all_items_in Q b \<Longrightarrow> all_items_in Q (merge_from a b)"
  by (auto simp: all_items_in_def item_in_merge split: option.splits)

lemma all_items_in_child: "all_items_in Q ob \<Longrightarrow> get_child ob k = Some c \<Longrightarrow> all_items_in Q c"
  unfolding all_items_in_def
proof (intro allI impI)
  fix p item
  assume a: "\<forall>p item. item_in ob p = Some item \<longrightarrow> Q item" "get_child ob k = Some c" "item_in c p = Some item"
  then have "p \<noteq> []" by (cases p) auto
  then have "item_in ob (k # p) = Some item" using a by (simp add: item_in_child)
  with a(1) show "Q item" by blast
qed

lemma all_items_in_set_child:
  assumes "all_items_in Q ob" "all_items_in Q c" "get_child ob k \<noteq> None"
  shows "all_items_in Q (obj_set_child k c ob)"
  using assms by (auto simp: all_items_in_def item_in_set_child split: if_splits)

lemma all_items_in_add_child:
  assumes "all_items_in Q ob" "all_items_in Q c"
  shows "all_items_in Q (add_child c ob)"
  unfolding all_items_in_def
proof (intro allI impI)
  fix p item
  assume i: "item_in (add_child c ob) p = Some item"
  show "Q item"
  proof (cases "p = [] \<or> tl p = []")
    case True
    with i assms(1) show ?thesis
      unfolding all_items_in_def by (cases p) (auto, metis item_in.simps(2))
  next
    case False
    then obtain name rest where p: "p = name # rest" "rest \<noteq> []" by (cases p) auto
    show ?thesis
    proof (cases "name = obj_id c")
      case True
      with i p assms(2) show ?thesis by (simp add: item_in_child all_items_in_def)
    next
      case False
      with i p have "item_in ob p = Some item" by (simp add: item_in_child)
      with assms(1) show ?thesis by (auto simp: all_items_in_def)
    qed
  qed
qed

lemma all_items_in_new: "all_items_in Q (object_new i)"
  by (simp add: all_items_in_def)

lemma merge_child_items:
  "obj_ok c \<Longrightarrow> all_items_in Q current \<Longrightarrow> all_items_in Q c \<Longrightarrow> all_items_in Q (merge_child c current)"
  by (auto simp: merge_child_def intro!: all_items_in_set_child all_items_in_add_child all_items_in_merge
      dest: all_items_in_child split: option.split)

lemma merge_root_items:
  "obj_ok c \<Longrightarrow> all_items Q m \<Longrightarrow> all_items_in Q c \<Longrightarrow> all_items Q (merge_root c m)"
  by (auto simp: merge_root_def intro!: all_items_insert all_items_update all_items_in_merge
      dest: all_items_lookup split: option.split)

lemma fold_merge_items:
  assumes "objs_ok objs" "all_items Q objs"
  shows "all_items Q m \<Longrightarrow> all_items Q (fold (\<lambda>e. merge_root (snd e)) objs m)"
    and "all_items_in Q ob \<Longrightarrow> all_items_in Q (fold (\<lambda>e. merge_child (snd e)) objs ob)"
proof -
  have e: "obj_ok (snd e) \<and> all_items_in Q (snd e)" if "e \<in> set objs" for e
  proof -
    have "map_of objs (fst e) = Some (snd e)"
      using that assms(1) bt_ok_map_of [of objs "fst e" "snd e"] by (simp add: objs_ok_def)
    moreover have "obj_ok (snd e)" using that assms(1) by (simp add: objs_ok_def)
    ultimately show ?thesis using assms(2) all_items_lookup by blast
  qed
  then show "all_items Q m \<Longrightarrow> all_items Q (fold (\<lambda>e. merge_root (snd e)) objs m)"
    by (induction objs arbitrary: m) (auto intro: merge_root_items)
  from e show "all_items_in Q ob \<Longrightarrow> all_items_in Q (fold (\<lambda>e. merge_child (snd e)) objs ob)"
    by (induction objs arbitrary: ob) (auto intro: merge_child_items)
qed

lemma merge_walk_items:
  assumes "objs_ok objs" "all_items Q objs"
  shows "obj_ok ob \<Longrightarrow> all_items_in Q ob \<Longrightarrow>
    \<exists>ob'. merge_walk segs objs ob = (ob', Inr ()) \<and> obj_ok ob' \<and> all_items_in Q ob'"
proof (induction segs arbitrary: ob)
  case Nil
  then show ?case
    using fold_merge_items(2) [OF assms] fold_merge_child_ok [of ob objs] assms(1) by (auto simp: objs_ok_def)
next
  case (Cons seg segs)
  define ob1 where "ob1 = (if get_child ob seg = None then add_child (object_new seg) ob else ob)"
  have 1: "obj_ok ob1" "all_items_in Q ob1"
    using Cons.prems by (auto simp: ob1_def intro: obj_ok_add_child all_items_in_add_child all_items_in_new)
  obtain c where c: "get_child ob1 seg = Some c"
    by (cases "get_child ob seg") (auto simp: ob1_def)
  then obtain c' where "merge_walk segs objs c = (c', Inr ())" "obj_ok c'" "all_items_in Q c'"
    using Cons.IH [of c] 1 all_items_in_child by blast
  with 1 c show ?case
    by (auto simp: ob1_def [symmetric] intro: obj_ok_set_child all_items_in_set_child)
qed

lemma write_tree_items:
  assumes ok: "tree_ok tree" "objs_ok objs" and items: "all_items Q (tr_objects tree)" "all_items Q objs"
    and w: "write_tree path objs tree = (tree', r)"
  shows "tree_ok tree' \<and> all_items Q (tr_objects tree')"
proof (cases "parse_path path")
  case (Inl e)
  with w ok items show ?thesis by (simp add: write_tree_def)
next
  case (Inr segs)
  show ?thesis
  proof (cases segs)
    case Nil
    with Inr w have "tree' = tree\<lparr>tr_objects := fold (\<lambda>e. merge_root (snd e)) objs (tr_objects tree)\<rparr>"
      by (simp add: write_tree_def)
    then show ?thesis
      using ok items fold_merge_items(1) [OF ok(2) items(2) items(1)]
        fold_merge_root_ok [of "tr_objects tree" objs]
      by (auto simp: tree_ok_def objs_ok_def)
  next
    case (Cons first rest)
    define m where "m = (if bt_contains (tr_objects tree) first then tr_objects tree
      else bt_insert first (object_new first) (tr_objects tree))"
    have m: "objs_ok m" "all_items Q m"
      using ok items by (auto simp: m_def tree_ok_def intro: objs_ok_insert all_items_insert all_items_in_new)
    obtain ob where ob: "map_of m first = Some ob"
      by (cases "map_of (tr_objects tree) first") (auto simp: m_def domIff)
    obtain ob' where ob': "merge_walk rest objs ob = (ob', Inr ())" "obj_ok ob'" "all_items_in Q ob'"
      using merge_walk_items [OF ok(2) items(2), of ob rest] m ob objs_ok_lookup all_items_lookup by blast
    have "write_tree path objs tree = (tree\<lparr>tr_objects := bt_update first ob' m\<rparr>, Inr ())"
      unfolding write_tree_def Inr Cons Let_def sum.case list.case m_def [symmetric] ob option.case ob'(1) by simp
    with w have "tree' = tree\<lparr>tr_objects := bt_update first ob' m\<rparr>" by simp
    with m ob' ok show ?thesis
      by (auto simp: tree_ok_def intro: objs_ok_update all_items_update)
  qed
qed

end
