(* ===== verification/EngineSpec.thy ===== *)
theory EngineSpec
  imports EngineTree
begin

text \<open>
  The invariant of the engine and what every write keeps. A write runs a cascade: the value
  is stored, the \<open>onwrite\<close> script of the item runs, its writes are applied one level deeper,
  then the subscribers are notified. The locale \<open>cascade\<close> proves once, for any preorder on
  engines that the elementary steps respect, that all of it returns without a panic, keeps the
  invariant and respects the preorder; the interpretations at its end say which items a cascade
  cannot touch and which subscriptions it cannot lose.
\<close>

section \<open>The invariant\<close>

definition duty_ok :: "info_item \<Rightarrow> bool" where
  "duty_ok item \<longleftrightarrow> (case meta_get item ''max_duty'' of Some (Number hi) \<Rightarrow> Fin 0 \<le> hi | _ \<Rightarrow> True)"

definition en_ok :: "'m engine \<Rightarrow> bool" where
  "en_ok en \<longleftrightarrow>
     tree_ok (en_tree en) \<and> reg_inv (en_subs en) \<and> all_items duty_ok (tr_objects (en_tree en))"

lemma en_okD [dest]:
  assumes "en_ok en"
  shows en_ok_tree: "tree_ok (en_tree en)"
    and en_ok_subs: "reg_inv (en_subs en)"
    and en_ok_duty: "all_items duty_ok (tr_objects (en_tree en))"
  using assms by (simp_all add: en_ok_def)

lemma en_ok_script [simp]: "en_ok (en\<lparr>en_script := s\<rparr>) = en_ok en"
  by (simp add: en_ok_def)

lemma en_ok_pending [simp]: "en_ok (en\<lparr>en_pending := s\<rparr>) = en_ok en"
  by (simp add: en_ok_def)

lemma en_ok_with_subs: "en_ok en \<Longrightarrow> reg_inv subs \<Longrightarrow> en_ok (en\<lparr>en_subs := subs\<rparr>)"
  by (simp add: en_ok_def)

lemma engine_new_ok [inv_intros]: "en_ok (engine_new script)"
proof -
  have "all_items duty_ok (tr_objects tree_new)"
    unfolding all_items_def
  proof (intro allI impI)
    fix p item assume "item_at (tr_objects tree_new) p = Some item"
    then show "duty_ok item" by (cases p) (auto simp: tree_new_def)
  qed
  then show ?thesis by (simp add: en_ok_def engine_new_def tree_new_ok reg_new_inv)
qed

lemma all_items_at: "all_items Q m \<Longrightarrow> item_at m p = Some item \<Longrightarrow> Q item"
  by (simp add: all_items_def)

lemma clamp_total:
  assumes "en_ok en"
  shows "\<exists>v'. clamp_if_constrained path v en = Some v'"
proof -
  have "duty_ok item" if "resolve (en_tree en) path = Inr (PtInfoItem item)" for item
    using that en_ok_duty [OF assms] by (auto simp: resolve_item intro: all_items_at)
  then show ?thesis
    by (fastforce simp: clamp_if_constrained_def duty_ok_def f64_clamp_def
        split: omi_value.splits sum.splits path_target.splits option.splits)
qed

lemma all_items_upd:
  "all_items Q m \<Longrightarrow> Q item \<Longrightarrow> item_at m' = (item_at m)(segs := Some item) \<Longrightarrow> all_items Q m'"
  by (simp add: all_items_def)

lemma set_meta_ok:
  assumes "en_ok en" "k \<noteq> ''max_duty''"
  shows "en_ok (set_meta_at path k v en)"
proof -
  note s = set_meta_at_spec [OF en_ok_tree [OF assms(1)], of path k v]
  have d: "duty_ok item \<Longrightarrow> duty_ok (insert_meta k v item)" for item
    using assms(2) by (simp add: duty_ok_def)
  have "all_items duty_ok (tr_objects (en_tree (set_meta_at path k v en)))"
  proof (cases "parse_path path")
    case (Inl e)
    with s en_ok_duty [OF assms(1)] show ?thesis by (simp add: all_items_def)
  next
    case (Inr segs)
    show ?thesis
    proof (cases "item_at (tr_objects (en_tree en)) segs")
      case None
      with s Inr en_ok_duty [OF assms(1)] show ?thesis by (simp add: all_items_def)
    next
      case (Some item)
      with s Inr have "item_at (tr_objects (en_tree (set_meta_at path k v en))) =
        (item_at (tr_objects (en_tree en)))(segs := Some (insert_meta k v item))" by simp
      moreover have "duty_ok (insert_meta k v item)"
        using d all_items_at [OF en_ok_duty [OF assms(1)] Some] by blast
      ultimately show ?thesis using all_items_upd [OF en_ok_duty [OF assms(1)]] by metis
    qed
  qed
  with s assms(1) show ?thesis by (simp add: en_ok_def)
qed

lemma stored_ok:
  assumes "en_ok en" "write_value path v t (en_tree en) = Some (tree, r)"
  shows "en_ok (stored en path tree r)"
proof -
  note s = stored_spec [OF en_ok_tree [OF assms(1)] assms(2)]
  have "all_items duty_ok (tr_objects (en_tree (stored en path tree r)))"
  proof (cases r)
    case (Inl e)
    with s en_ok_duty [OF assms(1)] show ?thesis by (simp add: all_items_def)
  next
    case (Inr created)
    with s obtain segs item where i: "it_meta item = Option.bind (item_at (tr_objects (en_tree en)) segs) it_meta"
      "item_at (tr_objects (en_tree (stored en path tree r))) = (item_at (tr_objects (en_tree en)))
         (segs := Some (if created then insert_meta ''writable'' (Bool True) item else item))"
      by auto
    have "duty_ok item"
    proof (cases "item_at (tr_objects (en_tree en)) segs")
      case None
      with i(1) show ?thesis by (simp add: duty_ok_def meta_get_def)
    next
      case (Some old)
      then have "duty_ok old" using en_ok_duty [OF assms(1)] by (rule all_items_at [rotated])
      with Some i(1) show ?thesis by (simp add: duty_ok_def meta_get_def)
    qed
    then have "duty_ok (if created then insert_meta ''writable'' (Bool True) item else item)"
      by (simp add: duty_ok_def)
    from all_items_upd [OF en_ok_duty [OF assms(1)] this i(2)] show ?thesis .
  qed
  with s assms(1) show ?thesis by (simp add: en_ok_def)
qed

text \<open>A notification: the values are the newest one of the item, the tree stays.\<close>

definition newest_of :: "info_item \<Rightarrow> odf_value list" where
  "newest_of item = query_spec (item_history item) (Some 1) None None None"

lemma notify_write_total:
  assumes "en_ok en"
  shows "\<exists>en' ds. notify_write_event path now en = Some (ds, en') \<and> en_ok en' \<and>
    en_tree en' = en_tree en \<and> en_script en' = en_script en \<and>
    (\<forall>rid s. map_of (reg_subs (en_subs en')) rid = Some s \<longrightarrow> map_of (reg_subs (en_subs en)) rid = Some s) \<and>
    (\<forall>rid s. map_of (reg_subs (en_subs en)) rid = Some s \<longrightarrow> \<not> is_expired s now \<longrightarrow>
       map_of (reg_subs (en_subs en')) rid = Some s) \<and>
    ds = (case resolve (en_tree en) path of
            Inr (PtInfoItem item) \<Rightarrow>
              List.map_filter (owed path (newest_of item) now (en_subs en)) (rids_at (en_subs en) path)
          | _ \<Rightarrow> [])"
proof (cases "\<exists>item. resolve (en_tree en) path = Inr (PtInfoItem item)")
  case False
  then have "notify_write_event path now en = Some ([], en)"
    by (simp add: notify_write_event_def split: sum.split path_target.split)
  then show ?thesis using assms False by (auto split: sum.split path_target.split)
next
  case True
  then obtain item where r: "resolve (en_tree en) path = Inr (PtInfoItem item)" by blast
  then have i: "item_ok item" using assms by (blast intro: resolve_item_ok)
  obtain subs where s: "notify_event path (newest_of item) now (en_subs en) =
      Some (subs, List.map_filter (owed path (newest_of item) now (en_subs en)) (rids_at (en_subs en) path))"
    "reg_inv subs"
    "map_of (reg_subs subs) = (\<lambda>r. if r \<in> set (rids_at (en_subs en) path) \<and> expired_at (en_subs en) now r
       then None else map_of (reg_subs (en_subs en)) r)"
    using notify_event_spec [OF en_ok_subs [OF assms], of path "newest_of item" now] by blast
  have n: "notify_write_event path now en = Some (List.map_filter
      (owed path (newest_of item) now (en_subs en)) (rids_at (en_subs en) path), en\<lparr>en_subs := subs\<rparr>)"
    unfolding notify_write_event_def r sum.case path_target.case query_values_ok [OF i] newest_of_def [symmetric]
    by (simp add: s(1))
  show ?thesis
    unfolding n r sum.case path_target.case
    by (intro exI [of _ "en\<lparr>en_subs := subs\<rparr>"] exI conjI)
      (use s assms in \<open>auto simp: en_ok_with_subs expired_at_def split: if_splits\<close>)
qed

section \<open>Writes, step by step\<close>

definition write_rejection :: "object_tree \<Rightarrow> string \<Rightarrow> omi_message" where
  "write_rejection tree path =
     (case resolve tree path of
        Inr (PtInfoItem _) \<Rightarrow> forbidden (''InfoItem at '' @ quote path @ '' is not writable'')
      | Inr _ \<Rightarrow> bad_request (''Cannot write value to object path '' @ quote path)
      | Inl e \<Rightarrow> tree_error_to_response e)"

lemma write_inner_rejects:
  assumes "\<not> writable_target (en_tree en) path"
  shows "write_single_inner api path v t now depth en =
    Some ((write_rejection (en_tree en) path, []), en)"
  using assms
  unfolding write_single_inner.simps [of api path v t now depth en] Let_def
  by (auto simp: writable_target_def write_rejection_def split: sum.splits path_target.splits tree_error.splits)

definition after_store ::
  "('m, 'f) mjs \<Rightarrow> 'm writer \<Rightarrow> string \<Rightarrow> omi_value \<Rightarrow> f64 option \<Rightarrow> f64 \<Rightarrow> nat \<Rightarrow> 'm engine \<Rightarrow>
   ((delivery list \<times> string option) \<times> 'm engine) option"
where
  "after_store api write path v t now depth en = do {
     ((deliveries, script_err), en) \<leftarrow> run_onwrite_script api write path v t depth en;
     (own, en) \<leftarrow> notify_write_event path now en;
     Some ((deliveries @ own, script_err), en)
   }"

definition write_response :: "bool \<Rightarrow> string option \<Rightarrow> omi_message" where
  "write_response created script_err =
     (case script_err of
        Some warning \<Rightarrow> write_ok_with_warning warning
      | None \<Rightarrow> if created then created_response else ok_null)"

definition write_time :: "f64 option \<Rightarrow> f64 \<Rightarrow> f64 option" where
  "write_time t now = (case t of None \<Rightarrow> Some now | Some x \<Rightarrow> Some x)"

lemma write_inner_accepts:
  assumes "writable_target (en_tree en) path" "clamp_if_constrained path v en = Some v'"
    and "write_value path v' (write_time t now) (en_tree en) = Some (tree, r)"
  shows "write_single_inner api path v t now depth en =
    (case r of
       Inl e \<Rightarrow> Some ((tree_error_to_response e, []), stored en path tree r)
     | Inr created \<Rightarrow> do {
         ((ds, script_err), en) \<leftarrow>
           after_store api (\<lambda>p x e. write_single_inner api p x (write_time t now) now (depth + 1) e)
             path v' (write_time t now) now depth (stored en path tree r);
         Some ((write_response created script_err, ds), en)
       })"
proof -
  have g: "\<not> (case resolve (en_tree en) path of Inr (PtInfoItem item) \<Rightarrow> \<not> is_writable item | _ \<Rightarrow> False)"
    "\<not> (case resolve (en_tree en) path of Inr (PtObject _) \<Rightarrow> True | Inr (PtRoot _) \<Rightarrow> True | _ \<Rightarrow> False)"
    "\<not> (case resolve (en_tree en) path of Inl (Forbidden _) \<Rightarrow> True | Inl (InvalidPath _) \<Rightarrow> True | _ \<Rightarrow> False)"
    using assms(1) by (auto simp: writable_target_def split: sum.splits path_target.splits tree_error.splits)
  show ?thesis
    unfolding write_single_inner.simps [of api path v t now depth en] Let_def
      if_not_P [OF g(1)] if_not_P [OF g(2)] if_not_P [OF g(3)] assms(2) bind.bind_lunit
      write_time_def [symmetric] assms(3)
    by (cases r) (simp_all add: stored_def after_store_def write_response_def split_def Let_def cong: if_cong)
qed

lemma write_batch_rejects:
  assumes "\<not> writable_target (en_tree en) (wi_path item)"
  shows "\<exists>st. write_batch_item api item now en = Some ((st, []), en) \<and> is_path st = wi_path item \<and>
    is_status st \<in> {as_u16 StForbidden, as_u16 StBadRequest}"
  using assms
  unfolding write_batch_item_def Let_def
  by (auto simp: writable_target_def tree_error_to_item_status_def
      split: sum.splits path_target.splits tree_error.splits)

lemma write_batch_accepts:
  assumes "writable_target (en_tree en) (wi_path item)"
    and "write_value (wi_path item) (wi_v item) (wi_t item) (en_tree en) = Some (tree, r)"
  shows "write_batch_item api item now en =
    (case r of
       Inl e \<Rightarrow> Some ((tree_error_to_item_status (wi_path item) e, []), stored en (wi_path item) tree r)
     | Inr created \<Rightarrow> do {
         ((ds, script_err), en) \<leftarrow>
           after_store api (\<lambda>p x e. write_single_inner api p x (wi_t item) now 1 e)
             (wi_path item) (wi_v item) (wi_t item) now 0 (stored en (wi_path item) tree r);
         Some ((\<lparr>is_path = wi_path item, is_status = as_u16 (if created then StCreated else StOk),
                 is_desc = script_err\<rparr>, ds), en)
       })"
proof -
  have g: "\<not> (case resolve (en_tree en) (wi_path item) of Inr (PtInfoItem item) \<Rightarrow> \<not> is_writable item | _ \<Rightarrow> False)"
    "\<not> (case resolve (en_tree en) (wi_path item) of Inr (PtObject _) \<Rightarrow> True | Inr (PtRoot _) \<Rightarrow> True | _ \<Rightarrow> False)"
    "\<not> (case resolve (en_tree en) (wi_path item) of Inl (Forbidden _) \<Rightarrow> True | Inl (InvalidPath _) \<Rightarrow> True | _ \<Rightarrow> False)"
    using assms(1) by (auto simp: writable_target_def split: sum.splits path_target.splits tree_error.splits)
  show ?thesis
    unfolding write_batch_item_def Let_def
      if_not_P [OF g(1)] if_not_P [OF g(2)] if_not_P [OF g(3)] assms(2) bind.bind_lunit
    by (cases r) (simp_all add: stored_def after_store_def split_def Let_def cong: if_cong)
qed

lemma resolve_script_url_total:
  assumes "tree_ok tree"
  shows "\<exists>r. resolve_script_url tree url = Some r"
proof -
  have "(query_values item (Some 1) None None None = None) = False"
    if "resolve tree path = Inr (PtInfoItem item)" for path item
    using query_values_ok [OF resolve_item_ok [OF assms that]] by simp
  then show ?thesis
    unfolding resolve_script_url_def
    by (fastforce split: sum.split path_target.split tree_error.split if_splits bind_splits)
qed

section \<open>What a cascade keeps\<close>

locale cascade =
  fixes now :: f64
    and R :: "'m engine \<Rightarrow> 'm engine \<Rightarrow> bool"
  assumes refl: "R en en"
    and trans: "R a b \<Longrightarrow> R b c \<Longrightarrow> R a c"
    and script: "R en (en\<lparr>en_script := s\<rparr>)"
    and encoding: "en_ok en \<Longrightarrow> R en (set_meta_at p ''tx_encoding'' v en)"
    and store: "en_ok en \<Longrightarrow> writable_target (en_tree en) p \<Longrightarrow>
      write_value p v t (en_tree en) = Some (tree, r) \<Longrightarrow> R en (stored en p tree r)"
    and notification: "en_ok en \<Longrightarrow> notify_write_event p now en = Some (ds, en') \<Longrightarrow> R en en'"
begin

text \<open>A step from \<open>en\<close> that returns, in a good state related to it.\<close>

definition keeps :: "'m engine \<Rightarrow> ('r \<times> 'm engine) option \<Rightarrow> bool" where
  "keeps en x \<longleftrightarrow> (\<exists>r en'. x = Some (r, en') \<and> en_ok en' \<and> R en en')"

lemma keepsI: "en_ok en' \<Longrightarrow> R en en' \<Longrightarrow> keeps en (Some (r, en'))"
  by (simp add: keeps_def)

lemma keeps_bind:
  assumes "keeps en x" "\<And>r en'. en_ok en' \<Longrightarrow> R en en' \<Longrightarrow> keeps en' (f (r, en'))"
  shows "keeps en (Option.bind x f)"
proof -
  obtain r en' where 1: "x = Some (r, en')" "en_ok en'" "R en en'"
    using assms(1) by (auto simp: keeps_def)
  obtain r2 en2 where "f (r, en') = Some (r2, en2)" "en_ok en2" "R en' en2"
    using assms(2) [OF 1(2,3), of r] by (auto simp: keeps_def)
  with 1 show ?thesis by (auto simp: keeps_def intro: trans)
qed

lemma keeps_after: "R en en1 \<Longrightarrow> keeps en1 x \<Longrightarrow> keeps en x"
  by (auto simp: keeps_def intro: trans)

lemma keeps_fold:
  assumes "\<And>x acc en. x \<in> set xs \<Longrightarrow> en_ok en \<Longrightarrow> keeps en (f x (acc, en))"
  shows "en_ok en \<Longrightarrow> keeps en (fold_opt f xs (acc, en))"
  using assms
proof (induction xs arbitrary: acc en)
  case Nil
  then show ?case by (auto intro: keepsI refl)
next
  case (Cons x xs)
  have "fold_opt f (x # xs) (acc, en) = Option.bind (f x (acc, en)) (fold_opt f xs)"
    by (cases "f x (acc, en)") auto
  also have "keeps en \<dots>"
  proof (rule keeps_bind)
    show "keeps en (f x (acc, en))" using Cons.prems by simp
    show "keeps en' (fold_opt f xs (r, en'))" if "en_ok en'" for r en'
      using that by (rule Cons.IH) (use Cons.prems(2) in simp)
  qed
  finally show ?case .
qed

lemma apply_pending_keeps:
  assumes "decode_pending pw \<noteq> None" "\<And>p x e. en_ok e \<Longrightarrow> keeps e (wr p x e)" "en_ok en"
  shows "keeps en (apply_pending wr pw (ds, en))"
proof -
  obtain v where v: "decode_pending pw = Some v" using assms(1) by auto
  show ?thesis
    unfolding apply_pending_def prod.case v bind.bind_lunit
    by (rule keeps_bind [OF assms(2) [OF assms(3)]])
      (auto simp: Let_def split: prod.split option.split intro!: keepsI set_meta_ok refl encoding)
qed

text \<open>Running a script and applying the writes it collected.\<close>

lemma script_run_keeps:
  fixes g :: "delivery list \<Rightarrow> nat \<Rightarrow> js_status \<Rightarrow> 'm engine \<Rightarrow> ('r \<times> 'm engine) option"
  assumes "interp_writes decodable_args api" "en_ok en"
    and wr: "\<And>p x e. en_ok e \<Longrightarrow> keeps e (wr p x e)"
    and g: "\<And>ds el st e. en_ok e \<Longrightarrow> keeps e (g ds el st e)"
  shows "keeps en (do {
      (ctx, m, st, elapsed, res) \<leftarrow> run_script api (en_tree en) True (mjs_exec api m (Some env) src) (empty_ctx depth None None);
      (deliveries, en) \<leftarrow> fold_opt (apply_pending wr) (cx_pending ctx) ([], en\<lparr>en_script := Some m\<rparr>);
      g deliveries elapsed st en
    })" (is "keeps en ?run")
proof -
  obtain ctx m' st el res where r: "run_script api (en_tree en) True (mjs_exec api m (Some env) src) (empty_ctx depth None None) =
      Some (ctx, m', st, el, res)"
    using run_script_ok [OF en_ok_tree [OF assms(2)], of api True "mjs_exec api m (Some env) src"
        "empty_ctx depth None None"] by blast
  have "pending_decodable ctx"
    using dec.run_script_step [OF assms(1) _ r] assms(1) by (simp add: interp_writes_def pending_decodable_def empty_ctx_def)
  then have pw: "pw \<in> set (cx_pending ctx) \<Longrightarrow> decode_pending pw \<noteq> None" for pw
    by (simp add: pending_decodable_def decode_pending_def)
  have "keeps (en\<lparr>en_script := Some m'\<rparr>)
    (fold_opt (apply_pending wr) (cx_pending ctx) ([], en\<lparr>en_script := Some m'\<rparr>))"
  proof (rule keeps_fold)
    show "keeps e (apply_pending wr w (acc, e))" if "w \<in> set (cx_pending ctx)" "en_ok e" for w acc e
      by (rule apply_pending_keeps [OF pw [OF that(1)] wr that(2)])
  qed (simp add: assms(2))
  then have "keeps (en\<lparr>en_script := Some m'\<rparr>) ?run"
    unfolding r bind.bind_lunit prod.case by (rule keeps_bind) (simp add: g)
  then show ?thesis by (rule keeps_after [OF script])
qed

lemma onwrite_keeps:
  assumes "interp_writes decodable_args api" "en_ok en"
    and "\<And>p x e. depth < max_script_depth \<Longrightarrow> en_ok e \<Longrightarrow> keeps e (wr p x e)"
  shows "keeps en (run_onwrite_script api wr path v ts depth en)"
proof -
  have "keeps en (do {
      (ctx, m, st, elapsed, res) \<leftarrow> run_script api (en_tree en) True (mjs_exec api m (Some env) src) (empty_ctx depth None None);
      (deliveries, en) \<leftarrow> fold_opt (apply_pending wr) (cx_pending ctx) ([], en\<lparr>en_script := Some m\<rparr>);
      Some ((deliveries, g elapsed st), if depth = 0 then en\<lparr>en_script := map_option (mjs_gc api) (en_script en)\<rparr> else en)
    })" if "depth < max_script_depth" for m env src and g :: "nat \<Rightarrow> js_status \<Rightarrow> string option"
    by (rule script_run_keeps [OF assms(1,2)]) (auto intro!: assms(3) that keepsI refl script)
  then show ?thesis
    using assms(2)
    by (auto simp: run_onwrite_script_def Let_def not_le split: option.split intro!: keepsI refl)
qed

lemma notify_keeps: "en_ok en \<Longrightarrow> keeps en (notify_write_event p now en)"
  using notify_write_total [of en p now] by (auto simp: keeps_def intro: notification)

lemma after_store_keeps:
  assumes "interp_writes decodable_args api" "en_ok en"
    and "\<And>p x e. depth < max_script_depth \<Longrightarrow> en_ok e \<Longrightarrow> keeps e (wr p x e)"
  shows "keeps en (after_store api wr path v t now depth en)"
  unfolding after_store_def
  by (rule keeps_bind [OF onwrite_keeps [OF assms]])
    (auto split: prod.split intro!: keeps_bind [OF notify_keeps] keepsI refl)

lemma write_inner_keeps:
  assumes "interp_writes decodable_args api"
  shows "en_ok en \<Longrightarrow> keeps en (write_single_inner api path v t now depth en)"
proof (induction "max_script_depth - depth" arbitrary: path v t depth en rule: less_induct)
  case less
  show ?case
  proof (cases "writable_target (en_tree en) path")
    case False
    with less.prems show ?thesis by (auto simp: write_inner_rejects intro: keepsI refl)
  next
    case True
    obtain v' where v: "clamp_if_constrained path v en = Some v'" using clamp_total less.prems by blast
    obtain tree r where w: "write_value path v' (write_time t now) (en_tree en) = Some (tree, r)"
      using write_value_total [OF en_ok_tree [OF less.prems]] by blast
    have s: "en_ok (stored en path tree r)" "R en (stored en path tree r)"
      using less.prems w True by (auto intro: stored_ok store)
    have "keeps (stored en path tree r) (after_store api
        (\<lambda>p x e. write_single_inner api p x (write_time t now) now (depth + 1) e)
        path v' (write_time t now) now depth (stored en path tree r))"
      by (rule after_store_keeps [OF assms s(1)]) (auto intro: less.hyps)
    then have "keeps (stored en path tree r) (write_single_inner api path v t now depth en)"
      unfolding write_inner_accepts [OF True v w]
      using s(1) by (cases r) (auto split: prod.split intro!: keeps_bind [of _ "after_store _ _ _ _ _ _ _ _"] keepsI refl)
    then show ?thesis by (rule keeps_after [OF s(2)])
  qed
qed

lemma keeps_total: "keeps en x \<Longrightarrow> \<exists>r en'. x = Some (r, en') \<and> en_ok en' \<and> R en en'"
  by (simp add: keeps_def)

lemma batch_item_keeps:
  assumes "interp_writes decodable_args api" "en_ok en"
  shows "keeps en (write_batch_item api item now en)"
proof (cases "writable_target (en_tree en) (wi_path item)")
  case False
  then obtain st where "write_batch_item api item now en = Some ((st, []), en)"
    using write_batch_rejects [of en item api now] by blast
  then show ?thesis using assms(2) by (simp add: keepsI refl)
next
  case True
  obtain tree r where w: "write_value (wi_path item) (wi_v item) (wi_t item) (en_tree en) = Some (tree, r)"
    using write_value_total [OF en_ok_tree [OF assms(2)]] by blast
  have s: "en_ok (stored en (wi_path item) tree r)" "R en (stored en (wi_path item) tree r)"
    using assms(2) w True by (auto intro: stored_ok store)
  have "keeps (stored en (wi_path item) tree r) (after_store api
      (\<lambda>p x e. write_single_inner api p x (wi_t item) now 1 e)
      (wi_path item) (wi_v item) (wi_t item) now 0 (stored en (wi_path item) tree r))"
    by (rule after_store_keeps [OF assms(1) s(1)]) (rule write_inner_keeps [OF assms(1)])
  then have "keeps (stored en (wi_path item) tree r) (write_batch_item api item now en)"
    unfolding write_batch_accepts [OF True w]
    using s(1) by (cases r) (auto split: prod.split intro!: keeps_bind [of _ "after_store _ _ _ _ _ _ _ _"] keepsI refl)
  then show ?thesis by (rule keeps_after [OF s(2)])
qed

lemma batch_keeps:
  assumes "interp_writes decodable_args api" "en_ok en"
  shows "keeps en (process_write_batch api batch now en)"
  unfolding process_write_batch_def
  by (rule keeps_bind [OF keeps_fold [OF _ assms(2)]])
    (auto split: prod.split intro!: keeps_bind [OF batch_item_keeps [OF assms(1)]] keepsI refl)

lemma callback_keeps:
  assumes "interp_writes decodable_args api" "en_ok en"
  shows "keeps en (run_callback_script api url path vals now en)"
proof -
  have "keeps en (do {
      (ctx, m, st, elapsed, res) \<leftarrow> run_script api (en_tree en) True (mjs_exec api m (Some env) src) (empty_ctx 0 None None);
      (deliveries, en) \<leftarrow> fold_opt (apply_pending (\<lambda>p x e. write_single_inner api p x None now 1 e))
        (cx_pending ctx) ([], en\<lparr>en_script := Some m\<rparr>);
      Some (deliveries, en\<lparr>en_script := map_option (mjs_gc api) (en_script en)\<rparr>)
    })" for m env src
    by (rule script_run_keeps [OF assms]) (auto intro!: write_inner_keeps [OF assms(1)] keepsI refl script)
  then show ?thesis
    using assms(2) resolve_script_url_total [OF en_ok_tree [OF assms(2)], of url]
    by (auto simp: run_callback_script_def Let_def split: sum.split option.split intro!: keepsI refl)
qed

end

end
