(* ===== verification/EngineProps.thy ===== *)
theory EngineProps
  imports EngineSpec
begin

text \<open>
  The engine as a whole: what reads leave alone, that every request and every tick returns
  and keeps the invariant, the reachable engines, and the properties of writes: what they
  store, what they refuse, what a cascade of scripts cannot touch, and how deep it can go.
\<close>

section \<open>Cascades\<close>

text \<open>The subscriptions after a step: none is new, and those not expired are still there.\<close>

definition keeps_subs :: "f64 \<Rightarrow> registry \<Rightarrow> registry \<Rightarrow> bool" where
  "keeps_subs now reg reg' \<longleftrightarrow>
     (\<forall>rid s. sub_at reg' rid = Some s \<longrightarrow> sub_at reg rid = Some s) \<and>
     (\<forall>rid s. sub_at reg rid = Some s \<longrightarrow> \<not> is_expired s now \<longrightarrow> sub_at reg' rid = Some s)"

definition keeps_paths :: "object_tree \<Rightarrow> object_tree \<Rightarrow> bool" where
  "keeps_paths tree tree' \<longleftrightarrow>
     (\<forall>p. item_at (tr_objects tree) p \<noteq> None \<longrightarrow> item_at (tr_objects tree') p \<noteq> None)"

definition guarded :: "f64 \<Rightarrow> 'm engine \<Rightarrow> 'm engine \<Rightarrow> bool" where
  "guarded now en en' \<longleftrightarrow>
     protects (en_tree en) (en_tree en') \<and> keeps_paths (en_tree en) (en_tree en') \<and>
     keeps_subs now (en_subs en) (en_subs en')"

lemma keeps_paths_upd:
  "item_at (tr_objects tree') = (item_at (tr_objects tree))(p := Some i) \<Longrightarrow> keeps_paths tree tree'"
  by (simp add: keeps_paths_def)

lemma keeps_refl: "keeps_paths t t" "keeps_subs now r r"
  by (simp_all add: keeps_paths_def keeps_subs_def)

lemma keeps_trans:
  "keeps_paths t1 t2 \<Longrightarrow> keeps_paths t2 t3 \<Longrightarrow> keeps_paths t1 t3"
  "keeps_subs now r1 r2 \<Longrightarrow> keeps_subs now r2 r3 \<Longrightarrow> keeps_subs now r1 r3"
  unfolding keeps_paths_def keeps_subs_def by blast+

lemma notify_keeps_subs:
  assumes "en_ok en" "notify_write_event p now en = Some (ds, en')"
  shows "en_tree en' = en_tree en" "keeps_subs now (en_subs en) (en_subs en')"
proof -
  obtain en1 ds1 where n: "notify_write_event p now en = Some (ds1, en1)" "en_tree en1 = en_tree en"
    "\<forall>rid s. sub_at (en_subs en1) rid = Some s \<longrightarrow> sub_at (en_subs en) rid = Some s"
    "\<forall>rid s. sub_at (en_subs en) rid = Some s \<longrightarrow> \<not> is_expired s now \<longrightarrow> sub_at (en_subs en1) rid = Some s"
    using notify_write_total [OF assms(1), of p now] by blast
  then have "keeps_subs now (en_subs en) (en_subs en1)" unfolding keeps_subs_def by blast
  with n(1,2) assms(2) show "en_tree en' = en_tree en" "keeps_subs now (en_subs en) (en_subs en')" by simp_all
qed

lemma set_meta_keeps_paths:
  assumes "tree_ok (en_tree en)"
  shows "keeps_paths (en_tree en) (en_tree (set_meta_at path k v en))"
  using set_meta_at_spec [OF assms, of path k v]
  by (auto simp: keeps_paths_def split: sum.splits option.splits)

lemma stored_keeps_paths:
  assumes "tree_ok (en_tree en)" "write_value path v t (en_tree en) = Some (tree, r)"
  shows "keeps_paths (en_tree en) (en_tree (stored en path tree r))"
  using stored_spec [OF assms] by (cases r) (auto simp: keeps_paths_def)

interpretation guard: cascade now "guarded now" for now
proof unfold_locales
  show "guarded now a c" if "guarded now a b" "guarded now b c" for a b c :: "'m engine"
    using that unfolding guarded_def by (blast intro: protects_trans keeps_trans)
  show "guarded now en (set_meta_at p ''tx_encoding'' v en)" if "en_ok en" for en :: "'m engine" and p v
    using that set_meta_protects [of en "''tx_encoding''" p v] set_meta_keeps_paths [of en p]
      set_meta_at_spec [of en p "''tx_encoding''" v]
    by (simp add: guarded_def en_ok_tree keeps_refl)
  show "guarded now en (stored en p tree r)"
    if "en_ok en" "writable_target (en_tree en) p" "write_value p v t (en_tree en) = Some (tree, r)"
    for en :: "'m engine" and p v t tree r
    using that stored_protects [of en p v t tree r] stored_keeps_paths [of en p v t tree r]
      stored_spec [of en p v t tree r]
    by (simp add: guarded_def en_ok_tree keeps_refl)
  show "guarded now en en'" if "en_ok en" "notify_write_event p now en = Some (ds, en')"
    for en :: "'m engine" and p ds en'
    using notify_keeps_subs [OF that] by (simp add: guarded_def protects_refl keeps_refl)
qed (simp_all add: guarded_def protects_refl keeps_refl)

text \<open>The relation that holds always: what remains is that every write returns and keeps the
  invariant.\<close>

interpretation total: cascade now "\<lambda>_ _. True" for now
  by unfold_locales simp_all

section \<open>Scripts on reading\<close>

lemma compile_onread_total:
  assumes "tree_ok tree"
  shows "\<exists>r. fold_opt (compile_onread api tree path) scripts s = Some r"
proof (induction scripts arbitrary: s)
  case (Cons x scripts)
  obtain item_path src where x: "x = (item_path, src)" by (cases x)
  obtain m fns where s: "s = (m, fns)" by (cases s)
  obtain ctx m' st el v where r: "run_script api tree False (mjs_exec api m None
      (''(function() { return '' @ src @ ''; })'')) (empty_ctx 0 None None) = Some (ctx, m', st, el, v)"
    using run_script_ok [OF assms, of api False "mjs_exec api m None
      (''(function() { return '' @ src @ ''; })'')" "empty_ctx 0 None None"] by blast
  have "\<exists>s'. compile_onread api tree path x s = Some s'"
    unfolding compile_onread_def x s prod.case Let_def r bind.bind_lunit by simp
  then show ?case using Cons.IH by auto
qed simp

lemma onread_total:
  fixes api :: "('m, 'f) mjs" and en :: "'m engine"
  assumes "tree_ok (en_tree en)"
  shows "\<exists>r s. run_onread_script api path v ts en = Some (r, en\<lparr>en_script := s\<rparr>)"
proof -
  have self: "\<exists>s. en = en\<lparr>en_script := s\<rparr>" by (rule exI [of _ "en_script en"]) simp
  have scripts: "\<exists>m' fns. (if b then fold_opt (compile_onread api (en_tree en) path)
      (collect_onread_scripts (en_tree en)) (m, []) else Some (m, [])) = Some (m', fns)" for b m
    using compile_onread_total [OF assms, of api path "collect_onread_scripts (en_tree en)" "(m, [])"] by auto
  have run: "\<exists>ctx m' st el v. run_script api (en_tree en) True run c = Some (ctx, m', st, el, v)"
    for run c
    by (rule run_script_ok [OF assms])
  show ?thesis
  proof (cases "\<exists>item src m. resolve (en_tree en) path = Inr (PtInfoItem item) \<and>
      get_onread_script item = Some src \<and> en_script en = Some m")
    case True
    then obtain item src m where t: "resolve (en_tree en) path = Inr (PtInfoItem item)"
      "get_onread_script item = Some src" "en_script en = Some m" by blast
    obtain m1 fns where s: "(if str_contains ''readItem'' src then fold_opt (compile_onread api (en_tree en) path)
      (collect_onread_scripts (en_tree en)) (m, []) else Some (m, [])) = Some (m1, fns)"
      using scripts by blast
    obtain ctx m2 st el v' where r: "run_script api (en_tree en) True
        (mjs_exec api m1 (Some \<lparr>env_event = js_event v path ts, env_can_write = False\<rparr>) src)
        (empty_ctx 0 (Some path) (Some fns)) = Some (ctx, m2, st, el, v')"
      using run by blast
    show ?thesis
      unfolding run_onread_script_def t sum.case path_target.case option.case s bind.bind_lunit prod.case Let_def r
      by auto
  next
    case False
    then have "run_onread_script api path v ts en = Some (None, en)"
      by (auto simp: run_onread_script_def split: sum.split path_target.split option.split)
    with self show ?thesis by metis
  qed
qed

section \<open>Reads\<close>

text \<open>A step that returns and changes at most the script interpreter and the registry, which
  stays well-formed.\<close>

definition reads :: "'m engine \<Rightarrow> ('r \<times> 'm engine) option \<Rightarrow> bool" where
  "reads en x \<longleftrightarrow>
     (\<exists>r s subs. x = Some (r, en\<lparr>en_script := s, en_subs := subs\<rparr>) \<and> reg_inv subs)"

lemma readsI: "reg_inv (en_subs en) \<Longrightarrow> reads en (Some (r, en))"
  unfolding reads_def by (intro exI [of _ r] exI [of _ "en_script en"] exI [of _ "en_subs en"]) simp

lemma reads_subs: "reg_inv subs \<Longrightarrow> reads en (Some (r, en\<lparr>en_subs := subs\<rparr>))"
  unfolding reads_def by (intro exI [of _ r] exI [of _ "en_script en"] exI [of _ subs]) simp

lemma reads_bind:
  assumes "reads en x" "\<And>r s subs. reg_inv subs \<Longrightarrow>
    reads (en\<lparr>en_script := s, en_subs := subs\<rparr>) (f (r, en\<lparr>en_script := s, en_subs := subs\<rparr>))"
  shows "reads en (Option.bind x f)"
proof -
  obtain r s subs where 1: "x = Some (r, en\<lparr>en_script := s, en_subs := subs\<rparr>)" "reg_inv subs"
    using assms(1) by (auto simp: reads_def)
  show ?thesis using assms(2) [OF 1(2), of s r] 1(1) by (auto simp: reads_def)
qed

lemma onread_reads:
  assumes "tree_ok (en_tree en)" "reg_inv (en_subs en)"
  shows "reads en (run_onread_script api path v ts en)"
proof -
  obtain r s where "run_onread_script api path v ts en = Some (r, en\<lparr>en_script := s\<rparr>)"
    using onread_total [OF assms(1)] by blast
  then show ?thesis
    unfolding reads_def using assms(2)
    by (intro exI [of _ r] exI [of _ s] exI [of _ "en_subs en"]) simp
qed

lemma reads_fold:
  assumes "\<And>x acc e. en_tree e = en_tree en \<Longrightarrow> reg_inv (en_subs e) \<Longrightarrow> reads e (f x (acc, e))"
    and "reg_inv (en_subs en)"
  shows "reads en (fold_opt f xs (acc, en))"
  using assms
proof (induction xs arbitrary: acc en)
  case Nil
  then show ?case by (simp add: readsI)
next
  case (Cons x xs)
  have "fold_opt f (x # xs) (acc, en) = Option.bind (f x (acc, en)) (fold_opt f xs)"
    by (cases "f x (acc, en)") auto
  also have "reads en \<dots>"
  proof (rule reads_bind)
    show "reads en (f x (acc, en))" using Cons.prems by simp
    show "reads (en\<lparr>en_script := s, en_subs := subs\<rparr>) (fold_opt f xs (r, en\<lparr>en_script := s, en_subs := subs\<rparr>))"
      if "reg_inv subs" for r s subs
      by (rule Cons.IH) (use Cons.prems(1) that in auto)
  qed
  finally show ?case .
qed

lemma resolve_object_ok:
  assumes "objs_ok (tr_objects tree)" "resolve tree path = Inr (PtObject ob)"
  shows "obj_ok ob"
proof -
  have obj_in_ok: "obj_ok a \<Longrightarrow> obj_in a p = Some b \<Longrightarrow> obj_ok b" for a b p
    by (induction a p rule: obj_in.induct) (auto split: bind_splits intro: obj_ok_child)
  obtain segs where p: "parse_path path = Inr segs"
    using assms(2) by (cases "parse_path path") (auto simp: resolve_def)
  then have "segs \<noteq> []" using assms(2) by (auto simp: resolve_def)
  then obtain first rest where s: "segs = first # rest" by (cases segs) auto
  have "object_at (tr_objects tree) (first # rest) = Some ob"
    using resolve_spec [OF p [unfolded s], of tree "PtObject ob"] assms(2) by (simp split: option.splits)
  then show ?thesis using assms(1) by (auto split: bind_splits intro: obj_in_ok objs_ok_lookup)
qed

lemma resolve_root: "resolve tree path = Inr (PtRoot m) \<Longrightarrow> m = tr_objects tree"
proof (cases "parse_path path")
  case (Inr segs)
  moreover assume "resolve tree path = Inr (PtRoot m)"
  ultimately show ?thesis
    by (cases segs) (auto simp: resolve_spec resolve_def [of tree path] split: option.splits,
      auto simp: rbind_eq_Inr resolve_from_object_spec split: if_splits option.splits)
qed (simp add: resolve_def)

lemma read_one_time_reads:
  assumes "en_ok en"
  shows "reads en (process_read_one_time api ryu op en)"
proof -
  have ok: "tree_ok (en_tree en)" "reg_inv (en_subs en)" "objs_ok (tr_objects (en_tree en))"
    using assms by (simp_all add: en_ok_def tree_ok_def)
  define path where "path = case_option ''/'' id (rd_path op)"
  show ?thesis
  proof (cases "resolve (en_tree en) path")
    case (Inl e)
    then show ?thesis using ok by (simp add: process_read_one_time_def path_def [symmetric] Let_def readsI)
  next
    case (Inr target)
    show ?thesis
    proof (cases target)
      case (PtInfoItem item)
      then have i: "item_ok item" using Inr ok resolve_item_ok by blast
      have cont: "reads en (do {
          (vals, en) \<leftarrow> (if b then do {
              (transformed, en) \<leftarrow> run_onread_script api path x ts en;
              Some (set_newest transformed vals, en)
            } else Some (vals, en));
          Some (g vals en, en)
        })" for b x ts vals and g :: "odf_value list \<Rightarrow> _ \<Rightarrow> omi_message"
        by (cases b) (auto intro!: reads_bind [OF onread_reads] readsI ok split: prod.split)
      define vals where "vals = query_spec (item_history item) (map_option as_usize (rd_newest op))
        (map_option as_usize (rd_oldest op)) (rd_begin op) (rd_end op)"
      obtain x ts where x: "(case vals of newest # _ \<Rightarrow> (val_v newest, val_t newest) | [] \<Rightarrow> (Null, None)) = (x, ts)"
        by fastforce
      show ?thesis
      proof (cases "is_readable item")
        case False
        with Inr PtInfoItem show ?thesis
          using ok by (simp add: process_read_one_time_def path_def [symmetric] Let_def readsI)
      next
        case True
        then have r: "\<not> \<not> is_readable item" by simp
        show ?thesis
          unfolding process_read_one_time_def path_def [symmetric] Let_def Inr PtInfoItem sum.case path_target.case
            query_values_ok [OF i] vals_def [symmetric] if_not_P [OF r] bind.bind_lunit x prod.case
          by (rule cont)
      qed
    next
      case (PtObject obj)
      then have "obj_ok obj" using Inr ok resolve_object_ok [of "en_tree en" path obj] by simp
      then show ?thesis
        unfolding process_read_one_time_def path_def [symmetric] Let_def Inr PtObject sum.case path_target.case
        using ok by (simp add: obj_writes readsI del: render.simps)
    next
      case (PtRoot m)
      then have "objs_ok m" using Inr ok resolve_root [of "en_tree en" path m] by simp
      then show ?thesis
        unfolding process_read_one_time_def path_def [symmetric] Let_def Inr PtRoot sum.case path_target.case
        using ok by (simp add: objects_writes readsI del: render.simps)
    qed
  qed
qed

lemma subscription_reads:
  assumes "en_ok en" "reg_next_id (en_subs en) + 1 \<noteq> 0" "0 \<le> t" "t < 2 ^ 43"
    and "case_option (Fin (- 1)) id (rd_interval op) < Fin (2 ^ 43)"
  shows "reads en (process_read_subscription op ttl (Fin t) ws en)"
proof (cases "ttl \<le> 0")
  case True
  then show ?thesis using assms(1) by (simp add: process_read_subscription_def readsI en_ok_subs)
next
  case False
  define interval where "interval = case_option (Fin (- 1)) id (rd_interval op)"
  define target where "target = (case rd_callback op of Some url \<Rightarrow> Callback url
    | None \<Rightarrow> (case ws of Some session \<Rightarrow> WebSocket session | None \<Rightarrow> Poll))"
  have inv: "reg_inv (en_subs en)" using assms(1) by (rule en_ok_subs)
  obtain subs r where c: "create (case_option ''/'' id (rd_path op)) interval target (f64_of_int ttl) (Fin t) (en_subs en) =
      Some (subs, r)"
  proof (cases "valid_interval interval \<and> length (reg_subs (en_subs en)) < max_subscriptions")
    case True
    then show ?thesis
      using that create_accepts [OF inv _ _ assms(2) refl assms(3,4), of interval
          "case_option ''/'' id (rd_path op)" target "f64_of_int ttl"] assms(5) by (auto simp: interval_def)
  next
    case False
    then show ?thesis
      using that create_rejects [where interval = interval and path = "case_option ''/'' id (rd_path op)"
          and target = target and ttl = "f64_of_int ttl" and now = "Fin t" and reg = "en_subs en"]
      by (cases "valid_interval interval") auto
  qed
  have "reg_inv subs"
    by (rule create_inv [OF inv c assms(2-4)]) (use assms(5) in \<open>simp only: interval_def\<close>)
  with False c show ?thesis
    by (simp add: process_read_subscription_def Let_def interval_def target_def reads_subs)
qed

lemma poll_reads:
  assumes "en_ok en"
  shows "reads en (process_read_poll op now en)"
proof -
  obtain subs r where "poll (case_option [] id (rd_rid op)) now (en_subs en) = Some (subs, r)" "reg_inv subs"
    using poll_spec [OF en_ok_subs [OF assms], of "case_option [] id (rd_rid op)" now] by blast
  then show ?thesis by (simp add: process_read_poll_def Let_def reads_subs)
qed

section \<open>Every request returns\<close>

definition request_ok :: "omi_message \<Rightarrow> bool" where
  "request_ok msg \<longleftrightarrow>
     (case om_operation msg of
        OpWrite (WriteTree _ objs) \<Rightarrow> objs_ok objs \<and> all_items duty_ok objs
      | OpRead op \<Rightarrow> case_option (Fin (- 1)) id (rd_interval op) < Fin (2 ^ 43)
      | _ \<Rightarrow> True)"

lemma reads_ok: "reads en x \<Longrightarrow> en_ok en \<Longrightarrow> \<exists>r en'. x = Some (r, en') \<and> en_ok en' \<and> en_tree en' = en_tree en"
  by (auto simp: reads_def en_ok_def)

lemma process_read_ok:
  assumes "en_ok en" "request_ok msg" "om_operation msg = OpRead op"
    and "reg_next_id (en_subs en) + 1 \<noteq> 0" "0 \<le> t" "t < 2 ^ 43"
  shows "\<exists>r en'. process_read api ryu op ttl (Fin t) ws en = Some (r, en') \<and> en_ok en' \<and> en_tree en' = en_tree en"
proof (rule reads_ok [OF _ assms(1)])
  show "reads en (process_read api ryu op ttl (Fin t) ws en)"
    using assms read_one_time_reads subscription_reads poll_reads
    by (auto simp: process_read_def request_ok_def split: read_kind.split)
qed

lemma process_write_ok:
  assumes "en_ok en" "interp_writes decodable_args api" "request_ok msg" "om_operation msg = OpWrite op"
  shows "\<exists>r en'. process_write api op now en = Some (r, en') \<and> en_ok en'"
proof (cases op)
  case (WriteSingle path v t)
  then show ?thesis
    using guard.write_inner_keeps [OF assms(2,1)] guard.keeps_total
    by (fastforce simp: process_write_def write_single_def)
next
  case (WriteBatch batch)
  then show ?thesis
    using guard.keeps_total [OF guard.batch_keeps [OF assms(2,1)]] by (fastforce simp: process_write_def)
next
  case (WriteTree path objs)
  obtain tree r where w: "write_tree path objs (en_tree en) = (tree, r)" by fastforce
  have objs: "objs_ok objs" "all_items duty_ok objs" using assms(3,4) WriteTree by (simp_all add: request_ok_def)
  have ok: "en_ok (en\<lparr>en_tree := tree\<rparr>)"
    using write_tree_items [OF en_ok_tree [OF assms(1)] objs(1) en_ok_duty [OF assms(1)] objs(2) w] assms(1)
    by (simp add: en_ok_def)
  have "guard.keeps now (en\<lparr>en_tree := tree\<rparr>) (fold_opt (\<lambda>p (ds, en). do {
      (d, en) \<leftarrow> notify_write_event p now en; Some (ds @ d, en) }) (collect_info_item_paths path objs)
        ([], en\<lparr>en_tree := tree\<rparr>))"
    by (rule guard.keeps_fold [OF _ ok])
      (auto intro!: guard.keeps_bind [OF guard.notify_keeps] guard.keepsI guard.refl split: prod.split)
  from guard.keeps_total [OF this] obtain ds en' where "fold_opt (\<lambda>p (ds, en). do {
      (d, en) \<leftarrow> notify_write_event p now en; Some (ds @ d, en) }) (collect_info_item_paths path objs)
        ([], en\<lparr>en_tree := tree\<rparr>) = Some (ds, en')" "en_ok en'"
    by blast
  with ok show ?thesis by (cases r) (simp_all add: process_write_def WriteTree Let_def w)
qed

lemma process_ok:
  assumes "en_ok en" "interp_writes decodable_args api" "request_ok msg"
    and "reg_next_id (en_subs en) + 1 \<noteq> 0" "0 \<le> t" "t < 2 ^ 43"
  shows "\<exists>r en'. process api ryu msg (Fin t) ws en = Some (r, en') \<and> en_ok en'"
proof (cases "om_operation msg")
  case (OpRead op)
  with process_read_ok [OF assms(1,3) OpRead assms(4-6), of api ryu "om_ttl msg" ws]
  show ?thesis by (auto simp: process_def)
next
  case (OpWrite op)
  with process_write_ok [OF assms(1-3) OpWrite] show ?thesis by (simp add: process_def)
next
  case (OpDelete op)
  obtain tree r where d: "tree_delete (de_path op) (en_tree en) = (tree, r)" by fastforce
  have "en_ok (en\<lparr>en_tree := tree\<rparr>)"
    using delete_keeps [OF en_ok_tree [OF assms(1)] d] assms(1) by (auto simp: en_ok_def all_items_def)
  with OpDelete d show ?thesis by (simp add: process_def process_delete_def Let_def split: sum.split)
next
  case (OpCancel op)
  then show ?thesis
    using cancel_spec [OF en_ok_subs [OF assms(1)], of "ca_rid op"] assms(1)
    by (auto simp: process_def process_cancel_def intro: en_ok_with_subs)
next
  case (OpResponse body)
  with assms(1) show ?thesis by (simp add: process_def)
qed

lemma tick_ok:
  assumes "en_ok en" "t < 2 ^ 43"
  shows "\<exists>ds en'. tick api (Fin t) en = Some (ds, en') \<and> en_ok en' \<and> en_tree en' = en_tree en"
proof -
  obtain subs ds next_time where k: "tick_intervals (Fin t) (read_current (en_tree en)) (en_subs en) = Some (subs, ds, next_time)"
    "reg_inv subs"
    using tick_intervals_spec [OF en_ok_subs [OF assms(1)] refl assms(2), of "read_current (en_tree en)"]
    by (elim exE conjE) (rule that)
  have ok: "en_ok (en\<lparr>en_subs := subs\<rparr>)" using assms(1) k(2) by (rule en_ok_with_subs)
  have "reads (en\<lparr>en_subs := subs\<rparr>) (fold_opt (tick_transform api) ds ([], en\<lparr>en_subs := subs\<rparr>))"
  proof (rule reads_fold)
    show "reads e (tick_transform api d (acc, e))"
      if "en_tree e = en_tree (en\<lparr>en_subs := subs\<rparr>)" "reg_inv (en_subs e)" for d acc and e :: "'a engine"
    proof -
      have "tree_ok (en_tree e)" using that(1) ok by (simp add: en_ok_def)
      then show ?thesis
        using that(2) by (auto simp: tick_transform_def Let_def intro!: readsI reads_bind [OF onread_reads]
            split: list.split prod.split)
    qed
  qed (simp add: k(2))
  from reads_ok [OF this ok] k show ?thesis by (simp add: tick_def)
qed

section \<open>The effect of a write that runs no script\<close>

lemma newest_of_snoc: "item_history item = vs @ [x] \<Longrightarrow> newest_of item = [x]"
  by (simp add: newest_of_def query_spec_def)

lemma written_history_last:
  assumes "\<And>item. old = Some item \<Longrightarrow> item_ok item"
  shows "\<exists>vs. written_history cap x old = vs @ [x]"
proof (cases old)
  case (Some item)
  then have "0 < rb_capacity (it_values item)" using assms by (simp add: item_ok_def rb_inv_def)
  then show ?thesis
    using Some by (auto simp: written_history_def last_n_def not_less_eq_eq intro!: exI)
qed (simp add: written_history_def)

lemma onwrite_script_stored:
  assumes ok: "tree_ok (en_tree en)" and p: "parse_path path = Inr segs"
    and none: "onwrite_script (en_tree en) path = None"
    and at: "item_at (tr_objects (en_tree en')) segs = Some (if b then insert_meta ''writable'' w item else item)"
    and meta: "it_meta item = Option.bind (item_at (tr_objects (en_tree en)) segs) it_meta"
  shows "onwrite_script (en_tree en') path = None"
proof -
  have i: "meta_get item ''onwrite'' \<noteq> Some (Str src)" for src
  proof (cases "item_at (tr_objects (en_tree en)) segs")
    case None
    with meta show ?thesis by (simp add: meta_get_def)
  next
    case (Some old)
    then have "resolve (en_tree en) path = Inr (PtInfoItem old)" using p by (simp add: resolve_item)
    with none have "meta_get old ''onwrite'' \<noteq> Some (Str src)" by (auto simp: onwrite_script_def)
    moreover have "meta_get item k = meta_get old k" for k using meta Some by (simp add: meta_get_def)
    ultimately show ?thesis by simp
  qed
  have "resolve (en_tree en') path = Inr (PtInfoItem (if b then insert_meta ''writable'' w item else item))"
    using p at by (simp add: resolve_item)
  with i show ?thesis by (cases b) (simp_all add: onwrite_script_def split: option.split omi_value.split)
qed

text \<open>Storing a value at an item path and notifying, when the item has no \<open>onwrite\<close> script.\<close>

lemma store_effect:
  assumes en: "en_ok en" and p: "parse_path path = Inr (first # segs @ [name])"
    and none: "onwrite_script (en_tree en) path = None"
    and w: "write_value path v t (en_tree en) = Some (tree, r)"
  shows "\<exists>en' item. r = Inr (item_at (tr_objects (en_tree en)) (first # segs @ [name]) = None) \<and>
    after_store api wr path v t now depth (stored en path tree r) =
      Some ((List.map_filter (owed path [value_new v t] now (en_subs en)) (rids_at (en_subs en) path), None), en') \<and>
    item_at (tr_objects (en_tree en')) = (item_at (tr_objects (en_tree en)))(first # segs @ [name] \<mapsto> item) \<and>
    item_history item = written_history (tr_default_capacity (en_tree en)) (value_new v t)
      (item_at (tr_objects (en_tree en)) (first # segs @ [name]))"
proof -
  let ?p = "first # segs @ [name]" and ?at = "item_at (tr_objects (en_tree en))"
  obtain created where r: "r = Inr created"
    using write_value_refines [OF en_ok_tree [OF en] p, of v t] w by auto
  obtain item where i: "created = (?at ?p = None)" "item_ok item"
    "item_history item = written_history (tr_default_capacity (en_tree en)) (value_new v t) (?at ?p)"
    "it_meta item = Option.bind (?at ?p) it_meta"
    "item_at (tr_objects (en_tree (stored en path tree r))) =
      ?at(?p := Some (if created then insert_meta ''writable'' (Bool True) item else item))"
    "en_subs (stored en path tree r) = en_subs en"
    using stored_spec [OF en_ok_tree [OF en] w] p r by auto
  define item' where "item' = (if created then insert_meta ''writable'' (Bool True) item else item)"
  have h: "item_history item' = item_history item" by (simp add: item'_def item_history_def)
  have ok: "en_ok (stored en path tree r)" using stored_ok [OF en w] .
  have at': "item_at (tr_objects (en_tree (stored en path tree r))) ?p = Some item'"
    using i(5) by (simp add: item'_def)
  then have res: "resolve (en_tree (stored en path tree r)) path = Inr (PtInfoItem item')"
    using p by (simp add: resolve_item)
  have "onwrite_script (en_tree (stored en path tree r)) path = None"
    using onwrite_script_stored [OF en_ok_tree [OF en] p none at' [unfolded item'_def] i(4)] .
  then have run: "run_onwrite_script api wr path v t depth (stored en path tree r) = Some (([], None), stored en path tree r)"
    by (simp add: run_onwrite_script_def)
  have "objs_ok (tr_objects (en_tree en))" using en by (simp add: en_ok_def tree_ok_def)
  then have "item_ok it" if "?at ?p = Some it" for it using that by (rule item_at_ok)
  then obtain vs where "item_history item' = vs @ [value_new v t]"
    using written_history_last [of "?at ?p" "tr_default_capacity (en_tree en)" "value_new v t"] i(3) h by auto
  then have newest: "newest_of item' = [value_new v t]" by (rule newest_of_snoc)
  obtain en' where n: "notify_write_event path now (stored en path tree r) =
      Some (List.map_filter (owed path [value_new v t] now (en_subs en)) (rids_at (en_subs en) path), en')"
    "en_tree en' = en_tree (stored en path tree r)"
    using notify_write_total [OF ok, of path now] i(6) by (auto simp: res newest)
  have "after_store api wr path v t now depth (stored en path tree r) =
      Some ((List.map_filter (owed path [value_new v t] now (en_subs en)) (rids_at (en_subs en) path), None), en')"
    unfolding after_store_def run bind.bind_lunit prod.case n(1) by simp
  moreover have "item_at (tr_objects (en_tree en')) = ?at(?p \<mapsto> item')" unfolding n(2) i(5) item'_def ..
  ultimately show ?thesis using r i(1,3) h by (intro exI [of _ en'] exI [of _ item']) simp
qed

section \<open>Properties\<close>

text \<open>The engines the firmware can reach from a new one.\<close>

inductive engine_reach :: "('m, 'f) mjs \<Rightarrow> (f64 \<Rightarrow> string) \<Rightarrow> 'm engine \<Rightarrow> bool"
  for api :: "('m, 'f) mjs" and ryu :: "f64 \<Rightarrow> string" where
  reach_start: "engine_reach api ryu (engine_new script)"
| reach_request: "engine_reach api ryu en \<Longrightarrow> request_ok msg \<Longrightarrow> reg_next_id (en_subs en) + 1 \<noteq> 0 \<Longrightarrow>
    0 \<le> t \<Longrightarrow> t < 2 ^ 43 \<Longrightarrow> process api ryu msg (Fin t) ws en = Some (r, en') \<Longrightarrow> engine_reach api ryu en'"
| reach_interval: "engine_reach api ryu en \<Longrightarrow> t < 2 ^ 43 \<Longrightarrow> tick api (Fin t) en = Some (ds, en') \<Longrightarrow>
    engine_reach api ryu en'"
| reach_callback: "engine_reach api ryu en \<Longrightarrow> run_callback_script api url path vals now en = Some (ds, en') \<Longrightarrow>
    engine_reach api ryu en'"
| reach_take: "engine_reach api ryu en \<Longrightarrow> take_deliveries en = (ds, en') \<Longrightarrow> engine_reach api ryu en'"
| reach_close: "engine_reach api ryu en \<Longrightarrow> cancel_by_ws_session session (en_subs en) = (subs, n) \<Longrightarrow>
    engine_reach api ryu (en\<lparr>en_subs := subs\<rparr>)"

inductive_cases engine_reach_elim: "engine_reach api ryu en"

lemma engine_reach_ok:
  assumes "interp_writes decodable_args api"
  shows "engine_reach api ryu en \<Longrightarrow> en_ok en"
proof (induction rule: engine_reach.induct)
  case (reach_request en msg t ws r en')
  with process_ok [OF _ assms, of en msg t ryu ws] show ?case by auto
next
  case (reach_interval en t ds en')
  with tick_ok [of en t api] show ?case by auto
next
  case (reach_callback en url path vals now ds en')
  with guard.keeps_total [OF guard.callback_keeps [OF assms, of en now url path vals]] show ?case by auto
next
  case (reach_take en ds en')
  then show ?case by (auto simp: take_deliveries_def)
next
  case (reach_close en session subs n)
  with cancel_by_ws_session_spec [of "en_subs en" session] show ?case
    by (auto simp: en_ok_subs intro: en_ok_with_subs)
qed (rule engine_new_ok)


definition idle_mjs :: "(unit, unit) mjs" where
  "idle_mjs = \<lparr>mjs_exec = \<lambda>m env src. JsDone m JsOk 0 JsUndefined,
     mjs_apply = \<lambda>m env f. JsDone m JsOk 0 JsUndefined, mjs_gc = \<lambda>m. m\<rparr>"

lemma idle_writes: "interp_writes W idle_mjs"
  by (simp add: interp_writes_def idle_mjs_def)

definition sample_write :: omi_message where
  "sample_write = \<lparr>om_version = ''1.0'', om_ttl = 0,
     om_operation = OpWrite (WriteSingle ''/Dev/Temp'' (Number (Fin 20)) None)\<rparr>"



definition sample_engine :: "unit engine" where
  "sample_engine = (engine_new (Some ()))\<lparr>en_tree := sample_item_tree\<rparr>"

lemma sample_engine_ok: "en_ok sample_engine"
proof -
  have p: "parse_path ''/Dev/Temp'' = Inr (''Dev'' # [] @ [''Temp''])" by code_simp
  obtain tree r where w: "write_value ''/Dev/Temp'' Null None tree_new = Some (tree, r)"
    "item_at (tr_objects tree) = (item_at (tr_objects tree_new))
       ([''Dev'', ''Temp''] := written (tr_default_capacity tree_new) Null None
          (item_at (tr_objects tree_new) [''Dev'', ''Temp'']))"
    using write_value_refines [OF tree_new_ok p, of Null None] by auto
  have none: "item_at (tr_objects tree_new) q = None" for q by (cases q) (simp_all add: tree_new_def)
  obtain item where i: "written (tr_default_capacity tree_new) Null None None = Some item" "it_meta item = None"
    by (rule written_ok [of "tr_default_capacity tree_new" None Null None]) (simp_all add: tree_new_def)
  have "item_at (tr_objects tree) = (item_at (tr_objects tree_new))([''Dev'', ''Temp''] := Some item)"
    using w(2) unfolding none i(1) .
  moreover have "duty_ok item" using i(2) by (simp add: duty_ok_def meta_get_def)
  ultimately have "all_items duty_ok (tr_objects tree)"
    unfolding all_items_def by (simp add: none)
  then have "all_items duty_ok (tr_objects sample_item_tree)"
    using w(1) by (simp add: sample_item_tree_def)
  then show ?thesis
    using sample_item_tree_ok engine_new_ok [of "Some ()"] by (simp add: en_ok_def sample_engine_def)
qed


text \<open>C16: A refused write changes nothing. A write to an item that is not writable is answered
  403, a write to an object or to the root 400, and a write to a malformed path 400, in each case
  with no delivery and the engine as it was.\<close>

theorem refused_write:
  "(resolve (en_tree en) path = Inr (PtInfoItem item) \<longrightarrow> \<not> is_writable item \<longrightarrow>
      (\<exists>resp. write_single api path v t now en = Some ((resp, []), en) \<and> response_status resp = 403)) \<and>
   (resolve (en_tree en) path = Inr (PtObject obj) \<or> resolve (en_tree en) path = Inr (PtRoot objs) \<longrightarrow>
      (\<exists>resp. write_single api path v t now en = Some ((resp, []), en) \<and> response_status resp = 400)) \<and>
   (parse_path path = Inl (InvalidPath msg) \<longrightarrow>
      (\<exists>resp. write_single api path v t now en = Some ((resp, []), en) \<and> response_status resp = 400))"
proof (intro conjI impI)
  note d = writable_target_def write_rejection_def write_single_def write_inner_rejects
  show "\<exists>resp. write_single api path v t now en = Some ((resp, []), en) \<and> response_status resp = 403"
    if "resolve (en_tree en) path = Inr (PtInfoItem item)" "\<not> is_writable item"
    using that by (simp add: d)
  show "\<exists>resp. write_single api path v t now en = Some ((resp, []), en) \<and> response_status resp = 400"
    if "resolve (en_tree en) path = Inr (PtObject obj) \<or> resolve (en_tree en) path = Inr (PtRoot objs)"
    using that by (elim disjE) (simp_all add: d)
  show "\<exists>resp. write_single api path v t now en = Some ((resp, []), en) \<and> response_status resp = 400"
    if "parse_path path = Inl (InvalidPath msg)"
  proof -
    have "resolve (en_tree en) path = Inl (InvalidPath msg)" using that by (simp add: resolve_def)
    then show ?thesis
      by (simp add: d tree_error_to_response_def error_response_def response_status_def as_u16_def)
  qed
qed

lemma sample_item: "\<exists>item. resolve sample_item_tree ''/Dev/Temp'' = Inr (PtInfoItem item) \<and> \<not> is_writable item"
proof -
  have "case resolve sample_item_tree ''/Dev/Temp'' of Inr (PtInfoItem item) \<Rightarrow> \<not> is_writable item | _ \<Rightarrow> False"
    by code_simp
  then show ?thesis by (auto split: sum.splits path_target.splits)
qed

theorem refused_write_witness:
  "\<exists>resp. write_single idle_mjs ''/Dev/Temp'' Null None (Fin 100) sample_engine = Some ((resp, []), sample_engine) \<and>
     response_status resp = 403"
proof -
  obtain item where "resolve (en_tree sample_engine) ''/Dev/Temp'' = Inr (PtInfoItem item)" "\<not> is_writable item"
    using sample_item by (auto simp: sample_engine_def)
  with refused_write [of sample_engine "''/Dev/Temp''" item] show ?thesis by blast
qed





text \<open>C18: The cascade of scripts is cut off. The \<open>onwrite\<close> script of an item written at the
  last script level (and at any deeper one) sets off no further write, whatever the script does
  and whatever a further write would do: there are no deliveries and the tree and the
  subscriptions stay.\<close>

theorem cascade_is_cut_off:
  assumes "max_script_depth \<le> depth + 1"
    and "run_onwrite_script api wr path v ts depth en = Some ((ds, err), en')"
  shows "ds = [] \<and> en_tree en' = en_tree en \<and> en_subs en' = en_subs en"
proof -
  have none: "cx_pending ctx = []"
    if "run_script api tree True run (empty_ctx depth None None) = Some (ctx, m', st, el, res)"
    for tree run ctx m' st el res
    using script_grows_pending [OF that] assms(1) by (simp add: ctx_step_def empty_ctx_def)
  show ?thesis
    using assms(2)
    by (auto simp: run_onwrite_script_def Let_def dest!: none split: if_splits option.splits bind_splits)
qed

text \<open>An interpreter whose every script writes to one item.\<close>

definition writing_mjs :: "(unit, unit) mjs" where
  "writing_mjs = \<lparr>mjs_exec = \<lambda>m env src.
       JsCall HostWriteItem [JsBool True, JsStr ''/Dev/Temp''] True m (\<lambda>m v. JsDone m JsOk 0 JsUndefined),
     mjs_apply = \<lambda>m env f. JsDone m JsOk 0 JsUndefined, mjs_gc = \<lambda>m. m\<rparr>"

lemma writing_decodable: "interp_writes decodable_args writing_mjs"
  by (simp add: interp_writes_def writing_mjs_def decodable_args_def js_encoding_option_def decode_value_def)

definition scripted_engine :: "unit engine" where
  "scripted_engine = set_meta_at ''/Dev/Temp'' ''onwrite'' (Str ''odf.writeItem(true, path)'') sample_engine"

theorem cascade_is_cut_off_witness:
  "\<exists>err en'. run_onwrite_script writing_mjs (\<lambda>p x e. Some ((ok_null, []), engine_new None)) ''/Dev/Temp'' Null None 3
       scripted_engine = Some (([], err), en') \<and> en_tree en' = en_tree scripted_engine \<and>
     onwrite_script (en_tree scripted_engine) ''/Dev/Temp'' \<noteq> None"
proof -
  have ok: "en_ok scripted_engine"
    unfolding scripted_engine_def by (rule set_meta_ok [OF sample_engine_ok]) simp
  have s: "onwrite_script (en_tree scripted_engine) ''/Dev/Temp'' \<noteq> None" by code_simp
  obtain ds err en' where r: "run_onwrite_script writing_mjs (\<lambda>p x e. Some ((ok_null, []), engine_new None)) ''/Dev/Temp''
      Null None 3 scripted_engine = Some ((ds, err), en')"
    using total.keeps_total [OF total.onwrite_keeps [OF writing_decodable ok, where depth = 3
        and wr = "\<lambda>p x e. Some ((ok_null, []), engine_new None)" and path = "''/Dev/Temp''" and v = Null and ts = None]]
    by (auto simp: total.keeps_def engine_new_ok)
  from cascade_is_cut_off [OF _ r] r s show ?thesis by (simp add: max_script_depth_def)
qed

text \<open>C19: Reads change nothing but the bookkeeping. A read request of any kind (one-time,
  subscription, poll), with the scripts it runs, and a tick of the interval timer leave the object
  tree as it was.\<close>

theorem reads_keep_tree:
  assumes "en_ok en" "request_ok msg" "om_operation msg = OpRead op"
    and "reg_next_id (en_subs en) + 1 \<noteq> 0" "0 \<le> t" "t < 2 ^ 43"
  shows "(\<exists>resp en'. process api ryu msg (Fin t) ws en = Some ((resp, []), en') \<and> en_tree en' = en_tree en) \<and>
    (\<exists>ds en'. tick api (Fin t) en = Some (ds, en') \<and> en_tree en' = en_tree en)"
  using process_read_ok [OF assms, of api ryu "om_ttl msg" ws] tick_ok [OF assms(1,6), of api]
  by (auto simp: process_def assms(3))

definition sample_read_op :: read_op where
  "sample_read_op = \<lparr>rd_path = Some ''/Dev/Temp'', rd_rid = None, rd_newest = None, rd_oldest = None,
     rd_begin = None, rd_end = None, rd_depth = None, rd_interval = None, rd_callback = None\<rparr>"

theorem reads_keep_tree_witness:
  "\<exists>resp en'. process idle_mjs (\<lambda>_. []) \<lparr>om_version = ''1.0'', om_ttl = 0, om_operation = OpRead sample_read_op\<rparr>
     (Fin 100) None sample_engine = Some ((resp, []), en') \<and> en_tree en' = sample_item_tree"
  using reads_keep_tree [OF sample_engine_ok, of "\<lparr>om_version = ''1.0'', om_ttl = 0, om_operation = OpRead sample_read_op\<rparr>"
      sample_read_op 100 idle_mjs "\<lambda>_. []" None]
  by (auto simp: request_ok_def sample_read_op_def sample_engine_def engine_new_def reg_new_def)

text \<open>C20: What a one-time read of an item returns. An item that is not readable is refused
  with 403 and shows nothing. Otherwise the answer carries the item's metadata and the values the
  query selects from its history, newest first; when the item has an \<open>onread\<close> script, at most
  the newest value is replaced, and its timestamp stays.\<close>

theorem one_time_read_values:
  assumes "tree_ok (en_tree en)" "resolve (en_tree en) path = Inr (PtInfoItem item)" "rd_path op = Some path"
  defines "vals \<equiv> query_spec (item_history item) (map_option as_usize (rd_newest op))
    (map_option as_usize (rd_oldest op)) (rd_begin op) (rd_end op)"
  shows "(\<not> is_readable item \<longrightarrow> process_read_one_time api ryu op en =
       Some (forbidden (''InfoItem at '' @ quote path @ '' is not readable''), en)) \<and>
    (is_readable item \<longrightarrow> get_onread_script item = None \<longrightarrow>
       process_read_one_time api ryu op en = Some (ok_read_result_with_meta path vals (it_meta item), en)) \<and>
    (is_readable item \<longrightarrow>
       (\<exists>v s. process_read_one_time api ryu op en =
          Some (ok_read_result_with_meta path (set_newest v vals) (it_meta item), en\<lparr>en_script := s\<rparr>)))"
proof -
  have i: "item_ok item" using assms(1,2) by (rule resolve_item_ok)
  have p: "case_option ''/'' id (rd_path op) = path" using assms(3) by simp
  obtain x ts where x: "(case vals of newest # _ \<Rightarrow> (val_v newest, val_t newest) | [] \<Rightarrow> (Null, None)) = (x, ts)"
    by fastforce
  obtain v s where r: "run_onread_script api path x ts en = Some (v, en\<lparr>en_script := s\<rparr>)"
    using onread_total [OF assms(1)] by blast
  have body: "process_read_one_time api ryu op en =
      (if get_onread_script item \<noteq> None
       then Some (ok_read_result_with_meta path (set_newest v vals) (it_meta item), en\<lparr>en_script := s\<rparr>)
       else Some (ok_read_result_with_meta path vals (it_meta item), en))" if "is_readable item"
  proof -
    have n: "\<not> \<not> is_readable item" using that by simp
    show ?thesis
      unfolding process_read_one_time_def p Let_def assms(2) sum.case path_target.case query_values_ok [OF i]
        vals_def [symmetric] if_not_P [OF n] bind.bind_lunit x prod.case r
      by (simp add: assms(2))
  qed
  have "\<exists>v s. Some (ok_read_result_with_meta path vals (it_meta item), en) =
      Some (ok_read_result_with_meta path (set_newest v vals) (it_meta item), en\<lparr>en_script := s\<rparr>)"
    by (intro exI [of _ None] exI [of _ "en_script en"]) (simp add: set_newest_def)
  then show ?thesis
    using body assms(2) p by (auto simp: process_read_one_time_def)
qed

theorem one_time_read_values_witness:
  "\<exists>item. process_read_one_time idle_mjs (\<lambda>_. []) sample_read_op sample_engine =
     Some (ok_read_result_with_meta ''/Dev/Temp'' (query_spec (item_history item) None None None None) (it_meta item),
           sample_engine)"
proof -
  obtain item where i: "resolve sample_item_tree ''/Dev/Temp'' = Inr (PtInfoItem item)" "\<not> is_writable item"
    using sample_item by blast
  have "case resolve sample_item_tree ''/Dev/Temp'' of
      Inr (PtInfoItem item) \<Rightarrow> is_readable item \<and> get_onread_script item = None | _ \<Rightarrow> False" by code_simp
  with i(1) have r: "is_readable item" "get_onread_script item = None" by simp_all
  have t: "tree_ok (en_tree sample_engine)" "resolve (en_tree sample_engine) ''/Dev/Temp'' = Inr (PtInfoItem item)"
    using i(1) sample_item_tree_ok by (simp_all add: sample_engine_def)
  have o: "rd_path sample_read_op = Some ''/Dev/Temp''" by (simp add: sample_read_op_def)
  from one_time_read_values [OF t o, of idle_mjs "\<lambda>_. []"] r show ?thesis
    by (auto simp: sample_read_op_def)
qed

end
