(* ===== verification/Lexer.thy ===== *)
theory Lexer
  imports Utf8 Float64
begin

text \<open>
  \<open>src/json/lexer.rs\<close> and the errors of \<open>src/json/error.rs\<close>: the tokenizer. The lexer
  state holds the bytes from the current position on (\<open>input[pos..]\<close>), the position, and
  the peeked token, so that an index of the code beyond the end is a list pattern that does
  not match. A scanner takes the remaining bytes and the position and returns its value with
  both advanced; an error carries its position, and the lexer is not used after one.
\<close>

section \<open>Errors\<close>

datatype lite_parse_error =
    UnexpectedChar nat nat
  | UnexpectedEof nat
  | InvalidEscape nat
  | InvalidUnicodeEscape nat
  | InvalidSurrogatePair nat
  | UnterminatedString nat
  | InvalidNumber nat
  | InvalidLiteral nat
  | ExpectedToken string nat
  | LiteMissingField string nat
  | DepthExceeded nat nat
  | TrailingData nat

fun error_pos :: "lite_parse_error \<Rightarrow> nat" where
  "error_pos (UnexpectedChar _ pos) = pos"
| "error_pos (UnexpectedEof pos) = pos"
| "error_pos (InvalidEscape pos) = pos"
| "error_pos (InvalidUnicodeEscape pos) = pos"
| "error_pos (InvalidSurrogatePair pos) = pos"
| "error_pos (UnterminatedString pos) = pos"
| "error_pos (InvalidNumber pos) = pos"
| "error_pos (InvalidLiteral pos) = pos"
| "error_pos (ExpectedToken _ pos) = pos"
| "error_pos (LiteMissingField _ pos) = pos"
| "error_pos (DepthExceeded _ pos) = pos"
| "error_pos (TrailingData pos) = pos"

definition pos_text :: "nat \<Rightarrow> string" where
  "pos_text pos = ''byte '' @ dec_of_nat pos"

fun lite_error_text :: "lite_parse_error \<Rightarrow> string" where
  "lite_error_text (UnexpectedChar ch pos) =
     ''unexpected character '' @ quote (encode_utf8 ch) @ '' at '' @ pos_text pos"
| "lite_error_text (UnexpectedEof pos) = ''unexpected end of input at '' @ pos_text pos"
| "lite_error_text (InvalidEscape pos) = ''invalid escape sequence at '' @ pos_text pos"
| "lite_error_text (InvalidUnicodeEscape pos) = ''invalid unicode escape at '' @ pos_text pos"
| "lite_error_text (InvalidSurrogatePair pos) = ''invalid surrogate pair at '' @ pos_text pos"
| "lite_error_text (UnterminatedString pos) = ''unterminated string at '' @ pos_text pos"
| "lite_error_text (InvalidNumber pos) = ''invalid number at '' @ pos_text pos"
| "lite_error_text (InvalidLiteral pos) = ''invalid literal at '' @ pos_text pos"
| "lite_error_text (ExpectedToken expected pos) = ''expected '' @ expected @ '' at '' @ pos_text pos"
| "lite_error_text (LiteMissingField field pos) =
     ''missing required field '' @ quote field @ '' at '' @ pos_text pos"
| "lite_error_text (DepthExceeded n pos) =
     ''nesting depth exceeds maximum of '' @ dec_of_nat n @ '' at '' @ pos_text pos"
| "lite_error_text (TrailingData pos) = ''trailing data at '' @ pos_text pos"

section \<open>Tokens\<close>

datatype token =
    TkString string
  | TkInteger int
  | TkNumber f64
  | TkBool bool
  | TkNull
  | ObjectStart
  | ObjectEnd
  | ArrayStart
  | ArrayEnd
  | Colon
  | Comma

fun token_name :: "token \<Rightarrow> string" where
  "token_name (TkString _) = ''string''"
| "token_name (TkInteger _) = ''integer''"
| "token_name (TkNumber _) = ''number''"
| "token_name (TkBool _) = ''boolean''"
| "token_name TkNull = ''null''"
| "token_name ObjectStart = quote ''{''"
| "token_name ObjectEnd = quote ''}''"
| "token_name ArrayStart = quote ''[''"
| "token_name ArrayEnd = quote '']''"
| "token_name Colon = quote '':''"
| "token_name Comma = quote '',''"

text \<open>Equality of the discriminants of two tokens.\<close>

fun same_token :: "token \<Rightarrow> token \<Rightarrow> bool" where
  "same_token (TkString _) (TkString _) = True"
| "same_token (TkInteger _) (TkInteger _) = True"
| "same_token (TkNumber _) (TkNumber _) = True"
| "same_token (TkBool _) (TkBool _) = True"
| "same_token t u = (t = u)"

type_synonym 'a scan = "lite_parse_error + 'a \<times> string \<times> nat"

section \<open>Strings\<close>

definition utf8_char_len :: "nat \<Rightarrow> nat" where
  "utf8_char_len b =
     (if b \<le> 0x7F then 1
      else if 0xC0 \<le> b \<and> b \<le> 0xDF then 2
      else if 0xE0 \<le> b \<and> b \<le> 0xEF then 3
      else if 0xF0 \<le> b \<and> b \<le> 0xF7 then 4
      else 0)"

definition scan_utf8_char :: "nat \<Rightarrow> string \<Rightarrow> nat \<Rightarrow> string scan" where
  "scan_utf8_char start s pos =
     (let b0 = byte_of (hd s); len = utf8_char_len b0
      in if len = 0 \<or> length s < len then Inl (UnterminatedString start)
         else if utf8_valid (take len s) then Inr (take len s, drop len s, pos + len)
         else Inl (UnexpectedChar b0 pos))"

definition hex_value :: "char \<Rightarrow> nat option" where
  "hex_value c =
     (let b = byte_of c
      in if 48 \<le> b \<and> b \<le> 57 then Some (b - 48)
         else if 97 \<le> b \<and> b \<le> 102 then Some (10 + b - 97)
         else if 65 \<le> b \<and> b \<le> 70 then Some (10 + b - 65)
         else None)"

fun scan_hex_loop :: "nat \<Rightarrow> nat \<Rightarrow> nat \<Rightarrow> string \<Rightarrow> nat \<Rightarrow> nat scan" where
  "scan_hex_loop 0 esc_pos val s pos = Inr (val, s, pos)"
| "scan_hex_loop (Suc n) esc_pos val [] pos = Inl (InvalidUnicodeEscape esc_pos)"
| "scan_hex_loop (Suc n) esc_pos val (c # s) pos =
     (case hex_value c of
        None \<Rightarrow> Inl (InvalidUnicodeEscape esc_pos)
      | Some digit \<Rightarrow> scan_hex_loop n esc_pos (val * 16 + digit) s (pos + 1))"

definition scan_hex4 :: "nat \<Rightarrow> string \<Rightarrow> nat \<Rightarrow> nat scan" where
  "scan_hex4 esc_pos s pos =
     (if length s < 4 then Inl (InvalidUnicodeEscape esc_pos) else scan_hex_loop 4 esc_pos 0 s pos)"

text \<open>The character of an escape, after the backslash.\<close>

definition simple_escape :: "char \<Rightarrow> string option" where
  "simple_escape c =
     (if c = CHR 0x22 then Some [CHR 0x22]
      else if c = CHR 0x5C then Some [CHR 0x5C]
      else if c = CHR ''/'' then Some ''/''
      else if c = CHR ''b'' then Some [CHR 0x08]
      else if c = CHR ''f'' then Some [CHR 0x0C]
      else if c = CHR ''n'' then Some [CHR 0x0A]
      else if c = CHR ''r'' then Some [CHR 0x0D]
      else if c = CHR ''t'' then Some [CHR 0x09]
      else None)"

definition scan_unicode :: "nat \<Rightarrow> string \<Rightarrow> nat \<Rightarrow> string scan" where
  "scan_unicode esc_pos s pos =
     rbind (scan_hex4 esc_pos s pos) (\<lambda>(cp, s, pos).
       if 0xD800 \<le> cp \<and> cp \<le> 0xDBFF then
         (case s of
            CHR 0x5C # CHR ''u'' # s' \<Rightarrow>
              rbind (scan_hex4 esc_pos s' (pos + 2)) (\<lambda>(low, s, pos).
                if \<not> (0xDC00 \<le> low \<and> low \<le> 0xDFFF) then Inl (InvalidSurrogatePair esc_pos)
                else (case char_from_u32 (0x10000 + push_bit 10 (cp - 0xD800) + (low - 0xDC00)) of
                        None \<Rightarrow> Inl (InvalidSurrogatePair esc_pos)
                      | Some ch \<Rightarrow> Inr (encode_utf8 ch, s, pos)))
          | _ \<Rightarrow> Inl (InvalidSurrogatePair esc_pos))
       else if 0xDC00 \<le> cp \<and> cp \<le> 0xDFFF then Inl (InvalidSurrogatePair esc_pos)
       else (case char_from_u32 cp of
               None \<Rightarrow> Inl (InvalidUnicodeEscape esc_pos)
             | Some ch \<Rightarrow> Inr (encode_utf8 ch, s, pos)))"

definition scan_escape :: "nat \<Rightarrow> string \<Rightarrow> nat \<Rightarrow> string scan" where
  "scan_escape start s pos =
     (case s of
        [] \<Rightarrow> Inl (UnterminatedString start)
      | c # s' \<Rightarrow>
          (case simple_escape c of
             Some str \<Rightarrow> Inr (str, s', pos + 1)
           | None \<Rightarrow> if c = CHR ''u'' then scan_unicode pos s' (pos + 1) else Inl (InvalidEscape pos)))"

text \<open>One turn of the loop in \<open>scan_string\<close>: the closing quote, or one more character.\<close>

definition scan_char :: "nat \<Rightarrow> string \<Rightarrow> nat \<Rightarrow> string option scan" where
  "scan_char start s pos =
     (case s of
        [] \<Rightarrow> Inl (UnterminatedString start)
      | c # s' \<Rightarrow>
          if c = CHR 0x22 then Inr (None, s', pos + 1)
          else if c = CHR 0x5C then
            rbind (scan_escape start s' (pos + 1)) (\<lambda>(str, s, pos). Inr (Some str, s, pos))
          else if byte_of c < 0x20 then Inl (UnexpectedChar (byte_of c) pos)
          else if 0x80 \<le> byte_of c then
            rbind (scan_utf8_char start s pos) (\<lambda>(str, s, pos). Inr (Some str, s, pos))
          else Inr (Some [c], s', pos + 1))"

section \<open>Progress of the scanners\<close>

text \<open>A scanner consumes a prefix of what remains and advances the position by its length.\<close>

definition consumes :: "nat \<Rightarrow> string \<Rightarrow> nat \<Rightarrow> string \<Rightarrow> nat \<Rightarrow> bool" where
  "consumes k s pos s' pos' \<longleftrightarrow> (\<exists>p. s = p @ s' \<and> pos' = pos + length p \<and> k \<le> length p)"

lemma consumes_trans:
  "consumes k s pos s' pos' \<Longrightarrow> consumes l s' pos' s'' pos'' \<Longrightarrow> consumes (k + l) s pos s'' pos''"
  by (fastforce simp: consumes_def)

lemma consumes_drop: "n \<le> length s \<Longrightarrow> k \<le> n \<Longrightarrow> consumes k s pos (drop n s) (pos + n)"
  unfolding consumes_def by (rule exI [of _ "take n s"]) simp

lemma consumes_Cons: "consumes k s (pos + 1) s' pos' \<Longrightarrow> consumes (Suc k) (c # s) pos s' pos'"
  unfolding consumes_def by (elim exE conjE) (rule exI [of _ "c # _"], auto)

lemma consumes_Cons1: "consumes k s (Suc pos) s' pos' \<Longrightarrow> consumes (Suc 0) (c # s) pos s' pos'"
  unfolding consumes_def by (elim exE conjE) (rule exI [of _ "c # _"], auto)

lemma consumes_mono: "consumes k s pos s' pos' \<Longrightarrow> l \<le> k \<Longrightarrow> consumes l s pos s' pos'"
  by (auto simp: consumes_def)

lemma consumes_refl [simp]: "consumes 0 s pos s pos"
  by (simp add: consumes_def)

lemma consumes_less: "consumes k s pos s' pos' \<Longrightarrow> 0 < k \<Longrightarrow> length s' < length s"
  by (auto simp: consumes_def)

lemma scan_hex_loop_consumes:
  "scan_hex_loop n e val s pos = Inr (v, s', pos') \<Longrightarrow> consumes n s pos s' pos'"
  by (induction n e val s pos rule: scan_hex_loop.induct)
    (auto simp: consumes_Cons split: option.splits)

lemma scan_hex4_consumes: "scan_hex4 e s pos = Inr (v, s', pos') \<Longrightarrow> consumes 4 s pos s' pos'"
  by (auto simp: scan_hex4_def dest: scan_hex_loop_consumes split: if_splits)

lemma scan_unicode_consumes:
  assumes "scan_unicode e s pos = Inr (str, s', pos')"
  shows "consumes 4 s pos s' pos'"
proof -
  obtain cp s1 pos1 where 1: "scan_hex4 e s pos = Inr (cp, s1, pos1)"
    using assms by (auto simp: scan_unicode_def rbind_eq_Inr)
  note c1 = scan_hex4_consumes [OF 1]
  show ?thesis
  proof (cases "0xD800 \<le> cp \<and> cp \<le> 0xDBFF")
    case True
    with assms 1 obtain s2 where s2: "s1 = CHR 0x5C # CHR ''u'' # s2"
      and r: "rbind (scan_hex4 e s2 (pos1 + 2)) (\<lambda>(low, s, pos).
                if \<not> (0xDC00 \<le> low \<and> low \<le> 0xDFFF) then Inl (InvalidSurrogatePair e)
                else (case char_from_u32 (0x10000 + push_bit 10 (cp - 0xD800) + (low - 0xDC00)) of
                        None \<Rightarrow> Inl (InvalidSurrogatePair e)
                      | Some ch \<Rightarrow> Inr (encode_utf8 ch, s, pos))) = Inr (str, s', pos')"
      by (auto simp: scan_unicode_def split: list.splits char.splits bool.splits)
    then obtain low s3 pos3 where 3: "scan_hex4 e s2 (pos1 + 2) = Inr (low, s3, pos3)" "s' = s3" "pos' = pos3"
      by (auto simp: rbind_eq_Inr split: if_splits option.splits)
    have "consumes 0 s1 pos1 s2 (pos1 + 2)" using s2 by (auto simp: consumes_def)
    from consumes_trans [OF c1 consumes_trans [OF this scan_hex4_consumes [OF 3(1)]]] 3
    show ?thesis by (auto intro: consumes_mono)
  next
    case False
    with assms 1 have "s' = s1" "pos' = pos1"
      by (auto simp: scan_unicode_def split: if_splits option.splits)
    with c1 show ?thesis by simp
  qed
qed

lemma scan_escape_consumes: "scan_escape start s pos = Inr (str, s', pos') \<Longrightarrow> consumes 1 s pos s' pos'"
  by (auto simp: scan_escape_def split: list.splits option.splits if_splits
      dest!: scan_unicode_consumes intro: consumes_Cons1 [of 0] consumes_Cons1)

lemma utf8_char_len_cases: "utf8_char_len b \<in> {0, 1, 2, 3, 4}"
  by (simp add: utf8_char_len_def)

lemma scan_char_consumes: "scan_char start s pos = Inr (r, s', pos') \<Longrightarrow> consumes 1 s pos s' pos'"
  by (auto simp: scan_char_def rbind_eq_Inr scan_utf8_char_def Let_def
      split: list.splits if_splits dest!: scan_escape_consumes
      intro: consumes_Cons1 [of 0] consumes_Cons1 consumes_drop [of _ "_ # _", simplified])

section \<open>Scanning a token\<close>

function scan_string_loop :: "nat \<Rightarrow> string \<Rightarrow> string \<Rightarrow> nat \<Rightarrow> string scan" where
  "scan_string_loop start acc s pos =
     (case scan_char start s pos of
        Inl e \<Rightarrow> Inl e
      | Inr (None, s', pos') \<Rightarrow> Inr (acc, s', pos')
      | Inr (Some str, s', pos') \<Rightarrow> scan_string_loop start (acc @ str) s' pos')"
  by pat_completeness auto
termination
  by (relation "measure (\<lambda>(_, _, s, _). length s)") (auto dest: scan_char_consumes consumes_less)

declare scan_string_loop.simps [simp del]

definition scan_string :: "string \<Rightarrow> nat \<Rightarrow> string scan" where
  "scan_string s pos = scan_string_loop pos [] (tl s) (pos + 1)"

definition expect_literal :: "string \<Rightarrow> string \<Rightarrow> nat \<Rightarrow> unit scan" where
  "expect_literal literal s pos =
     (if length s < length literal \<or> take (length literal) s \<noteq> literal then Inl (InvalidLiteral pos)
      else Inr ((), drop (length literal) s, pos + length literal))"

definition scan_bool :: "string \<Rightarrow> nat \<Rightarrow> bool scan" where
  "scan_bool s pos =
     (if hd s = CHR ''t'' then rbind (expect_literal ''true'' s pos) (\<lambda>(_, s, pos). Inr (True, s, pos))
      else rbind (expect_literal ''false'' s pos) (\<lambda>(_, s, pos). Inr (False, s, pos)))"

definition scan_null :: "string \<Rightarrow> nat \<Rightarrow> unit scan" where
  "scan_null s pos = expect_literal ''null'' s pos"

text \<open>\<open>str::parse::<f64>\<close> on the texts the scanner has accepted: the double nearest to the
  decimal. An exponent is the sum of the written one and the negated number of fractional
  digits.\<close>

definition is_digit :: "char \<Rightarrow> bool" where
  "is_digit c = (48 \<le> byte_of c \<and> byte_of c \<le> (57 :: nat))"

definition parse_exponent :: "string \<Rightarrow> int" where
  "parse_exponent s =
     (case s of
        [] \<Rightarrow> 0
      | e # r \<Rightarrow>
          (case r of
             [] \<Rightarrow> 0
           | c # d \<Rightarrow> if c = CHR ''-'' then - int (nat_of_dec 0 d)
                      else if c = CHR ''+'' then int (nat_of_dec 0 d)
                      else int (nat_of_dec 0 r)))"

definition parse_f64 :: "string \<Rightarrow> f64" where
  "parse_f64 text =
     (let neg = starts_with ''-'' text;
          body = (if neg then tl text else text);
          whole = takeWhile is_digit body;
          rest = dropWhile is_digit body;
          frac = (if starts_with ''.'' rest then takeWhile is_digit (tl rest) else []);
          rest = (if starts_with ''.'' rest then dropWhile is_digit (tl rest) else rest);
          q = rat_of_nat (nat_of_dec 0 (whole @ frac)) * 10 powi (parse_exponent rest - int (length frac))
      in if q = 0 then (if neg then NegZero else Fin 0) else round64 (if neg then - q else q))"

text \<open>\<open>str::parse::<i64>\<close> on an optional minus and digits.\<close>

definition parse_i64 :: "string \<Rightarrow> int option" where
  "parse_i64 text =
     (let i = (if starts_with ''-'' text then - int (nat_of_dec 0 (tl text)) else int (nat_of_dec 0 text))
      in if - (2 ^ 63) \<le> i \<and> i < 2 ^ 63 then Some i else None)"

definition scan_int_part :: "nat \<Rightarrow> string \<Rightarrow> lite_parse_error + string" where
  "scan_int_part start s =
     (case s of
        [] \<Rightarrow> Inl (InvalidNumber start)
      | c # r \<Rightarrow>
          if c = CHR ''0'' then
            (case r of [] \<Rightarrow> Inr r | d # _ \<Rightarrow> if is_digit d then Inl (InvalidNumber start) else Inr r)
          else if is_digit c then Inr (dropWhile is_digit s)
          else Inl (InvalidNumber start))"

definition scan_digits :: "nat \<Rightarrow> string \<Rightarrow> lite_parse_error + string" where
  "scan_digits start s =
     (case s of
        [] \<Rightarrow> Inl (InvalidNumber start)
      | c # _ \<Rightarrow> if is_digit c then Inr (dropWhile is_digit s) else Inl (InvalidNumber start))"

definition scan_fraction :: "nat \<Rightarrow> string \<Rightarrow> lite_parse_error + bool \<times> string" where
  "scan_fraction start s =
     (case s of
        CHR ''.'' # r \<Rightarrow> rbind (scan_digits start r) (\<lambda>s. Inr (True, s))
      | _ \<Rightarrow> Inr (False, s))"

definition scan_exponent :: "nat \<Rightarrow> string \<Rightarrow> lite_parse_error + bool \<times> string" where
  "scan_exponent start s =
     (case s of
        [] \<Rightarrow> Inr (False, s)
      | e # r \<Rightarrow>
          if e = CHR ''e'' \<or> e = CHR ''E'' then
            rbind (scan_digits start
                     (case r of [] \<Rightarrow> r | c # r' \<Rightarrow> if c = CHR ''+'' \<or> c = CHR ''-'' then r' else r))
              (\<lambda>s. Inr (True, s))
          else Inr (False, s))"

definition scan_number :: "string \<Rightarrow> nat \<Rightarrow> token scan" where
  "scan_number s start =
     (let s1 = (if starts_with ''-'' s then tl s else s)
      in rbind (scan_int_part start s1) (\<lambda>s2.
         rbind (scan_fraction start s2) (\<lambda>(frac, s3).
         rbind (scan_exponent start s3) (\<lambda>(ex, s4).
           let len = length s - length s4; num_str = take len s
           in Inr
                (if frac \<or> ex then TkNumber (parse_f64 num_str)
                 else (case parse_i64 num_str of
                         Some val \<Rightarrow> TkInteger val
                       | None \<Rightarrow> TkNumber (parse_f64 num_str)),
                 s4, start + len)))))"

definition json_space :: "char \<Rightarrow> bool" where
  "json_space c = (c = CHR '' '' \<or> c = CHR 0x09 \<or> c = CHR 0x0A \<or> c = CHR 0x0D)"

definition skip_whitespace :: "string \<Rightarrow> nat \<Rightarrow> string \<times> nat" where
  "skip_whitespace s pos =
     (let n = length (takeWhile json_space s) in (drop n s, pos + n))"

definition with_token :: "('a \<Rightarrow> token) \<Rightarrow> 'a scan \<Rightarrow> token option scan" where
  "with_token f r = rbind r (\<lambda>(x, s, pos). Inr (Some (f x), s, pos))"

definition scan_token :: "string \<Rightarrow> nat \<Rightarrow> token option scan" where
  "scan_token s0 pos0 =
     (let (s, pos) = skip_whitespace s0 pos0
      in case s of
           [] \<Rightarrow> Inr (None, s, pos)
         | c # s' \<Rightarrow>
             if c = CHR ''{'' then Inr (Some ObjectStart, s', pos + 1)
             else if c = CHR ''}'' then Inr (Some ObjectEnd, s', pos + 1)
             else if c = CHR ''['' then Inr (Some ArrayStart, s', pos + 1)
             else if c = CHR '']'' then Inr (Some ArrayEnd, s', pos + 1)
             else if c = CHR '':'' then Inr (Some Colon, s', pos + 1)
             else if c = CHR '','' then Inr (Some Comma, s', pos + 1)
             else if c = CHR 0x22 then with_token TkString (scan_string s pos)
             else if c = CHR ''t'' \<or> c = CHR ''f'' then with_token TkBool (scan_bool s pos)
             else if c = CHR ''n'' then with_token (\<lambda>_. TkNull) (scan_null s pos)
             else if c = CHR ''-'' \<or> is_digit c then with_token (\<lambda>t. t) (scan_number s pos)
             else Inl (UnexpectedChar (byte_of c) pos))"

section \<open>The lexer\<close>

record lexer =
  lx_rest :: string
  lx_pos :: nat
  lx_peeked :: "token option"

definition lexer_new :: "string \<Rightarrow> lexer" where
  "lexer_new input = \<lparr>lx_rest = input, lx_pos = 0, lx_peeked = None\<rparr>"

definition lexer_scan :: "lexer \<Rightarrow> lite_parse_error + token option \<times> lexer" where
  "lexer_scan lx =
     rbind (scan_token (lx_rest lx) (lx_pos lx))
       (\<lambda>(t, s, pos). Inr (t, lx\<lparr>lx_rest := s, lx_pos := pos\<rparr>))"

definition is_eof :: "lexer \<Rightarrow> bool \<times> lexer" where
  "is_eof lx =
     (if lx_peeked lx \<noteq> None then (False, lx)
      else let (s, pos) = skip_whitespace (lx_rest lx) (lx_pos lx)
           in (s = [], lx\<lparr>lx_rest := s, lx_pos := pos\<rparr>))"

definition next_token :: "lexer \<Rightarrow> lite_parse_error + token option \<times> lexer" where
  "next_token lx =
     (case lx_peeked lx of
        Some tok \<Rightarrow> Inr (Some tok, lx\<lparr>lx_peeked := None\<rparr>)
      | None \<Rightarrow> lexer_scan lx)"

definition peek_token :: "lexer \<Rightarrow> lite_parse_error + token option \<times> lexer" where
  "peek_token lx =
     (case lx_peeked lx of
        Some tok \<Rightarrow> Inr (Some tok, lx)
      | None \<Rightarrow> rbind (lexer_scan lx) (\<lambda>(t, lx). Inr (t, lx\<lparr>lx_peeked := t\<rparr>)))"

definition expect_token :: "token \<Rightarrow> lexer \<Rightarrow> lite_parse_error + token \<times> lexer" where
  "expect_token expected lx =
     rbind (next_token lx) (\<lambda>(t, lx).
       case t of
         None \<Rightarrow> Inl (UnexpectedEof (lx_pos lx))
       | Some tok \<Rightarrow>
           if \<not> same_token tok expected then Inl (ExpectedToken (token_name expected) (lx_pos lx))
           else Inr (tok, lx))"

end
