(* ===== verification/LexerSpec.thy ===== *)
theory LexerSpec
  imports Lexer
begin

text \<open>
  What the lexer promises: every scanning function that succeeds has consumed bytes of the
  input, has moved the position by as many, and returns a token in range (valid UTF-8 text, a
  64-bit integer).
\<close>

section \<open>The lexer makes progress\<close>

fun token_ok :: "token \<Rightarrow> bool" where
  "token_ok (TkString s) = utf8_valid s"
| "token_ok (TkInteger i) = (- (2 ^ 63) \<le> i \<and> i < 2 ^ 63)"
| "token_ok _ = True"

lemma encode_utf8_valid:
  assumes "char_from_u32 cp = Some ch"
  shows "utf8_valid (encode_utf8 ch)"
proof -
  have c: "ch = cp" "cp \<le> 0x10FFFF" "\<not> (0xD800 \<le> cp \<and> cp \<le> 0xDFFF)"
    using assms by (auto simp: char_from_u32_def split: if_splits)
  have b: "byte_of (char_of (n::nat)) = n mod 256" for n by (simp add: )
  consider "cp < 0x80" | "0x80 \<le> cp" "cp < 0x800" | "0x800 \<le> cp" "cp < 0x10000" | "0x10000 \<le> cp"
    by linarith
  then have "utf8_chunk (encode_utf8 ch) = (True, length (encode_utf8 ch)) \<and> encode_utf8 ch \<noteq> []"
  proof cases
    case 1
    then show ?thesis by (simp add: encode_utf8_def c utf8_width_def)
  next
    case 2
    then have "2 \<le> cp div 64" "cp div 64 < 32" by auto
    with 2 show ?thesis
      by (simp add: encode_utf8_def c utf8_width_def utf8_second_def utf8_cont_def Let_def)
  next
    case 3
    then have "cp div 4096 < 16" by auto
    have d: "cp div 64 mod 64 = cp div 64 - 64 * (cp div 4096)"
      by (simp add: modulo_nat_def div_mult2_eq [symmetric])
    have "cp div 4096 = 0 \<Longrightarrow> 32 \<le> cp div 64 mod 64"
      using 3 d by (simp add: div_eq_0_iff; linarith)
    moreover have "cp div 4096 = 13 \<Longrightarrow> cp div 64 mod 64 < 32"
      using 3 c(3) d by (simp; linarith)
    ultimately show ?thesis
      using 3 \<open>cp div 4096 < 16\<close>
      by (auto simp: encode_utf8_def c utf8_width_def utf8_second_def utf8_cont_def Let_def)
  next
    case 4
    have "cp div 262144 \<le> 4" using c(2) by auto
    have d: "cp div 4096 mod 64 = cp div 4096 - 64 * (cp div 262144)"
      by (simp add: modulo_nat_def div_mult2_eq [symmetric])
    have "cp div 262144 = 0 \<Longrightarrow> 16 \<le> cp div 4096 mod 64"
      using 4 d by (simp add: div_eq_0_iff; linarith)
    moreover have "cp div 262144 = 4 \<Longrightarrow> cp div 4096 mod 64 < 16"
      using 4 c(2) d by (simp; linarith)
    ultimately show ?thesis
      using 4 \<open>cp div 262144 \<le> 4\<close>
      by (auto simp: encode_utf8_def c utf8_width_def utf8_second_def utf8_cont_def Let_def)
  qed
  then show ?thesis using utf8_valid_chunk [of "encode_utf8 ch" "[]"] by simp
qed

lemma scan_unicode_valid: "scan_unicode e s pos = Inr (str, s', pos') \<Longrightarrow> utf8_valid str"
  by (auto simp: scan_unicode_def rbind_eq_Inr encode_utf8_valid
      split: if_splits option.splits list.splits char.splits bool.splits)

lemma ascii_string_valid: "byte_of c < (128::nat) \<Longrightarrow> utf8_valid [c]"
  by (rule utf8_valid_ascii) (simp add: ascii_def)

lemma simple_escape_valid: "simple_escape c = Some str \<Longrightarrow> utf8_valid str"
  by (auto simp: simple_escape_def ascii_string_valid split: if_splits)

lemma scan_char_valid: "scan_char start s pos = Inr (Some str, s', pos') \<Longrightarrow> utf8_valid str"
  by (auto simp: scan_char_def scan_escape_def scan_utf8_char_def rbind_eq_Inr Let_def ascii_string_valid
      split: list.splits if_splits option.splits dest: simple_escape_valid scan_unicode_valid)

lemma scan_string_loop_spec:
  "scan_string_loop start acc s pos = Inr (str, s', pos') \<Longrightarrow> utf8_valid acc \<Longrightarrow>
     utf8_valid str \<and> consumes 1 s pos s' pos'"
proof (induction start acc s pos rule: scan_string_loop.induct)
  case (1 start acc s pos)
  obtain r s1 pos1 where c: "scan_char start s pos = Inr (r, s1, pos1)"
    using 1(2) by (subst (asm) scan_string_loop.simps) (auto split: sum.splits)
  note c1 = scan_char_consumes [OF c]
  show ?case
  proof (cases r)
    case None
    then have "str = acc" "s' = s1" "pos' = pos1"
      using 1(2) c by (simp_all add: scan_string_loop.simps [of start acc s pos])
    with 1(3) c1 show ?thesis by simp
  next
    case (Some x)
    then have r: "scan_string_loop start (acc @ x) s1 pos1 = Inr (str, s', pos')"
      using 1(2) c by (simp add: scan_string_loop.simps [of start acc s pos])
    have "utf8_valid (acc @ x)"
      using 1(3) scan_char_valid [of start s pos x s1 pos1] c Some by (simp add: utf8_valid_append)
    from 1(1) [OF c refl Some refl r this] have "utf8_valid str" "consumes 1 s1 pos1 s' pos'" by auto
    with consumes_trans [OF c1] show ?thesis by (auto intro: consumes_mono)
  qed
qed

lemma dropWhile_drop: "\<exists>n. dropWhile P s = drop n s \<and> n \<le> length s"
  by (rule exI [of _ "length (takeWhile P s)"]) (simp add: dropWhile_eq_drop length_takeWhile_le)

lemma scan_digits_shorter:
  assumes "scan_digits start s = Inr s'"
  shows "\<exists>n. s' = drop n s \<and> n \<le> length s"
  using assms dropWhile_drop [of is_digit s] by (auto simp: scan_digits_def split: list.splits if_splits)

lemma scan_int_part_shorter:
  assumes "scan_int_part start s = Inr s'"
  shows "\<exists>n. s' = drop n s \<and> 1 \<le> n \<and> n \<le> length s"
proof (cases s)
  case (Cons c r)
  obtain n where "dropWhile is_digit r = drop n r" "n \<le> length r" using dropWhile_drop by blast
  with assms Cons show ?thesis
    by (auto simp: scan_int_part_def split: list.splits if_splits
        intro: exI [of _ "Suc n"] exI [of _ "Suc 0"])
qed (use assms in \<open>simp add: scan_int_part_def\<close>)

lemma scan_fraction_shorter:
  assumes "scan_fraction start s = Inr (b, s')"
  shows "\<exists>n. s' = drop n s \<and> n \<le> length s"
proof -
  have "s' = s \<or> (\<exists>r. s = CHR ''.'' # r \<and> scan_digits start r = Inr s')"
    using assms by (auto simp: scan_fraction_def rbind_eq_Inr split: list.splits char.splits bool.splits)
  then show ?thesis
  proof
    assume "\<exists>r. s = CHR ''.'' # r \<and> scan_digits start r = Inr s'"
    then obtain r n where "s = CHR ''.'' # r" "s' = drop n r" "n \<le> length r"
      using scan_digits_shorter by blast
    then show ?thesis by (intro exI [of _ "Suc n"]) simp
  qed (auto intro: exI [of _ 0])
qed

lemma scan_exponent_shorter:
  assumes "scan_exponent start s = Inr (b, s')"
  shows "\<exists>n. s' = drop n s \<and> n \<le> length s"
proof -
  have "s' = s \<or> (\<exists>k. k \<le> length s \<and> scan_digits start (drop k s) = Inr s')"
  proof (cases s)
    case (Cons e r)
    show ?thesis
    proof (cases "e = CHR ''e'' \<or> e = CHR ''E''")
      case True
      with assms Cons have d: "scan_digits start
          (case r of [] \<Rightarrow> r | c # r' \<Rightarrow> if c = CHR ''+'' \<or> c = CHR ''-'' then r' else r) = Inr s'"
        by (auto simp: scan_exponent_def rbind_eq_Inr)
      moreover have "(case r of [] \<Rightarrow> r | c # r' \<Rightarrow> if c = CHR ''+'' \<or> c = CHR ''-'' then r' else r) \<in> {drop 1 s, drop 2 s}"
        using Cons by (cases r) auto
      ultimately have "scan_digits start (drop 1 s) = Inr s' \<or> scan_digits start (drop 2 s) = Inr s'" by auto
      moreover have "length s < 2 \<Longrightarrow> scan_digits start (drop 2 s) \<noteq> Inr s'" by (simp add: scan_digits_def)
      moreover have "1 \<le> length s" using Cons by simp
      ultimately show ?thesis by (metis not_le)
    next
      case False
      with assms Cons show ?thesis by (simp add: scan_exponent_def)
    qed
  qed (use assms in \<open>simp add: scan_exponent_def\<close>)
  then show ?thesis
  proof
    assume "\<exists>k. k \<le> length s \<and> scan_digits start (drop k s) = Inr s'"
    then obtain k n where "k \<le> length s" "s' = drop n (drop k s)" "n \<le> length (drop k s)"
      using scan_digits_shorter by blast
    then show ?thesis by (intro exI [of _ "n + k"]) auto
  qed (auto intro: exI [of _ 0])
qed

lemma drop_chain:
  "\<exists>n. s1 = drop n s \<and> k \<le> n \<and> n \<le> length s \<Longrightarrow> \<exists>n. s2 = drop n s1 \<and> n \<le> length s1 \<Longrightarrow>
  \<exists>n. s2 = drop n s \<and> k \<le> n \<and> n \<le> length s"
  by (elim exE conjE) (rule exI [of _ "_ + _"], auto)

lemma scan_number_spec:
  assumes "scan_number s pos = Inr (t, s', pos')"
  shows "token_ok t \<and> consumes 1 s pos s' pos'"
proof -
  define s1 where "s1 = (if starts_with ''-'' s then tl s else s)"
  obtain s2 b3 s3 b4 where r: "scan_int_part pos s1 = Inr s2" "scan_fraction pos s2 = Inr (b3, s3)"
    "scan_exponent pos s3 = Inr (b4, s')"
    and t: "t = (if b3 \<or> b4 then TkNumber (parse_f64 (take (length s - length s') s))
       else (case parse_i64 (take (length s - length s') s) of Some val \<Rightarrow> TkInteger val
             | None \<Rightarrow> TkNumber (parse_f64 (take (length s - length s') s))))"
    and p: "pos' = pos + (length s - length s')"
    using assms by (auto simp: scan_number_def s1_def [symmetric] Let_def rbind_eq_Inr)
  obtain m where m: "s1 = drop m s" "m \<le> length s"
  proof (cases "starts_with ''-'' s")
    case True
    then show ?thesis using that [of 1] by (cases s) (auto simp: s1_def starts_with_def)
  next
    case False
    then show ?thesis using that [of 0] by (simp add: s1_def)
  qed
  obtain n where "s2 = drop n s1" "1 \<le> n" "n \<le> length s1" using scan_int_part_shorter [OF r(1)] by blast
  with m have "\<exists>n. s2 = drop n s \<and> 1 \<le> n \<and> n \<le> length s" by (intro exI [of _ "n + m"]) auto
  from drop_chain [OF drop_chain [OF this scan_fraction_shorter [OF r(2)]] scan_exponent_shorter [OF r(3)]]
  obtain n where n: "s' = drop n s" "1 \<le> n" "n \<le> length s" by blast
  then have "consumes 1 s pos s' pos'" using consumes_drop [of n s 1 pos] p by simp
  moreover have "token_ok t" by (auto simp: t parse_i64_def Let_def split: option.split if_splits)
  ultimately show ?thesis by simp
qed

lemma expect_literal_spec:
  "expect_literal lit s pos = Inr (u, s', pos') \<Longrightarrow> lit \<noteq> [] \<Longrightarrow> consumes 1 s pos s' pos'"
  using consumes_drop [of "length lit" s 1 pos] by (auto simp: expect_literal_def Suc_le_eq split: if_splits)

lemma skip_whitespace_spec: "skip_whitespace s pos = (s', pos') \<Longrightarrow> consumes 0 s pos s' pos'"
  using consumes_drop [of "length (takeWhile json_space s)" s 0 pos]
  by (auto simp: skip_whitespace_def Let_def length_takeWhile_le)

lemma scan_string_spec:
  "scan_string s pos = Inr (str, s', pos') \<Longrightarrow> s \<noteq> [] \<Longrightarrow> utf8_valid str \<and> consumes 1 s pos s' pos'"
  using scan_string_loop_spec [of pos "[]" "tl s" "pos + 1" str s' pos'] consumes_Cons1 [of 1 "tl s" pos s' pos' "hd s"]
  by (simp add: scan_string_def)

lemma scan_bool_spec: "scan_bool s pos = Inr (b, s', pos') \<Longrightarrow> consumes 1 s pos s' pos'"
  by (auto simp: scan_bool_def rbind_eq_Inr dest: expect_literal_spec split: if_splits)

lemma with_token_spec: "with_token f m = Inr (t, s', pos') \<Longrightarrow> \<exists>x. m = Inr (x, s', pos') \<and> t = Some (f x)"
  by (auto simp: with_token_def rbind_eq_Inr)

lemma scan_token_spec:
  assumes "scan_token s pos = Inr (t, s', pos')"
  shows "case t of None \<Rightarrow> consumes 0 s pos s' pos' | Some tok \<Rightarrow> token_ok tok \<and> consumes 1 s pos s' pos'"
proof -
  obtain s1 pos1 where w: "skip_whitespace s pos = (s1, pos1)" by fastforce
  note c0 = skip_whitespace_spec [OF w]
  have tok: "\<exists>tok. t = Some tok \<and> token_ok tok \<and> consumes 1 s1 pos1 s' pos'" if "s1 \<noteq> []"
  proof -
    obtain c r where s1: "s1 = c # r" using \<open>s1 \<noteq> []\<close> by (cases s1) auto
    have one: "consumes (Suc 0) (c # r) pos1 r (Suc pos1)" by (rule consumes_Cons1 [of 0]) simp
    consider "t \<in> {Some ObjectStart, Some ObjectEnd, Some ArrayStart, Some ArrayEnd, Some Colon, Some Comma}"
        "s' = r" "pos' = Suc pos1"
      | "with_token TkString (scan_string s1 pos1) = Inr (t, s', pos')"
      | "with_token TkBool (scan_bool s1 pos1) = Inr (t, s', pos')"
      | "with_token (\<lambda>_. TkNull) (scan_null s1 pos1) = Inr (t, s', pos')"
      | "with_token (\<lambda>t. t) (scan_number s1 pos1) = Inr (t, s', pos')"
      using assms w s1 by (simp add: scan_token_def split: if_splits)
    then show ?thesis
    proof cases
      case 1
      with s1 one show ?thesis by auto
    next
      case 2
      with scan_string_spec [of s1 pos1 _ s' pos'] that show ?thesis by (auto dest!: with_token_spec)
    next
      case 3
      then show ?thesis by (auto dest!: with_token_spec scan_bool_spec)
    next
      case 4
      then show ?thesis by (auto simp: scan_null_def dest!: with_token_spec expect_literal_spec)
    next
      case 5
      then show ?thesis by (auto dest!: with_token_spec scan_number_spec)
    qed
  qed
  show ?thesis
  proof (cases "s1 = []")
    case True
    with assms w c0 show ?thesis by (auto simp: scan_token_def)
  next
    case False
    from tok [OF this] consumes_trans [OF c0] show ?thesis by auto
  qed
qed

end
