(* ===== verification/Parser.thy ===== *)
theory Parser
  imports Lexer OmiMsg
begin

text \<open>
  \<open>src/json/parser.rs\<close>: the JSON parser for O-DF values and O-MI messages. A parsing
  function takes the parser state and returns a value with the state after it, or stops: with
  an error of the code, with a panic, or because the fuel of the model ran out. The code's
  functions recurse and loop while they consume tokens; the fuel bounds that recursion, and
  \<open>ParserSpec\<close> shows that one unit more than the number of input bytes is enough. A parser
  is not used again after an error.

  The shape shared by the loops over the fields of an object and the elements of an array is
  written once (\<open>object_of\<close>, \<open>array_of\<close>), with the function that handles one of them
  as its argument.
\<close>

section \<open>Parsing functions\<close>

record json_parser =
  jp_lex :: lexer
  jp_depth :: nat

datatype 'e stop = Fails 'e | Panics | OutOfFuel

type_synonym ('e, 'a) parse = "json_parser \<Rightarrow> 'e stop + 'a \<times> json_parser"

definition preturn :: "'a \<Rightarrow> ('e, 'a) parse" where
  "preturn x p = Inr (x, p)"

definition pbind :: "('e, 'a) parse \<Rightarrow> ('a \<Rightarrow> ('e, 'b) parse) \<Rightarrow> ('e, 'b) parse" where
  "pbind m f p = rbind (m p) (\<lambda>(x, p). f x p)"

definition pfail :: "'e \<Rightarrow> ('e, 'a) parse" where
  "pfail e p = Inl (Fails e)"

definition out_of_fuel :: "('e, 'a) parse" where
  "out_of_fuel p = Inl OutOfFuel"

definition or_panic :: "'a option \<Rightarrow> ('e, 'a) parse" where
  "or_panic x p = (case x of None \<Rightarrow> Inl Panics | Some y \<Rightarrow> Inr (y, p))"

definition position :: "('e, nat) parse" where
  "position p = Inr (lx_pos (jp_lex p), p)"

text \<open>An error at the current position.\<close>

definition fail_at :: "(nat \<Rightarrow> 'e) \<Rightarrow> ('e, 'a) parse" where
  "fail_at e = pbind position (\<lambda>pos. pfail (e pos))"

definition or_fail :: "'e \<Rightarrow> 'a option \<Rightarrow> ('e, 'a) parse" where
  "or_fail e x = (case x of None \<Rightarrow> pfail e | Some y \<Rightarrow> preturn y)"

definition from_result :: "'e + 'a \<Rightarrow> ('e, 'a) parse" where
  "from_result r = (case r of Inl e \<Rightarrow> pfail e | Inr x \<Rightarrow> preturn x)"

definition map_err :: "('e \<Rightarrow> 'f) \<Rightarrow> ('e, 'a) parse \<Rightarrow> ('f, 'a) parse" where
  "map_err f m p =
     (case m p of
        Inl (Fails e) \<Rightarrow> Inl (Fails (f e))
      | Inl Panics \<Rightarrow> Inl Panics
      | Inl OutOfFuel \<Rightarrow> Inl OutOfFuel
      | Inr r \<Rightarrow> Inr r)"

definition on_lexer :: "(lexer \<Rightarrow> lite_parse_error + 'a \<times> lexer) \<Rightarrow> (lite_parse_error, 'a) parse" where
  "on_lexer f p =
     (case f (jp_lex p) of
        Inl e \<Rightarrow> Inl (Fails e)
      | Inr (x, lx) \<Rightarrow> Inr (x, p\<lparr>jp_lex := lx\<rparr>))"

section \<open>Tokens and depth\<close>

definition max_depth :: nat where "max_depth = 32"

definition parser_new :: "string \<Rightarrow> json_parser" where
  "parser_new input = \<lparr>jp_lex = lexer_new input, jp_depth = 0\<rparr>"

definition enter :: "(lite_parse_error, unit) parse" where
  "enter p =
     (let p = p\<lparr>jp_depth := jp_depth p + 1\<rparr>
      in if max_depth < jp_depth p then fail_at (DepthExceeded max_depth) p else preturn () p)"

definition leave :: "(lite_parse_error, unit) parse" where
  "leave p = Inr ((), p\<lparr>jp_depth := jp_depth p - 1\<rparr>)"

definition parser_is_eof :: "json_parser \<Rightarrow> bool \<times> json_parser" where
  "parser_is_eof p = (case is_eof (jp_lex p) of (b, lx) \<Rightarrow> (b, p\<lparr>jp_lex := lx\<rparr>))"

definition next_tok :: "(lite_parse_error, token option) parse" where
  "next_tok = on_lexer next_token"

definition expect :: "token \<Rightarrow> (lite_parse_error, token) parse" where
  "expect t = on_lexer (expect_token t)"

definition expect_string :: "(lite_parse_error, string) parse" where
  "expect_string = pbind next_tok (\<lambda>t.
     case t of
       Some (TkString s) \<Rightarrow> preturn s
     | Some _ \<Rightarrow> fail_at (ExpectedToken ''string'')
     | None \<Rightarrow> fail_at UnexpectedEof)"

definition expect_f64 :: "(lite_parse_error, f64) parse" where
  "expect_f64 = pbind next_tok (\<lambda>t.
     case t of
       Some (TkNumber n) \<Rightarrow> preturn n
     | Some (TkInteger i) \<Rightarrow> preturn (f64_of_int i)
     | Some _ \<Rightarrow> fail_at (ExpectedToken ''number'')
     | None \<Rightarrow> fail_at UnexpectedEof)"

definition peek_is :: "token \<Rightarrow> (lite_parse_error, bool) parse" where
  "peek_is expected = pbind (on_lexer peek_token) (\<lambda>t.
     case t of Some tok \<Rightarrow> preturn (same_token tok expected) | None \<Rightarrow> preturn False)"

text \<open>\<open>n as i64\<close> saturates and truncates.\<close>

definition expect_i64_from :: "(lite_parse_error, int) parse" where
  "expect_i64_from = pbind next_tok (\<lambda>t.
     case t of
       Some (TkInteger i) \<Rightarrow> preturn i
     | Some (TkNumber n) \<Rightarrow>
         (let i = f64_to_int (- (2 ^ 63)) (2 ^ 63 - 1) n
          in if f64_eq (f64_of_int i) n then preturn i else fail_at (ExpectedToken ''integer''))
     | _ \<Rightarrow> fail_at (ExpectedToken ''integer''))"

definition expect_u64_from :: "(lite_parse_error, nat) parse" where
  "expect_u64_from = pbind expect_i64_from (\<lambda>i.
     if i < 0 then fail_at (ExpectedToken ''non-negative integer'') else preturn (nat i))"

text \<open>A value that may be \<open>null\<close>: the old value of the variable is kept then.\<close>

definition unless_null :: "(lite_parse_error, 'a) parse \<Rightarrow> 'a option \<Rightarrow> (lite_parse_error, 'a option) parse" where
  "unless_null m old = pbind (peek_is TkNull) (\<lambda>b.
     if b then pbind next_tok (\<lambda>_. preturn old) else pbind m (\<lambda>x. preturn (Some x)))"

section \<open>Loops over fields and elements\<close>

text \<open>After a field or an element: whether another one follows.\<close>

definition continues ::
  "(lite_parse_error \<Rightarrow> 'e) \<Rightarrow> token \<Rightarrow> string \<Rightarrow> ('e, bool) parse"
where
  "continues conv closing expected =
     pbind (map_err conv (peek_is Comma)) (\<lambda>b.
       if b then pbind (map_err conv next_tok) (\<lambda>_. preturn True)
       else pbind (map_err conv (peek_is closing)) (\<lambda>b.
         if b then preturn False
         else map_err conv (fail_at (ExpectedToken expected))))"

primrec members ::
  "nat \<Rightarrow> (lite_parse_error \<Rightarrow> 'e) \<Rightarrow> (string \<Rightarrow> 's \<Rightarrow> ('e, 's) parse) \<Rightarrow> 's \<Rightarrow> ('e, 's) parse"
where
  "members 0 conv field s = out_of_fuel"
| "members (Suc n) conv field s =
     pbind (map_err conv expect_string) (\<lambda>key.
     pbind (map_err conv (expect Colon)) (\<lambda>_.
     pbind (field key s) (\<lambda>s.
     pbind (continues conv ObjectEnd (quote '','' @ '' or '' @ quote ''}'')) (\<lambda>more.
       if more then members n conv field s else preturn s))))"

primrec elements ::
  "nat \<Rightarrow> (lite_parse_error, 'a) parse \<Rightarrow> 'a list \<Rightarrow> (lite_parse_error, 'a list) parse"
where
  "elements 0 elem acc = out_of_fuel"
| "elements (Suc n) elem acc =
     pbind elem (\<lambda>x.
     pbind (continues (\<lambda>e. e) ArrayEnd (quote '','' @ '' or '' @ quote '']'')) (\<lambda>more.
       if more then elements n elem (acc @ [x]) else preturn (acc @ [x])))"

definition object_of ::
  "nat \<Rightarrow> (lite_parse_error \<Rightarrow> 'e) \<Rightarrow> (string \<Rightarrow> 's \<Rightarrow> ('e, 's) parse) \<Rightarrow> 's \<Rightarrow> ('e, 's) parse"
where
  "object_of n conv field s =
     pbind (map_err conv (peek_is ObjectEnd)) (\<lambda>b.
     pbind (if b then preturn s else members n conv field s) (\<lambda>s.
     pbind (map_err conv (expect ObjectEnd)) (\<lambda>_. preturn s)))"

definition array_of :: "nat \<Rightarrow> (lite_parse_error, 'a) parse \<Rightarrow> (lite_parse_error, 'a list) parse" where
  "array_of n elem =
     pbind (peek_is ArrayEnd) (\<lambda>b.
     pbind (if b then preturn [] else elements n elem []) (\<lambda>xs.
     pbind (expect ArrayEnd) (\<lambda>_. preturn xs)))"

abbreviation lite_object ::
  "nat \<Rightarrow> (string \<Rightarrow> 's \<Rightarrow> (lite_parse_error, 's) parse) \<Rightarrow> 's \<Rightarrow> (lite_parse_error, 's) parse" where
  "lite_object n \<equiv> object_of n (\<lambda>e. e)"

section \<open>O-DF values\<close>

text \<open>Skipping any value. The loops of the code consume the closing bracket inside the loop,
  which is the same.\<close>

primrec skip_value :: "nat \<Rightarrow> (lite_parse_error, unit) parse" where
  "skip_value 0 = out_of_fuel"
| "skip_value (Suc n) = pbind next_tok (\<lambda>t.
     case t of
       None \<Rightarrow> fail_at UnexpectedEof
     | Some ObjectStart \<Rightarrow>
         pbind enter (\<lambda>_. pbind (lite_object n (\<lambda>key s. skip_value n) ()) (\<lambda>_. leave))
     | Some ArrayStart \<Rightarrow>
         pbind enter (\<lambda>_. pbind (array_of n (skip_value n)) (\<lambda>_. leave))
     | Some (TkString _) \<Rightarrow> preturn ()
     | Some (TkInteger _) \<Rightarrow> preturn ()
     | Some (TkNumber _) \<Rightarrow> preturn ()
     | Some (TkBool _) \<Rightarrow> preturn ()
     | Some TkNull \<Rightarrow> preturn ()
     | Some _ \<Rightarrow> fail_at (ExpectedToken ''value''))"

definition skip_rest_of_array :: "nat \<Rightarrow> (lite_parse_error, unit) parse" where
  "skip_rest_of_array n = pbind (array_of n (skip_value n)) (\<lambda>_. leave)"

definition skip_rest_of_object :: "nat \<Rightarrow> (lite_parse_error, unit) parse" where
  "skip_rest_of_object n = pbind (lite_object n (\<lambda>key s. skip_value n) ()) (\<lambda>_. leave)"

definition parse_omi_value :: "nat \<Rightarrow> (lite_parse_error, omi_value) parse" where
  "parse_omi_value n = pbind next_tok (\<lambda>t.
     case t of
       Some TkNull \<Rightarrow> preturn Null
     | Some (TkBool b) \<Rightarrow> preturn (Bool b)
     | Some (TkString s) \<Rightarrow> preturn (Str s)
     | Some (TkNumber x) \<Rightarrow> preturn (Number x)
     | Some (TkInteger i) \<Rightarrow> preturn (Number (f64_of_int i))
     | Some ArrayStart \<Rightarrow> pbind enter (\<lambda>_. pbind (skip_rest_of_array n) (\<lambda>_. preturn Null))
     | Some ObjectStart \<Rightarrow> pbind enter (\<lambda>_. pbind (skip_rest_of_object n) (\<lambda>_. preturn Null))
     | Some _ \<Rightarrow> fail_at (ExpectedToken ''value (null, bool, number, or string)'')
     | None \<Rightarrow> fail_at UnexpectedEof)"

text \<open>The frame of the object parsers: depth, brackets, the position after the opening
  bracket, and the fields.\<close>

definition object_frame ::
  "nat \<Rightarrow> (string \<Rightarrow> 's \<Rightarrow> (lite_parse_error, 's) parse) \<Rightarrow> 's \<Rightarrow> (lite_parse_error, 's \<times> nat) parse"
where
  "object_frame n field s =
     pbind enter (\<lambda>_. pbind (expect ObjectStart) (\<lambda>_. pbind position (\<lambda>obj_pos.
     pbind (lite_object n field s) (\<lambda>s. pbind leave (\<lambda>_. preturn (s, obj_pos))))))"

definition value_field ::
  "nat \<Rightarrow> string \<Rightarrow> omi_value option \<times> f64 option \<Rightarrow>
   (lite_parse_error, omi_value option \<times> f64 option) parse"
where
  "value_field n key = (\<lambda>(v, t).
     if key = ''v'' then pbind (parse_omi_value n) (\<lambda>x. preturn (Some x, t))
     else if key = ''t'' then pbind (unless_null expect_f64 t) (\<lambda>t. preturn (v, t))
     else pbind (skip_value n) (\<lambda>_. preturn (v, t)))"

definition parse_value :: "nat \<Rightarrow> (lite_parse_error, odf_value) parse" where
  "parse_value n = pbind (object_frame n (value_field n) (None, None)) (\<lambda>((v, t), obj_pos).
     pbind (or_fail (LiteMissingField ''v'' obj_pos) v) (\<lambda>v. preturn (value_new v t)))"

definition parse_ring_buffer :: "nat \<Rightarrow> (lite_parse_error, ring_buffer) parse" where
  "parse_ring_buffer n =
     pbind enter (\<lambda>_. pbind (expect ArrayStart) (\<lambda>_.
     pbind (array_of n (parse_value n)) (\<lambda>vals. pbind leave (\<lambda>_.
       or_panic (Option.bind (rb_new (max (length vals) 1)) (fold_opt rb_push (rev vals)))))))"

text \<open>A map from strings, with the parser of one value.\<close>

definition parse_map ::
  "nat \<Rightarrow> (lite_parse_error, 'a) parse \<Rightarrow> (lite_parse_error, (string, 'a) btree) parse"
where
  "parse_map n elem =
     pbind enter (\<lambda>_. pbind (expect ObjectStart) (\<lambda>_.
     pbind (lite_object n (\<lambda>key m. pbind elem (\<lambda>x. preturn (bt_insert key x m))) [])
       (\<lambda>m. pbind leave (\<lambda>_. preturn m))))"

definition parse_meta_map :: "nat \<Rightarrow> (lite_parse_error, (string, omi_value) btree) parse" where
  "parse_meta_map n = parse_map n (parse_omi_value n)"

record item_fields =
  if_type :: "string option"
  if_desc :: "string option"
  if_meta :: "(string, omi_value) btree option"
  if_values :: "ring_buffer option"

definition item_field :: "nat \<Rightarrow> string \<Rightarrow> item_fields \<Rightarrow> (lite_parse_error, item_fields) parse" where
  "item_field n key f =
     (if key = ''type'' then
        pbind (unless_null expect_string (if_type f)) (\<lambda>x. preturn (f\<lparr>if_type := x\<rparr>))
      else if key = ''desc'' then
        pbind (unless_null expect_string (if_desc f)) (\<lambda>x. preturn (f\<lparr>if_desc := x\<rparr>))
      else if key = ''meta'' then
        pbind (unless_null (parse_meta_map n) (if_meta f)) (\<lambda>x. preturn (f\<lparr>if_meta := x\<rparr>))
      else if key = ''values'' then
        pbind (parse_ring_buffer n) (\<lambda>x. preturn (f\<lparr>if_values := Some x\<rparr>))
      else pbind (skip_value n) (\<lambda>_. preturn f))"

definition parse_info_item :: "nat \<Rightarrow> (lite_parse_error, info_item) parse" where
  "parse_info_item n =
     pbind (object_frame n (item_field n)
              \<lparr>if_type = None, if_desc = None, if_meta = None, if_values = None\<rparr>) (\<lambda>(f, obj_pos).
     pbind (or_fail (LiteMissingField ''values'' obj_pos) (if_values f)) (\<lambda>vals.
       preturn \<lparr>it_type = if_type f, it_desc = if_desc f, it_meta = if_meta f, it_values = vals\<rparr>))"

definition parse_items_map :: "nat \<Rightarrow> (lite_parse_error, items) parse" where
  "parse_items_map n = parse_map n (parse_info_item n)"

record object_fields =
  of_id :: "string option"
  of_type :: "string option"
  of_desc :: "string option"
  of_items :: "items option"
  of_objects :: "objects option"

definition object_field ::
  "nat \<Rightarrow> (lite_parse_error, objects) parse \<Rightarrow> string \<Rightarrow> object_fields \<Rightarrow>
   (lite_parse_error, object_fields) parse"
where
  "object_field n objects key f =
     (if key = ''id'' then pbind expect_string (\<lambda>x. preturn (f\<lparr>of_id := Some x\<rparr>))
      else if key = ''type'' then
        pbind (unless_null expect_string (of_type f)) (\<lambda>x. preturn (f\<lparr>of_type := x\<rparr>))
      else if key = ''desc'' then
        pbind (unless_null expect_string (of_desc f)) (\<lambda>x. preturn (f\<lparr>of_desc := x\<rparr>))
      else if key = ''items'' then
        pbind (unless_null (parse_items_map n) (of_items f)) (\<lambda>x. preturn (f\<lparr>of_items := x\<rparr>))
      else if key = ''objects'' then
        pbind (unless_null objects (of_objects f)) (\<lambda>x. preturn (f\<lparr>of_objects := x\<rparr>))
      else pbind (skip_value n) (\<lambda>_. preturn f))"

primrec parse_object :: "nat \<Rightarrow> (lite_parse_error, object) parse" where
  "parse_object 0 = out_of_fuel"
| "parse_object (Suc n) =
     pbind (object_frame n (object_field n (parse_map n (parse_object n)))
              \<lparr>of_id = None, of_type = None, of_desc = None, of_items = None, of_objects = None\<rparr>)
       (\<lambda>(f, obj_pos).
     pbind (or_fail (LiteMissingField ''id'' obj_pos) (of_id f)) (\<lambda>oid.
       preturn (Object oid (of_type f) (of_desc f) (of_items f) (of_objects f))))"

definition parse_objects_map :: "nat \<Rightarrow> (lite_parse_error, objects) parse" where
  "parse_objects_map n = parse_map n (parse_object n)"

text \<open>\<open>FromJson::from_json_bytes\<close>, for the parser of each type.\<close>

definition from_json_bytes ::
  "(nat \<Rightarrow> (lite_parse_error, 'a) parse) \<Rightarrow> string \<Rightarrow> lite_parse_error stop + 'a"
where
  "from_json_bytes m input =
     rbind (m (length input + 1) (parser_new input)) (\<lambda>(x, p).
       case parser_is_eof p of
         (eof, p) \<Rightarrow> if \<not> eof then Inl (Fails (TrailingData (lx_pos (jp_lex p)))) else Inr x)"

section \<open>Operations\<close>

definition lpe :: "lite_parse_error \<Rightarrow> parse_error" where
  "lpe e = InvalidJson (lite_error_text e)"

text \<open>The conversion \<open>From<LiteParseError>\<close>, which keeps a missing field apart.\<close>

fun parse_error_from :: "lite_parse_error \<Rightarrow> parse_error" where
  "parse_error_from (LiteMissingField field _) = MissingField field"
| "parse_error_from e = InvalidJson (lite_error_text e)"

definition parse_op_fields ::
  "nat \<Rightarrow> (string \<Rightarrow> 's \<Rightarrow> (lite_parse_error, 's) parse) \<Rightarrow> 's \<Rightarrow> (parse_error, 's) parse"
where
  "parse_op_fields n handler s = object_of n lpe (\<lambda>key s. map_err lpe (handler key s)) s"

definition read_field :: "nat \<Rightarrow> string \<Rightarrow> read_op \<Rightarrow> (lite_parse_error, read_op) parse" where
  "read_field n key op =
     (if key = ''path'' then pbind expect_string (\<lambda>x. preturn (op\<lparr>rd_path := Some x\<rparr>))
      else if key = ''rid'' then pbind expect_string (\<lambda>x. preturn (op\<lparr>rd_rid := Some x\<rparr>))
      else if key = ''newest'' then pbind expect_u64_from (\<lambda>x. preturn (op\<lparr>rd_newest := Some x\<rparr>))
      else if key = ''oldest'' then pbind expect_u64_from (\<lambda>x. preturn (op\<lparr>rd_oldest := Some x\<rparr>))
      else if key = ''begin'' then pbind expect_f64 (\<lambda>x. preturn (op\<lparr>rd_begin := Some x\<rparr>))
      else if key = ''end'' then pbind expect_f64 (\<lambda>x. preturn (op\<lparr>rd_end := Some x\<rparr>))
      else if key = ''depth'' then pbind expect_u64_from (\<lambda>x. preturn (op\<lparr>rd_depth := Some x\<rparr>))
      else if key = ''interval'' then pbind expect_f64 (\<lambda>x. preturn (op\<lparr>rd_interval := Some x\<rparr>))
      else if key = ''callback'' then pbind expect_string (\<lambda>x. preturn (op\<lparr>rd_callback := Some x\<rparr>))
      else pbind (skip_value n) (\<lambda>_. preturn op))"

definition empty_read :: read_op where
  "empty_read = \<lparr>rd_path = None, rd_rid = None, rd_newest = None, rd_oldest = None, rd_begin = None,
     rd_end = None, rd_depth = None, rd_interval = None, rd_callback = None\<rparr>"

definition parse_read_op :: "nat \<Rightarrow> (parse_error, read_op) parse" where
  "parse_read_op n =
     pbind (map_err lpe (expect ObjectStart)) (\<lambda>_.
     pbind (parse_op_fields n (read_field n) empty_read) (\<lambda>op.
     pbind (from_result (read_validate op)) (\<lambda>_. preturn op)))"

record write_fields =
  wf_path :: "string option"
  wf_v :: "omi_value option"
  wf_t :: "f64 option"
  wf_items :: "write_item list option"
  wf_objects :: "objects option"

definition empty_write :: write_fields where
  "empty_write = \<lparr>wf_path = None, wf_v = None, wf_t = None, wf_items = None, wf_objects = None\<rparr>"

definition write_item_field ::
  "nat \<Rightarrow> string \<Rightarrow> write_fields \<Rightarrow> (lite_parse_error, write_fields) parse"
where
  "write_item_field n key f =
     (if key = ''path'' then pbind expect_string (\<lambda>x. preturn (f\<lparr>wf_path := Some x\<rparr>))
      else if key = ''v'' then pbind (parse_omi_value n) (\<lambda>x. preturn (f\<lparr>wf_v := Some x\<rparr>))
      else if key = ''t'' then pbind expect_f64 (\<lambda>x. preturn (f\<lparr>wf_t := Some x\<rparr>))
      else pbind (skip_value n) (\<lambda>_. preturn f))"

definition parse_write_item :: "nat \<Rightarrow> (lite_parse_error, write_item) parse" where
  "parse_write_item n =
     pbind (expect ObjectStart) (\<lambda>_. pbind position (\<lambda>obj_pos.
     pbind (lite_object n (write_item_field n) empty_write) (\<lambda>f.
     pbind (or_fail (LiteMissingField ''path'' obj_pos) (wf_path f)) (\<lambda>path.
     pbind (or_fail (LiteMissingField ''v'' obj_pos) (wf_v f)) (\<lambda>v.
       preturn \<lparr>wi_path = path, wi_v = v, wi_t = wf_t f\<rparr>)))))"

definition parse_write_items :: "nat \<Rightarrow> (lite_parse_error, write_item list) parse" where
  "parse_write_items n = pbind (expect ArrayStart) (\<lambda>_. array_of n (parse_write_item n))"

definition write_field ::
  "nat \<Rightarrow> string \<Rightarrow> write_fields \<Rightarrow> (lite_parse_error, write_fields) parse"
where
  "write_field n key f =
     (if key = ''path'' then pbind expect_string (\<lambda>x. preturn (f\<lparr>wf_path := Some x\<rparr>))
      else if key = ''v'' then pbind (parse_omi_value n) (\<lambda>x. preturn (f\<lparr>wf_v := Some x\<rparr>))
      else if key = ''t'' then pbind expect_f64 (\<lambda>x. preturn (f\<lparr>wf_t := Some x\<rparr>))
      else if key = ''items'' then pbind (parse_write_items n) (\<lambda>x. preturn (f\<lparr>wf_items := Some x\<rparr>))
      else if key = ''objects'' then pbind (parse_objects_map n) (\<lambda>x. preturn (f\<lparr>wf_objects := Some x\<rparr>))
      else pbind (skip_value n) (\<lambda>_. preturn f))"

definition write_form :: "write_fields \<Rightarrow> parse_error + write_op" where
  "write_form f =
     (case (wf_v f, wf_items f, wf_objects f) of
        (None, None, None) \<Rightarrow> Inl (MissingField ''v, items, or objects'')
      | (Some _, Some _, _) \<Rightarrow> Inl (MutuallyExclusive ''v'' ''items'')
      | (Some _, None, Some _) \<Rightarrow> Inl (MutuallyExclusive ''v'' ''objects'')
      | (None, Some _, Some _) \<Rightarrow> Inl (MutuallyExclusive ''items'' ''objects'')
      | (Some v, None, None) \<Rightarrow>
          rbind (ok_or (MissingField ''path'') (wf_path f)) (\<lambda>path. Inr (WriteSingle path v (wf_t f)))
      | (None, Some items, None) \<Rightarrow>
          if items = [] then Inl (InvalidField ''items'' ''items array must not be empty'')
          else Inr (WriteBatch items)
      | (None, None, Some objs) \<Rightarrow>
          (let depth = parsed_object_tree_depth objs
           in if max_object_depth < depth
              then Inl (InvalidField ''objects'' (''nesting depth '' @ dec_of_nat depth @
                     '' exceeds maximum of '' @ dec_of_nat max_object_depth))
              else rbind (ok_or (MissingField ''path'') (wf_path f)) (\<lambda>path. Inr (WriteTree path objs))))"

definition parse_write_op :: "nat \<Rightarrow> (parse_error, write_op) parse" where
  "parse_write_op n =
     pbind (map_err lpe (expect ObjectStart)) (\<lambda>_.
     pbind (parse_op_fields n (write_field n) empty_write) (\<lambda>f. from_result (write_form f)))"

definition parse_delete_op :: "nat \<Rightarrow> (parse_error, delete_op) parse" where
  "parse_delete_op n =
     pbind (map_err lpe (expect ObjectStart)) (\<lambda>_.
     pbind (parse_op_fields n (\<lambda>key path.
         if key = ''path'' then pbind expect_string (\<lambda>x. preturn (Some x))
         else pbind (skip_value n) (\<lambda>_. preturn path)) None) (\<lambda>path.
     pbind (or_fail (InvalidJson ''missing field: path'') path) (\<lambda>path.
     pbind (from_result (delete_validate \<lparr>de_path = path\<rparr>)) (\<lambda>_. preturn \<lparr>de_path = path\<rparr>))))"

definition parse_string_array :: "nat \<Rightarrow> (lite_parse_error, string list) parse" where
  "parse_string_array n = pbind (expect ArrayStart) (\<lambda>_. array_of n expect_string)"

definition parse_cancel_op :: "nat \<Rightarrow> (parse_error, cancel_op) parse" where
  "parse_cancel_op n =
     pbind (map_err lpe (expect ObjectStart)) (\<lambda>_.
     pbind (parse_op_fields n (\<lambda>key rid.
         if key = ''rid'' then pbind (parse_string_array n) (\<lambda>x. preturn (Some x))
         else pbind (skip_value n) (\<lambda>_. preturn rid)) None) (\<lambda>rid.
     pbind (or_fail (MissingField ''rid'') rid) (\<lambda>rid.
     pbind (from_result (cancel_validate \<lparr>ca_rid = rid\<rparr>)) (\<lambda>_. preturn \<lparr>ca_rid = rid\<rparr>))))"

definition expect_u16 :: "string \<Rightarrow> (lite_parse_error, nat) parse" where
  "expect_u16 what = pbind expect_u64_from (\<lambda>x.
     if x < 2 ^ 16 then preturn x else fail_at (ExpectedToken what))"

record status_fields =
  sf_path :: "string option"
  sf_status :: "nat option"
  sf_desc :: "string option"

definition item_status_field ::
  "nat \<Rightarrow> string \<Rightarrow> status_fields \<Rightarrow> (lite_parse_error, status_fields) parse"
where
  "item_status_field n key f =
     (if key = ''path'' then pbind expect_string (\<lambda>x. preturn (f\<lparr>sf_path := Some x\<rparr>))
      else if key = ''status'' then pbind (expect_u16 ''status code'') (\<lambda>x. preturn (f\<lparr>sf_status := Some x\<rparr>))
      else if key = ''desc'' then pbind expect_string (\<lambda>x. preturn (f\<lparr>sf_desc := Some x\<rparr>))
      else pbind (skip_value n) (\<lambda>_. preturn f))"

definition parse_item_status :: "nat \<Rightarrow> (lite_parse_error, item_status) parse" where
  "parse_item_status n =
     pbind (expect ObjectStart) (\<lambda>_. pbind position (\<lambda>obj_pos.
     pbind (lite_object n (item_status_field n) \<lparr>sf_path = None, sf_status = None, sf_desc = None\<rparr>) (\<lambda>f.
     pbind (or_fail (LiteMissingField ''path'' obj_pos) (sf_path f)) (\<lambda>path.
     pbind (or_fail (LiteMissingField ''status'' obj_pos) (sf_status f)) (\<lambda>st.
       preturn \<lparr>is_path = path, is_status = st, is_desc = sf_desc f\<rparr>)))))"

definition parse_response_result :: "nat \<Rightarrow> (lite_parse_error, response_result) parse" where
  "parse_response_result n =
     pbind (peek_is ArrayStart) (\<lambda>b.
       if b then
         pbind (expect ArrayStart) (\<lambda>_.
         pbind (array_of n (parse_item_status n)) (\<lambda>xs. preturn (ResBatch xs)))
       else pbind (skip_value n) (\<lambda>_. preturn (ResSingle PayNull)))"

record body_fields =
  bf_status :: "nat option"
  bf_rid :: "string option"
  bf_desc :: "string option"
  bf_result :: "response_result option"

definition body_field :: "nat \<Rightarrow> string \<Rightarrow> body_fields \<Rightarrow> (lite_parse_error, body_fields) parse" where
  "body_field n key f =
     (if key = ''status'' then
        pbind (expect_u16 ''status code (0..65535)'') (\<lambda>x. preturn (f\<lparr>bf_status := Some x\<rparr>))
      else if key = ''rid'' then pbind expect_string (\<lambda>x. preturn (f\<lparr>bf_rid := Some x\<rparr>))
      else if key = ''desc'' then pbind expect_string (\<lambda>x. preturn (f\<lparr>bf_desc := Some x\<rparr>))
      else if key = ''result'' then
        pbind (parse_response_result n) (\<lambda>x. preturn (f\<lparr>bf_result := Some x\<rparr>))
      else pbind (skip_value n) (\<lambda>_. preturn f))"

definition parse_response_body :: "nat \<Rightarrow> (parse_error, response_body) parse" where
  "parse_response_body n =
     pbind (map_err lpe (expect ObjectStart)) (\<lambda>_.
     pbind (parse_op_fields n (body_field n)
              \<lparr>bf_status = None, bf_rid = None, bf_desc = None, bf_result = None\<rparr>) (\<lambda>f.
     pbind (or_fail (InvalidJson ''missing field: status'') (bf_status f)) (\<lambda>st.
       preturn \<lparr>rs_status = st, rs_rid = bf_rid f, rs_desc = bf_desc f, rs_result = bf_result f\<rparr>)))"

section \<open>The envelope\<close>

text \<open>\<open>seen_ops\<close>: one bit for each kind of operation seen, in a byte.\<close>

record envelope =
  ev_version :: "string option"
  ev_ttl :: "int option"
  ev_operation :: "operation option"
  ev_seen_ops :: nat

definition saw_op ::
  "nat \<Rightarrow> ('a \<Rightarrow> operation) \<Rightarrow> (parse_error, 'a) parse \<Rightarrow> envelope \<Rightarrow> (parse_error, envelope) parse"
where
  "saw_op flag con m ev =
     pbind m (\<lambda>x. preturn (ev\<lparr>ev_seen_ops := or (ev_seen_ops ev) flag, ev_operation := Some (con x)\<rparr>))"

definition envelope_field :: "nat \<Rightarrow> string \<Rightarrow> envelope \<Rightarrow> (parse_error, envelope) parse" where
  "envelope_field n key ev =
     (if key = ''omi'' then pbind (map_err lpe expect_string) (\<lambda>x. preturn (ev\<lparr>ev_version := Some x\<rparr>))
      else if key = ''ttl'' then pbind (map_err lpe expect_i64_from) (\<lambda>x. preturn (ev\<lparr>ev_ttl := Some x\<rparr>))
      else if key = ''read'' then saw_op 1 OpRead (parse_read_op n) ev
      else if key = ''write'' then saw_op 2 OpWrite (parse_write_op n) ev
      else if key = ''delete'' then saw_op 4 OpDelete (parse_delete_op n) ev
      else if key = ''cancel'' then saw_op 8 OpCancel (parse_cancel_op n) ev
      else if key = ''response'' then saw_op 16 OpResponse (parse_response_body n) ev
      else pbind (map_err lpe (skip_value n)) (\<lambda>_. preturn ev))"

text \<open>\<open>u8::count_ones\<close>.\<close>

definition count_ones :: "nat \<Rightarrow> nat" where
  "count_ones x = length (filter (bit x) [0..<8])"

definition parse_envelope :: "nat \<Rightarrow> (parse_error, omi_message) parse" where
  "parse_envelope n =
     pbind (map_err lpe (expect ObjectStart)) (\<lambda>_.
     pbind (object_of n lpe (envelope_field n)
              \<lparr>ev_version = None, ev_ttl = None, ev_operation = None, ev_seen_ops = 0\<rparr>) (\<lambda>ev.
     pbind (or_fail (MissingField ''omi'') (ev_version ev)) (\<lambda>version.
       if version \<noteq> ''1.0'' then pfail (UnsupportedVersion version)
       else pbind (or_fail (MissingField ''ttl'') (ev_ttl ev)) (\<lambda>ttl.
         if count_ones (ev_seen_ops ev) \<noteq> 1
         then pfail (InvalidOperationCount (count_ones (ev_seen_ops ev)))
         else pbind (or_panic (ev_operation ev)) (\<lambda>op.
           preturn \<lparr>om_version = version, om_ttl = ttl, om_operation = op\<rparr>)))))"

definition parse_omi_message :: "string \<Rightarrow> parse_error stop + omi_message" where
  "parse_omi_message input =
     rbind (parse_envelope (length input + 1) (parser_new input)) (\<lambda>(msg, p).
       case parser_is_eof p of
         (eof, p) \<Rightarrow>
           if \<not> eof
           then Inl (Fails (InvalidJson (''trailing content at byte '' @ dec_of_nat (lx_pos (jp_lex p)))))
           else Inr msg)"

end
