(* ===== verification/ParserSpec.thy ===== *)
theory ParserSpec
  imports LexerSpec Parser
begin

text \<open>
  What the parser promises for every input. The predicate \<open>safe n k P m\<close> says of a parsing
  function that, on fewer than \<open>n\<close> remaining bytes, it does not panic or run out of fuel,
  consumes at least \<open>k\<close> of them when it returns, and returns a value satisfying \<open>P\<close>; its
  rules follow the structure of the parsing functions. A peeked token counts as one remaining
  byte.
\<close>

named_theorems safe_intros \<open>rules for \<open>safe\<close>, one for each parsing function\<close>

section \<open>Safe parsing functions\<close>

definition lex_ok :: "json_parser \<Rightarrow> bool" where
  "lex_ok p = (case lx_peeked (jp_lex p) of None \<Rightarrow> True | Some t \<Rightarrow> token_ok t)"

definition left :: "json_parser \<Rightarrow> nat" where
  "left p = length (lx_rest (jp_lex p)) + (if lx_peeked (jp_lex p) = None then 0 else 1)"

text \<open>What is asked of a result, from the state \<open>p\<close>.\<close>

fun outcome :: "nat \<Rightarrow> ('a \<Rightarrow> bool) \<Rightarrow> json_parser \<Rightarrow> 'e stop + 'a \<times> json_parser \<Rightarrow> bool" where
  "outcome k P p (Inl (Fails e)) = True"
| "outcome k P p (Inl Panics) = False"
| "outcome k P p (Inl OutOfFuel) = False"
| "outcome k P p (Inr (x, p')) = (P x \<and> lex_ok p' \<and> left p' + k \<le> left p)"

definition safe :: "nat \<Rightarrow> nat \<Rightarrow> ('a \<Rightarrow> bool) \<Rightarrow> ('e, 'a) parse \<Rightarrow> bool" where
  "safe n k P m \<longleftrightarrow> (\<forall>p. lex_ok p \<longrightarrow> left p < n \<longrightarrow> outcome k P p (m p))"

lemma safeI: "(\<And>p. lex_ok p \<Longrightarrow> left p < n \<Longrightarrow> outcome k P p (m p)) \<Longrightarrow> safe n k P m"
  by (simp add: safe_def)

lemma safeD: "safe n k P m \<Longrightarrow> lex_ok p \<Longrightarrow> left p < n \<Longrightarrow> outcome k P p (m p)"
  by (simp add: safe_def)

lemma safe_weaken:
  assumes "safe n k P m" "n' \<le> n" "k' \<le> k" "\<And>x. P x \<Longrightarrow> Q x"
  shows "safe n' k' Q m"
proof (rule safeI)
  fix p assume "lex_ok p" "left p < n'"
  then have "outcome k P p (m p)" using safeD [OF assms(1), of p] assms(2) by simp
  then show "outcome k' Q p (m p)"
    using assms(3,4) by (cases "(k, P, p, m p)" rule: outcome.cases) auto
qed

lemma safe_bind:
  assumes "safe n l Q m" "\<And>x. Q x \<Longrightarrow> safe (n - l) (k - l) P (f x)"
  shows "safe n k P (pbind m f)"
proof (rule safeI)
  fix p assume p: "lex_ok p" "left p < n"
  have m: "outcome l Q p (m p)" by (rule safeD [OF assms(1) p])
  show "outcome k P p (pbind m f p)"
  proof (cases "(l, Q, p, m p)" rule: outcome.cases)
    case (4 l' Q' p0 x p1)
    then have e: "m p = Inr (x, p1)" by (elim Pair_inject conjE) simp
    have 1: "m p = Inr (x, p1)" "Q x" "lex_ok p1" "left p1 + l \<le> left p" using m unfolding e by simp_all
    then have "left p1 < n - l" using p(2) by linarith
    then have "outcome (k - l) P p1 (f x p1)" by (rule safeD [OF assms(2) [OF 1(2)] 1(3)])
    then have "outcome k P p (f x p1)"
      using 1(4) by (cases "(k - l, P, p1, f x p1)" rule: outcome.cases) auto
    then show ?thesis using 1(1) by (simp add: pbind_def)
  qed (use m in \<open>auto simp: pbind_def\<close>)
qed

lemma safe_return [safe_intros]: "P x \<Longrightarrow> safe n 0 P (preturn x)"
  by (rule safeI) (simp add: preturn_def)

lemma safe_fail [safe_intros]: "safe n k P (pfail e)"
  by (rule safeI) (simp add: pfail_def)

lemma safe_fail_at [safe_intros]: "safe n k P (fail_at e)"
  by (rule safeI) (simp add: fail_at_def pbind_def position_def pfail_def)

lemma safe_position [safe_intros]: "safe n 0 (\<lambda>_. True) position"
  by (rule safeI) (simp add: position_def)

lemma safe_or_fail [safe_intros]: "(\<And>y. x = Some y \<Longrightarrow> P y) \<Longrightarrow> safe n 0 P (or_fail e x)"
  by (cases x) (simp_all add: or_fail_def safe_fail safe_return)

lemma safe_or_panic [safe_intros]: "x \<noteq> None \<Longrightarrow> (\<And>y. x = Some y \<Longrightarrow> P y) \<Longrightarrow> safe n 0 P (or_panic x)"
  by (rule safeI) (auto simp: or_panic_def)

lemma safe_from_result [safe_intros]: "(\<And>y. x = Inr y \<Longrightarrow> P y) \<Longrightarrow> safe n 0 P (from_result x)"
  by (cases x) (simp_all add: from_result_def safe_fail safe_return)

lemma safe_map_err [safe_intros]:
  assumes "safe n k P m"
  shows "safe n k P (map_err f m)"
proof (rule safeI)
  fix p assume "lex_ok p" "left p < n"
  then have "outcome k P p (m p)" by (rule safeD [OF assms])
  then show "outcome k P p (map_err f m p)"
    by (cases "(k, P, p, m p)" rule: outcome.cases) (simp_all add: map_err_def)
qed

lemma safe_if: "(b \<Longrightarrow> safe n k P m) \<Longrightarrow> (\<not> b \<Longrightarrow> safe n k P m') \<Longrightarrow> safe n k P (if b then m else m')"
  by simp

lemma safe_zero: "safe 0 k P m"
  by (rule safeI) simp

section \<open>Tokens\<close>

lemma lexer_scan_spec:
  assumes "lexer_scan lx = Inr (t, lx')"
  shows "lx_peeked lx' = lx_peeked lx \<and>
    (case t of None \<Rightarrow> length (lx_rest lx') \<le> length (lx_rest lx)
     | Some tok \<Rightarrow> token_ok tok \<and> length (lx_rest lx') < length (lx_rest lx))"
proof -
  obtain s pos where t: "scan_token (lx_rest lx) (lx_pos lx) = Inr (t, s, pos)" "lx' = lx\<lparr>lx_rest := s, lx_pos := pos\<rparr>"
    using assms by (auto simp: lexer_scan_def rbind_eq_Inr)
  with scan_token_spec [OF t(1)] show ?thesis
    by (auto simp: consumes_def split: option.splits)
qed

lemma safe_on_lexer:
  assumes "\<And>lx t lx'. f lx = Inr (t, lx') \<Longrightarrow> (case lx_peeked lx of None \<Rightarrow> True | Some t \<Rightarrow> token_ok t) \<Longrightarrow>
     P t \<and> (case lx_peeked lx' of None \<Rightarrow> True | Some t \<Rightarrow> token_ok t) \<and>
     length (lx_rest lx') + (if lx_peeked lx' = None then 0 else 1) + k \<le>
       length (lx_rest lx) + (if lx_peeked lx = None then 0 else 1)"
  shows "safe n k P (on_lexer f)"
proof (rule safeI)
  fix p assume "lex_ok p"
  then show "outcome k P p (on_lexer f p)"
    using assms [of "jp_lex p"]
    by (cases "f (jp_lex p)") (auto simp: on_lexer_def lex_ok_def left_def)
qed

lemma safe_expect [safe_intros]: "safe n 1 (\<lambda>_. True) (expect t)"
  unfolding expect_def
  by (rule safe_on_lexer)
    (auto simp: expect_token_def next_token_def rbind_eq_Inr split: option.splits if_splits dest!: lexer_scan_spec)

text \<open>The next token, when there is one, is one byte of progress; the functions that go on
  without one fail.\<close>

lemma safe_next_tok:
  assumes "\<And>tok. token_ok tok \<Longrightarrow> safe (n - 1) (k - 1) P (f (Some tok))" "safe n k P (f None)"
  shows "safe n k P (pbind next_tok f)"
proof (rule safeI)
  fix p assume p: "lex_ok p" "left p < n"
  show "outcome k P p (pbind next_tok f p)"
  proof (cases "next_token (jp_lex p)")
    case (Inl e)
    then show ?thesis by (simp add: pbind_def next_tok_def on_lexer_def)
  next
    case (Inr r)
    obtain t lx where r: "r = (t, lx)" by (cases r)
    define p1 where "p1 = p\<lparr>jp_lex := lx\<rparr>"
    have b: "pbind next_tok f p = f t p1" using Inr r by (simp add: pbind_def next_tok_def on_lexer_def p1_def)
    have 1: "lex_ok p1" "left p1 \<le> left p" "\<And>tok. t = Some tok \<Longrightarrow> token_ok tok \<and> left p1 < left p"
      using Inr r p(1)
      by (auto simp: next_token_def p1_def lex_ok_def left_def split: option.splits if_splits dest!: lexer_scan_spec)
    show ?thesis
    proof (cases t)
      case None
      have "outcome k P p1 (f t p1)" unfolding None by (rule safeD [OF assms(2)]) (use 1 p(2) in auto)
      then show ?thesis
        unfolding b using 1(2) by (cases "(k, P, p1, f t p1)" rule: outcome.cases) auto
    next
      case (Some tok)
      with 1 have l: "left p1 < n - 1" "left p1 < left p" "token_ok tok" using p(2) by auto
      have "outcome (k - 1) P p1 (f t p1)" unfolding Some by (rule safeD [OF assms(1) [OF l(3)] 1(1) l(1)])
      then show ?thesis
        unfolding b using l(2) by (cases "(k - 1, P, p1, f t p1)" rule: outcome.cases) auto
    qed
  qed
qed

lemma safe_peek_is [safe_intros]: "safe n 0 (\<lambda>_. True) (peek_is t)"
  unfolding peek_is_def
proof (rule safe_bind [where l = 0 and Q = "\<lambda>_. True"])
  show "safe n 0 (\<lambda>_. True) (on_lexer peek_token)"
    by (rule safe_on_lexer)
      (auto simp: peek_token_def rbind_eq_Inr split: option.splits if_splits dest!: lexer_scan_spec)
qed (auto split: option.split intro: safe_return)

lemma safe_enter [safe_intros]: "safe n 0 (\<lambda>_. True) enter"
  by (rule safeI) (simp add: enter_def Let_def fail_at_def pbind_def position_def pfail_def preturn_def lex_ok_def left_def)

lemma safe_leave [safe_intros]: "safe n 0 (\<lambda>_. True) leave"
  by (rule safeI) (simp add: leave_def lex_ok_def left_def)

lemma safe_next_any [safe_intros]: "safe n 0 (\<lambda>_. True) next_tok"
  unfolding next_tok_def
  by (rule safe_on_lexer)
    (auto simp: next_token_def rbind_eq_Inr split: option.splits if_splits dest!: lexer_scan_spec)


text \<open>Sequencing. The rules for a head that consumes a token come first in
  \<open>safe_rules\<close>; any other head is not asked to consume.\<close>

lemma safe_bind0:
  assumes "safe n 0 Q m" "\<And>x. Q x \<Longrightarrow> safe n k P (f x)"
  shows "safe n k P (pbind m f)"
  using safe_bind [OF assms(1), of k P f] assms(2) by simp

lemma safe_bind1:
  assumes "safe n 1 Q m" "\<And>x. Q x \<Longrightarrow> safe (n - 1) (k - 1) P (f x)"
  shows "safe n k P (pbind m f)"
  using safe_bind [OF assms(1), of k P f] assms(2) by simp

lemma safe_return': "P x \<Longrightarrow> k = 0 \<Longrightarrow> safe n k P (preturn x)"
  using safe_return by simp

lemma safe_option: "k = 0 \<Longrightarrow> safe n k (\<lambda>y. x = Some y) (or_fail e x)"
  using safe_or_fail by simp

lemma safe_result: "k = 0 \<Longrightarrow> safe n k (\<lambda>y. r = Inr y) (from_result r)"
  using safe_from_result by simp

lemma safe_map_expect: "safe n 1 (\<lambda>_. True) (map_err c (expect t))"
  by (intro safe_map_err safe_expect)

lemma safe_expect_string: "safe n 1 utf8_valid expect_string"
  unfolding expect_string_def
  by (rule safe_next_tok) (auto split: token.split intro: safe_return' safe_fail_at)

lemma safe_expect_f64: "safe n 1 (\<lambda>_. True) expect_f64"
  unfolding expect_f64_def
  by (rule safe_next_tok) (auto split: token.split intro: safe_return' safe_fail_at)

definition i64_range :: "int \<Rightarrow> bool" where
  "i64_range i \<longleftrightarrow> - (2 ^ 63) \<le> i \<and> i < 2 ^ 63"

definition u63_range :: "nat \<Rightarrow> bool" where
  "u63_range i \<longleftrightarrow> i < 2 ^ 63"

lemma f64_to_int_range: "lo \<le> 0 \<Longrightarrow> 0 \<le> hi \<Longrightarrow> lo \<le> f64_to_int lo hi x \<and> f64_to_int lo hi x \<le> hi"
  by (cases x) (auto simp: f64_to_int_def)

lemma safe_expect_i64: "safe n 1 i64_range expect_i64_from"
  unfolding expect_i64_from_def
proof (rule safe_next_tok)
  fix tok assume "token_ok tok"
  moreover have "i64_range (f64_to_int (- (2 ^ 63)) (2 ^ 63 - 1) x)" for x
    using f64_to_int_range [of "- (2 ^ 63)" "2 ^ 63 - 1" x] by (auto simp: i64_range_def)
  ultimately show "safe (n - 1) (1 - 1) i64_range (case Some tok of
       Some (TkInteger i) \<Rightarrow> preturn i
     | Some (TkNumber n) \<Rightarrow>
         (let i = f64_to_int (- (2 ^ 63)) (2 ^ 63 - 1) n
          in if f64_eq (f64_of_int i) n then preturn i else fail_at (ExpectedToken ''integer''))
     | _ \<Rightarrow> fail_at (ExpectedToken ''integer''))"
    by (auto simp: Let_def i64_range_def split: token.split intro: safe_return' safe_fail_at)
qed (simp add: safe_fail_at)

lemma safe_expect_u64: "safe n 1 u63_range expect_u64_from"
  unfolding expect_u64_from_def
  by (rule safe_bind1 [OF safe_expect_i64])
    (auto simp: i64_range_def u63_range_def intro!: safe_return' safe_fail_at)

lemma safe_expect_u16: "safe n 1 (\<lambda>x. x < 2 ^ 16) (expect_u16 what)"
  unfolding expect_u16_def
  by (rule safe_bind1 [OF safe_expect_u64]) (auto intro!: safe_return' safe_fail_at)

lemma safe_unless_null:
  assumes "safe n 0 P m" "pred_option P old"
  shows "safe n 0 (pred_option P) (unless_null m old)"
  unfolding unless_null_def
proof (rule safe_bind0 [OF safe_peek_is], rule safe_if)
  show "safe n 0 (pred_option P) (pbind next_tok (\<lambda>_. preturn old))"
    by (rule safe_bind0 [OF safe_next_any]) (rule safe_return [where P = "pred_option P", OF assms(2)])
  show "safe n 0 (pred_option P) (pbind m (\<lambda>x. preturn (Some x)))"
    by (rule safe_bind0 [OF assms(1)]) (simp add: safe_return)
qed

section \<open>Loops\<close>

lemma safe_continues: "safe n 0 (\<lambda>_. True) (continues conv closing expected)"
  unfolding continues_def
  by (intro safe_bind0 [OF safe_map_err [OF safe_peek_is]] safe_bind0 [OF safe_map_err [OF safe_next_any]]
      safe_if safe_return' safe_map_err safe_fail_at) simp_all

lemma safe_members:
  assumes "\<And>key s. utf8_valid key \<Longrightarrow> I s \<Longrightarrow> safe n 0 I (field key s)"
  shows "m \<le> n \<Longrightarrow> I s \<Longrightarrow> safe m 0 I (members m conv field s)"
proof (induction m arbitrary: s)
  case (Suc m)
  have key: "safe (Suc m) 1 utf8_valid (map_err conv expect_string)"
    by (rule safe_map_err [OF safe_expect_string])
  have field: "safe (Suc m - 1 - 1) 0 I (field key s)" if "utf8_valid key" for key
    using Suc.prems(1) by (intro safe_weaken [OF assms [OF that Suc.prems(2)]]) auto
  have rest: "safe (Suc m - 1 - 1) 0 I (members m conv field s')" if "I s'" for s'
    using Suc.prems(1) by (intro safe_weaken [OF Suc.IH [OF _ that]]) auto
  show ?case
    unfolding members.simps
    by (rule safe_bind1 [OF key], rule safe_bind1 [OF safe_map_expect],
        rule safe_bind0 [OF field], assumption, rule safe_bind0 [OF safe_continues])
      (use rest in \<open>simp add: safe_return\<close>)
qed (simp add: safe_zero)

lemma safe_elements:
  assumes "safe n 1 P elem"
  shows "m \<le> n \<Longrightarrow> list_all P acc \<Longrightarrow> safe m 0 (list_all P) (elements m elem acc)"
proof (induction m arbitrary: acc)
  case (Suc m)
  have elem: "safe (Suc m) 1 P elem"
    using Suc.prems(1) by (intro safe_weaken [OF assms]) auto
  have rest: "safe m 0 (list_all P) (elements m elem (acc @ [x]))" if "P x" for x
    using Suc.prems that by (intro Suc.IH) auto
  show ?case
    unfolding elements.simps
    by (rule safe_bind1 [OF elem], rule safe_bind0 [OF safe_continues])
      (use Suc.prems(2) in \<open>simp add: rest safe_return\<close>)
qed (simp add: safe_zero)

lemma safe_object_of:
  assumes "\<And>key s. utf8_valid key \<Longrightarrow> I s \<Longrightarrow> safe n 0 I (field key s)" "I s" "k \<le> 1" "n' \<le> n"
  shows "safe n' k I (object_of n conv field s)"
proof (rule safe_weaken [where n = n and k = 1])
  have m: "safe n 0 I (if b then preturn s else members n conv field s)" for b
    using safe_members [where I = I and field = field, OF assms(1) order_refl, of s conv] assms(2) by (simp add: safe_return)
  show "safe n 1 I (object_of n conv field s)"
    unfolding object_of_def
    by (rule safe_bind0 [OF safe_map_err [OF safe_peek_is]], rule safe_bind0 [OF m],
        rule safe_bind1 [OF safe_map_expect]) (simp add: safe_return)
qed (use assms in auto)

lemma safe_array_of:
  assumes "safe n 1 P elem" "k \<le> 1" "n' \<le> n"
  shows "safe n' k (list_all P) (array_of n elem)"
proof (rule safe_weaken [where n = n and k = 1])
  have m: "safe n 0 (list_all P) (if b then preturn [] else elements n elem [])" for b
    using safe_elements [OF assms(1), of n "[]"] by (simp add: safe_return)
  show "safe n 1 (list_all P) (array_of n elem)"
    unfolding array_of_def
    by (rule safe_bind0 [OF safe_peek_is], rule safe_bind0 [OF m], rule safe_bind1 [OF safe_expect])
      (simp add: safe_return)
qed (use assms in auto)

section \<open>O-DF values\<close>

lemma safe_skip_value: "safe n 1 (\<lambda>_. True) (skip_value n)"
proof (induction n)
  case (Suc n)
  have obj: "safe n 0 (\<lambda>_. True) (lite_object n (\<lambda>key s. skip_value n) ())"
    by (rule safe_object_of [where n = n]) (auto intro: safe_weaken [OF Suc.IH])
  have arr: "safe n 0 (\<lambda>_. True) (array_of n (skip_value n))"
    by (rule safe_weaken [OF safe_array_of [OF Suc.IH, of 0 n]]) auto
  show ?case
    unfolding skip_value.simps
    by (rule safe_next_tok)
      (auto split: token.split intro!: safe_return' safe_fail_at safe_bind0 [OF safe_enter]
        safe_bind0 [OF obj] safe_bind0 [OF arr] safe_leave)
qed (simp add: safe_zero)

lemma safe_skip: "n' \<le> n \<Longrightarrow> k \<le> 1 \<Longrightarrow> safe n' k (\<lambda>_. True) (skip_value n)"
  by (rule safe_weaken [OF safe_skip_value]) auto

lemma safe_parse_omi_value: "n' \<le> n \<Longrightarrow> k \<le> 1 \<Longrightarrow> safe n' k (\<lambda>_. True) (parse_omi_value n)"
proof (rule safe_weaken [where n = n and k = 1])
  have obj: "safe (n - 1) 0 (\<lambda>_. True) (skip_rest_of_object n)"
    unfolding skip_rest_of_object_def
    by (rule safe_bind0 [OF safe_object_of [where n = n and I = "\<lambda>_. True"]]) (auto intro: safe_skip safe_leave)
  have arr: "safe (n - 1) 0 (\<lambda>_. True) (skip_rest_of_array n)"
    unfolding skip_rest_of_array_def
    by (rule safe_bind0 [OF safe_array_of [OF safe_skip_value]]) (auto intro: safe_leave)
  show "safe n 1 (\<lambda>_. True) (parse_omi_value n)"
    unfolding parse_omi_value_def
    by (rule safe_next_tok)
      (auto split: token.split intro!: safe_return' safe_fail_at safe_bind0 [OF safe_enter]
        safe_bind0 [OF obj [simplified]] safe_bind0 [OF arr [simplified]])
qed auto

text \<open>The heads of a sequence, those that consume a token first.\<close>

lemmas safe_heads =
  safe_bind1 [OF safe_expect] safe_bind1 [OF safe_map_expect] safe_bind1 [OF safe_expect_string]
  safe_bind1 [OF safe_map_err [OF safe_expect_string]]
  safe_bind1 [OF safe_expect_f64] safe_bind1 [OF safe_expect_u64] safe_bind1 [OF safe_expect_u16]
  safe_bind1 [OF safe_map_err [OF safe_expect_i64]]
  safe_bind0 [OF safe_enter] safe_bind0 [OF safe_leave] safe_bind0 [OF safe_position]
  safe_bind0 [OF safe_option [OF refl]] safe_bind0 [OF safe_result [OF refl]]
  safe_bind0 [OF safe_skip [of _ _ 0]] safe_bind0 [OF safe_parse_omi_value [of _ _ 0]]

lemma safe_object_frame:
  assumes "\<And>key s. utf8_valid key \<Longrightarrow> I s \<Longrightarrow> safe n 0 I (field key s)" "I s" "n' \<le> Suc n" "k \<le> 1"
  shows "safe n' k (\<lambda>(s, _). I s) (object_frame n field s)"
proof (rule safe_weaken [where n = "Suc n" and k = 1])
  have obj: "safe (Suc n - 1) 0 I (lite_object n field s)"
    by (rule safe_object_of [OF assms(1,2)]) auto
  show "safe (Suc n) 1 (\<lambda>(s, _). I s) (object_frame n field s)"
    unfolding object_frame_def
    by (rule safe_heads, rule safe_heads, rule safe_heads, rule safe_bind0 [OF obj], rule safe_heads)
      (simp add: safe_return)
qed (use assms in auto)

lemma safe_null_string: "safe n 0 (\<lambda>_. True) (unless_null expect_string old)"
  using safe_unless_null [where P = "\<lambda>_. True" and m = expect_string and n = n and old = old]
  by (auto intro: safe_weaken [OF safe_expect_string] simp: option.pred_True)

lemma safe_null_f64: "safe n 0 (\<lambda>_. True) (unless_null expect_f64 old)"
  using safe_unless_null [where P = "\<lambda>_. True" and m = expect_f64 and n = n and old = old]
  by (auto intro: safe_weaken [OF safe_expect_f64] simp: option.pred_True)

lemma safe_parse_value: "n' \<le> n \<Longrightarrow> k \<le> 1 \<Longrightarrow> safe n' k (\<lambda>_. True) (parse_value n)"
proof (rule safe_weaken [where n = n and k = 1])
  have "safe n 1 (\<lambda>(s, _). True) (object_frame n (value_field n) (None, None))"
    unfolding value_field_def
    by (rule safe_object_frame [where I = "\<lambda>_. True", simplified])
      (auto split: prod.split intro!: safe_heads safe_return' safe_bind0 [OF safe_null_f64])
  then show "safe n 1 (\<lambda>_. True) (parse_value n)"
    unfolding parse_value_def
    by (rule safe_bind1) (auto split: prod.split intro!: safe_heads safe_return')
qed auto

lemma safe_parse_ring_buffer: "n' \<le> n \<Longrightarrow> k \<le> 1 \<Longrightarrow> safe n' k rb_inv (parse_ring_buffer n)"
proof (rule safe_weaken [where n = n and k = 1])
  have "\<exists>rb'. Option.bind (rb_new (max (length vs) 1)) (fold_opt rb_push (rev vs)) = Some rb' \<and> rb_inv rb'"
    for vs
  proof -
    obtain rb where rb: "rb_new (max (length vs) 1) = Some rb" "rb_inv rb"
      using rb_new_ok [of "max (length vs) 1"] by (metis less_max_iff_disj zero_less_one)
    with rb.push_all [OF rb(2), of "rev vs"] show ?thesis by auto
  qed
  note rb' = exE [OF this]
  have arr: "safe (n - 1) 0 (list_all (\<lambda>_. True)) (array_of n (parse_value n))"
    by (rule safe_array_of [OF safe_parse_value]) auto
  have end': "safe (n - 1) 0 rb_inv (or_panic (Option.bind (rb_new (max (length vs) 1)) (fold_opt rb_push (rev vs))))"
    for vs by (rule rb' [of vs]) (rule safe_or_panic, auto)
  show "safe n 1 rb_inv (parse_ring_buffer n)"
    unfolding parse_ring_buffer_def
    by (rule safe_heads, rule safe_heads, rule safe_bind0 [OF arr], rule safe_heads) (use end' in simp)
qed auto

lemma safe_parse_map:
  assumes "safe n 0 P elem" "n' \<le> n" "k \<le> 1"
  shows "safe n' k (\<lambda>m. bt_ok m \<and> (\<forall>e \<in> set m. P (snd e))) (parse_map n elem)"
proof (rule safe_weaken [where n = n and k = 1])
  let ?I = "\<lambda>m. bt_ok m \<and> (\<forall>e \<in> set m. P (snd e))"
  have "safe (n - 1) 0 ?I
      (lite_object n (\<lambda>key m. pbind elem (\<lambda>x. preturn (bt_insert key x m))) [])"
    by (rule safe_object_of [where n = n])
      (auto intro!: safe_bind0 [OF assms(1)] safe_return' dest: set_bt_insert)
  note obj = safe_bind0 [OF this]
  show "safe n 1 ?I (parse_map n elem)"
    unfolding parse_map_def
    by (rule safe_heads, rule safe_heads, rule obj, rule safe_heads) (rule safe_return', simp_all)
qed (use assms in auto)

lemma safe_parse_meta_map: "n' \<le> n \<Longrightarrow> k \<le> 1 \<Longrightarrow> safe n' k bt_ok (parse_meta_map n)"
  unfolding parse_meta_map_def
  by (rule safe_weaken [OF safe_parse_map [OF safe_parse_omi_value [OF order_refl zero_le] order_refl order_refl]])
    auto

lemma safe_parse_info_item: "n' \<le> n \<Longrightarrow> k \<le> 1 \<Longrightarrow> safe n' k item_ok (parse_info_item n)"
proof (rule safe_weaken [where n = n and k = 1])
  let ?I = "\<lambda>f. pred_option bt_ok (if_meta f) \<and> pred_option rb_inv (if_values f)"
  have field: "safe n 0 ?I (item_field n key f)" if "?I f" for key f
    unfolding item_field_def
    by (intro safe_if safe_bind0 [OF safe_null_string] safe_bind0 [OF safe_parse_ring_buffer [of _ _ 0]]
        safe_bind0 [OF safe_unless_null [where P = bt_ok, OF safe_parse_meta_map]] safe_heads safe_return')
      (use that in simp_all)
  show "safe n 1 item_ok (parse_info_item n)"
    unfolding parse_info_item_def
    by (rule safe_bind1, rule safe_object_frame [where I = ?I])
      (auto split: prod.split option.split intro!: field safe_heads safe_return' simp: item_ok_def)
qed auto

lemma safe_parse_items_map:
  "n' \<le> n \<Longrightarrow> k \<le> 1 \<Longrightarrow> safe n' k (\<lambda>m. items_ok (Some m)) (parse_items_map n)"
  unfolding parse_items_map_def
  by (rule safe_weaken [OF safe_parse_map [OF safe_parse_info_item [OF order_refl zero_le] order_refl order_refl]])
    (auto simp: items_ok_def)

definition fields_ok :: "object_fields \<Rightarrow> bool" where
  "fields_ok f \<longleftrightarrow> pred_option (\<lambda>m. items_ok (Some m)) (of_items f) \<and> pred_option objs_ok (of_objects f)"

lemma safe_object_field:
  assumes "safe n 0 objs_ok objects" "fields_ok f"
  shows "safe n 0 fields_ok (object_field n objects key f)"
  unfolding object_field_def
  by (intro safe_if safe_bind0 [OF safe_null_string]
      safe_bind0 [OF safe_unless_null [where P = "\<lambda>m. items_ok (Some m)", OF safe_parse_items_map]]
      safe_bind0 [OF safe_unless_null [OF assms(1)]] safe_heads safe_return')
    (use assms(2) in \<open>simp_all add: fields_ok_def\<close>)

lemma safe_parse_object: "safe n 1 obj_ok (parse_object n)"
proof (induction n)
  case (Suc n)
  have "safe n 0 objs_ok (parse_map n (parse_object n))"
    by (rule safe_weaken [OF safe_parse_map [OF safe_weaken [OF Suc.IH order_refl zero_le] order_refl order_refl]])
      (auto simp: objs_ok_def)
  note field = safe_object_field [OF this]
  have frame: "safe (Suc n) 1 (\<lambda>(s, _). fields_ok s) (object_frame n (object_field n (parse_map n (parse_object n)))
              \<lparr>of_id = None, of_type = None, of_desc = None, of_items = None, of_objects = None\<rparr>)"
    by (rule safe_object_frame [where I = fields_ok]) (auto intro: field simp: fields_ok_def)
  have fin: "obj_ok (Object oid t d (of_items f) (of_objects f))" if "fields_ok f" for oid t d f
    using that
    by (cases "of_items f"; cases "of_objects f"; simp add: fields_ok_def objs_ok_def items_ok_def)
  show ?case
    unfolding parse_object.simps
    by (rule safe_bind1 [OF frame]) (auto split: prod.split intro!: safe_heads safe_return' fin)
qed (simp add: safe_zero)

lemma safe_parse_objects_map: "n' \<le> n \<Longrightarrow> k \<le> 1 \<Longrightarrow> safe n' k objs_ok (parse_objects_map n)"
  unfolding parse_objects_map_def
  by (rule safe_weaken [OF safe_parse_map [OF safe_weaken [OF safe_parse_object order_refl zero_le] order_refl order_refl]])
    (auto simp: objs_ok_def)

section \<open>Operations\<close>

definition read_ok :: "read_op \<Rightarrow> bool" where
  "read_ok op \<longleftrightarrow> (rd_path op = None) \<noteq> (rd_rid op = None) \<and>
     pred_option u63_range (rd_newest op) \<and> pred_option u63_range (rd_oldest op) \<and>
     pred_option u63_range (rd_depth op)"

fun write_ok :: "write_op \<Rightarrow> bool" where
  "write_ok (WriteSingle path v t) = True"
| "write_ok (WriteBatch items) = (items \<noteq> [])"
| "write_ok (WriteTree path objs) = (objs_ok objs \<and> objects_height objs \<le> max_object_depth)"

definition delete_ok :: "delete_op \<Rightarrow> bool" where
  "delete_ok op \<longleftrightarrow> starts_with ''/'' (de_path op) \<and> de_path op \<noteq> ''/''"

fun result_ok :: "response_result \<Rightarrow> bool" where
  "result_ok (ResBatch xs) = list_all (\<lambda>x. is_status x < 2 ^ 16) xs"
| "result_ok (ResSingle p) = (p = PayNull)"

definition body_ok :: "response_body \<Rightarrow> bool" where
  "body_ok b \<longleftrightarrow> rs_status b < 2 ^ 16 \<and> pred_option result_ok (rs_result b)"

fun operation_ok :: "operation \<Rightarrow> bool" where
  "operation_ok (OpRead op) = read_ok op"
| "operation_ok (OpWrite op) = write_ok op"
| "operation_ok (OpDelete op) = delete_ok op"
| "operation_ok (OpCancel op) = (ca_rid op \<noteq> [])"
| "operation_ok (OpResponse b) = body_ok b"

definition message_ok :: "omi_message \<Rightarrow> bool" where
  "message_ok msg \<longleftrightarrow> om_version msg = ''1.0'' \<and> i64_range (om_ttl msg) \<and> operation_ok (om_operation msg)"

lemma safe_op_fields:
  assumes "\<And>key s. utf8_valid key \<Longrightarrow> I s \<Longrightarrow> safe n 0 I (handler key s)" "I s" "n' \<le> n"
  shows "safe n' 0 I (parse_op_fields n handler s)"
  unfolding parse_op_fields_def
  by (rule safe_object_of [where n = n]) (use assms in \<open>auto intro: safe_map_err\<close>)

text \<open>An operation: the opening bracket, the fields, and the rest.\<close>

lemma safe_operation:
  assumes "\<And>key s. utf8_valid key \<Longrightarrow> I s \<Longrightarrow> safe n 0 I (handler key s)" "I s" "n' \<le> n" "k \<le> 1"
    "\<And>n' s. I s \<Longrightarrow> safe n' 0 P (f s)"
  shows "safe n' k P (pbind (map_err lpe (expect ObjectStart)) (\<lambda>_. pbind (parse_op_fields n handler s) f))"
proof (rule safe_weaken [where n = n and k = 1])
  have "safe (n - 1) 0 I (parse_op_fields n handler s)"
    by (rule safe_op_fields [OF assms(1,2)]) auto
  note fields = safe_bind0 [OF this]
  show "safe n 1 P (pbind (map_err lpe (expect ObjectStart)) (\<lambda>_. pbind (parse_op_fields n handler s) f))"
    by (rule safe_heads, rule fields) (simp add: assms(5))
qed (use assms in auto)

lemma safe_parse_read_op: "n' \<le> n \<Longrightarrow> k \<le> 1 \<Longrightarrow> safe n' k read_ok (parse_read_op n)"
  unfolding parse_read_op_def
proof (rule safe_operation)
  let ?I = "\<lambda>op. pred_option u63_range (rd_newest op) \<and> pred_option u63_range (rd_oldest op) \<and>
     pred_option u63_range (rd_depth op)"
  show "safe n 0 ?I (read_field n key op)" if "?I op" for key op
    unfolding read_field_def
    by (intro safe_if safe_heads safe_return') (use that in simp_all)
  show "?I empty_read" by (simp add: empty_read_def)
  show "safe n' 0 read_ok (pbind (from_result (read_validate op)) (\<lambda>_. preturn op))" if "?I op" for n' op
    by (intro safe_heads safe_return')
      (use that in \<open>auto simp: read_ok_def read_validate_def split: option.splits\<close>)
qed

lemma safe_parse_write_item: "n' \<le> n \<Longrightarrow> k \<le> 1 \<Longrightarrow> safe n' k (\<lambda>_. True) (parse_write_item n)"
proof (rule safe_weaken [where n = n and k = 1])
  have field: "safe n 0 (\<lambda>_. True) (write_item_field n key f)" for key f
    unfolding write_item_field_def
    by (intro safe_if safe_heads safe_return') simp_all
  have "safe (n - 1) 0 (\<lambda>_. True) (lite_object n (write_item_field n) empty_write)"
    by (rule safe_object_of [where n = n]) (auto intro: field)
  note obj = safe_bind0 [OF this]
  show "safe n 1 (\<lambda>_. True) (parse_write_item n)"
    unfolding parse_write_item_def
    by (rule safe_heads, rule safe_heads, rule obj) (intro safe_heads safe_return', simp_all)
qed auto

lemma safe_parse_write_items: "n' \<le> n \<Longrightarrow> k \<le> 1 \<Longrightarrow> safe n' k (\<lambda>_. True) (parse_write_items n)"
  unfolding parse_write_items_def
  by (rule safe_bind1 [OF safe_expect])
    (auto intro!: safe_weaken [OF safe_array_of [OF safe_parse_write_item [OF order_refl order_refl] order_refl order_refl]])

lemma write_form_ok:
  assumes "pred_option objs_ok (wf_objects f)" "write_form f = Inr op"
  shows "write_ok op"
  using assms
  by (auto simp: write_form_def ok_or_def Let_def parsed_object_tree_depth_eq rbind_eq_Inr
      split: option.splits if_splits)

lemma safe_parse_write_op: "n' \<le> n \<Longrightarrow> k \<le> 1 \<Longrightarrow> safe n' k write_ok (parse_write_op n)"
  unfolding parse_write_op_def
proof (rule safe_operation)
  let ?I = "\<lambda>f. pred_option objs_ok (wf_objects f)"
  show "safe n 0 ?I (write_field n key f)" if "?I f" for key f
    unfolding write_field_def
    by (intro safe_if safe_bind0 [OF safe_parse_write_items [of _ _ 0]]
        safe_bind0 [OF safe_parse_objects_map [of _ _ 0]] safe_heads safe_return') (use that in simp_all)
  show "?I empty_write" by (simp add: empty_write_def)
  show "safe n' 0 write_ok (from_result (write_form f))" if "?I f" for n' f
    by (rule safe_from_result) (rule write_form_ok [OF that])
qed

lemma safe_parse_delete_op: "n' \<le> n \<Longrightarrow> k \<le> 1 \<Longrightarrow> safe n' k delete_ok (parse_delete_op n)"
  unfolding parse_delete_op_def
  by (rule safe_operation [where I = "\<lambda>_. True"]; (intro safe_if safe_heads safe_return')?)
    (auto simp: delete_ok_def delete_validate_def split: if_splits)

lemma safe_parse_string_array: "n' \<le> n \<Longrightarrow> k \<le> 1 \<Longrightarrow> safe n' k (list_all utf8_valid) (parse_string_array n)"
  unfolding parse_string_array_def
  by (rule safe_bind1 [OF safe_expect])
    (auto intro!: safe_weaken [OF safe_array_of [OF safe_expect_string order_refl order_refl]])

lemma safe_parse_cancel_op: "n' \<le> n \<Longrightarrow> k \<le> 1 \<Longrightarrow> safe n' k (\<lambda>op. ca_rid op \<noteq> []) (parse_cancel_op n)"
  unfolding parse_cancel_op_def
  by (rule safe_operation [where I = "\<lambda>_. True"];
      (intro safe_if safe_bind0 [OF safe_parse_string_array [of _ _ 0]] safe_heads safe_return')?)
    (auto simp: cancel_validate_def split: if_splits)

lemma safe_parse_item_status: "n' \<le> n \<Longrightarrow> k \<le> 1 \<Longrightarrow> safe n' k (\<lambda>x. is_status x < 2 ^ 16) (parse_item_status n)"
proof (rule safe_weaken [where n = n and k = 1])
  let ?I = "\<lambda>f. pred_option (\<lambda>x. x < 2 ^ 16) (sf_status f)"
  have field: "safe n 0 ?I (item_status_field n key f)" if "?I f" for key f
    unfolding item_status_field_def
    by (intro safe_if safe_heads safe_return') (use that in simp_all)
  have "safe (n - 1) 0 ?I (lite_object n (item_status_field n) \<lparr>sf_path = None, sf_status = None, sf_desc = None\<rparr>)"
    by (rule safe_object_of [where n = n]) (rule field, assumption, simp_all)
  note obj = safe_bind0 [OF this]
  show "safe n 1 (\<lambda>x. is_status x < 2 ^ 16) (parse_item_status n)"
    unfolding parse_item_status_def
    by (rule safe_heads, rule safe_heads, rule obj) (intro safe_heads safe_return', simp_all)
qed auto

lemma safe_parse_response_result: "n' \<le> n \<Longrightarrow> safe n' 0 result_ok (parse_response_result n)"
  unfolding parse_response_result_def
  by (intro safe_bind0 [OF safe_peek_is] safe_if safe_heads
      safe_bind0 [OF safe_array_of [OF safe_parse_item_status [OF order_refl order_refl], of 0]] safe_return') auto

lemma safe_parse_response_body: "n' \<le> n \<Longrightarrow> k \<le> 1 \<Longrightarrow> safe n' k body_ok (parse_response_body n)"
  unfolding parse_response_body_def
proof (rule safe_operation)
  let ?I = "\<lambda>f. pred_option (\<lambda>x. x < 2 ^ 16) (bf_status f) \<and> pred_option result_ok (bf_result f)"
  show "safe n 0 ?I (body_field n key f)" if "?I f" for key f
    unfolding body_field_def
    by (intro safe_if safe_bind0 [OF safe_parse_response_result] safe_heads safe_return') (use that in simp_all)
  show "?I \<lparr>bf_status = None, bf_rid = None, bf_desc = None, bf_result = None\<rparr>" by simp
  show "safe n' 0 body_ok (pbind (or_fail (InvalidJson ''missing field: status'') (bf_status f)) (\<lambda>st.
       preturn \<lparr>rs_status = st, rs_rid = bf_rid f, rs_desc = bf_desc f, rs_result = bf_result f\<rparr>))"
    if "?I f" for n' and f :: body_fields
    by (intro safe_heads safe_return') (use that in \<open>simp_all add: body_ok_def\<close>)
qed

section \<open>Messages\<close>

text \<open>One operation is set once one bit of \<open>seen_ops\<close> is.\<close>

definition envelope_ok :: "envelope \<Rightarrow> bool" where
  "envelope_ok ev \<longleftrightarrow> pred_option i64_range (ev_ttl ev) \<and> pred_option operation_ok (ev_operation ev) \<and>
     (ev_operation ev = None \<longrightarrow> ev_seen_ops ev = 0)"

lemma safe_saw_op:
  assumes "safe n 0 P m" "\<And>x. P x \<Longrightarrow> operation_ok (con x)" "envelope_ok ev"
  shows "safe n 0 envelope_ok (saw_op flag con m ev)"
  unfolding saw_op_def
  by (rule safe_bind0 [OF assms(1)], rule safe_return') (use assms(2,3) in \<open>simp_all add: envelope_ok_def\<close>)

lemma safe_envelope_field:
  assumes "envelope_ok ev"
  shows "safe n 0 envelope_ok (envelope_field n key ev)"
  unfolding envelope_field_def
  by (intro safe_if safe_heads safe_return' safe_saw_op [OF safe_parse_read_op] safe_saw_op [OF safe_parse_write_op]
      safe_saw_op [OF safe_parse_delete_op] safe_saw_op [OF safe_parse_cancel_op]
      safe_saw_op [OF safe_parse_response_body] safe_bind0 [OF safe_map_err [OF safe_skip [of _ _ 0]]])
    (use assms in \<open>simp_all add: envelope_ok_def\<close>)

lemma safe_parse_envelope: "safe n 1 message_ok (parse_envelope n)"
  unfolding parse_envelope_def
proof (rule safe_bind1 [OF safe_map_expect])
  let ?start = "\<lparr>ev_version = None, ev_ttl = None, ev_operation = None, ev_seen_ops = 0\<rparr> :: envelope"
  have "safe (n - 1) 0 envelope_ok (object_of n lpe (envelope_field n) ?start)"
    by (rule safe_object_of [where n = n]) (auto intro: safe_envelope_field simp: envelope_ok_def)
  then show "safe (n - 1) (1 - 1) message_ok (pbind (object_of n lpe (envelope_field n) ?start) (\<lambda>ev.
     pbind (or_fail (MissingField ''omi'') (ev_version ev)) (\<lambda>version.
       if version \<noteq> ''1.0'' then pfail (UnsupportedVersion version)
       else pbind (or_fail (MissingField ''ttl'') (ev_ttl ev)) (\<lambda>ttl.
         if count_ones (ev_seen_ops ev) \<noteq> 1
         then pfail (InvalidOperationCount (count_ones (ev_seen_ops ev)))
         else pbind (or_panic (ev_operation ev)) (\<lambda>op.
           preturn \<lparr>om_version = version, om_ttl = ttl, om_operation = op\<rparr>)))))"
  proof (rule safe_bind0)
    fix ev assume ev: "envelope_ok ev"
    have "ev_operation ev \<noteq> None" if "count_ones (ev_seen_ops ev) = 1"
      using ev that by (auto simp: envelope_ok_def count_ones_def)
    then have panic: "safe n' 0 operation_ok (or_panic (ev_operation ev))"
      if "count_ones (ev_seen_ops ev) = 1" for n'
      by (rule safe_or_panic) (use ev that in \<open>auto simp: envelope_ok_def\<close>)
    show "safe (n - 1) (1 - 1) message_ok
       (pbind (or_fail (MissingField ''omi'') (ev_version ev)) (\<lambda>version.
       if version \<noteq> ''1.0'' then pfail (UnsupportedVersion version)
       else pbind (or_fail (MissingField ''ttl'') (ev_ttl ev)) (\<lambda>ttl.
         if count_ones (ev_seen_ops ev) \<noteq> 1
         then pfail (InvalidOperationCount (count_ones (ev_seen_ops ev)))
         else pbind (or_panic (ev_operation ev)) (\<lambda>op.
           preturn \<lparr>om_version = version, om_ttl = ttl, om_operation = op\<rparr>))))"
      by (intro safe_heads safe_if safe_fail safe_bind0 [OF panic] safe_return')
        (use ev in \<open>auto simp: message_ok_def envelope_ok_def\<close>)
  qed
qed

lemma from_parser_cases:
  assumes "safe (length input + 1) k P m"
  shows "(\<exists>e. m (parser_new input) = Inl (Fails e)) \<or> (\<exists>x p. m (parser_new input) = Inr (x, p) \<and> P x)"
proof -
  have "outcome k P (parser_new input) (m (parser_new input))"
    by (rule safeD [OF assms]) (simp_all add: lex_ok_def left_def parser_new_def lexer_new_def)
  then show ?thesis
    by (cases "(k, P, parser_new input, m (parser_new input))" rule: outcome.cases) auto
qed

text \<open>C21: Parsing a message returns for every input of bytes: the fuel of one unit more than the
  length of the input is enough, and no panic is reached (not in the unwrap of the operation that
  was seen, not in the ring buffers built from the values). The result is an error, or a
  message with version 1.0, a ttl in 64 bits, and one well-formed operation: a read has exactly
  one of path and rid; a batch of writes is not empty; a written tree satisfies the invariants
  of the object tree and is at most eight levels deep; a delete has an absolute path that is
  not the root; a cancel has at least one rid; status codes fit 16 bits.\<close>

theorem parse_omi_message_total:
  "case parse_omi_message input of
     Inl (Fails e) \<Rightarrow> True
   | Inl Panics \<Rightarrow> False
   | Inl OutOfFuel \<Rightarrow> False
   | Inr msg \<Rightarrow> message_ok msg"
  using from_parser_cases [OF safe_parse_envelope, of input]
  by (auto simp: parse_omi_message_def split: prod.split if_split)

text \<open>C22: \<open>FromJson\<close> for objects returns for every input: an error, or an object that
  satisfies the invariants of the tree at every level (keys strictly increasing, metadata maps
  ordered, ring buffers well formed), so the tree operations can be applied to it.\<close>

theorem object_from_json_total:
  "case from_json_bytes parse_object input of
     Inl (Fails e) \<Rightarrow> True
   | Inl Panics \<Rightarrow> False
   | Inl OutOfFuel \<Rightarrow> False
   | Inr obj \<Rightarrow> obj_ok obj"
  using from_parser_cases [OF safe_parse_object, of input]
  by (auto simp: from_json_bytes_def split: prod.split if_split)

end
