(* ===== verification/Machine.thy ===== *)
theory Machine
  imports Prelude
begin

text \<open>
  The event-driven state machines of the firmware (\<open>WifiSm\<close>, \<open>OnboardSm\<close>,
  \<open>GatewayState\<close>) share one interface: a step takes an event, changes the state and
  returns an action. The locale \<open>machine\<close> collects what follows from an invariant that
  every fitting event keeps; \<open>ranked_machine\<close> adds a rank that every fitting event
  decreases.
\<close>

section \<open>Outcomes\<close>

text \<open>A driver loop finishes, panics, or runs out of the fuel its model gives it.\<close>

datatype 'a outcome = Finished 'a | Panicked | OutOfFuel

fun obind :: "'a outcome \<Rightarrow> ('a \<Rightarrow> 'b outcome) \<Rightarrow> 'b outcome" where
  "obind (Finished x) f = f x"
| "obind Panicked f = Panicked"
| "obind OutOfFuel f = OutOfFuel"

definition or_panic :: "'a option \<Rightarrow> 'a outcome" where
  "or_panic x = (case x of None \<Rightarrow> Panicked | Some y \<Rightarrow> Finished y)"

lemma or_panic_simps [simp]: "or_panic None = Panicked" "or_panic (Some y) = Finished y"
  by (simp_all add: or_panic_def)

section \<open>Runs\<close>

fun run :: "('e \<Rightarrow> 's \<Rightarrow> 'a \<times> 's) \<Rightarrow> 'e list \<Rightarrow> 's \<Rightarrow> 'a list \<times> 's" where
  "run step [] s = ([], s)"
| "run step (e # es) s =
     (case step e s of (a, s') \<Rightarrow> case run step es s' of (as, s'') \<Rightarrow> (a # as, s''))"

abbreviation final_state :: "('e \<Rightarrow> 's \<Rightarrow> 'a \<times> 's) \<Rightarrow> 'e list \<Rightarrow> 's \<Rightarrow> 's" where
  "final_state step es s \<equiv> snd (run step es s)"

text \<open>Every event of a run fits the state it meets.\<close>

fun all_fit :: "('e \<Rightarrow> 's \<Rightarrow> 'a \<times> 's) \<Rightarrow> ('s \<Rightarrow> 'e \<Rightarrow> bool) \<Rightarrow> 'e list \<Rightarrow> 's \<Rightarrow> bool" where
  "all_fit step fits [] s = True"
| "all_fit step fits (e # es) s = (fits s e \<and> all_fit step fits es (snd (step e s)))"

lemma final_state_Cons [simp]: "final_state step (e # es) s = final_state step es (snd (step e s))"
  by (simp split: prod.split)

lemma final_state_append: "final_state step (es @ fs) s = final_state step fs (final_state step es s)"
  by (induction es arbitrary: s) (simp_all del: run.simps(2))

lemma all_fit_append:
  "all_fit step fits (es @ fs) s \<longleftrightarrow> all_fit step fits es s \<and> all_fit step fits fs (final_state step es s)"
  by (induction es arbitrary: s) (simp_all del: run.simps(2))

lemma length_run: "length (fst (run step es s)) = length es"
  by (induction es arbitrary: s) (simp_all split: prod.split, metis fst_conv)

section \<open>Machines with an invariant\<close>

locale machine =
  fixes step :: "'e \<Rightarrow> 's \<Rightarrow> 'a \<times> 's"
    and ok :: "'s \<Rightarrow> bool"
    and fits :: "'s \<Rightarrow> 'e \<Rightarrow> bool"
  assumes step_ok: "ok s \<Longrightarrow> fits s e \<Longrightarrow> ok (snd (step e s))"
begin

lemma run_ok: "ok s \<Longrightarrow> all_fit step fits es s \<Longrightarrow> ok (final_state step es s)"
  by (induction es arbitrary: s) (simp_all add: step_ok del: run.simps(2))

end

locale ranked_machine = machine +
  fixes rank :: "'b \<Rightarrow> nat"
  assumes step_rank: "ok s \<Longrightarrow> fits s e \<Longrightarrow> rank (snd (step e s)) < rank s"
begin

lemma run_rank:
  "ok s \<Longrightarrow> all_fit step fits es s \<Longrightarrow> length es + rank (final_state step es s) \<le> rank s"
proof (induction es arbitrary: s)
  case (Cons e es)
  then have "rank (snd (step e s)) < rank s" "ok (snd (step e s))"
    using step_rank step_ok by auto
  with Cons.IH [of "snd (step e s)"] Cons.prems show ?case
    by (simp del: run.simps(2))
qed simp

text \<open>There is no run longer than the rank of its start.\<close>

lemma run_short: "ok s \<Longrightarrow> all_fit step fits es s \<Longrightarrow> length es \<le> rank s"
  using run_rank [of s es] by simp

end

end
