(* ===== verification/WifiSm.thy ===== *)
theory WifiSm
  imports Machine
begin

text \<open>
  \<open>src/wifi_sm.rs\<close>: the state machine of the WiFi connection. The rotation counter is a
  \<open>u32\<close> that wraps, delays are \<open>u64\<close> with saturating multiplication, written as natural
  numbers with the bounds explicit.
\<close>

section \<open>State, events and actions\<close>

datatype wifi_state = Unconfigured | WConnecting nat | WConnected | Backoff | Portal

datatype wifi_action = TryConnect nat | StartPortal | StopPortal | WaitBackoff nat | WIdle

datatype wifi_event =
  ConnectSuccess | WConnectFailed | ConnectionLost | BackoffComplete | SavedSsidFound nat

record wifi_sm_config =
  max_rotations :: nat
  initial_backoff_ms :: nat
  max_backoff_ms :: nat

definition wifi_default_config :: wifi_sm_config where
  "wifi_default_config = \<lparr>max_rotations = 5, initial_backoff_ms = 1000, max_backoff_ms = 30000\<rparr>"

record wifi_sm =
  ws_state :: wifi_state
  ws_num_creds :: nat
  ws_config :: wifi_sm_config
  ws_rotation :: nat

definition wifi_new :: "nat \<Rightarrow> wifi_sm_config \<Rightarrow> wifi_sm" where
  "wifi_new num_creds config =
     \<lparr>ws_state = (if num_creds = 0 then Unconfigured else WConnecting 0),
      ws_num_creds = num_creds, ws_config = config, ws_rotation = 0\<rparr>"

definition wifi_initial_action :: "wifi_sm \<Rightarrow> wifi_action" where
  "wifi_initial_action sm =
     (case ws_state sm of
        Unconfigured \<Rightarrow> StartPortal
      | WConnecting ssid_index \<Rightarrow> TryConnect ssid_index
      | _ \<Rightarrow> WIdle)"

section \<open>Operations\<close>

definition saturating_mul64 :: "nat \<Rightarrow> nat \<Rightarrow> nat" where
  "saturating_mul64 a b = min (a * b) (2 ^ 64 - 1)"

definition backoff_ms_for :: "wifi_sm \<Rightarrow> nat \<Rightarrow> nat" where
  "backoff_ms_for sm rotation =
     min (saturating_mul64 (initial_backoff_ms (ws_config sm)) (2 ^ min rotation 16))
         (max_backoff_ms (ws_config sm))"

definition backoff_ms :: "wifi_sm \<Rightarrow> nat" where
  "backoff_ms sm = backoff_ms_for sm (ws_rotation sm)"

definition start_backoff_or_portal :: "wifi_sm \<Rightarrow> wifi_action \<times> wifi_sm" where
  "start_backoff_or_portal sm =
     (let sm = sm\<lparr>ws_rotation := (ws_rotation sm + 1) mod 2 ^ 32\<rparr>
      in if max_rotations (ws_config sm) \<le> ws_rotation sm
         then (StartPortal, sm\<lparr>ws_state := Portal\<rparr>)
         else (WaitBackoff (backoff_ms_for sm (ws_rotation sm)), sm\<lparr>ws_state := Backoff\<rparr>))"

definition wifi_handle_event :: "wifi_event \<Rightarrow> wifi_sm \<Rightarrow> wifi_action \<times> wifi_sm" where
  "wifi_handle_event event sm =
     (case (ws_state sm, event) of
        (WConnecting _, ConnectSuccess) \<Rightarrow> (WIdle, sm\<lparr>ws_state := WConnected\<rparr>)
      | (WConnecting ssid_index, WConnectFailed) \<Rightarrow>
          (let next_index = ssid_index + 1
           in if next_index < ws_num_creds sm
              then (TryConnect next_index, sm\<lparr>ws_state := WConnecting next_index\<rparr>)
              else start_backoff_or_portal sm)
      | (WConnected, ConnectionLost) \<Rightarrow>
          (TryConnect 0, sm\<lparr>ws_rotation := 0, ws_state := WConnecting 0\<rparr>)
      | (Backoff, BackoffComplete) \<Rightarrow> (TryConnect 0, sm\<lparr>ws_state := WConnecting 0\<rparr>)
      | (Portal, SavedSsidFound ssid_index) \<Rightarrow>
          (TryConnect ssid_index, sm\<lparr>ws_state := WConnecting ssid_index\<rparr>)
      | (Unconfigured, SavedSsidFound ssid_index) \<Rightarrow>
          (TryConnect ssid_index, sm\<lparr>ws_state := WConnecting ssid_index\<rparr>)
      | _ \<Rightarrow> (WIdle, sm))"

definition credentials_updated :: "nat \<Rightarrow> nat \<Rightarrow> wifi_sm \<Rightarrow> wifi_action \<times> wifi_sm" where
  "credentials_updated num_creds start_index sm =
     (let sm = sm\<lparr>ws_num_creds := num_creds, ws_rotation := 0\<rparr>
      in if num_creds = 0 then (StartPortal, sm\<lparr>ws_state := Unconfigured\<rparr>)
         else let idx = min start_index (num_creds - 1)
              in (TryConnect idx, sm\<lparr>ws_state := WConnecting idx\<rparr>))"

definition portal_connect_succeeded :: "wifi_sm \<Rightarrow> wifi_action \<times> wifi_sm" where
  "portal_connect_succeeded sm = (StopPortal, sm\<lparr>ws_state := WConnected\<rparr>)"

text \<open>One call of the machine's interface.\<close>

datatype wifi_call =
  Handle wifi_event | CredentialsUpdated nat nat | PortalConnectSucceeded

fun wifi_step :: "wifi_call \<Rightarrow> wifi_sm \<Rightarrow> wifi_action \<times> wifi_sm" where
  "wifi_step (Handle event) sm = wifi_handle_event event sm"
| "wifi_step (CredentialsUpdated num_creds start_index) sm = credentials_updated num_creds start_index sm"
| "wifi_step PortalConnectSucceeded sm = portal_connect_succeeded sm"

section \<open>Invariant\<close>

text \<open>The index of a connection attempt is that of a credential, and a backoff is waited for
  only while rotations are left. A saved network must be one of the credentials, which the
  machine does not check, and the portal can only report success when there is one.\<close>

definition wifi_ok :: "wifi_sm \<Rightarrow> bool" where
  "wifi_ok sm \<longleftrightarrow>
     (case ws_state sm of
        Unconfigured \<Rightarrow> ws_num_creds sm = 0
      | WConnecting ssid_index \<Rightarrow> ssid_index < ws_num_creds sm
      | Backoff \<Rightarrow> 0 < ws_num_creds sm \<and> ws_rotation sm < max_rotations (ws_config sm)
      | _ \<Rightarrow> 0 < ws_num_creds sm)"

definition wifi_fits :: "wifi_sm \<Rightarrow> wifi_call \<Rightarrow> bool" where
  "wifi_fits sm c =
     (case c of
        Handle (SavedSsidFound ssid_index) \<Rightarrow> ssid_index < ws_num_creds sm
      | PortalConnectSucceeded \<Rightarrow> 0 < ws_num_creds sm
      | _ \<Rightarrow> True)"

lemma wifi_new_ok: "wifi_ok (wifi_new n config)"
  by (simp add: wifi_new_def wifi_ok_def)

lemma start_backoff_or_portal_ok:
  "0 < ws_num_creds sm \<Longrightarrow> wifi_ok (snd (start_backoff_or_portal sm))"
  by (simp add: start_backoff_or_portal_def Let_def wifi_ok_def)

interpretation wifi: machine wifi_step wifi_ok wifi_fits
proof
  fix sm c assume "wifi_ok sm" "wifi_fits sm c"
  then show "wifi_ok (snd (wifi_step c sm))"
    by (cases c)
      (auto simp: wifi_handle_event_def Let_def wifi_fits_def credentials_updated_def
        portal_connect_succeeded_def wifi_ok_def start_backoff_or_portal_def
        split: wifi_state.splits wifi_event.splits)
qed

text \<open>What an action asks for, in the state the machine is left in.\<close>

fun action_fits :: "wifi_sm \<Rightarrow> wifi_action \<Rightarrow> bool" where
  "action_fits sm (TryConnect i) = (ws_state sm = WConnecting i)"
| "action_fits sm StartPortal = (ws_state sm \<in> {Portal, Unconfigured})"
| "action_fits sm StopPortal = (ws_state sm = WConnected)"
| "action_fits sm (WaitBackoff ms) = (ws_state sm = Backoff \<and> ms = backoff_ms sm \<and> ms \<le> max_backoff_ms (ws_config sm))"
| "action_fits sm WIdle = True"

lemma wifi_step_action: "wifi_step c sm = (a, sm') \<Longrightarrow> action_fits sm' a"
  by (cases c)
    (auto simp: wifi_handle_event_def Let_def credentials_updated_def portal_connect_succeeded_def
      start_backoff_or_portal_def backoff_ms_def backoff_ms_for_def
      split: wifi_state.splits wifi_event.splits if_splits)

lemma wifi_step_idle:
  "wifi_step c sm = (WIdle, sm') \<Longrightarrow> sm' = sm \<or> c = Handle ConnectSuccess \<and> ws_state sm' = WConnected"
  by (cases c)
    (auto simp: wifi_handle_event_def Let_def credentials_updated_def portal_connect_succeeded_def
      start_backoff_or_portal_def split: wifi_state.splits wifi_event.splits if_splits)



section \<open>Giving up after the configured number of rotations\<close>

text \<open>The calls of a loop that only tries to connect and waits.\<close>

definition connecting_fits :: "wifi_sm \<Rightarrow> wifi_call \<Rightarrow> bool" where
  "connecting_fits sm c =
     (case ws_state sm of
        WConnecting _ \<Rightarrow> c \<in> {Handle ConnectSuccess, Handle WConnectFailed}
      | Backoff \<Rightarrow> c = Handle BackoffComplete
      | _ \<Rightarrow> False)"

definition wifi_settled :: "wifi_sm \<Rightarrow> bool" where
  "wifi_settled sm = (ws_state sm \<in> {WConnected, Portal, Unconfigured})"

text \<open>Rotations count without wrapping: the limit is a \<open>u32\<close>.\<close>

definition rotating_ok :: "wifi_sm \<Rightarrow> bool" where
  "rotating_ok sm \<longleftrightarrow> wifi_ok sm \<and> max_rotations (ws_config sm) < 2 ^ 32 \<and>
     (wifi_settled sm \<or> ws_rotation sm + 1 < 2 ^ 32)"

definition rotations_left :: "wifi_sm \<Rightarrow> nat" where
  "rotations_left sm =
     (let n = ws_num_creds sm; m = max_rotations (ws_config sm); r = ws_rotation sm
      in case ws_state sm of
           WConnecting i \<Rightarrow> (n - i) + (m - r) * (n + 1)
         | Backoff \<Rightarrow> n + 1 + (m - r) * (n + 1)
         | _ \<Rightarrow> 0)"

lemma rotations_left_step:
  assumes "rotating_ok sm" "connecting_fits sm c"
  shows "rotating_ok (snd (wifi_step c sm)) \<and> rotations_left (snd (wifi_step c sm)) < rotations_left sm"
proof (cases "ws_state sm")
  case (WConnecting i)
  let ?m = "max_rotations (ws_config sm)" and ?n = "ws_num_creds sm" and ?r = "ws_rotation sm"
  from assms WConnecting have i: "i < ?n" "?m < 2 ^ 32" "Suc ?r < 2 ^ 32"
    by (simp_all add: rotating_ok_def wifi_ok_def wifi_settled_def)
  consider "c = Handle ConnectSuccess" | "c = Handle WConnectFailed" "Suc i < ?n"
    | "c = Handle WConnectFailed" "Suc i = ?n" "Suc ?r < ?m"
    | "c = Handle WConnectFailed" "Suc i = ?n" "?m \<le> Suc ?r"
    using assms(2) WConnecting i(1) by (fastforce simp: connecting_fits_def)
  then show ?thesis
  proof cases
    case 3
    then have "(?m - ?r) * (?n + 1) = (?n + 1) + (?m - Suc ?r) * (?n + 1)"
      by (metis Suc_diff_Suc Suc_lessD mult_Suc)
    with 3 WConnecting i show ?thesis
      by (simp add: wifi_handle_event_def start_backoff_or_portal_def Let_def rotating_ok_def
          wifi_ok_def wifi_settled_def rotations_left_def del: mult_Suc_right)
  qed (use WConnecting i in \<open>simp add: wifi_handle_event_def start_backoff_or_portal_def Let_def
         rotating_ok_def wifi_ok_def wifi_settled_def rotations_left_def; linarith?\<close>)+
next
  case Backoff
  with assms show ?thesis
    by (auto simp: connecting_fits_def wifi_handle_event_def rotating_ok_def wifi_ok_def
        wifi_settled_def rotations_left_def Let_def)
qed (use assms in \<open>auto simp: connecting_fits_def\<close>)

interpretation rotating: ranked_machine wifi_step rotating_ok connecting_fits rotations_left
  using rotations_left_step by unfold_locales auto

end
