(* ===== verification/Wire.thy ===== *)
theory Wire
  imports Utf8
begin

text \<open>
  Reading and writing of binary formats, shared by the configuration blob
  (\<open>wifi_cfg.rs\<close>) and the onboarding protocol (\<open>wsop/protocol.rs\<close>). A reader takes the
  bytes not yet read and returns the value with the bytes after it; the code's offset into the
  data is the number of bytes read. The locale \<open>codec\<close> states what a writer and a reader
  promise each other.
\<close>

section \<open>Readers\<close>

type_synonym ('e, 'a) reader = "string \<Rightarrow> 'e + 'a \<times> string"

definition take_bytes :: "'e \<Rightarrow> nat \<Rightarrow> ('e, string) reader" where
  "take_bytes e n s = (if length s < n then Inl e else Inr (take n s, drop n s))"

definition take_u8 :: "'e \<Rightarrow> ('e, nat) reader" where
  "take_u8 e s = (case s of [] \<Rightarrow> Inl e | c # r \<Rightarrow> Inr (byte_of c, r))"

lemma take_bytes_append [simp]: "take_bytes e n (b @ s) = Inr (b, s)" if "length b = n"
  using that by (simp add: take_bytes_def)

lemma take_bytes_eq_Inr: "take_bytes e n s = Inr (b, r) \<longleftrightarrow> length b = n \<and> s = b @ r"
  by (auto simp: take_bytes_def)

lemma take_u8_Cons [simp]: "take_u8 e (c # s) = Inr (byte_of c, s)"
  by (simp add: take_u8_def)

lemma take_u8_eq_Inr: "take_u8 e s = Inr (n, r) \<longleftrightarrow> n < 256 \<and> s = char_of n # r"
  by (cases s) (auto simp: take_u8_def)

section \<open>Integers\<close>

definition u16_le :: "nat \<Rightarrow> string" where
  "u16_le n = [char_of (n mod 256), char_of (n div 256)]"

definition u16_of_le :: "string \<Rightarrow> nat" where
  "u16_of_le b = byte_of (b ! 0) + 256 * byte_of (b ! 1)"

definition u32_be :: "nat \<Rightarrow> string" where
  "u32_be n = [char_of (n div 256 div 256 div 256), char_of (n div 256 div 256), char_of (n div 256), char_of n]"

definition u32_of_be :: "string \<Rightarrow> nat" where
  "u32_of_be b = 256 * (256 * (256 * byte_of (b ! 0) + byte_of (b ! 1)) + byte_of (b ! 2)) + byte_of (b ! 3)"

lemma length_u16_le [simp]: "length (u16_le n) = 2"
  by (simp add: u16_le_def)

lemma length_u32_be [simp]: "length (u32_be n) = 4"
  by (simp add: u32_be_def)

lemma u16_of_le_le [simp]: "n < 2 ^ 16 \<Longrightarrow> u16_of_le (u16_le n) = n"
  by (simp add: u16_of_le_def u16_le_def)

lemma u32_of_be_be [simp]:
  assumes "n < 2 ^ 32"
  shows "u32_of_be (u32_be n) = n"
proof -
  have "n div 256 div 256 div 256 < 256" using assms by simp
  then have "n div 256 div 256 div 256 mod 256 = n div 256 div 256 div 256" by (rule mod_less)
  then show ?thesis
    by (simp only: u32_of_be_def u32_be_def nth_Cons_0 nth_Cons_numeral numeral_eq_Suc pred_numeral_simps
        nth_Cons_Suc of_char_of One_nat_def arith_simps)
      (simp only: mult_div_mod_eq flip: numeral_eq_Suc)
qed

lemma byte_of_less: "byte_of c < (256 :: nat)"
  by (metis mod_less_divisor of_char_mod_256 zero_less_numeral)

lemma length_4_cases: "length b = 4 \<Longrightarrow> \<exists>w x y z. b = [w, x, y, z]"
  by (auto simp: numeral_eq_Suc length_Suc_conv)

lemma horner_div: "z < 256 \<Longrightarrow> (256 * a + z) div 256 = (a :: nat)"
  by simp

lemma char_of_horner: "z < 256 \<Longrightarrow> char_of (256 * a + z) = (char_of z :: char)" for a z :: nat
  by (metis char_of_mod_256 mod_mult_self4)

lemma u32_be_of_be: "length b = 4 \<Longrightarrow> u32_be (u32_of_be b) = b \<and> u32_of_be b < 2 ^ 32"
proof -
  assume "length b = 4"
  then obtain w x y z where b: "b = [w, x, y, z]" using length_4_cases by blast
  have l: "byte_of w < (256::nat)" "byte_of x < (256::nat)" "byte_of y < (256::nat)" "byte_of z < (256::nat)"
    by (rule byte_of_less)+
  have n: "u32_of_be b = 256 * (256 * (256 * byte_of w + byte_of x) + byte_of y) + byte_of z"
    by (simp add: b u32_of_be_def)
  have "256 * (256 * (256 * byte_of w + byte_of x) + byte_of y) + byte_of z < (2 ^ 32 :: nat)"
    using l by (simp; linarith)
  then show ?thesis
    unfolding n u32_be_def by (simp only: horner_div l char_of_horner char_of_char b)
qed

section \<open>The contract of a codec\<close>

locale codec =
  fixes enc :: "'a \<Rightarrow> 'e + string"
    and dec :: "('d, 'a) reader"
    and valid :: "'a \<Rightarrow> bool"
  assumes enc_dec: "valid x \<Longrightarrow> enc x = Inr b \<Longrightarrow> dec (b @ rest) = Inr (x, rest)"
begin

lemma enc_inj: "valid x \<Longrightarrow> valid y \<Longrightarrow> enc x = Inr b \<Longrightarrow> enc y = Inr b \<Longrightarrow> x = y"
  using enc_dec [of x b "[]"] enc_dec [of y b "[]"] by simp

text \<open>No code word is a proper prefix of another one.\<close>

lemma prefix_free:
  assumes "valid x" "valid y" "enc x = Inr b" "enc y = Inr (b @ c)"
  shows "x = y \<and> c = []"
  using enc_dec [OF assms(1,3), of c] enc_dec [OF assms(2,4), of "[]"] by auto

end

text \<open>A sequence of \<open>n\<close> values.\<close>

primrec enc_list :: "('a \<Rightarrow> 'e + string) \<Rightarrow> 'a list \<Rightarrow> 'e + string" where
  "enc_list enc [] = Inr []"
| "enc_list enc (x # xs) = rbind (enc x) (\<lambda>b. rbind (enc_list enc xs) (\<lambda>bs. Inr (b @ bs)))"

primrec dec_list :: "nat \<Rightarrow> ('d, 'a) reader \<Rightarrow> ('d, 'a list) reader" where
  "dec_list 0 dec s = Inr ([], s)"
| "dec_list (Suc n) dec s =
     rbind (dec s) (\<lambda>(x, s). rbind (dec_list n dec s) (\<lambda>(xs, s). Inr (x # xs, s)))"

context codec
begin

lemma list_enc_dec:
  "list_all valid xs \<Longrightarrow> enc_list enc xs = Inr b \<Longrightarrow> dec_list (length xs) dec (b @ rest) = Inr (xs, rest)"
  by (induction xs arbitrary: b) (auto simp: rbind_eq_Inr enc_dec)

end

end
