(* ===== verification/Crypto.thy ===== *)
theory Crypto
  imports Prelude RustStr "HOL-Library.Word"
begin

unbundle bit_operations_syntax

text \<open>
  \<open>src/crypto.rs\<close>: SHA-256 and BLAKE2b, over 32 and 64 bit words. An array is the list of
  its elements, the data is a list of bytes. The state words are unpacked by position, as the
  code destructures its array; every array built here has the length the code declares, so no
  other case arises. \<open>as_block\<close> is the check on that length.
\<close>

section \<open>SHA-256\<close>

type_synonym u32 = "32 word"
type_synonym u64 = "64 word"

definition sha_k :: "u32 list" where
  "sha_k =
    [0x428A2F98, 0x71374491, 0xB5C0FBCF, 0xE9B5DBA5, 0x3956C25B, 0x59F111F1,
     0x923F82A4, 0xAB1C5ED5, 0xD807AA98, 0x12835B01, 0x243185BE, 0x550C7DC3,
     0x72BE5D74, 0x80DEB1FE, 0x9BDC06A7, 0xC19BF174, 0xE49B69C1, 0xEFBE4786,
     0x0FC19DC6, 0x240CA1CC, 0x2DE92C6F, 0x4A7484AA, 0x5CB0A9DC, 0x76F988DA,
     0x983E5152, 0xA831C66D, 0xB00327C8, 0xBF597FC7, 0xC6E00BF3, 0xD5A79147,
     0x06CA6351, 0x14292967, 0x27B70A85, 0x2E1B2138, 0x4D2C6DFC, 0x53380D13,
     0x650A7354, 0x766A0ABB, 0x81C2C92E, 0x92722C85, 0xA2BFE8A1, 0xA81A664B,
     0xC24B8B70, 0xC76C51A3, 0xD192E819, 0xD6990624, 0xF40E3585, 0x106AA070,
     0x19A4C116, 0x1E376C08, 0x2748774C, 0x34B0BCB5, 0x391C0CB3, 0x4ED8AA4A,
     0x5B9CCA4F, 0x682E6FF3, 0x748F82EE, 0x78A5636F, 0x84C87814, 0x8CC70208,
     0x90BEFFFA, 0xA4506CEB, 0xBEF9A3F7, 0xC67178F2]"

definition h_init :: "u32 list" where
  "h_init =
    [0x6A09E667, 0xBB67AE85, 0x3C6EF372, 0xA54FF53A,
     0x510E527F, 0x9B05688C, 0x1F83D9AB, 0x5BE0CD19]"

definition sha_ch :: "u32 \<Rightarrow> u32 \<Rightarrow> u32 \<Rightarrow> u32" where
  "sha_ch x y z = (x AND y) XOR (NOT x AND z)"

definition sha_maj :: "u32 \<Rightarrow> u32 \<Rightarrow> u32 \<Rightarrow> u32" where
  "sha_maj x y z = (x AND y) XOR (x AND z) XOR (y AND z)"

definition sigma0 :: "u32 \<Rightarrow> u32" where
  "sigma0 x = word_rotr 2 x XOR word_rotr 13 x XOR word_rotr 22 x"

definition sigma1 :: "u32 \<Rightarrow> u32" where
  "sigma1 x = word_rotr 6 x XOR word_rotr 11 x XOR word_rotr 25 x"

definition little_sigma0 :: "u32 \<Rightarrow> u32" where
  "little_sigma0 x = word_rotr 7 x XOR word_rotr 18 x XOR drop_bit 3 x"

definition little_sigma1 :: "u32 \<Rightarrow> u32" where
  "little_sigma1 x = word_rotr 17 x XOR word_rotr 19 x XOR drop_bit 10 x"

text \<open>\<open>as_block\<close> panics on a slice of another length.\<close>

definition as_block :: "string \<Rightarrow> string option" where
  "as_block bs = (if length bs = 64 then Some bs else None)"

definition u32_word :: "string \<Rightarrow> nat \<Rightarrow> u32" where
  "u32_word block i =
     ((of_char (block ! (4 * i)) * 256 + of_char (block ! (4 * i + 1))) * 256
       + of_char (block ! (4 * i + 2))) * 256 + of_char (block ! (4 * i + 3))"

definition schedule :: "string \<Rightarrow> u32 list" where
  "schedule block =
     foldl (\<lambda>w i. w @ [little_sigma1 (w ! (i - 2)) + w ! (i - 7) + little_sigma0 (w ! (i - 15)) + w ! (i - 16)])
       (map (u32_word block) [0..<16]) [16..<64]"

fun sha_round :: "u32 list \<Rightarrow> u32 \<times> u32 \<Rightarrow> u32 list" where
  "sha_round [a, b, c, d, e, f, g, h] (k, w) =
     (let t1 = h + sigma1 e + sha_ch e f g + k + w;
          t2 = sigma0 a + sha_maj a b c
      in [t1 + t2, a, b, c, d + t1, e, f, g])"
| "sha_round s _ = s"

definition sha_compress :: "u32 list \<Rightarrow> string \<Rightarrow> u32 list" where
  "sha_compress state block = map2 (+) state (foldl sha_round state (zip sha_k (schedule block)))"

text \<open>The loop over the complete blocks, with the bytes from the offset on.\<close>

function sha_blocks :: "u32 list \<Rightarrow> string \<Rightarrow> (u32 list \<times> string) option" where
  "sha_blocks state data =
     (if 64 \<le> length data
      then Option.bind (as_block (take 64 data)) (\<lambda>block.
             sha_blocks (sha_compress state block) (drop 64 data))
      else Some (state, data))"
  by pat_completeness auto
termination
  by (relation "measure (\<lambda>(_, data). length data)") auto

declare sha_blocks.simps [simp del]

definition u32_bytes :: "u32 \<Rightarrow> string" where
  "u32_bytes w = map (\<lambda>i. char_of (uint (drop_bit (8 * i) w))) [3, 2, 1, 0]"

text \<open>\<open>u64::to_be_bytes\<close>.\<close>

definition u64_be :: "u64 \<Rightarrow> string" where
  "u64_be w = map (\<lambda>i. char_of (uint (drop_bit (8 * i) w))) [7, 6, 5, 4, 3, 2, 1, 0]"

text \<open>\<open>buf[i..j].copy_from_slice(src)\<close>: the lengths must agree.\<close>

definition copy_slice :: "nat \<Rightarrow> nat \<Rightarrow> string \<Rightarrow> string \<Rightarrow> string option" where
  "copy_slice i j src buf =
     (if i \<le> j \<and> j \<le> length buf \<and> length src = j - i then Some (take i buf @ src @ drop j buf) else None)"

definition sha256 :: "string \<Rightarrow> string option" where
  "sha256 data = do {
     let bit_len = (word_of_nat (length data) :: u64) * 8;
     (state, rest) \<leftarrow> sha_blocks h_init data;
     let remaining = length rest;
     buf \<leftarrow> copy_slice 0 remaining rest (replicate 128 (CHR 0x00));
     buf \<leftarrow> copy_slice remaining (remaining + 1) [CHR 0x80] buf;
     let padded_len = (if remaining < 56 then 64 else 128);
     buf \<leftarrow> copy_slice (padded_len - 8) padded_len (u64_be bit_len) buf;
     block \<leftarrow> as_block (take 64 buf);
     let state = sha_compress state block;
     state \<leftarrow> (if padded_len = 128
                then Option.bind (as_block (take 64 (drop 64 buf))) (\<lambda>block. Some (sha_compress state block))
                else Some state);
     Some (concat (map u32_bytes state))
   }"

section \<open>The standard's definition of SHA-256\<close>

text \<open>FIPS 180-4: a one bit, then the least number of zero bytes that leaves eight bytes of a
  block for the length of the message in bits.\<close>

definition sha_pad :: "string \<Rightarrow> string" where
  "sha_pad m =
     m @ [CHR 0x80] @ replicate ((119 - length m mod 64) mod 64) (CHR 0x00) @
     u64_be (word_of_nat (8 * length m))"

fun chunks :: "nat \<Rightarrow> 'a list \<Rightarrow> 'a list list" where
  "chunks n xs = (if n = 0 \<or> xs = [] then [] else take n xs # chunks n (drop n xs))"

declare chunks.simps [simp del]

definition sha256_standard :: "string \<Rightarrow> string" where
  "sha256_standard m = concat (map u32_bytes (foldl sha_compress h_init (chunks 64 (sha_pad m))))"

lemma chunks_append: "length xs = n \<Longrightarrow> 0 < n \<Longrightarrow> chunks n (xs @ ys) = xs # chunks n ys"
  by (subst chunks.simps) auto

lemma chunks_Nil [simp]: "chunks n [] = []"
  by (simp add: chunks.simps)

lemma length_u64_be [simp]: "length (u64_be w) = 8"
  by (simp add: u64_be_def)

lemma chunks_two: "length xs = n \<Longrightarrow> length ys = n \<Longrightarrow> 0 < n \<Longrightarrow> chunks n (xs @ ys) = [xs, ys]"
  using chunks_append [of xs n ys] chunks_append [of ys n "[]"] by simp

lemma sha_blocks_spec:
  "\<exists>k st. sha_blocks state data = Some (st, drop (64 * k) data) \<and> length (drop (64 * k) data) < 64 \<and>
     64 * k \<le> length data \<and>
     (\<forall>rest. foldl sha_compress state (chunks 64 (data @ rest)) =
             foldl sha_compress st (chunks 64 (drop (64 * k) data @ rest)))"
proof (induction state data rule: sha_blocks.induct)
  case (1 state data)
  show ?case
  proof (cases "64 \<le> length data")
    case True
    then have b: "as_block (take 64 data) = Some (take 64 data)" by (simp add: as_block_def)
    from 1 [OF True, of "take 64 data"] obtain k st where k:
      "sha_blocks (sha_compress state (take 64 data)) (drop 64 data) = Some (st, drop (64 * k) (drop 64 data))"
      "length (drop (64 * k) (drop 64 data)) < 64" "64 * k \<le> length (drop 64 data)"
      "\<forall>rest. foldl sha_compress (sha_compress state (take 64 data)) (chunks 64 (drop 64 data @ rest)) =
             foldl sha_compress st (chunks 64 (drop (64 * k) (drop 64 data) @ rest))"
      using b by auto
    have c: "chunks 64 (data @ rest) = take 64 data # chunks 64 (drop 64 data @ rest)" for rest
      using chunks_append [of "take 64 data" 64 "drop 64 data @ rest"] True
      by (simp only: append_assoc [symmetric] append_take_drop_id) simp
    have s: "sha_blocks state data = sha_blocks (sha_compress state (take 64 data)) (drop 64 data)"
      using True b by (subst sha_blocks.simps) simp
    show ?thesis
      by (rule exI [of _ "Suc k"], rule exI [of _ st]) (use k True in \<open>simp add: s c add.commute\<close>)
  next
    case False
    then show ?thesis by (intro exI [of _ 0] exI [of _ state]) (simp add: sha_blocks.simps)
  qed
qed

lemma sha_tail_short:
  assumes "length rest < 56" "length bits = 8"
  shows "chunks 64 (rest @ [CHR 0x80] @ replicate (55 - length rest) (CHR 0x00) @ bits) =
    [rest @ [CHR 0x80] @ replicate (55 - length rest) (CHR 0x00) @ bits]"
  using chunks_append [of "rest @ [CHR 0x80] @ replicate (55 - length rest) (CHR 0x00) @ bits" 64 "[]"]
    assms by simp

lemma sha_tail_long:
  assumes "56 \<le> length rest" "length rest < 64" "length bits = 8"
  shows "chunks 64 (rest @ [CHR 0x80] @ replicate (119 - length rest) (CHR 0x00) @ bits) =
    [rest @ [CHR 0x80] @ replicate (63 - length rest) (CHR 0x00), replicate 56 (CHR 0x00) @ bits]"
proof -
  have "119 - length rest = (63 - length rest) + 56" using assms by simp
  then have "rest @ [CHR 0x80] @ replicate (119 - length rest) (CHR 0x00) @ bits =
     (rest @ [CHR 0x80] @ replicate (63 - length rest) (CHR 0x00)) @ (replicate 56 (CHR 0x00) @ bits)"
    by (simp only: replicate_add append_assoc)
  moreover have "chunks 64 ((rest @ [CHR 0x80] @ replicate (63 - length rest) (CHR 0x00)) @ (replicate 56 (CHR 0x00) @ bits)) =
     [rest @ [CHR 0x80] @ replicate (63 - length rest) (CHR 0x00), replicate 56 (CHR 0x00) @ bits]"
    by (rule chunks_two) (use assms in simp_all)
  ultimately show ?thesis by (simp only:)
qed

lemma copy_rest:
  "length rest < 64 \<Longrightarrow> copy_slice 0 (length rest) rest (replicate 128 (CHR 0x00)) =
     Some (rest @ replicate (128 - length rest) (CHR 0x00))"
  by (simp add: copy_slice_def)

lemma copy_mark:
  assumes "length rest < 64"
  shows "copy_slice (length rest) (length rest + 1) [CHR 0x80] (rest @ replicate (128 - length rest) (CHR 0x00)) =
     Some (rest @ [CHR 0x80] @ replicate (127 - length rest) (CHR 0x00))"
  using assms by (simp add: copy_slice_def)

lemma copy_length_short:
  assumes "length rest < 56" "length bits = 8"
  shows "copy_slice 56 64 bits (rest @ [CHR 0x80] @ replicate (127 - length rest) (CHR 0x00)) =
     Some ((rest @ [CHR 0x80] @ replicate (55 - length rest) (CHR 0x00) @ bits) @ replicate 64 (CHR 0x00))"
  using assms by (simp add: copy_slice_def take_Cons' drop_Cons' min_def)

lemma copy_length_long:
  assumes "56 \<le> length rest" "length rest < 64" "length bits = 8"
  shows "copy_slice 120 128 bits (rest @ [CHR 0x80] @ replicate (127 - length rest) (CHR 0x00)) =
     Some ((rest @ [CHR 0x80] @ replicate (63 - length rest) (CHR 0x00)) @ (replicate 56 (CHR 0x00) @ bits))"
proof -
  have "119 - length rest = (63 - length rest) + 56" using assms by simp
  then have "replicate (119 - length rest) (CHR 0x00) = replicate (63 - length rest) (CHR 0x00) @ replicate 56 (CHR 0x00)"
    by (simp only: replicate_add)
  with assms show ?thesis by (simp add: copy_slice_def take_Cons' drop_Cons' min_def)
qed

lemma sha256_spec: "sha256 data = Some (sha256_standard data)"
proof -
  obtain k st where k: "sha_blocks h_init data = Some (st, drop (64 * k) data)"
    "length (drop (64 * k) data) < 64" "64 * k \<le> length data"
    "\<And>rest. foldl sha_compress h_init (chunks 64 (data @ rest)) =
       foldl sha_compress st (chunks 64 (drop (64 * k) data @ rest))"
    using sha_blocks_spec [of h_init data] by blast
  define rest where "rest = drop (64 * k) data"
  define bits where "bits = u64_be (word_of_nat (8 * length data))"
  have m: "length data mod 64 = length rest"
    using k(2,3) by (simp add: rest_def) (metis add_diff_inverse_nat linorder_not_less mod_less mod_mult_self4)
  have std: "sha256_standard data = concat (map u32_bytes (foldl sha_compress st
      (chunks 64 (rest @ [CHR 0x80] @ replicate ((119 - length rest) mod 64) (CHR 0x00) @ bits))))"
    unfolding sha256_standard_def sha_pad_def m k(4) rest_def bits_def ..
  have bits: "u64_be (word_of_nat (length data) * 8) = bits" "length bits = 8"
    by (simp_all add: bits_def mult.commute)
  have l: "length rest < 64" using k(2) by (simp add: rest_def)
  define buf1 buf2 where "buf1 = rest @ replicate (128 - length rest) (CHR 0x00)"
    and "buf2 = rest @ [CHR 0x80] @ replicate (127 - length rest) (CHR 0x00)"
  have b: "copy_slice 0 (length rest) rest (replicate 128 (CHR 0x00)) = Some buf1"
    "copy_slice (length rest) (length rest + 1) [CHR 0x80] buf1 = Some buf2"
    unfolding buf1_def buf2_def by (rule copy_rest [OF l], rule copy_mark [OF l])
  show ?thesis
  proof (cases "length rest < 56")
    case True
    define x y where "x = rest @ [CHR 0x80] @ replicate (55 - length rest) (CHR 0x00) @ bits"
      and "y = replicate 64 (CHR 0x00)"
    from True have "119 - length rest = (55 - length rest) + 64" by simp
    then have "(119 - length rest) mod 64 = 55 - length rest"
      by (simp only: mod_add_self2) (simp add: less_imp_diff_less)
    then have s: "sha256_standard data = concat (map u32_bytes (sha_compress st x))"
      using sha_tail_short [OF True bits(2)] by (simp only: std x_def) simp
    have c: "copy_slice 56 64 bits buf2 = Some (x @ y)" "length x = 64"
      unfolding buf2_def x_def y_def using copy_length_short [OF True bits(2)] True bits(2) by simp_all
    show ?thesis
      unfolding s using b(2) by (simp add: sha256_def k(1) b(1) bits(1) c True as_block_def Let_def flip: rest_def)
  next
    case False
    define x y where "x = rest @ [CHR 0x80] @ replicate (63 - length rest) (CHR 0x00)"
      and "y = replicate 56 (CHR 0x00) @ bits"
    have f: "56 \<le> length rest" using False by simp
    then have "(119 - length rest) mod 64 = 119 - length rest" by simp
    then have s: "sha256_standard data = concat (map u32_bytes (sha_compress (sha_compress st x) y))"
      using sha_tail_long [OF f l bits(2)] by (simp only: std x_def y_def) simp
    have c: "copy_slice 120 128 bits buf2 = Some (x @ y)" "length x = 64" "length y = 64"
      unfolding buf2_def x_def y_def using copy_length_long [OF f l bits(2)] f l bits(2) by simp_all
    show ?thesis
      unfolding s using b(2) by (simp add: sha256_def k(1) b(1) bits(1) c False as_block_def Let_def flip: rest_def)
  qed
qed


lemma length_sha_round: "length (sha_round s kw) = length s"
  by (cases "(s, kw)" rule: sha_round.cases) (simp_all add: Let_def)

lemma length_foldl_round: "length (foldl sha_round s ks) = length s"
  by (induction ks arbitrary: s) (simp_all add: length_sha_round)

lemma length_foldl_compress: "length s = 8 \<Longrightarrow> length (foldl sha_compress s bs) = 8"
  by (induction bs arbitrary: s) (simp_all add: sha_compress_def length_foldl_round)

lemma length_sha256_standard: "length (sha256_standard m) = 32"
  by (simp add: sha256_standard_def length_concat comp_def u32_bytes_def length_foldl_compress h_init_def
      sum_list_triv)

section \<open>BLAKE2b\<close>

definition blake2b_iv :: "u64 list" where
  "blake2b_iv =
    [0x6A09E667F3BCC908, 0xBB67AE8584CAA73B, 0x3C6EF372FE94F82B, 0xA54FF53A5F1D36F1,
     0x510E527FADE682D1, 0x9B05688C2B3E6C1F, 0x1F83D9ABFB41BD6B, 0x5BE0CD19137E2179]"

definition blake2b_sigma :: "nat list list" where
  "blake2b_sigma =
    [[0, 1, 2, 3, 4, 5, 6, 7, 8, 9, 10, 11, 12, 13, 14, 15],
     [14, 10, 4, 8, 9, 15, 13, 6, 1, 12, 0, 2, 11, 7, 5, 3],
     [11, 8, 12, 0, 5, 2, 15, 13, 10, 14, 3, 6, 7, 1, 9, 4],
     [7, 9, 3, 1, 13, 12, 11, 14, 2, 6, 5, 10, 4, 0, 15, 8],
     [9, 0, 5, 7, 2, 4, 10, 15, 14, 1, 11, 12, 6, 8, 3, 13],
     [2, 12, 6, 10, 0, 11, 8, 3, 4, 13, 7, 5, 15, 14, 1, 9],
     [12, 5, 1, 15, 14, 13, 4, 10, 0, 7, 6, 3, 9, 2, 8, 11],
     [13, 11, 7, 14, 12, 1, 3, 9, 5, 0, 15, 4, 8, 6, 2, 10],
     [6, 15, 14, 9, 11, 3, 0, 8, 12, 2, 13, 7, 1, 4, 10, 5],
     [10, 2, 8, 4, 7, 6, 1, 5, 15, 11, 9, 14, 3, 12, 13, 0]]"

definition blake2b_g :: "nat \<Rightarrow> nat \<Rightarrow> nat \<Rightarrow> nat \<Rightarrow> u64 \<Rightarrow> u64 \<Rightarrow> u64 list \<Rightarrow> u64 list" where
  "blake2b_g a b c d x y v =
     (let v = v[a := v ! a + v ! b + x];
          v = v[d := word_rotr 32 (v ! d XOR v ! a)];
          v = v[c := v ! c + v ! d];
          v = v[b := word_rotr 24 (v ! b XOR v ! c)];
          v = v[a := v ! a + v ! b + y];
          v = v[d := word_rotr 16 (v ! d XOR v ! a)];
          v = v[c := v ! c + v ! d];
          v = v[b := word_rotr 63 (v ! b XOR v ! c)]
      in v)"

definition u64_le_word :: "string \<Rightarrow> nat \<Rightarrow> u64" where
  "u64_le_word block i = foldr (\<lambda>c w. of_char c + 256 * w) (take 8 (drop (8 * i) block)) 0"

definition blake2b_round :: "u64 list \<Rightarrow> u64 list \<Rightarrow> nat \<Rightarrow> u64 list" where
  "blake2b_round m v round =
     (let s = blake2b_sigma ! (round mod 10);
          v = blake2b_g 0 4 8 12 (m ! (s ! 0)) (m ! (s ! 1)) v;
          v = blake2b_g 1 5 9 13 (m ! (s ! 2)) (m ! (s ! 3)) v;
          v = blake2b_g 2 6 10 14 (m ! (s ! 4)) (m ! (s ! 5)) v;
          v = blake2b_g 3 7 11 15 (m ! (s ! 6)) (m ! (s ! 7)) v;
          v = blake2b_g 0 5 10 15 (m ! (s ! 8)) (m ! (s ! 9)) v;
          v = blake2b_g 1 6 11 12 (m ! (s ! 10)) (m ! (s ! 11)) v;
          v = blake2b_g 2 7 8 13 (m ! (s ! 12)) (m ! (s ! 13)) v;
          v = blake2b_g 3 4 9 14 (m ! (s ! 14)) (m ! (s ! 15)) v
      in v)"

text \<open>The counter \<open>t\<close> is a \<open>u128\<close>, split into its two halves.\<close>

definition blake2b_compress :: "u64 list \<Rightarrow> string \<Rightarrow> nat \<Rightarrow> bool \<Rightarrow> u64 list" where
  "blake2b_compress h block t is_last =
     (let t = (word_of_nat t :: 128 word);
          m = map (u64_le_word block) [0..<16];
          v = h @ blake2b_iv;
          v = v[12 := v ! 12 XOR ucast t];
          v = v[13 := v ! 13 XOR ucast (drop_bit 64 t)];
          v = (if is_last then v[14 := v ! 14 XOR 0xFFFFFFFFFFFFFFFF] else v);
          v = foldl (blake2b_round m) v [0..<12]
      in map (\<lambda>i. h ! i XOR (v ! i XOR v ! (i + 8))) [0..<8])"

definition u64_le :: "u64 \<Rightarrow> string" where
  "u64_le w = map (\<lambda>i. char_of (uint (drop_bit (8 * i) w))) [0..<8]"

text \<open>One of the full blocks: a slice of 128 bytes at the offset, which must be there.\<close>

definition blake2b_block :: "string \<Rightarrow> u64 list \<times> nat \<Rightarrow> (u64 list \<times> nat) option" where
  "blake2b_block data = (\<lambda>(h, offset).
     if offset + 128 \<le> length data
     then Some (blake2b_compress h (take 128 (drop offset data)) (offset + 128) False, offset + 128)
     else None)"

text \<open>The output of \<open>nn\<close> bytes; the code asserts that \<open>nn\<close> is between 1 and 64.\<close>

definition blake2b :: "string \<Rightarrow> nat \<Rightarrow> string option" where
  "blake2b data nn = do {
     rust_assert (0 < nn \<and> nn \<le> 64);
     let h = blake2b_iv[0 := blake2b_iv ! 0 XOR (0x01010000 XOR word_of_nat nn)];
     let full_blocks = (if 128 < length data then (length data - 1) div 128 else 0);
     (h, offset) \<leftarrow> fold_opt (\<lambda>_. blake2b_block data) [0..<full_blocks] (h, 0);
     let remaining = length data - offset;
     last_block \<leftarrow> copy_slice 0 remaining (drop offset data) (replicate 128 (CHR 0x00));
     let h = blake2b_compress h last_block (length data) True;
     Some (take nn (concat (map u64_le h)))
   }"

definition blake2b_1 :: "string \<Rightarrow> char option" where
  "blake2b_1 data = map_option hd (blake2b data 1)"

section \<open>The standard's definition of BLAKE2b\<close>

text \<open>RFC 7693 without a key: the message is padded with zeros to a multiple of 128 bytes, at
  least one block; every block is compressed with the number of message bytes up to its end,
  the last one with the message length and the final flag.\<close>

fun blake2b_fold :: "u64 list \<Rightarrow> nat \<Rightarrow> string \<Rightarrow> u64 list" where
  "blake2b_fold h t data =
     (if length data \<le> 128
      then blake2b_compress h (data @ replicate (128 - length data) (CHR 0x00)) (t + length data) True
      else blake2b_fold (blake2b_compress h (take 128 data) (t + 128) False) (t + 128) (drop 128 data))"

declare blake2b_fold.simps [simp del]

definition blake2b_standard :: "string \<Rightarrow> nat \<Rightarrow> string" where
  "blake2b_standard data nn =
     take nn (concat (map u64_le
       (blake2b_fold (blake2b_iv[0 := blake2b_iv ! 0 XOR 0x01010000 XOR word_of_nat nn]) 0 data)))"

lemma blake2b_blocks:
  assumes "128 * n + r = length data" "n = 0 \<or> 0 < r"
  shows "offset = 128 * k \<Longrightarrow> k \<le> n \<Longrightarrow>
    \<exists>h'. fold_opt (\<lambda>_. blake2b_block data) [k..<n] (h, offset) = Some (h', 128 * n) \<and>
      (r \<le> 128 \<longrightarrow> blake2b_fold h offset (drop offset data) = blake2b_fold h' (128 * n) (drop (128 * n) data))"
proof (induction "n - k" arbitrary: k h offset)
  case (Suc d)
  then have k: "k < n" "d = n - Suc k" by simp_all
  then have b: "128 * Suc k \<le> 128 * n" by (intro mult_le_mono) simp_all
  have l: "offset + 128 \<le> length data" "128 < length data - offset"
    using b assms Suc.prems(1) k(1) by auto
  define h1 where "h1 = blake2b_compress h (take 128 (drop offset data)) (offset + 128) False"
  have "blake2b_block data (h, offset) = Some (h1, offset + 128)"
    using l by (simp add: blake2b_block_def h1_def)
  moreover have "blake2b_fold h offset (drop offset data) = blake2b_fold h1 (offset + 128) (drop (offset + 128) data)"
    using l by (subst blake2b_fold.simps) (simp add: h1_def add.commute)
  moreover have "[k..<n] = k # [Suc k..<n]" using k(1) by (rule upt_conv_Cons)
  ultimately show ?case
    using Suc.hyps(1) [of "Suc k" "offset + 128" h1] Suc.prems k by simp
qed simp



end
