(* ===== verification/WifiCfg.thy ===== *)
theory WifiCfg
  imports Wire Crypto
begin

text \<open>
  \<open>src/wifi_cfg.rs\<close>: the stored WiFi configuration and its binary form. Strings are their
  UTF-8 bytes. The number of access points and the default host name are constants of the
  build and arguments here.
\<close>

section \<open>Configuration\<close>

record wifi_config =
  wc_ssids :: "(string \<times> string) list"
  wc_hostname :: string
  wc_api_key_hash :: string

definition wifi_config_new :: "string \<Rightarrow> wifi_config" where
  "wifi_config_new default_hostname =
     \<lparr>wc_ssids = [], wc_hostname = default_hostname, wc_api_key_hash = []\<rparr>"

definition set_api_key :: "string \<Rightarrow> wifi_config \<Rightarrow> wifi_config option" where
  "set_api_key plaintext cfg = do {
     h \<leftarrow> sha256 plaintext;
     Some (cfg\<lparr>wc_api_key_hash := h\<rparr>)
   }"

text \<open>The comparison accumulates the differences of all bytes.\<close>

definition byte_xor :: "char \<Rightarrow> char \<Rightarrow> nat" where
  "byte_xor a b = byte_of a XOR byte_of b"

definition verify_api_key :: "string \<Rightarrow> wifi_config \<Rightarrow> bool option" where
  "verify_api_key plaintext cfg =
     (if wc_api_key_hash cfg = [] then Some False
      else do {
        h \<leftarrow> sha256 plaintext;
        Some (length (wc_api_key_hash cfg) = length h \<and>
          fold (\<lambda>(a, b) acc. acc OR byte_xor a b) (zip (wc_api_key_hash cfg) h) 0 = 0)
      })"

definition add_ssid :: "nat \<Rightarrow> string \<Rightarrow> string \<Rightarrow> wifi_config \<Rightarrow> bool \<times> wifi_config" where
  "add_ssid max_wifi_aps ssid password cfg =
     (if max_wifi_aps \<le> length (wc_ssids cfg) then (False, cfg)
      else (True, cfg\<lparr>wc_ssids := wc_ssids cfg @ [(ssid, password)]\<rparr>))"

section \<open>Binary form\<close>

datatype wifi_cfg_save_error = TooLarge nat | SerializeFailed

text \<open>The messages of a failed load.\<close>

datatype wifi_cfg_load_error = UnexpectedEnd | UnsupportedCfgVersion nat | CfgUtf8Error

definition max_wifi_cfg_blob :: nat where "max_wifi_cfg_blob = 4000"

definition wifi_cfg_version :: nat where "wifi_cfg_version = 1"

definition put_len8 :: "string \<Rightarrow> wifi_cfg_save_error + string" where
  "put_len8 s = (if length s < 256 then Inr (char_of (length s) # s) else Inl SerializeFailed)"

definition put_len16 :: "string \<Rightarrow> wifi_cfg_save_error + string" where
  "put_len16 s = (if length s < 2 ^ 16 then Inr (u16_le (length s) @ s) else Inl SerializeFailed)"

definition put_ssid :: "string \<times> string \<Rightarrow> wifi_cfg_save_error + string" where
  "put_ssid = (\<lambda>(ssid, pass). rbind (put_len8 ssid) (\<lambda>a. rbind (put_len8 pass) (\<lambda>b. Inr (a @ b))))"

definition put_ssids :: "(string \<times> string) list \<Rightarrow> wifi_cfg_save_error + string" where
  "put_ssids ssids =
     (if length ssids < 256
      then rbind (enc_list put_ssid ssids) (\<lambda>b. Inr (char_of (length ssids) # b))
      else Inl SerializeFailed)"

definition serialize_wifi_config :: "wifi_config \<Rightarrow> wifi_cfg_save_error + string" where
  "serialize_wifi_config cfg =
     rbind (put_len16 (wc_hostname cfg)) (\<lambda>h.
     rbind (put_len8 (wc_api_key_hash cfg)) (\<lambda>k.
     rbind (put_ssids (wc_ssids cfg)) (\<lambda>s.
       let buf = char_of wifi_cfg_version # h @ k @ s
       in if max_wifi_cfg_blob < length buf then Inl (TooLarge (length buf)) else Inr buf)))"

definition cfg_u8 :: "(wifi_cfg_load_error, nat) reader" where
  "cfg_u8 = take_u8 UnexpectedEnd"

definition cfg_u16 :: "(wifi_cfg_load_error, nat) reader" where
  "cfg_u16 s = rbind (take_bytes UnexpectedEnd 2 s) (\<lambda>(b, s). Inr (u16_of_le b, s))"

definition cfg_text :: "nat \<Rightarrow> (wifi_cfg_load_error, string) reader" where
  "cfg_text n s = rbind (take_bytes UnexpectedEnd n s) (\<lambda>(b, s).
     case from_utf8 b of None \<Rightarrow> Inl CfgUtf8Error | Some t \<Rightarrow> Inr (t, s))"

definition cfg_text8 :: "(wifi_cfg_load_error, string) reader" where
  "cfg_text8 s = rbind (cfg_u8 s) (\<lambda>(n, s). cfg_text n s)"

definition get_ssid :: "(wifi_cfg_load_error, string \<times> string) reader" where
  "get_ssid s =
     rbind (cfg_text8 s) (\<lambda>(ssid, s). rbind (cfg_text8 s) (\<lambda>(pass, s). Inr ((ssid, pass), s)))"

definition deserialize_wifi_config :: "string \<Rightarrow> wifi_cfg_load_error + wifi_config" where
  "deserialize_wifi_config data =
     rbind (cfg_u8 data) (\<lambda>(version, s).
       if version \<noteq> wifi_cfg_version then Inl (UnsupportedCfgVersion version)
       else rbind (cfg_u16 s) (\<lambda>(h_len, s).
         rbind (cfg_text h_len s) (\<lambda>(hostname, s).
         rbind (cfg_u8 s) (\<lambda>(hash_len, s).
         rbind (take_bytes UnexpectedEnd hash_len s) (\<lambda>(hash, s).
         rbind (cfg_u8 s) (\<lambda>(ssid_count, s).
         rbind (dec_list ssid_count get_ssid s) (\<lambda>(ssids, s).
           Inr \<lparr>wc_ssids = ssids, wc_hostname = hostname, wc_api_key_hash = hash\<rparr>)))))))"

text \<open>The NVS blob: saving replaces it only by a blob that was built, loading takes a blob that
  does not parse as no configuration.\<close>

definition save_wifi_config :: "bool \<Rightarrow> wifi_config \<Rightarrow> string option \<Rightarrow> bool \<times> string option" where
  "save_wifi_config write_ok cfg blob =
     (case serialize_wifi_config cfg of
        Inl _ \<Rightarrow> (False, blob)
      | Inr b \<Rightarrow> if write_ok then (True, Some b) else (False, blob))"

definition load_wifi_config :: "string option \<Rightarrow> wifi_config option" where
  "load_wifi_config blob =
     (case blob of
        None \<Rightarrow> None
      | Some data \<Rightarrow> (case deserialize_wifi_config data of Inl _ \<Rightarrow> None | Inr cfg \<Rightarrow> Some cfg))"

definition load_wifi_config_or_default :: "string \<Rightarrow> string option \<Rightarrow> wifi_config" where
  "load_wifi_config_or_default default_hostname blob =
     (case load_wifi_config blob of None \<Rightarrow> wifi_config_new default_hostname | Some cfg \<Rightarrow> cfg)"

section \<open>Round trip\<close>

text \<open>The strings of a configuration are Rust strings.\<close>

definition config_text_ok :: "wifi_config \<Rightarrow> bool" where
  "config_text_ok cfg \<longleftrightarrow> utf8_valid (wc_hostname cfg) \<and>
     list_all (\<lambda>(s, p). utf8_valid s \<and> utf8_valid p) (wc_ssids cfg)"

lemma cfg_text_append: "utf8_valid t \<Longrightarrow> length t = n \<Longrightarrow> cfg_text n (t @ s) = Inr (t, s)"
  by (simp add: cfg_text_def from_utf8_def)

interpretation text8: codec put_len8 cfg_text8 utf8_valid
  by unfold_locales
    (auto simp: put_len8_def cfg_text8_def cfg_u8_def cfg_text_append split: if_splits)

interpretation ssid: codec put_ssid get_ssid "\<lambda>(s, p). utf8_valid s \<and> utf8_valid p"
  by unfold_locales (auto simp: put_ssid_def get_ssid_def rbind_eq_Inr text8.enc_dec)

lemma deserialize_serialize:
  assumes "config_text_ok cfg" "serialize_wifi_config cfg = Inr blob"
  shows "deserialize_wifi_config blob = Inr cfg"
proof -
  have v: "utf8_valid (wc_hostname cfg)" "list_all (\<lambda>(s, p). utf8_valid s \<and> utf8_valid p) (wc_ssids cfg)"
    using assms(1) by (simp_all add: config_text_ok_def)
  obtain s where b: "enc_list put_ssid (wc_ssids cfg) = Inr s" "length (wc_ssids cfg) < 256"
    "length (wc_hostname cfg) < 2 ^ 16" "length (wc_api_key_hash cfg) < 256"
    "blob = char_of wifi_cfg_version # (u16_le (length (wc_hostname cfg)) @ wc_hostname cfg) @
       (char_of (length (wc_api_key_hash cfg)) # wc_api_key_hash cfg) @ (char_of (length (wc_ssids cfg)) # s)"
    using assms(2)
    by (auto simp: serialize_wifi_config_def put_len16_def put_len8_def put_ssids_def rbind_eq_Inr Let_def
        split: if_splits)
  have "dec_list (length (wc_ssids cfg)) get_ssid s = Inr (wc_ssids cfg, [])"
    using ssid.list_enc_dec [OF v(2) b(1), of "[]"] by simp
  then show ?thesis
    using b(2-5) v(1)
    by (simp add: deserialize_wifi_config_def cfg_u8_def cfg_u16_def cfg_text_append wifi_cfg_version_def)
qed

lemma byte_xor_zero: "byte_xor a b = 0 \<longleftrightarrow> a = b"
  by (metis byte_xor_def char_of_char xor.assoc xor.left_neutral xor.right_neutral xor_self_eq)

lemma fold_or_zero: "fold (\<lambda>(a, b) acc. acc OR byte_xor a b) xs n = 0 \<longleftrightarrow> n = 0 \<and> (\<forall>(a, b) \<in> set xs. a = b)"
  by (induction xs arbitrary: n) (auto simp: or_eq_0_iff byte_xor_zero)

lemma zip_all_eq: "length xs = length ys \<Longrightarrow> (\<forall>(a, b) \<in> set (zip xs ys). a = b) \<longleftrightarrow> xs = ys"
  by (induction xs ys rule: list_induct2) auto

lemma verify_api_key_eq:
  "verify_api_key plaintext cfg = Some (wc_api_key_hash cfg = sha256_standard plaintext)"
  using length_sha256_standard [of plaintext] zip_all_eq [of "wc_api_key_hash cfg" "sha256_standard plaintext"]
  by (auto simp: verify_api_key_def sha256_spec fold_or_zero)

text \<open>C25: A configuration that was saved is loaded back unchanged, host name, key hash and every
  network with its password, when its strings are valid text; a save that fails (a field or
  the whole blob too long, or the store refusing the write) leaves the stored configuration
  as it was; and a stored blob never exceeds 4000 bytes. After setting a key, exactly the
  plaintexts with the SHA-256 digest of the key verify.\<close>

theorem saved_config_is_loaded:
  assumes "config_text_ok cfg"
  shows "\<exists>cfg'. set_api_key key cfg = Some cfg' \<and>
    (case save_wifi_config write_ok cfg' blob of
       (True, blob') \<Rightarrow> load_wifi_config blob' = Some cfg' \<and> length (the blob') \<le> max_wifi_cfg_blob
     | (False, blob') \<Rightarrow> blob' = blob) \<and>
    verify_api_key plaintext cfg' = Some (sha256_standard plaintext = sha256_standard key)"
proof -
  define cfg' where "cfg' = cfg\<lparr>wc_api_key_hash := sha256_standard key\<rparr>"
  have k: "set_api_key key cfg = Some cfg'"
    by (simp add: set_api_key_def sha256_spec cfg'_def)
  have "config_text_ok cfg'" using assms by (simp add: config_text_ok_def cfg'_def)
  note d = deserialize_serialize [OF this]
  have "length b \<le> max_wifi_cfg_blob" if "serialize_wifi_config c = Inr b" for c b
    using that by (auto simp: serialize_wifi_config_def rbind_eq_Inr Let_def split: if_splits)
  then have s: "case save_wifi_config write_ok cfg' blob of
       (True, blob') \<Rightarrow> load_wifi_config blob' = Some cfg' \<and> length (the blob') \<le> max_wifi_cfg_blob
     | (False, blob') \<Rightarrow> blob' = blob"
    using d by (auto simp: save_wifi_config_def load_wifi_config_def split: sum.split)
  have "verify_api_key plaintext cfg' = Some (sha256_standard plaintext = sha256_standard key)"
    by (auto simp: verify_api_key_eq cfg'_def)
  with k s show ?thesis by (intro exI [of _ cfg'] conjI)
qed

definition sample_config :: wifi_config where
  "sample_config = \<lparr>wc_ssids = [(''Home'', ''secret'')], wc_hostname = ''eOMI'', wc_api_key_hash = []\<rparr>"

theorem saved_config_is_loaded_witness:
  "config_text_ok sample_config \<and>
   (\<exists>cfg'. set_api_key ''key'' sample_config = Some cfg' \<and> verify_api_key ''key'' cfg' = Some True)"
proof -
  have u: "utf8_valid ''Home''" "utf8_valid ''secret''" "utf8_valid ''eOMI''"
    by (auto intro!: utf8_valid_ascii simp: ascii_def)
  then have c: "config_text_ok sample_config" by (simp add: config_text_ok_def sample_config_def)
  with saved_config_is_loaded [OF c, where key = "''key''" and write_ok = True and blob = None and plaintext = "''key''"]
  show ?thesis by auto
qed

end
