(* ===== verification/Provision.thy ===== *)
theory Provision
  imports Encoding
begin

text \<open>
  \<open>src/captive_portal.rs\<close>: the routes of the captive portal and the provisioning form.
  The pages themselves are in \<open>PortalPages\<close>.
\<close>

section \<open>Routes\<close>

definition is_omi_api_path :: "string \<Rightarrow> bool" where
  "is_omi_api_path path = (path = ''/omi'' \<or> starts_with ''/omi/'' path)"

definition should_redirect_to_portal :: "string \<Rightarrow> string \<Rightarrow> bool" where
  "should_redirect_to_portal http_method path =
     (if http_method \<noteq> ''GET'' then False
      else if path = ''/'' \<or> path = ''/provision'' \<or> path = ''/scan'' \<or> path = ''/status'' then False
      else if is_omi_api_path path then False
      else True)"

definition redirect_to_form :: "string \<Rightarrow> nat \<times> (string \<times> string) list \<times> string" where
  "redirect_to_form portal_ip =
     (302, [(''Location'', ''http://'' @ portal_ip @ ''/'')], ''Redirecting to captive portal...'')"

section \<open>Data\<close>

record scanned_network =
  sn_ssid :: string
  sn_rssi :: int
  sn_auth :: string

datatype connection_state = CIdle | CConnecting | CConnected | CFailed

record connection_status =
  cs_state :: connection_state
  cs_message :: "string option"
  cs_ip :: "string option"

record wifi_credential =
  cr_ssid :: string
  cr_password :: string

datatype api_key_action = Keep | Generate | SetKey string

record provision_form =
  pf_credentials :: "wifi_credential list"
  pf_hostname :: "string option"
  pf_api_key_action :: api_key_action

datatype form_error = NoCredentials | EmptySsid | InvalidEncoding | ApiKeyRequired

section \<open>Form decoding\<close>

text \<open>The loop over the bytes; \<open>u8_from_hex2\<close> is \<open>from_str_radix\<close> on two bytes that
  are text.\<close>

fun url_decode_bytes :: "string \<Rightarrow> form_error + string" where
  "url_decode_bytes [] = Inr []"
| "url_decode_bytes (b # s) =
     (if b = CHR ''+'' then rbind (url_decode_bytes s) (\<lambda>out. Inr (CHR '' '' # out))
      else if b = CHR ''%'' then
        (case s of
           hi # lo # s' \<Rightarrow>
             if \<not> utf8_valid [hi, lo] then Inl InvalidEncoding
             else (case u8_from_hex2 hi lo of
                     None \<Rightarrow> Inl InvalidEncoding
                   | Some val \<Rightarrow> rbind (url_decode_bytes s') (\<lambda>out. Inr (char_of val # out)))
         | _ \<Rightarrow> Inl InvalidEncoding)
      else rbind (url_decode_bytes s) (\<lambda>out. Inr (b # out)))"

definition url_decode :: "string \<Rightarrow> form_error + string" where
  "url_decode s = rbind (url_decode_bytes s) (\<lambda>out. ok_or InvalidEncoding (from_utf8 out))"

text \<open>\<open>str::split_once\<close> and \<open>str::parse::<usize>\<close> (an optional plus sign, digits, 32 bits).\<close>

definition split_once :: "char \<Rightarrow> string \<Rightarrow> (string \<times> string) option" where
  "split_once c s =
     (if c \<in> set s then Some (takeWhile (\<lambda>x. x \<noteq> c) s, tl (dropWhile (\<lambda>x. x \<noteq> c) s)) else None)"

definition dec_digit :: "char \<Rightarrow> bool" where
  "dec_digit c \<longleftrightarrow> 48 \<le> (byte_of c :: nat) \<and> byte_of c \<le> (57 :: nat)"

definition parse_usize :: "string \<Rightarrow> nat option" where
  "parse_usize s =
     (let d = (case s of c # r \<Rightarrow> if c = CHR ''+'' then r else s | [] \<Rightarrow> s)
      in if d \<noteq> [] \<and> list_all dec_digit d \<and> nat_of_dec 0 d < 2 ^ 32 then Some (nat_of_dec 0 d) else None)"

record form_fields =
  ff_ssids :: "(nat \<times> string) list"
  ff_passwords :: "(nat \<times> string) list"
  ff_hostname :: "string option"
  ff_action :: "string option"
  ff_key :: "string option"

definition form_field :: "nat \<Rightarrow> string \<Rightarrow> string \<Rightarrow> form_fields \<Rightarrow> form_fields" where
  "form_field max_aps key val f =
     (case strip_prefix ''ssid_'' key of
        Some idx_str \<Rightarrow>
          (case parse_usize idx_str of
             Some idx \<Rightarrow> if idx < max_aps then f\<lparr>ff_ssids := ff_ssids f @ [(idx, val)]\<rparr> else f
           | None \<Rightarrow> f)
      | None \<Rightarrow>
          (case strip_prefix ''password_'' key of
             Some idx_str \<Rightarrow>
               (case parse_usize idx_str of
                  Some idx \<Rightarrow> if idx < max_aps then f\<lparr>ff_passwords := ff_passwords f @ [(idx, val)]\<rparr> else f
                | None \<Rightarrow> f)
           | None \<Rightarrow>
               if key = ''hostname'' then (if val \<noteq> [] then f\<lparr>ff_hostname := Some val\<rparr> else f)
               else if key = ''api_key_action'' then f\<lparr>ff_action := Some val\<rparr>
               else if key = ''api_key'' \<and> val \<noteq> [] then f\<lparr>ff_key := Some val\<rparr>
               else f))"

fun form_pairs :: "nat \<Rightarrow> string list \<Rightarrow> form_fields \<Rightarrow> form_error + form_fields" where
  "form_pairs max_aps [] f = Inr f"
| "form_pairs max_aps (pair # ps) f =
     (case split_once CHR ''='' pair of
        None \<Rightarrow> form_pairs max_aps ps f
      | Some (k, v) \<Rightarrow> rbind (url_decode v) (\<lambda>val. form_pairs max_aps ps (form_field max_aps k val f)))"

fun form_credentials :: "(nat \<times> string) list \<Rightarrow> (nat \<times> string) list \<Rightarrow> wifi_credential list" where
  "form_credentials passwords [] = []"
| "form_credentials passwords ((idx, ssid) # ssids) =
     (if ssid = [] then form_credentials passwords ssids
      else \<lparr>cr_ssid = ssid,
            cr_password = (case find (\<lambda>(i, _). i = idx) passwords of None \<Rightarrow> [] | Some (_, p) \<Rightarrow> p)\<rparr>
           # form_credentials passwords ssids)"

definition parse_provision_form :: "string \<Rightarrow> nat \<Rightarrow> bool \<Rightarrow> form_error + provision_form" where
  "parse_provision_form body max_aps is_first_setup =
     rbind (form_pairs max_aps (split_on CHR ''&'' body)
              \<lparr>ff_ssids = [], ff_passwords = [], ff_hostname = None, ff_action = None, ff_key = None\<rparr>) (\<lambda>f.
       let credentials = form_credentials (ff_passwords f) (ff_ssids f)
       in if credentials = [] then Inl NoCredentials
          else if list_ex (\<lambda>c. cr_ssid c = []) credentials then Inl EmptySsid
          else let api_key_action =
                     (if ff_action f = Some ''generate'' then Generate
                      else if ff_action f = Some ''set'' then
                        (case ff_key f of Some key \<Rightarrow> SetKey key | None \<Rightarrow> Keep)
                      else Keep)
               in if is_first_setup \<and> api_key_action = Keep then Inl ApiKeyRequired
                  else Inr \<lparr>pf_credentials = credentials, pf_hostname = ff_hostname f,
                         pf_api_key_action = api_key_action\<rparr>)"

section \<open>What a browser posts\<close>

text \<open>The body of a post of the form: every byte of a field as a percent escape, the fields in
  the order of the page.\<close>

definition percent_encode :: "string \<Rightarrow> string" where
  "percent_encode s = concat (map (\<lambda>c. [CHR ''%'', hex_char (byte_of c div 16), hex_char (byte_of c mod 16)]) s)"

definition form_field_text :: "string \<Rightarrow> string \<Rightarrow> string" where
  "form_field_text k val = k @ CHR ''='' # percent_encode val"

fun credential_fields :: "nat \<Rightarrow> wifi_credential list \<Rightarrow> string list" where
  "credential_fields i [] = []"
| "credential_fields i (c # cs) =
     form_field_text (''ssid_'' @ dec_of_nat i) (cr_ssid c)
     # form_field_text (''password_'' @ dec_of_nat i) (cr_password c) # credential_fields (Suc i) cs"

definition action_fields :: "api_key_action \<Rightarrow> string list" where
  "action_fields a =
     (case a of
        Keep \<Rightarrow> []
      | Generate \<Rightarrow> [form_field_text ''api_key_action'' ''generate'']
      | SetKey k \<Rightarrow> [form_field_text ''api_key_action'' ''set'', form_field_text ''api_key'' k])"

definition form_body :: "provision_form \<Rightarrow> string" where
  "form_body f =
     join_with CHR ''&''
       (credential_fields 0 (pf_credentials f)
        @ (case pf_hostname f of None \<Rightarrow> [] | Some h \<Rightarrow> [form_field_text ''hostname'' h])
        @ action_fields (pf_api_key_action f))"

lemma percent_encode_simps:
  "percent_encode [] = []"
  "percent_encode (c # s) =
     CHR ''%'' # hex_char (byte_of c div 16) # hex_char (byte_of c mod 16) # percent_encode s"
  by (simp_all add: percent_encode_def)

lemma hex_pair_valid: "a < 16 \<Longrightarrow> b < 16 \<Longrightarrow> utf8_valid [hex_char a, hex_char b]"
  using hex_char_plain by (intro utf8_valid_ascii) auto

lemma url_decode_bytes_encode: "url_decode_bytes (percent_encode s) = Inr s"
  by (induction s) (simp_all add: percent_encode_simps hex_pair_valid byte_nibbles u8_from_hex2_encode)

lemma url_decode_encode: "utf8_valid s \<Longrightarrow> url_decode (percent_encode s) = Inr s"
  by (simp add: url_decode_def url_decode_bytes_encode from_utf8_def)

lemma split_once_append: "c \<notin> set k \<Longrightarrow> split_once c (k @ c # v) = Some (k, v)"
  by (auto simp: split_once_def takeWhile_append dropWhile_append)

lemma form_pairs_field:
  "CHR ''='' \<notin> set k \<Longrightarrow> utf8_valid val \<Longrightarrow>
   form_pairs max_aps (form_field_text k val # ps) f = form_pairs max_aps ps (form_field max_aps k val f)"
  by (simp add: form_field_text_def split_once_append url_decode_encode)

lemma percent_encode_no_sep: "CHR ''&'' \<notin> set (percent_encode s)"
proof -
  have "hex_digit CHR ''&'' = None" by (simp add: hex_digit_def)
  then have h: "CHR ''&'' \<noteq> hex_char d" if "d < 16" for d
    using hex_char_digit [OF that] by (metis option.distinct(1))
  show ?thesis
    by (induction s) (simp_all add: percent_encode_simps h [OF byte_nibbles(1)] h [OF byte_nibbles(2)])
qed

lemma dec_of_nat_plain: "CHR ''='' \<notin> set (dec_of_nat n)" "CHR ''&'' \<notin> set (dec_of_nat n)"
  "CHR ''+'' \<notin> set (dec_of_nat n)"
  using dec_of_nat_digits [of _ n] by force+

lemma parse_usize_dec: "n < 2 ^ 32 \<Longrightarrow> parse_usize (dec_of_nat n) = Some n"
proof -
  assume n: "n < 2 ^ 32"
  obtain c r where d: "dec_of_nat n = c # r" using dec_of_nat_neq_Nil by (cases "dec_of_nat n") auto
  have "c \<noteq> CHR ''+''" using dec_of_nat_plain(3) [of n] d by auto
  then have "parse_usize (dec_of_nat n) =
      (if dec_of_nat n \<noteq> [] \<and> list_all dec_digit (dec_of_nat n) \<and> nat_of_dec 0 (dec_of_nat n) < 2 ^ 32
       then Some (nat_of_dec 0 (dec_of_nat n)) else None)"
    by (simp only: parse_usize_def d list.case if_False Let_def)
  moreover have "list_all dec_digit (dec_of_nat n)"
    using dec_of_nat_digits [of _ n] by (auto simp: list_all_iff dec_digit_def)
  ultimately show ?thesis using n dec_of_nat_neq_Nil by simp
qed

lemma credential_field_keys:
  "i < max_aps \<Longrightarrow> i < 2 ^ 32 \<Longrightarrow>
   form_field max_aps (''ssid_'' @ dec_of_nat i) v f = f\<lparr>ff_ssids := ff_ssids f @ [(i, v)]\<rparr>"
  "i < max_aps \<Longrightarrow> i < 2 ^ 32 \<Longrightarrow>
   form_field max_aps (''password_'' @ dec_of_nat i) v f = f\<lparr>ff_passwords := ff_passwords f @ [(i, v)]\<rparr>"
proof -
  have "strip_prefix ''ssid_'' (''password_'' @ dec_of_nat i) = None"
    by (simp add: strip_prefix_def starts_with_def)
  then show "i < max_aps \<Longrightarrow> i < 2 ^ 32 \<Longrightarrow>
      form_field max_aps (''password_'' @ dec_of_nat i) v f = f\<lparr>ff_passwords := ff_passwords f @ [(i, v)]\<rparr>"
    by (simp only: form_field_def strip_prefix_append option.case parse_usize_dec if_True)
  show "i < max_aps \<Longrightarrow> i < 2 ^ 32 \<Longrightarrow>
      form_field max_aps (''ssid_'' @ dec_of_nat i) v f = f\<lparr>ff_ssids := ff_ssids f @ [(i, v)]\<rparr>"
    by (simp only: form_field_def strip_prefix_append option.case parse_usize_dec if_True)
qed

definition good_credential :: "wifi_credential \<Rightarrow> bool" where
  "good_credential c \<longleftrightarrow> cr_ssid c \<noteq> [] \<and> utf8_valid (cr_ssid c) \<and> utf8_valid (cr_password c)"

lemma form_pairs_credentials:
  "list_all good_credential cs \<Longrightarrow> i + length cs \<le> max_aps \<Longrightarrow> max_aps \<le> 2 ^ 32 \<Longrightarrow>
   form_pairs max_aps (credential_fields i cs @ ps) f =
   form_pairs max_aps ps (f\<lparr>ff_ssids := ff_ssids f @ enumerate i (map cr_ssid cs),
     ff_passwords := ff_passwords f @ enumerate i (map cr_password cs)\<rparr>)"
proof (induction i cs arbitrary: f rule: credential_fields.induct)
  case (2 i c cs)
  have i: "i < max_aps" "i < 2 ^ 32" using 2(3,4) by auto
  have c: "utf8_valid (cr_ssid c)" "utf8_valid (cr_password c)"
    using 2(2) by (simp_all add: good_credential_def)
  have k: "CHR ''='' \<notin> set (''ssid_'' @ dec_of_nat i)" "CHR ''='' \<notin> set (''password_'' @ dec_of_nat i)"
    using dec_of_nat_plain(1) [of i] by auto
  have "credential_fields i (c # cs) @ ps =
      form_field_text (''ssid_'' @ dec_of_nat i) (cr_ssid c)
      # form_field_text (''password_'' @ dec_of_nat i) (cr_password c) # credential_fields (Suc i) cs @ ps"
    by simp
  then have "form_pairs max_aps (credential_fields i (c # cs) @ ps) f =
      form_pairs max_aps (credential_fields (Suc i) cs @ ps)
        (f\<lparr>ff_ssids := ff_ssids f @ [(i, cr_ssid c)], ff_passwords := ff_passwords f @ [(i, cr_password c)]\<rparr>)"
    by (simp only: form_pairs_field [OF k(1) c(1)] form_pairs_field [OF k(2) c(2)] credential_field_keys [OF i])
      simp
  then show ?case
    using 2(1) 2(2-4) by simp
qed simp

lemma find_enumerate:
  "find (\<lambda>(j, _). j = i) (enumerate a xs) = (if a \<le> i \<and> i < a + length xs then Some (i, xs ! (i - a)) else None)"
  by (induction xs arbitrary: a) (auto simp: nth_Cons')

lemma form_credentials_enumerate:
  "list_all good_credential ds \<Longrightarrow>
   form_credentials (enumerate 0 (map cr_password (cs @ ds))) (enumerate (length cs) (map cr_ssid ds)) = ds"
proof (induction ds arbitrary: cs)
  case (Cons d ds)
  then show ?case
    using Cons.IH [of "cs @ [d]"] find_enumerate [of "length cs" 0 "map cr_password (cs @ d # ds)"]
    by (simp add: good_credential_def nth_append)
qed simp

definition good_form :: "nat \<Rightarrow> provision_form \<Rightarrow> bool" where
  "good_form max_aps f \<longleftrightarrow>
     pf_credentials f \<noteq> [] \<and> length (pf_credentials f) \<le> max_aps \<and> list_all good_credential (pf_credentials f)
     \<and> (\<forall>h. pf_hostname f = Some h \<longrightarrow> h \<noteq> [] \<and> utf8_valid h)
     \<and> (\<forall>k. pf_api_key_action f = SetKey k \<longrightarrow> k \<noteq> [] \<and> utf8_valid k)"

lemma form_fields_other:
  "form_field max_aps ''hostname'' val f = (if val \<noteq> [] then f\<lparr>ff_hostname := Some val\<rparr> else f)"
  "form_field max_aps ''api_key_action'' val f = f\<lparr>ff_action := Some val\<rparr>"
  "form_field max_aps ''api_key'' val f = (if val \<noteq> [] then f\<lparr>ff_key := Some val\<rparr> else f)"
  by (simp_all add: form_field_def strip_prefix_def starts_with_def)

lemma credential_fields_no_sep: "s \<in> set (credential_fields i cs) \<Longrightarrow> CHR ''&'' \<notin> set s"
  by (induction i cs rule: credential_fields.induct)
    (auto simp: form_field_text_def percent_encode_no_sep dec_of_nat_plain)

lemma action_fields_no_sep: "s \<in> set (action_fields a) \<Longrightarrow> CHR ''&'' \<notin> set s"
  by (cases a) (auto simp: form_field_text_def percent_encode_no_sep action_fields_def)

lemmas fields_no_sep = credential_fields_no_sep action_fields_no_sep


definition sample_form :: provision_form where
  "sample_form = \<lparr>pf_credentials = [\<lparr>cr_ssid = ''home'', cr_password = ''a&b=c''\<rparr>, \<lparr>cr_ssid = ''lab'', cr_password = []\<rparr>],
     pf_hostname = Some ''dev'', pf_api_key_action = SetKey ''k+1''\<rparr>"


end
