(* ===== verification/WifiLoop.thy ===== *)
theory WifiLoop
  imports WifiSm WifiCfg Provision
begin

text \<open>
  \<open>src/wifi_ap.rs\<close> and the WiFi part of \<open>src/main.rs\<close>: the boot sequence, the reconnection and
  provisioning handlers, and the WiFi steps of the main loop. The ESP-IDF driver, the clock, the DNS
  and mDNS servers are a record of functions over a world \<open>'w\<close>; every operation that can fail
  returns the message of its error. A function may panic, and the loops take fuel.
\<close>

section \<open>The WiFi driver\<close>

text \<open>A configuration of the driver: a station, or a station and an access point. SSIDs are
  limited to 32 bytes and passwords to 64 by the driver's string types.\<close>

datatype wifi_configuration = ClientConf string string | MixedConf string string string

record 'w wifi_hw =
  hw_configure :: "wifi_configuration \<Rightarrow> 'w \<Rightarrow> (string + unit) \<times> 'w"
  hw_start :: "'w \<Rightarrow> (string + unit) \<times> 'w"
  hw_connect :: "'w \<Rightarrow> (string + unit) \<times> 'w"
  hw_wait_up :: "'w \<Rightarrow> (string + unit) \<times> 'w"
  hw_set_ap_ip :: "'w \<Rightarrow> 'w"
  hw_is_connected :: "'w \<Rightarrow> bool"
  hw_sta_ip :: "'w \<Rightarrow> string + string"
  hw_scan :: "'w \<Rightarrow> (string + (string \<times> int \<times> string) list) \<times> 'w"
  hw_sleep :: "nat \<Rightarrow> 'w \<Rightarrow> 'w"
  hw_now :: "'w \<Rightarrow> nat"
  hw_start_dns :: "'w \<Rightarrow> bool \<times> 'w"
  hw_start_mdns :: "string \<Rightarrow> 'w \<Rightarrow> bool \<times> 'w"
  hw_nvs_write :: "'w \<Rightarrow> bool \<times> 'w"

text \<open>The question mark operator between driver calls.\<close>

definition hw_then ::
  "('w \<Rightarrow> (string + unit) \<times> 'w) \<Rightarrow> ('w \<Rightarrow> (string + unit) \<times> 'w) \<Rightarrow> 'w \<Rightarrow> (string + unit) \<times> 'w" where
  "hw_then f g w = (case f w of (Inl e, w) \<Rightarrow> (Inl e, w) | (Inr _, w) \<Rightarrow> g w)"

definition max_ap_ssid_len :: nat where "max_ap_ssid_len = 32"

definition ap_ssid :: "string \<Rightarrow> string option" where
  "ap_ssid hostname =
     (let prefix = ''setup-''; max_host = max_ap_ssid_len - length prefix
      in if max_host < length hostname
         then (if char_boundary (drop max_host hostname) then Some (prefix @ take max_host hostname) else None)
         else Some (prefix @ hostname))"

definition start_ap :: "'w wifi_hw \<Rightarrow> string \<Rightarrow> 'w \<Rightarrow> ((string + unit) \<times> 'w) option" where
  "start_ap hw hostname w = do {
     ssid \<leftarrow> ap_ssid hostname;
     Some (if 32 < length ssid then (Inl ''AP SSID too long'', w)
           else hw_then (hw_configure hw (MixedConf [] [] ssid))
                  (hw_then (hw_start hw) (\<lambda>w. (Inr (), hw_sleep hw 500 (hw_set_ap_ip hw w)))) w)
   }"

definition stop_ap :: "'w wifi_hw \<Rightarrow> 'w \<Rightarrow> (string + unit) \<times> 'w" where
  "stop_ap hw = hw_then (hw_configure hw (ClientConf [] [])) (hw_start hw)"

fun unique_networks :: "string list \<Rightarrow> (string \<times> int \<times> string) list \<Rightarrow> scanned_network list" where
  "unique_networks seen [] = []"
| "unique_networks seen ((ssid, rssi, auth) # aps) =
     (if ssid = [] \<or> ssid \<in> set seen then unique_networks seen aps
      else \<lparr>sn_ssid = ssid, sn_rssi = rssi, sn_auth = auth\<rparr> # unique_networks (ssid # seen) aps)"

definition scan_networks :: "'w wifi_hw \<Rightarrow> 'w \<Rightarrow> (string + scanned_network list) \<times> 'w" where
  "scan_networks hw w =
     (case hw_scan hw w of
        (Inl e, w) \<Rightarrow> (Inl e, w)
      | (Inr aps, w) \<Rightarrow> (Inr (unique_networks [] aps), w))"

definition try_connect_sta ::
  "'w wifi_hw \<Rightarrow> string \<Rightarrow> string \<Rightarrow> string \<Rightarrow> 'w \<Rightarrow> ((string + unit) \<times> 'w) option" where
  "try_connect_sta hw ssid password ap_hostname w =
     (if 32 < length ssid then Some (Inl ''SSID too long'', w)
      else if 64 < length password then Some (Inl ''Password too long'', w)
      else do {
        ap \<leftarrow> ap_ssid ap_hostname;
        Some (if 32 < length ap then (Inl ''AP SSID too long'', w)
              else hw_then (hw_configure hw (MixedConf ssid password ap))
                     (hw_then (hw_start hw) (hw_then (hw_connect hw) (hw_wait_up hw))) w)
      })"

definition try_connect :: "'w wifi_hw \<Rightarrow> string \<Rightarrow> string \<Rightarrow> 'w \<Rightarrow> (string + unit) \<times> 'w" where
  "try_connect hw ssid pass w =
     (if 32 < length ssid then (Inl ''SSID too long'', w)
      else if 64 < length pass then (Inl ''Password too long'', w)
      else hw_then (hw_configure hw (ClientConf ssid pass))
             (hw_then (hw_start hw) (hw_then (hw_connect hw) (hw_wait_up hw))) w)"

section \<open>The device\<close>

datatype server_mode = ModeNormal | ModePortal

record pending_provision =
  pp_form :: provision_form
  pp_generated_key :: "string option"

record 'w wifi_dev =
  dv_sm :: wifi_sm
  dv_creds :: "(string \<times> string) list"
  dv_hostname :: string
  dv_ap :: bool
  dv_dns :: bool
  dv_mdns :: bool
  dv_mode :: server_mode
  dv_status :: connection_status
  dv_form_ssids :: "string list"
  dv_form_hostname :: string
  dv_first_setup :: bool
  dv_form_error :: "string option"
  dv_scan :: "scanned_network list"
  dv_cfg :: wifi_config
  dv_nvs :: "string option"
  dv_deadline :: "nat option"
  dv_elapsed :: nat
  dv_scan_elapsed :: nat
  dv_world :: 'w

definition feed :: "wifi_event \<Rightarrow> 'w wifi_dev \<Rightarrow> wifi_action \<times> 'w wifi_dev" where
  "feed event d = (case wifi_handle_event event (dv_sm d) of (a, sm) \<Rightarrow> (a, d\<lparr>dv_sm := sm\<rparr>))"

section \<open>Boot\<close>

fun drive_initial_connect :: "nat \<Rightarrow> 'w wifi_hw \<Rightarrow> 'w wifi_dev \<Rightarrow> 'w wifi_dev outcome" where
  "drive_initial_connect 0 hw d = OutOfFuel"
| "drive_initial_connect (Suc n) hw d =
     (case ws_state (dv_sm d) of
        WConnecting idx \<Rightarrow>
          (if length (dv_creds d) \<le> idx then Panicked
           else case dv_creds d ! idx of (ssid, pass) \<Rightarrow>
             (case try_connect hw ssid pass (dv_world d) of
                (r, w) \<Rightarrow> drive_initial_connect n hw
                  (snd (feed (if is_ok r then ConnectSuccess else WConnectFailed) (d\<lparr>dv_world := w\<rparr>)))))
      | Backoff \<Rightarrow>
          drive_initial_connect n hw
            (snd (feed BackoffComplete (d\<lparr>dv_world := hw_sleep hw (backoff_ms (dv_sm d)) (dv_world d)\<rparr>)))
      | WConnected \<Rightarrow> Finished d
      | _ \<Rightarrow>
          (if dv_ap d then Finished d
           else obind (or_panic (start_ap hw (dv_hostname d) (dv_world d))) (\<lambda>(r, w).
             Finished (d\<lparr>dv_ap := is_ok r, dv_world := w\<rparr>))))"

definition in_portal :: "'w wifi_dev \<Rightarrow> bool" where
  "in_portal d = (ws_state (dv_sm d) \<in> {Portal, Unconfigured})"

text \<open>\<open>wifi_ap::start_ap(...)?\<close> followed by the DNS server: an error ends \<open>main\<close>, so it is a
  sum.\<close>

definition boot_portal :: "'w wifi_hw \<Rightarrow> 'w wifi_dev \<Rightarrow> (string + 'w wifi_dev) outcome" where
  "boot_portal hw d =
     obind (or_panic (start_ap hw (dv_hostname d) (dv_world d))) (\<lambda>(r, w).
       Finished (case r of
         Inl e \<Rightarrow> Inl e
       | Inr _ \<Rightarrow> (case hw_start_dns hw w of
           (dns, w) \<Rightarrow> Inr (d\<lparr>dv_ap := True, dv_dns := dns, dv_world := w\<rparr>))))"

definition boot_creds ::
  "bool \<Rightarrow> (string \<times> string) option \<Rightarrow> (string \<times> string) list \<Rightarrow> (string \<times> string) list" where
  "boot_creds force_portal built_in ssids =
     (if force_portal then []
      else fold (\<lambda>(s, p) creds. if s \<in> fst ` set creds then creds else creds @ [(s, p)]) ssids
             (case built_in of None \<Rightarrow> [] | Some sp \<Rightarrow> [sp]))"

definition current_mode :: "'w wifi_dev \<Rightarrow> server_mode" where
  "current_mode d =
     (if dv_ap d \<and> ws_state (dv_sm d) \<noteq> WConnected then ModePortal
      else if dv_creds d = [] then ModePortal else ModeNormal)"

text \<open>The end of the sequence: the mode, and mDNS when connected.\<close>

definition boot_finish :: "'w wifi_hw \<Rightarrow> 'w wifi_dev \<Rightarrow> string + 'w wifi_dev" where
  "boot_finish hw d =
     (let d = d\<lparr>dv_mode := current_mode d\<rparr>
      in if ws_state (dv_sm d) = WConnected
         then (case hw_sta_ip hw (dv_world d) of
             Inl e \<Rightarrow> Inl e
           | Inr _ \<Rightarrow> (case hw_start_mdns hw (dv_hostname d) (dv_world d) of
                 (m, w) \<Rightarrow> Inr (d\<lparr>dv_mdns := m, dv_world := w\<rparr>)))
         else Inr d)"

definition boot_wifi :: "nat \<Rightarrow> 'w wifi_hw \<Rightarrow> 'w wifi_dev \<Rightarrow> (string + 'w wifi_dev) outcome" where
  "boot_wifi n hw d =
     (let d = d\<lparr>dv_sm := wifi_new (length (dv_creds d)) wifi_default_config,
                dv_ap := False, dv_dns := False, dv_mdns := False\<rparr>
      in obind (if wifi_initial_action (dv_sm d) = StartPortal then boot_portal hw d else Finished (Inr d))
         (\<lambda>r. case r of Inl e \<Rightarrow> Finished (Inl e) | Inr d \<Rightarrow>
         obind (case ws_state (dv_sm d) of WConnecting _ \<Rightarrow> drive_initial_connect n hw d | _ \<Rightarrow> Finished d) (\<lambda>d.
         obind (if in_portal d \<and> \<not> dv_ap d then boot_portal hw d else Finished (Inr d))
         (\<lambda>r. Finished (case r of Inl e \<Rightarrow> Inl e | Inr d \<Rightarrow> boot_finish hw d)))))"

section \<open>Reconnection\<close>

definition start_portal :: "'w wifi_hw \<Rightarrow> 'w wifi_dev \<Rightarrow> 'w wifi_dev outcome" where
  "start_portal hw d =
     (if dv_ap d then Finished d
      else obind (or_panic (start_ap hw (dv_hostname d) (dv_world d))) (\<lambda>(r, w).
        Finished (if is_ok r
          then (case hw_start_dns hw w of
                  (dns, w) \<Rightarrow> d\<lparr>dv_ap := True, dv_dns := dns, dv_mode := ModePortal, dv_world := w\<rparr>)
          else d\<lparr>dv_world := w\<rparr>)))"

definition stop_portal :: "'w wifi_hw \<Rightarrow> 'w wifi_dev \<Rightarrow> 'w wifi_dev" where
  "stop_portal hw d =
     (let d = d\<lparr>dv_dns := False\<rparr>;
          d = (if dv_ap d
               then (case stop_ap hw (dv_world d) of (r, w) \<Rightarrow> d\<lparr>dv_ap := \<not> is_ok r, dv_world := w\<rparr>)
               else d)
      in d\<lparr>dv_mode := ModeNormal\<rparr>)"

fun handle_reconnect_action ::
  "nat \<Rightarrow> 'w wifi_hw \<Rightarrow> wifi_action \<Rightarrow> 'w wifi_dev \<Rightarrow> 'w wifi_dev outcome" where
  "handle_reconnect_action 0 hw a d = OutOfFuel"
| "handle_reconnect_action (Suc n) hw a d =
     (case a of
        TryConnect ssid_index \<Rightarrow>
          (if length (dv_creds d) \<le> ssid_index then Finished d
           else case dv_creds d ! ssid_index of (ssid, pass) \<Rightarrow>
             (case try_connect hw ssid pass (dv_world d) of
                (r, w) \<Rightarrow>
                  (case feed (if is_ok r then ConnectSuccess else WConnectFailed) (d\<lparr>dv_world := w\<rparr>) of
                     (a, d) \<Rightarrow> handle_reconnect_action n hw a d)))
      | StartPortal \<Rightarrow> start_portal hw d
      | StopPortal \<Rightarrow> Finished (stop_portal hw d)
      | WaitBackoff ms \<Rightarrow> Finished (d\<lparr>dv_deadline := Some (hw_now hw (dv_world d) + ms)\<rparr>)
      | WIdle \<Rightarrow> Finished d)"

definition find_saved_ssid_in_scan :: "scanned_network list \<Rightarrow> (string \<times> string) list \<Rightarrow> nat option" where
  "find_saved_ssid_in_scan networks creds =
     find (\<lambda>i. fst (creds ! i) \<in> sn_ssid ` set networks) [0..<length creds]"

definition handle_portal_reconnect :: "'w wifi_hw \<Rightarrow> wifi_action \<Rightarrow> 'w wifi_dev \<Rightarrow> 'w wifi_dev outcome" where
  "handle_portal_reconnect hw a d =
     (case a of
        TryConnect ssid_index \<Rightarrow>
          (if ssid_index < length (dv_creds d)
           then (case dv_creds d ! ssid_index of (ssid, pass) \<Rightarrow>
             obind (or_panic (try_connect_sta hw ssid pass (dv_hostname d) (dv_world d))) (\<lambda>(r, w).
               let d = d\<lparr>dv_world := w\<rparr>
               in Finished (if is_ok r
                    then (case portal_connect_succeeded (dv_sm d) of (stop_action, sm) \<Rightarrow>
                      let d = d\<lparr>dv_sm := sm\<rparr>
                      in if stop_action = StopPortal then stop_portal hw d else d)
                    else snd (feed WConnectFailed d))))
           else Finished d)
      | _ \<Rightarrow> Finished d)"

section \<open>Provisioning\<close>

fun set_password :: "string \<Rightarrow> string \<Rightarrow> (string \<times> string) list \<Rightarrow> (string \<times> string) list" where
  "set_password ssid pass [] = []"
| "set_password ssid pass ((s, p) # creds) =
     (if s = ssid then (s, pass) # creds else (s, p) # set_password ssid pass creds)"

definition merge_credential :: "wifi_credential \<Rightarrow> (string \<times> string) list \<Rightarrow> (string \<times> string) list" where
  "merge_credential c creds =
     (if cr_ssid c \<notin> fst ` set creds then creds @ [(cr_ssid c, cr_password c)]
      else if cr_password c \<noteq> [] then set_password (cr_ssid c) (cr_password c) creds
      else creds)"

definition provision_key :: "pending_provision \<Rightarrow> wifi_config \<Rightarrow> wifi_config option" where
  "provision_key p cfg =
     (case pf_api_key_action (pp_form p) of
        Generate \<Rightarrow> (case pp_generated_key p of Some key \<Rightarrow> set_api_key key cfg | None \<Rightarrow> Some cfg)
      | SetKey key \<Rightarrow> set_api_key key cfg
      | Keep \<Rightarrow> Some cfg)"

text \<open>Hostname, API key, credentials and the stored configuration, up to the call of
  \<open>credentials_updated\<close>.\<close>

definition provision_config :: "'w wifi_hw \<Rightarrow> pending_provision \<Rightarrow> 'w wifi_dev \<Rightarrow> 'w wifi_dev outcome" where
  "provision_config hw p d =
     (let hostname = (case pf_hostname (pp_form p) of None \<Rightarrow> dv_hostname d | Some h \<Rightarrow> h);
          creds = fold merge_credential (pf_credentials (pp_form p)) (dv_creds d)
      in obind (or_panic (provision_key p (dv_cfg d))) (\<lambda>cfg.
           let cfg = cfg\<lparr>wc_ssids := creds, wc_hostname := hostname\<rparr>
           in case (if is_ok (serialize_wifi_config cfg) then hw_nvs_write hw (dv_world d)
                    else (False, dv_world d)) of (ok, w) \<Rightarrow>
             Finished (d\<lparr>dv_hostname := hostname, dv_creds := creds, dv_cfg := cfg,
               dv_nvs := snd (save_wifi_config ok cfg (dv_nvs d)),
               dv_form_ssids := map fst creds, dv_form_hostname := hostname, dv_first_setup := False,
               dv_world := w\<rparr>)))"

definition provision_connect :: "'w wifi_hw \<Rightarrow> wifi_action \<Rightarrow> 'w wifi_dev \<Rightarrow> 'w wifi_dev outcome" where
  "provision_connect hw a d =
     (case a of
        TryConnect ssid_index \<Rightarrow>
          (if ssid_index < length (dv_creds d)
           then (case dv_creds d ! ssid_index of (ssid, pass) \<Rightarrow>
             obind (or_panic (try_connect_sta hw ssid pass (dv_hostname d) (dv_world d))) (\<lambda>(r, w).
               let d = d\<lparr>dv_world := w\<rparr>
               in Finished (case r of
                    Inr _ \<Rightarrow>
                      (snd (feed ConnectSuccess d))
                        \<lparr>dv_status := \<lparr>cs_state = CConnected, cs_message = None, cs_ip = Some (case hw_sta_ip hw w of Inl _ \<Rightarrow> [] | Inr ip \<Rightarrow> ip)\<rparr>,
                         dv_dns := False, dv_mode := ModeNormal\<rparr>
                  | Inl e \<Rightarrow>
                      (snd (feed WConnectFailed d))
                        \<lparr>dv_status := \<lparr>cs_state = CFailed, cs_message = Some (''Connection failed: '' @ e), cs_ip = None\<rparr>,
                         dv_form_error := Some (''Connection to '' @ ssid @ '' failed: '' @ e)\<rparr>)))
           else Finished d)
      | _ \<Rightarrow> Finished d)"

definition handle_provision :: "'w wifi_hw \<Rightarrow> pending_provision \<Rightarrow> 'w wifi_dev \<Rightarrow> 'w wifi_dev outcome" where
  "handle_provision hw p d =
     obind (provision_config hw p d) (\<lambda>d'.
       case credentials_updated (length (dv_creds d')) (length (dv_creds d)) (dv_sm d') of
         (a, sm) \<Rightarrow> provision_connect hw a (d'\<lparr>dv_sm := sm\<rparr>))"

section \<open>The main loop\<close>

definition poll_interval_ms :: nat where "poll_interval_ms = 100"
definition tick_interval_ms :: nat where "tick_interval_ms = 5000"
definition scan_interval_ms :: nat where "scan_interval_ms = 15000"

definition step_provision :: "'w wifi_hw \<Rightarrow> pending_provision option \<Rightarrow> 'w wifi_dev \<Rightarrow> 'w wifi_dev outcome" where
  "step_provision hw prov d =
     (case prov of
        None \<Rightarrow> Finished d
      | Some p \<Rightarrow> obind (handle_provision hw p d) (\<lambda>d.
          Finished (if dv_mdns d
            then (case hw_start_mdns hw (dv_hostname d) (dv_world d) of
                    (m, w) \<Rightarrow> d\<lparr>dv_mdns := m, dv_world := w\<rparr>)
            else d)))"

definition step_backoff :: "nat \<Rightarrow> 'w wifi_hw \<Rightarrow> 'w wifi_dev \<Rightarrow> 'w wifi_dev outcome" where
  "step_backoff n hw d =
     (case dv_deadline d of
        Some deadline \<Rightarrow>
          (if deadline \<le> hw_now hw (dv_world d)
           then (case feed BackoffComplete (d\<lparr>dv_deadline := None\<rparr>) of
                   (a, d) \<Rightarrow> handle_reconnect_action n hw a d)
           else Finished d)
      | None \<Rightarrow> Finished d)"

definition step_scan :: "'w wifi_hw \<Rightarrow> 'w wifi_dev \<Rightarrow> 'w wifi_dev outcome" where
  "step_scan hw d =
     (if dv_ap d \<and> scan_interval_ms \<le> dv_scan_elapsed d
      then (case scan_networks hw (dv_world d) of
          (Inl e, w) \<Rightarrow> Finished (d\<lparr>dv_scan_elapsed := 0, dv_world := w\<rparr>)
        | (Inr networks, w) \<Rightarrow>
            (let d = d\<lparr>dv_scan_elapsed := 0, dv_world := w\<rparr>
             in obind (if in_portal d
                  then (case find_saved_ssid_in_scan networks (dv_creds d) of
                          None \<Rightarrow> Finished d
                        | Some idx \<Rightarrow> (case feed (SavedSsidFound idx) d of
                            (a, d) \<Rightarrow> handle_portal_reconnect hw a d))
                  else Finished d) (\<lambda>d. Finished (d\<lparr>dv_scan := networks\<rparr>))))
      else Finished d)"

definition step_connection :: "nat \<Rightarrow> 'w wifi_hw \<Rightarrow> 'w wifi_dev \<Rightarrow> 'w wifi_dev outcome" where
  "step_connection n hw d =
     (if \<not> hw_is_connected hw (dv_world d) \<and> ws_state (dv_sm d) = WConnected
      then (case feed ConnectionLost d of (a, d) \<Rightarrow> handle_reconnect_action n hw a d)
      else Finished d)"

definition step_mode :: "'w wifi_hw \<Rightarrow> 'w wifi_dev \<Rightarrow> 'w wifi_dev" where
  "step_mode hw d =
     (let d = d\<lparr>dv_mode := (if ws_state (dv_sm d) = WConnected then ModeNormal
                              else if in_portal d then ModePortal else dv_mode d)\<rparr>
      in if ws_state (dv_sm d) = WConnected
         then (if dv_mdns d then d
               else (case hw_start_mdns hw (dv_hostname d) (dv_world d) of
                       (m, w) \<Rightarrow> d\<lparr>dv_mdns := m, dv_world := w\<rparr>))
         else d\<lparr>dv_mdns := False\<rparr>)"

definition loop_step ::
  "nat \<Rightarrow> 'w wifi_hw \<Rightarrow> pending_provision option \<Rightarrow> 'w wifi_dev \<Rightarrow> 'w wifi_dev outcome" where
  "loop_step n hw prov d =
     (let d = d\<lparr>dv_world := hw_sleep hw poll_interval_ms (dv_world d),
                dv_elapsed := dv_elapsed d + poll_interval_ms,
                dv_scan_elapsed := dv_scan_elapsed d + poll_interval_ms\<rparr>
      in obind (step_provision hw prov d) (\<lambda>d.
         obind (step_backoff n hw d) (\<lambda>d.
         obind (step_scan hw d) (\<lambda>d.
           if dv_elapsed d < tick_interval_ms then Finished d
           else obind (step_connection n hw (d\<lparr>dv_elapsed := 0\<rparr>)) (\<lambda>d. Finished (step_mode hw d))))))"

fun loop_steps ::
  "nat \<Rightarrow> 'w wifi_hw \<Rightarrow> pending_provision option list \<Rightarrow> 'w wifi_dev \<Rightarrow> 'w wifi_dev outcome" where
  "loop_steps n hw [] d = Finished d"
| "loop_steps n hw (p # ps) d = obind (loop_step n hw p d) (loop_steps n hw ps)"

end
