(* ===== verification/WifiLoopSpec.thy ===== *)
theory WifiLoopSpec
  imports WifiLoop
begin

text \<open>
  What the WiFi part of the firmware guarantees: the boot sequence settles, the main loop keeps
  the state machine and the credentials together and never panics, and what happens after a
  failed provisioning.
\<close>

section \<open>The driver\<close>

lemma ap_ssid_length: "ap_ssid h = Some s \<Longrightarrow> length s \<le> 32"
  by (auto simp: ap_ssid_def max_ap_ssid_len_def Let_def split: if_splits)

lemma start_ap_total: "ap_ssid h \<noteq> None \<Longrightarrow> \<exists>r w'. start_ap hw h w = Some (r, w')"
  by (auto simp: start_ap_def)

lemma try_connect_sta_total: "ap_ssid h \<noteq> None \<Longrightarrow> \<exists>r w'. try_connect_sta hw s p h w = Some (r, w')"
  by (auto simp: try_connect_sta_def)

section \<open>The device invariant\<close>

definition dev_ok :: "'w wifi_dev \<Rightarrow> bool" where
  "dev_ok d \<longleftrightarrow> wifi_ok (dv_sm d) \<and> ws_num_creds (dv_sm d) = length (dv_creds d)
     \<and> ap_ssid (dv_hostname d) \<noteq> None"

lemma wifi_handle_event_creds:
  "wifi_handle_event e sm = (a, sm') \<Longrightarrow> ws_num_creds sm' = ws_num_creds sm \<and> ws_config sm' = ws_config sm"
  by (auto simp: wifi_handle_event_def start_backoff_or_portal_def Let_def
      split: wifi_state.splits wifi_event.splits if_splits)

lemma feed_ok:
  assumes "dev_ok d" "feed e d = (a, d')" "wifi_fits (dv_sm d) (Handle e)"
  shows "dev_ok d'" "action_fits (dv_sm d') a" "dv_creds d' = dv_creds d"
proof -
  obtain sm where sm: "wifi_handle_event e (dv_sm d) = (a, sm)" "d' = d\<lparr>dv_sm := sm\<rparr>"
    using assms(2) by (auto simp: feed_def split: prod.splits)
  have "wifi_ok sm" using wifi.step_ok [of "dv_sm d" "Handle e"] assms(1,3) sm(1) by (simp add: dev_ok_def)
  then show "dev_ok d'" using assms(1) sm wifi_handle_event_creds by (simp add: dev_ok_def)
  show "action_fits (dv_sm d') a" using wifi_step_action [of "Handle e"] sm by simp
  show "dv_creds d' = dv_creds d" using sm by simp
qed

lemma feed_snd_ok:
  "dev_ok d \<Longrightarrow> wifi_fits (dv_sm d) (Handle e) \<Longrightarrow>
   dev_ok (snd (feed e d)) \<and> dv_creds (snd (feed e d)) = dv_creds d"
  by (cases "feed e d") (simp add: feed_ok)

lemma connect_events_fit [simp]:
  "wifi_fits sm (Handle (if b then ConnectSuccess else WConnectFailed))"
  "wifi_fits sm (Handle BackoffComplete)" "wifi_fits sm (Handle ConnectionLost)"
  "wifi_fits sm (Handle ConnectSuccess)" "wifi_fits sm (Handle WConnectFailed)"
  by (auto simp: wifi_fits_def)

text \<open>A handler finishes, keeps the invariant and the credentials.\<close>

definition keeps :: "'w wifi_dev \<Rightarrow> 'w wifi_dev outcome \<Rightarrow> bool" where
  "keeps d r \<longleftrightarrow> (\<exists>d'. r = Finished d' \<and> dev_ok d' \<and> dv_creds d' = dv_creds d)"

lemma keeps_Finished [simp]: "keeps d (Finished d') \<longleftrightarrow> dev_ok d' \<and> dv_creds d' = dv_creds d"
  by (simp add: keeps_def)

lemma keeps_obind:
  "keeps d r \<Longrightarrow> (\<And>d'. dev_ok d' \<Longrightarrow> dv_creds d' = dv_creds d \<Longrightarrow> keeps d' (f d')) \<Longrightarrow> keeps d (obind r f)"
  by (fastforce simp: keeps_def)

lemma keeps_creds: "keeps d r \<Longrightarrow> dv_creds d' = dv_creds d \<Longrightarrow> keeps d' r"
  by (simp add: keeps_def)

lemma dev_ok_other [simp]:
  "dev_ok (d\<lparr>dv_world := w\<rparr>) = dev_ok d" "dev_ok (d\<lparr>dv_deadline := x\<rparr>) = dev_ok d"
  "dev_ok (d\<lparr>dv_ap := b\<rparr>) = dev_ok d" "dev_ok (d\<lparr>dv_dns := b\<rparr>) = dev_ok d"
  "dev_ok (d\<lparr>dv_mode := m\<rparr>) = dev_ok d" "dev_ok (d\<lparr>dv_elapsed := n\<rparr>) = dev_ok d"
  "dev_ok (d\<lparr>dv_scan_elapsed := n\<rparr>) = dev_ok d" "dev_ok (d\<lparr>dv_scan := ns\<rparr>) = dev_ok d"
  "dev_ok (d\<lparr>dv_mdns := b\<rparr>) = dev_ok d" "dev_ok (d\<lparr>dv_status := st\<rparr>) = dev_ok d"
  "dev_ok (d\<lparr>dv_form_error := fe\<rparr>) = dev_ok d"
  by (simp_all add: dev_ok_def)

lemma start_portal_keeps: "dev_ok d \<Longrightarrow> keeps d (start_portal hw d)"
  using start_ap_total [of "dv_hostname d" hw "dv_world d"]
  by (auto simp: start_portal_def dev_ok_def split: prod.splits)

lemma stop_portal_keeps: "dev_ok d \<Longrightarrow> dev_ok (stop_portal hw d) \<and> dv_creds (stop_portal hw d) = dv_creds d"
  by (simp add: stop_portal_def Let_def split: prod.splits)

section \<open>Reconnection ends\<close>

definition attempts_left :: "nat \<Rightarrow> wifi_action \<Rightarrow> nat" where
  "attempts_left n a = (case a of TryConnect i \<Rightarrow> n - i | _ \<Rightarrow> 0)"

lemma connect_action_decreases:
  assumes "feed (if b then ConnectSuccess else WConnectFailed) d = (a, d')"
    "ws_state (dv_sm d) = WConnecting i" "i < ws_num_creds (dv_sm d)"
  shows "attempts_left (ws_num_creds (dv_sm d)) a < ws_num_creds (dv_sm d) - i"
  using assms
  by (auto simp: feed_def wifi_handle_event_def start_backoff_or_portal_def Let_def attempts_left_def
      split: if_splits prod.splits)

lemma handle_reconnect_action_keeps:
  "dev_ok d \<Longrightarrow> action_fits (dv_sm d) a \<Longrightarrow> attempts_left (length (dv_creds d)) a < n \<Longrightarrow>
   keeps d (handle_reconnect_action n hw a d)"
proof (induction n arbitrary: a d)
  case (Suc n)
  show ?case
  proof (cases a)
    case (TryConnect i)
    with Suc.prems have i: "ws_state (dv_sm d) = WConnecting i" "i < length (dv_creds d)"
      by (auto simp: dev_ok_def wifi_ok_def)
    obtain ssid pass where c: "dv_creds d ! i = (ssid, pass)" by (cases "dv_creds d ! i")
    obtain r w where r: "try_connect hw ssid pass (dv_world d) = (r, w)"
      by (cases "try_connect hw ssid pass (dv_world d)")
    obtain a' d' where f: "feed (if is_ok r then ConnectSuccess else WConnectFailed) (d\<lparr>dv_world := w\<rparr>) = (a', d')"
      by (cases "feed (if is_ok r then ConnectSuccess else WConnectFailed) (d\<lparr>dv_world := w\<rparr>)")
    have ok: "dev_ok d'" "action_fits (dv_sm d') a'" "dv_creds d' = dv_creds d"
      using feed_ok [OF _ f] Suc.prems(1) by simp_all
    have "attempts_left (length (dv_creds d)) a' < length (dv_creds d) - i"
      using connect_action_decreases [OF f] i Suc.prems(1) by (simp add: dev_ok_def)
    then have "keeps d' (handle_reconnect_action n hw a' d')"
      using Suc.prems(3) ok by (intro Suc.IH) (simp_all add: TryConnect attempts_left_def)
    then show ?thesis
      using i(2) ok(3) by (simp add: TryConnect c r f keeps_creds)
  qed (use Suc.prems stop_portal_keeps start_portal_keeps in \<open>simp_all\<close>)
qed simp

lemma attempts_left_le: "attempts_left n a \<le> n"
  by (simp add: attempts_left_def split: wifi_action.splits)

lemma feed_reconnect_keeps:
  assumes "dev_ok d" "wifi_fits (dv_sm d) (Handle e)" "length (dv_creds d) < n"
  shows "keeps d (case feed e d of (a, d) \<Rightarrow> handle_reconnect_action n hw a d)"
proof -
  obtain a d' where f: "feed e d = (a, d')" by (cases "feed e d")
  note ok = feed_ok [OF assms(1) f assms(2)]
  have "attempts_left (length (dv_creds d')) a < n"
    using attempts_left_le [of "length (dv_creds d')" a] assms(3) ok(3) by simp
  with ok show ?thesis
    using handle_reconnect_action_keeps [of d' a n hw] by (simp add: f keeps_creds)
qed

lemma step_backoff_keeps: "dev_ok d \<Longrightarrow> length (dv_creds d) < n \<Longrightarrow> keeps d (step_backoff n hw d)"
  using feed_reconnect_keeps [of "d\<lparr>dv_deadline := None\<rparr>" BackoffComplete n hw]
  by (auto simp: step_backoff_def keeps_creds split: option.splits)

lemma step_connection_keeps: "dev_ok d \<Longrightarrow> length (dv_creds d) < n \<Longrightarrow> keeps d (step_connection n hw d)"
  using feed_reconnect_keeps [of d ConnectionLost n hw] by (simp add: step_connection_def)

section \<open>Scanning and portal reconnection\<close>

lemma find_saved_ssid_in_scan_Some:
  "find_saved_ssid_in_scan networks creds = Some i \<Longrightarrow>
   i < length creds \<and> fst (creds ! i) \<in> sn_ssid ` set networks"
  by (auto simp: find_saved_ssid_in_scan_def find_Some_iff)

lemma handle_portal_reconnect_keeps:
  assumes "dev_ok d" "action_fits (dv_sm d) a" "dv_creds d \<noteq> []"
  shows "keeps d (handle_portal_reconnect hw a d)"
proof (cases "\<exists>i. a = TryConnect i \<and> i < length (dv_creds d)")
  case True
  then obtain i where i: "a = TryConnect i" "i < length (dv_creds d)" by blast
  obtain ssid pass where c: "dv_creds d ! i = (ssid, pass)" by (cases "dv_creds d ! i")
  obtain r w where r: "try_connect_sta hw ssid pass (dv_hostname d) (dv_world d) = Some (r, w)"
    using try_connect_sta_total [of "dv_hostname d" hw ssid pass "dv_world d"] assms(1) by (auto simp: dev_ok_def)
  have "dev_ok (d\<lparr>dv_world := w, dv_sm := (dv_sm d)\<lparr>ws_state := WConnected\<rparr>\<rparr>)"
    using assms(1,3) by (simp add: dev_ok_def wifi_ok_def)
  moreover obtain a' d' where f: "feed WConnectFailed (d\<lparr>dv_world := w\<rparr>) = (a', d')"
    by (cases "feed WConnectFailed (d\<lparr>dv_world := w\<rparr>)")
  then have "dev_ok d' \<and> dv_creds d' = dv_creds d"
    using feed_ok [OF _ f] assms(1) by simp
  ultimately show ?thesis
    using i c stop_portal_keeps by (fastforce simp: handle_portal_reconnect_def r f portal_connect_succeeded_def Let_def)
qed (use assms in \<open>auto simp: handle_portal_reconnect_def split: wifi_action.splits\<close>)

lemma step_scan_keeps:
  assumes "dev_ok d"
  shows "keeps d (step_scan hw d)"
proof (cases "dv_ap d \<and> scan_interval_ms \<le> dv_scan_elapsed d")
  case True
  obtain r w where r: "scan_networks hw (dv_world d) = (r, w)" by (cases "scan_networks hw (dv_world d)")
  let ?d = "d\<lparr>dv_scan_elapsed := 0, dv_world := w\<rparr>"
  have ok: "dev_ok ?d" using assms by simp
  show ?thesis
  proof (cases r)
    case (Inr networks)
    have "keeps ?d (if in_portal ?d
                  then (case find_saved_ssid_in_scan networks (dv_creds ?d) of
                          None \<Rightarrow> Finished ?d
                        | Some idx \<Rightarrow> (case feed (SavedSsidFound idx) ?d of
                            (a, d) \<Rightarrow> handle_portal_reconnect hw a d))
                  else Finished ?d)"
    proof (cases "find_saved_ssid_in_scan networks (dv_creds ?d)")
      case (Some i)
      obtain a d' where f: "feed (SavedSsidFound i) ?d = (a, d')" by (cases "feed (SavedSsidFound i) ?d")
      have i: "i < length (dv_creds ?d)" using find_saved_ssid_in_scan_Some [OF Some] by blast
      then have "wifi_fits (dv_sm ?d) (Handle (SavedSsidFound i))"
        using ok by (simp add: wifi_fits_def dev_ok_def)
      note ok' = feed_ok [OF ok f this]
      have "dv_creds d' \<noteq> []" using i ok'(3) by auto
      then show ?thesis
        using handle_portal_reconnect_keeps [OF ok'(1,2)] assms ok'(3) Some by (simp add: f keeps_def)
    qed (use ok in simp)
    then obtain d1 where "(if in_portal ?d
                  then (case find_saved_ssid_in_scan networks (dv_creds ?d) of
                          None \<Rightarrow> Finished ?d
                        | Some idx \<Rightarrow> (case feed (SavedSsidFound idx) ?d of
                            (a, d) \<Rightarrow> handle_portal_reconnect hw a d))
                  else Finished ?d) = Finished d1" "dev_ok d1" "dv_creds d1 = dv_creds d"
      unfolding keeps_def by auto
    then show ?thesis
      using True by (simp only: step_scan_def r Inr Let_def simp_thms if_True prod.case sum.case obind.simps
          keeps_Finished dev_ok_other) simp
  qed (use True assms in \<open>simp add: step_scan_def r\<close>)
qed (use assms in \<open>auto simp: step_scan_def\<close>)

section \<open>Provisioning\<close>

lemma set_api_key_total: "\<exists>cfg'. set_api_key key cfg = Some cfg'"
  by (simp add: set_api_key_def sha256_spec)

lemma provision_key_total: "\<exists>cfg'. provision_key p cfg = Some cfg'"
  using set_api_key_total by (auto simp: provision_key_def split: api_key_action.splits option.splits)

lemma length_set_password [simp]: "length (set_password s p creds) = length creds"
  by (induction s p creds rule: set_password.induct) auto

lemma length_merge:
  "length creds \<le> length (merge_credential c creds) \<and> length (merge_credential c creds) \<le> Suc (length creds)"
  by (simp add: merge_credential_def)

lemma length_fold_merge:
  "length creds \<le> length (fold merge_credential cs creds) \<and>
   length (fold merge_credential cs creds) \<le> length creds + length cs"
proof (induction cs arbitrary: creds)
  case (Cons c cs)
  show ?case using Cons [of "merge_credential c creds"] length_merge [of creds c] by simp
qed simp

definition provision_ok :: "pending_provision option \<Rightarrow> bool" where
  "provision_ok prov = (case prov of
     None \<Rightarrow> True
   | Some p \<Rightarrow> (\<forall>h. pf_hostname (pp_form p) = Some h \<longrightarrow> ap_ssid h \<noteq> None))"

definition provision_size :: "pending_provision option \<Rightarrow> nat" where
  "provision_size prov = (case prov of None \<Rightarrow> 0 | Some p \<Rightarrow> length (pf_credentials (pp_form p)))"

lemma credentials_updated_ok:
  "credentials_updated n i sm = (a, sm') \<Longrightarrow> wifi_ok sm' \<and> ws_num_creds sm' = n \<and> action_fits sm' a"
  by (auto simp: credentials_updated_def Let_def wifi_ok_def split: if_splits)

text \<open>The part of a provisioning before the connection attempt.\<close>

lemma provision_config_ok:
  assumes "dev_ok d" "provision_ok (Some p)"
  obtains d' where "provision_config hw p d = Finished d'" "ap_ssid (dv_hostname d') \<noteq> None"
    "dv_creds d' = fold merge_credential (pf_credentials (pp_form p)) (dv_creds d)"
    "dv_sm d' = dv_sm d" "dv_deadline d' = dv_deadline d"
proof -
  obtain cfg where cfg: "provision_key p (dv_cfg d) = Some cfg" using provision_key_total by blast
  show thesis
  proof (cases "provision_config hw p d")
    case (Finished d')
    then show thesis
      using assms by (intro that [of d'])
        (auto simp: provision_config_def cfg Let_def dev_ok_def provision_ok_def split: option.splits prod.splits)
  qed (simp_all add: provision_config_def cfg Let_def split: prod.splits)
qed

lemma provision_connect_keeps:
  assumes "dev_ok d"
  shows "keeps d (provision_connect hw a d)"
proof (cases "\<exists>i. a = TryConnect i \<and> i < length (dv_creds d)")
  case True
  then obtain i where i: "a = TryConnect i" "i < length (dv_creds d)" by blast
  obtain ssid pass where c: "dv_creds d ! i = (ssid, pass)" by (cases "dv_creds d ! i")
  obtain r w where r: "try_connect_sta hw ssid pass (dv_hostname d) (dv_world d) = Some (r, w)"
    using try_connect_sta_total [of "dv_hostname d" hw ssid pass "dv_world d"] assms by (auto simp: dev_ok_def)
  have "dev_ok (snd (feed e (d\<lparr>dv_world := w\<rparr>))) \<and> dv_creds (snd (feed e (d\<lparr>dv_world := w\<rparr>))) = dv_creds d"
    if "wifi_fits (dv_sm d) (Handle e)" for e
    using feed_snd_ok [of "d\<lparr>dv_world := w\<rparr>" e] assms that by simp
  then show ?thesis
    using i c by (simp add: provision_connect_def r Let_def split: sum.splits)
qed (use assms in \<open>auto simp: provision_connect_def split: wifi_action.splits\<close>)

lemma handle_provision_ok:
  assumes "dev_ok d" "provision_ok (Some p)"
  obtains d' where "handle_provision hw p d = Finished d'" "dev_ok d'"
    "dv_creds d' = fold merge_credential (pf_credentials (pp_form p)) (dv_creds d)"
proof -
  obtain d1 where d1: "provision_config hw p d = Finished d1" "ap_ssid (dv_hostname d1) \<noteq> None"
    "dv_creds d1 = fold merge_credential (pf_credentials (pp_form p)) (dv_creds d)"
    using provision_config_ok [OF assms, of hw thesis] by blast
  obtain a sm where u: "credentials_updated (length (dv_creds d1)) (length (dv_creds d)) (dv_sm d1) = (a, sm)"
    by fastforce
  have "keeps (d1\<lparr>dv_sm := sm\<rparr>) (provision_connect hw a (d1\<lparr>dv_sm := sm\<rparr>))"
    using credentials_updated_ok [OF u] d1(2) by (intro provision_connect_keeps) (simp add: dev_ok_def)
  then obtain d' where "provision_connect hw a (d1\<lparr>dv_sm := sm\<rparr>) = Finished d'" "dev_ok d'"
    "dv_creds d' = dv_creds d1" by (auto simp: keeps_def)
  then show thesis
    by (intro that [of d']) (simp add: handle_provision_def d1(1) u, simp, simp add: d1(3))
qed

lemma step_provision_ok:
  assumes "dev_ok d" "provision_ok prov"
  obtains d' where "step_provision hw prov d = Finished d'" "dev_ok d'"
    "length (dv_creds d') \<le> length (dv_creds d) + provision_size prov"
proof (cases prov)
  case None
  with assms(1) show thesis by (intro that [of d]) (simp_all add: step_provision_def)
next
  case (Some p)
  obtain d' where "handle_provision hw p d = Finished d'" "dev_ok d'"
    "dv_creds d' = fold merge_credential (pf_credentials (pp_form p)) (dv_creds d)"
    using handle_provision_ok [of d p hw thesis] assms Some by blast
  with length_fold_merge [of "dv_creds d" "pf_credentials (pp_form p)"] Some show thesis
    by (cases "dv_mdns d'"; cases "hw_start_mdns hw (dv_hostname d') (dv_world d')")
      (auto intro!: that simp: step_provision_def provision_size_def)
qed

section \<open>The main loop\<close>

lemma step_mode_keeps: "dev_ok d \<Longrightarrow> dev_ok (step_mode hw d) \<and> dv_creds (step_mode hw d) = dv_creds d"
  by (simp add: step_mode_def Let_def split: prod.splits)

lemma loop_step_ok:
  assumes "dev_ok d" "provision_ok prov" "length (dv_creds d) + provision_size prov < n"
  obtains d' where "loop_step n hw prov d = Finished d'" "dev_ok d'"
    "length (dv_creds d') \<le> length (dv_creds d) + provision_size prov"
proof -
  let ?d = "d\<lparr>dv_world := hw_sleep hw poll_interval_ms (dv_world d),
                dv_elapsed := dv_elapsed d + poll_interval_ms,
                dv_scan_elapsed := dv_scan_elapsed d + poll_interval_ms\<rparr>"
  have "dev_ok ?d" using assms(1) by simp
  from step_provision_ok [OF this assms(2), of hw] obtain d1
    where d1: "step_provision hw prov ?d = Finished d1" "dev_ok d1"
      "length (dv_creds d1) \<le> length (dv_creds d) + provision_size prov" by auto
  have len: "length (dv_creds d1) < n" using d1(3) assms(3) by simp
  obtain d2 where d2: "step_backoff n hw d1 = Finished d2" "dev_ok d2" "dv_creds d2 = dv_creds d1"
    using step_backoff_keeps [OF d1(2) len, of hw] by (auto simp: keeps_def)
  obtain d3 where d3: "step_scan hw d2 = Finished d3" "dev_ok d3" "dv_creds d3 = dv_creds d1"
    using step_scan_keeps [OF d2(2), of hw] d2(3) by (auto simp: keeps_def)
  have "keeps (d3\<lparr>dv_elapsed := 0\<rparr>) (step_connection n hw (d3\<lparr>dv_elapsed := 0\<rparr>))"
    using d3 len by (intro step_connection_keeps) simp_all
  then obtain d4 where d4: "step_connection n hw (d3\<lparr>dv_elapsed := 0\<rparr>) = Finished d4" "dev_ok d4"
      "dv_creds d4 = dv_creds d1"
    using d3(3) by (auto simp: keeps_def)
  show thesis
    by (rule that [of "if dv_elapsed d3 < tick_interval_ms then d3 else step_mode hw d4"])
      (use d1 d2 d3 d4 step_mode_keeps [of d4 hw] in \<open>simp_all add: loop_step_def Let_def\<close>)
qed


section \<open>A bench to run the device on\<close>

text \<open>A driver whose world is a clock and whose connections all succeed or all fail.\<close>

definition bench_hw :: "bool \<Rightarrow> nat wifi_hw" where
  "bench_hw up =
     \<lparr>hw_configure = (\<lambda>_ w. (Inr (), w)), hw_start = (\<lambda>w. (Inr (), w)),
      hw_connect = (\<lambda>w. (if up then Inr () else Inl ''ESP_FAIL'', w)), hw_wait_up = (\<lambda>w. (Inr (), w)),
      hw_set_ap_ip = (\<lambda>w. w), hw_is_connected = (\<lambda>_. up), hw_sta_ip = (\<lambda>_. Inr ''10.0.0.7''),
      hw_scan = (\<lambda>w. (Inr [(''home'', -60, ''WPA2'')], w)), hw_sleep = (\<lambda>n w. w + n), hw_now = (\<lambda>w. w),
      hw_start_dns = (\<lambda>w. (True, w)), hw_start_mdns = (\<lambda>_ w. (True, w)), hw_nvs_write = (\<lambda>w. (True, w))\<rparr>"

definition bench_dev :: "(string \<times> string) list \<Rightarrow> nat wifi_dev" where
  "bench_dev creds =
     \<lparr>dv_sm = wifi_new (length creds) wifi_default_config, dv_creds = creds, dv_hostname = ''eOMI'',
      dv_ap = False, dv_dns = False, dv_mdns = False, dv_mode = ModeNormal,
      dv_status = \<lparr>cs_state = CIdle, cs_message = None, cs_ip = None\<rparr>, dv_form_ssids = [],
      dv_form_hostname = ''eOMI'', dv_first_setup = True, dv_form_error = None, dv_scan = [],
      dv_cfg = wifi_config_new ''eOMI'', dv_nvs = None, dv_deadline = None,
      dv_elapsed = tick_interval_ms, dv_scan_elapsed = 0, dv_world = 0\<rparr>"

definition bench_provision :: pending_provision where
  "bench_provision =
     \<lparr>pp_form = \<lparr>pf_credentials = [\<lparr>cr_ssid = ''home'', cr_password = ''pw''\<rparr>],
                 pf_hostname = Some ''dev'', pf_api_key_action = Keep\<rparr>,
      pp_generated_key = None\<rparr>"

lemma bench_sel:
  "hw_configure (bench_hw up) c w = (Inr (), w)" "hw_start (bench_hw up) w = (Inr (), w)"
  "hw_connect (bench_hw up) w = (if up then Inr () else Inl ''ESP_FAIL'', w)"
  "dv_creds (bench_dev creds) = creds"
  by (simp_all add: bench_hw_def bench_dev_def)

lemma bench_dev_ok: "dev_ok (bench_dev creds)"
  by (simp add: dev_ok_def bench_dev_def wifi_new_ok ap_ssid_def max_ap_ssid_len_def wifi_new_def wifi_ok_def)


section \<open>Boot settles\<close>

lemma settled_cases: "wifi_settled (dv_sm d) \<longleftrightarrow> ws_state (dv_sm d) = WConnected \<or> in_portal d"
  by (auto simp: wifi_settled_def in_portal_def)

lemma drive_initial_connect_settles:
  assumes "rotating_ok (dv_sm d)" "dev_ok d" "rotations_left (dv_sm d) < n"
  shows "\<exists>d'. drive_initial_connect n hw d = Finished d' \<and> dev_ok d' \<and> wifi_settled (dv_sm d') \<and>
    dv_creds d' = dv_creds d \<and> dv_dns d' = dv_dns d \<and> dv_mdns d' = dv_mdns d \<and>
    (ws_state (dv_sm d') = WConnected \<longrightarrow> dv_ap d' = dv_ap d)"
  using assms
proof (induction n arbitrary: d)
  case (Suc n)
  have step: ?case
    if c: "c \<in> {ConnectSuccess, WConnectFailed, BackoffComplete}" "connecting_fits (dv_sm d) (Handle c)"
      and eq: "drive_initial_connect (Suc n) hw d = drive_initial_connect n hw (snd (feed c (d\<lparr>dv_world := w\<rparr>)))"
    for c w
  proof -
    let ?d = "snd (feed c (d\<lparr>dv_world := w\<rparr>))"
    have sm: "dv_sm ?d = snd (wifi_step (Handle c) (dv_sm d))" "dv_dns ?d = dv_dns d" "dv_mdns ?d = dv_mdns d"
        "dv_ap ?d = dv_ap d"
      by (simp_all add: feed_def split: prod.splits)
    have "dev_ok ?d" "dv_creds ?d = dv_creds d"
      using feed_snd_ok [of "d\<lparr>dv_world := w\<rparr>" c] Suc.prems(2) c(1) by auto
    moreover have "rotating_ok (dv_sm ?d)" "rotations_left (dv_sm ?d) < n"
      using rotations_left_step [OF Suc.prems(1) c(2)] Suc.prems(3) unfolding sm by simp_all
    ultimately show ?thesis
      using Suc.IH [of ?d] unfolding eq sm by simp
  qed
  show ?case
  proof (cases "ws_state (dv_sm d)")
    case (WConnecting i)
    with Suc.prems(2) have i: "i < length (dv_creds d)" by (simp add: dev_ok_def wifi_ok_def)
    obtain ssid pass where c: "dv_creds d ! i = (ssid, pass)" by (cases "dv_creds d ! i")
    obtain r w where r: "try_connect hw ssid pass (dv_world d) = (r, w)"
      by (cases "try_connect hw ssid pass (dv_world d)")
    show ?thesis
      using i by (intro step [of "if is_ok r then ConnectSuccess else WConnectFailed" w])
        (simp_all add: connecting_fits_def WConnecting c r)
  next
    case Backoff
    show ?thesis
      by (rule step [of BackoffComplete]) (simp_all add: connecting_fits_def Backoff)
  next
    case WConnected
    with Suc.prems show ?thesis by (simp add: wifi_settled_def)
  next
    case Portal
    then show ?thesis
      using Suc.prems start_ap_total [of "dv_hostname d" hw "dv_world d"]
      by (auto simp: dev_ok_def wifi_settled_def)
  next
    case Unconfigured
    then show ?thesis
      using Suc.prems start_ap_total [of "dv_hostname d" hw "dv_world d"]
      by (auto simp: dev_ok_def wifi_settled_def)
  qed
qed simp

lemma boot_portal_ok:
  assumes "dev_ok d"
  obtains e where "boot_portal hw d = Finished (Inl e)"
  | d' where "boot_portal hw d = Finished (Inr d')" "dev_ok d'" "dv_sm d' = dv_sm d" "dv_ap d'"
      "dv_creds d' = dv_creds d"
proof -
  obtain r w where r: "start_ap hw (dv_hostname d) (dv_world d) = Some (r, w)"
    using start_ap_total [of "dv_hostname d" hw "dv_world d"] assms by (auto simp: dev_ok_def)
  obtain dns w' where "hw_start_dns hw w = (dns, w')" by fastforce
  with r assms that show thesis
    by (cases r) (auto simp: boot_portal_def)
qed

lemma in_portal_cases: "wifi_settled (dv_sm d) \<Longrightarrow> \<not> in_portal d \<Longrightarrow> ws_state (dv_sm d) = WConnected"
  by (simp add: settled_cases)

text \<open>What a completed boot leaves: a connected device in normal mode without its access point,
  or the portal.\<close>

definition booted :: "'w wifi_dev \<Rightarrow> bool" where
  "booted d \<longleftrightarrow> dev_ok d \<and>
     (if ws_state (dv_sm d) = WConnected then dv_mode d = ModeNormal \<and> \<not> dv_ap d
      else in_portal d \<and> dv_mode d = ModePortal \<and> dv_ap d)"

definition boot_ends :: "(string + 'w wifi_dev) outcome \<Rightarrow> bool" where
  "boot_ends r \<longleftrightarrow> (\<exists>e. r = Finished (Inl e)) \<or> (\<exists>d. r = Finished (Inr d) \<and> booted d)"

lemma boot_ends_simps [simp]: "boot_ends (Finished (Inl e))" "boot_ends (Finished (Inr d)) \<longleftrightarrow> booted d"
  by (simp_all add: boot_ends_def)

lemma boot_finish_ok:
  assumes "dev_ok d" "wifi_settled (dv_sm d)" "in_portal d \<Longrightarrow> dv_ap d"
    "ws_state (dv_sm d) = WConnected \<Longrightarrow> \<not> dv_ap d"
  shows "boot_ends (Finished (boot_finish hw d))"
proof (cases "ws_state (dv_sm d) = WConnected")
  case True
  have "dv_creds d \<noteq> []"
    using True assms(1) by (auto simp: dev_ok_def wifi_ok_def)
  moreover obtain m w where "hw_start_mdns hw (dv_hostname d) (dv_world d) = (m, w)" by fastforce
  ultimately show ?thesis
    using True assms(1,4)
    by (cases "hw_sta_ip hw (dv_world d)") (simp_all add: boot_finish_def booted_def Let_def current_mode_def)
next
  case False
  then have "in_portal d" using assms(2) by (simp add: settled_cases)
  with False assms(1,3) show ?thesis
    by (simp add: boot_finish_def booted_def Let_def current_mode_def in_portal_def)
qed

lemma boot_tail_ok:
  assumes "dev_ok d" "wifi_settled (dv_sm d)" "ws_state (dv_sm d) = WConnected \<Longrightarrow> \<not> dv_ap d"
  shows "boot_ends (obind (if in_portal d \<and> \<not> dv_ap d then boot_portal hw d else Finished (Inr d))
         (\<lambda>r. Finished (case r of Inl e \<Rightarrow> Inl e | Inr d \<Rightarrow> boot_finish hw d)))"
proof (cases "in_portal d \<and> \<not> dv_ap d")
  case True
  show ?thesis
  proof (cases rule: boot_portal_ok [OF assms(1), of hw])
    case (2 d')
    then have "wifi_settled (dv_sm d')" "ws_state (dv_sm d') \<noteq> WConnected"
      using True assms(2) by (auto simp: in_portal_def)
    with boot_finish_ok [of d' hw] 2 True show ?thesis by simp
  qed (use True in simp)
next
  case False
  then have "boot_ends (Finished (boot_finish hw d))"
    by (intro boot_finish_ok) (use assms in auto)
  with False show ?thesis by (simp only: if_False obind.simps sum.case)
qed



section \<open>States the loop does not leave\<close>

text \<open>A device that is neither connected nor in its portal, with no deadline to wait for.\<close>

definition stranded :: "'w wifi_dev \<Rightarrow> bool" where
  "stranded d \<longleftrightarrow> \<not> wifi_settled (dv_sm d) \<and> dv_deadline d = None"

lemma stranded_step:
  assumes "stranded d"
  shows "\<exists>d'. loop_step n hw None d = Finished d' \<and> stranded d' \<and> dv_sm d' = dv_sm d"
proof -
  let ?d = "d\<lparr>dv_world := hw_sleep hw poll_interval_ms (dv_world d),
                dv_elapsed := dv_elapsed d + poll_interval_ms,
                dv_scan_elapsed := dv_scan_elapsed d + poll_interval_ms\<rparr>"
  have nc: "ws_state (dv_sm d) \<noteq> WConnected" "\<not> in_portal d" "dv_deadline d = None"
    using assms by (auto simp: stranded_def wifi_settled_def in_portal_def)
  have "\<exists>d2. step_scan hw ?d = Finished d2 \<and> dv_sm d2 = dv_sm d \<and> dv_deadline d2 = None"
    using nc by (auto simp: step_scan_def in_portal_def Let_def split: prod.split sum.split)
  then obtain d2 where d2: "step_scan hw ?d = Finished d2" "dv_sm d2 = dv_sm d" "dv_deadline d2 = None"
    by blast
  have c: "step_connection n hw (d2\<lparr>dv_elapsed := 0\<rparr>) = Finished (d2\<lparr>dv_elapsed := 0\<rparr>)"
    using nc(1) d2(2) by (simp add: step_connection_def)
  define d3 where "d3 = (if dv_elapsed d2 < tick_interval_ms then d2 else step_mode hw (d2\<lparr>dv_elapsed := 0\<rparr>))"
  have "loop_step n hw None d = Finished d3"
    using nc(3) d2(1) c by (simp add: loop_step_def Let_def step_provision_def step_backoff_def d3_def)
  moreover have "dv_sm d3 = dv_sm d \<and> dv_deadline d3 = None"
    using d2 nc(1) by (simp add: d3_def step_mode_def Let_def)
  ultimately show ?thesis using assms by (simp add: stranded_def)
qed

lemma stranded_steps:
  "stranded d \<Longrightarrow> \<exists>d'. loop_steps n hw (replicate k None) d = Finished d' \<and> stranded d' \<and> dv_sm d' = dv_sm d"
proof (induction k arbitrary: d)
  case (Suc k)
  obtain d1 where d1: "loop_step n hw None d = Finished d1" "stranded d1" "dv_sm d1 = dv_sm d"
    using stranded_step [OF Suc.prems, of n hw] by blast
  with Suc.IH [of d1] show ?case by simp
qed simp

lemma provision_config_Finished:
  assumes "provision_config hw p d = Finished d'"
  shows "dv_creds d' = fold merge_credential (pf_credentials (pp_form p)) (dv_creds d)"
    "dv_sm d' = dv_sm d" "dv_deadline d' = dv_deadline d"
proof -
  obtain cfg where cfg: "provision_key p (dv_cfg d) = Some cfg" using provision_key_total by blast
  from assms show "dv_creds d' = fold merge_credential (pf_credentials (pp_form p)) (dv_creds d)"
    "dv_sm d' = dv_sm d" "dv_deadline d' = dv_deadline d"
    by (auto simp: provision_config_def cfg Let_def split: prod.splits)
qed

lemma fold_merge_neq_Nil: "cs \<noteq> [] \<Longrightarrow> fold merge_credential cs creds \<noteq> []"
proof (induction cs arbitrary: creds)
  case (Cons c cs)
  have "merge_credential c creds \<noteq> []"
  proof (cases creds)
    case (Cons x xs)
    then show ?thesis using length_merge [of creds c] by force
  qed (simp add: merge_credential_def)
  then show ?case using Cons.IH by (cases cs) auto
qed simp

lemma provision_connect_fails:
  assumes "provision_connect hw (TryConnect i) d = Finished d'" "i < length (dv_creds d)"
    "ws_state (dv_sm d) = WConnecting i" "cs_state (dv_status d') = CFailed"
  shows "dv_sm d' = snd (wifi_handle_event WConnectFailed (dv_sm d)) \<and> dv_deadline d' = dv_deadline d"
proof -
  obtain ssid pass where c: "dv_creds d ! i = (ssid, pass)" by (cases "dv_creds d ! i")
  show ?thesis
  proof (cases "try_connect_sta hw ssid pass (dv_hostname d) (dv_world d)")
    case (Some rw)
    obtain r w where "rw = (r, w)" by (cases rw)
    then show ?thesis
      using assms Some
      by (cases r) (auto simp: provision_connect_def c Let_def feed_def split: prod.splits)
  qed (use assms in \<open>simp add: provision_connect_def c\<close>)
qed



text \<open>A failed reconnection from the portal strands the device in the same way when the saved
  network is not the last one.\<close>

lemma portal_reconnect_strands:
  assumes "in_portal d" "dv_deadline d = None" "Suc i < ws_num_creds (dv_sm d)" "i < length (dv_creds d)"
    "feed (SavedSsidFound i) d = (a, d1)" "dv_creds d ! i = (ssid, pass)"
    "try_connect_sta hw ssid pass (dv_hostname d) (dv_world d) = Some (Inl e, w)"
  obtains d' where "handle_portal_reconnect hw a d1 = Finished d'" "stranded d'"
proof -
  have "a = TryConnect i" "d1 = d\<lparr>dv_sm := (dv_sm d)\<lparr>ws_state := WConnecting i\<rparr>\<rparr>"
    using assms(1,5) by (auto simp: feed_def wifi_handle_event_def in_portal_def split: prod.splits)
  with assms show thesis
    by (intro that [of "snd (feed WConnectFailed (d1\<lparr>dv_world := w\<rparr>))"])
      (auto simp: handle_portal_reconnect_def stranded_def feed_def wifi_handle_event_def
        wifi_settled_def Let_def)
qed

text \<open>The access point's name is cut at a byte: the 26th byte of this host name is inside a
  character.\<close>

lemma ap_ssid_panics:
  "utf8_valid (replicate 25 CHR ''a'' @ [CHR 0xC3, CHR 0xA9]) \<and> ap_ssid (replicate 25 CHR ''a'' @ [CHR 0xC3, CHR 0xA9]) = None"
  by (simp add: numeral_eq_Suc utf8_valid.simps Let_def utf8_width_def utf8_second_def utf8_cont_def ap_ssid_def
      max_ap_ssid_len_def char_boundary_def)

text \<open>A boot that falls back to the portal has no DNS server: the driver's loop has started the
  access point already.\<close>

lemma boot_fallback_without_dns:
  "\<exists>d. boot_wifi 13 (bench_hw False) (bench_dev [(''lab'', ''x'')]) = Finished (Inr d) \<and>
     in_portal d \<and> dv_ap d \<and> \<not> dv_dns d"
proof -
  note driver = bench_hw_def try_connect_def hw_then_def start_ap_def ap_ssid_def max_ap_ssid_len_def
  note sm = wifi_new_def wifi_default_config_def feed_def wifi_handle_event_def start_backoff_or_portal_def
  have n: "(13::nat) = Suc (Suc (Suc (Suc (Suc (Suc (Suc (Suc (Suc (Suc (Suc 2))))))))))" by simp
  show ?thesis
    unfolding n by (simp add: boot_wifi_def bench_dev_def driver sm wifi_initial_action_def Let_def
        boot_finish_def in_portal_def del: Suc_numeral add_2_eq_Suc add_2_eq_Suc')
qed

end
