(* ===== verification/Pages.thy ===== *)
theory Pages
  imports BTreeMap RustStr
begin

text \<open>
  \<open>src/pages.rs\<close>: the store of uploaded pages, with \<open>PsramBytes\<close> of \<open>src/psram.rs\<close>
  as the list of its bytes (its buffer is allocated once and never written again). The
  subtractions of sizes are checked: an underflow would panic, or wrap in a release build.
\<close>

section \<open>State and operations\<close>

text \<open>\<open>PsramBytes::from_bytes\<close>, \<open>as_bytes\<close>, \<open>len\<close>.\<close>

type_synonym psram_bytes = string

definition psram_from_bytes :: "string \<Rightarrow> psram_bytes" where
  "psram_from_bytes data = data"

definition psram_as_bytes :: "psram_bytes \<Rightarrow> string" where
  "psram_as_bytes b = b"

definition psram_bytes_len :: "psram_bytes \<Rightarrow> nat" where
  "psram_bytes_len b = length b"

datatype page_error = InvalidPath | ReservedPath | PageTooLarge | StorageFull | PageNotFound

record stored_page =
  sp_data :: psram_bytes
  sp_compressed :: bool

record page_store =
  pg_pages :: "(string, stored_page) btree"
  pg_total_bytes :: nat
  pg_max_total_bytes :: nat

definition default_max_total :: nat where "default_max_total = 100 * 1024"
definition max_single_page :: nat where "max_single_page = 64 * 1024"

definition pages_with_capacity :: "nat \<Rightarrow> page_store" where
  "pages_with_capacity max_bytes =
     \<lparr>pg_pages = [], pg_total_bytes = 0, pg_max_total_bytes = max_bytes\<rparr>"

definition pages_new :: page_store where
  "pages_new = pages_with_capacity default_max_total"

definition reserved_prefix :: "string \<Rightarrow> string \<Rightarrow> bool" where
  "reserved_prefix path prefix = (path = prefix \<or> starts_with (prefix @ ''/'') path)"

definition validate_path :: "string \<Rightarrow> page_error + unit" where
  "validate_path path =
     (if \<not> starts_with ''/'' path then Inl InvalidPath
      else if path = ''/'' then Inl ReservedPath
      else if list_ex (reserved_prefix path) [''/omi'', ''/odf'', ''/Objects''] then Inl ReservedPath
      else if list_ex (\<lambda>seg. seg = [] \<or> seg = ''.'' \<or> seg = ''..'') (split_on CHR ''/'' (tl path))
      then Inl InvalidPath
      else Inr ())"

definition sub_checked :: "nat \<Rightarrow> nat \<Rightarrow> nat option" where
  "sub_checked a b = (if b \<le> a then Some (a - b) else None)"

definition store_bytes ::
  "string \<Rightarrow> string \<Rightarrow> bool \<Rightarrow> page_store \<Rightarrow> ((page_error + unit) \<times> page_store) option"
where
  "store_bytes path data compressed st =
     (case validate_path path of
        Inl e \<Rightarrow> Some (Inl e, st)
      | Inr _ \<Rightarrow>
          if max_single_page < length data then Some (Inl PageTooLarge, st)
          else do {
            let is_new = \<not> bt_contains (pg_pages st) path;
            let old_size = (case map_of (pg_pages st) path of
                              None \<Rightarrow> 0 | Some p \<Rightarrow> psram_bytes_len (sp_data p));
            let key_cost = (if is_new then length path else 0);
            rest \<leftarrow> sub_checked (pg_total_bytes st) old_size;
            let new_total = rest + length data + key_cost;
            if pg_max_total_bytes st < new_total then Some (Inl StorageFull, st)
            else Some (Inr (), st\<lparr>pg_total_bytes := new_total,
                   pg_pages := bt_insert path
                     \<lparr>sp_data = psram_from_bytes data, sp_compressed = compressed\<rparr> (pg_pages st)\<rparr>)
          })"

definition store_page :: "string \<Rightarrow> string \<Rightarrow> page_store \<Rightarrow> ((page_error + unit) \<times> page_store) option" where
  "store_page path html st = store_bytes path html False st"

definition page_get :: "page_store \<Rightarrow> string \<Rightarrow> (string \<times> bool) option" where
  "page_get st path =
     map_option (\<lambda>p. (psram_as_bytes (sp_data p), sp_compressed p)) (map_of (pg_pages st) path)"

definition page_list :: "page_store \<Rightarrow> string list" where
  "page_list st = map fst (pg_pages st)"

definition page_remove :: "string \<Rightarrow> page_store \<Rightarrow> ((page_error + unit) \<times> page_store) option" where
  "page_remove path st =
     (case map_of (pg_pages st) path of
        None \<Rightarrow> Some (Inl PageNotFound, st)
      | Some page \<Rightarrow> do {
          total \<leftarrow> sub_checked (pg_total_bytes st) (psram_bytes_len (sp_data page) + length path);
          Some (Inr (), st\<lparr>pg_pages := bt_remove path (pg_pages st), pg_total_bytes := total\<rparr>)
        })"

datatype page_call = StoreBytes string string bool | RemovePage string

fun page_step :: "page_call \<Rightarrow> page_store \<Rightarrow> page_store option" where
  "page_step (StoreBytes path data compressed) st = map_option snd (store_bytes path data compressed st)"
| "page_step (RemovePage path) st = map_option snd (page_remove path st)"

section \<open>The accounting invariant\<close>

definition page_cost :: "string \<times> stored_page \<Rightarrow> nat" where
  "page_cost e = length (fst e) + psram_bytes_len (sp_data (snd e))"

definition bytes_used :: "(string, stored_page) btree \<Rightarrow> nat" where
  "bytes_used m = sum_list (map page_cost m)"

definition page_ok :: "string \<times> stored_page \<Rightarrow> bool" where
  "page_ok e \<longleftrightarrow> validate_path (fst e) = Inr () \<and> length (sp_data (snd e)) \<le> max_single_page"

definition pages_inv :: "page_store \<Rightarrow> bool" where
  "pages_inv st \<longleftrightarrow> bt_ok (pg_pages st) \<and> pg_total_bytes st = bytes_used (pg_pages st) \<and>
     pg_total_bytes st \<le> pg_max_total_bytes st \<and> (\<forall>e \<in> set (pg_pages st). page_ok e)"

lemma bytes_used_Cons [simp]: "bytes_used (e # m) = page_cost e + bytes_used m"
  by (simp add: bytes_used_def)

lemma bytes_used_insert:
  "bt_ok m \<Longrightarrow> bytes_used (bt_insert k v m) +
     (case map_of m k of None \<Rightarrow> 0 | Some old \<Rightarrow> page_cost (k, old)) = bytes_used m + page_cost (k, v)"
proof (induction m)
  case (Cons e m)
  then have ok: "bt_ok m" and less: "\<forall>x \<in> set m. fst e < fst x" by (auto simp: bt_ok_def)
  have "map_of m k = None" if "k \<le> fst e"
    using less that by (auto simp: map_of_eq_None_iff)
  with Cons.IH [OF ok] show ?case
    by (cases e) (auto simp: bytes_used_def)
qed (simp add: bytes_used_def)

lemma bytes_used_remove:
  "bt_ok m \<Longrightarrow> map_of m k = Some v \<Longrightarrow> bytes_used (bt_remove k m) + page_cost (k, v) = bytes_used m"
proof (induction m)
  case (Cons e m)
  then have ok: "bt_ok m" and less: "\<forall>x \<in> set m. fst e < fst x" by (auto simp: bt_ok_def)
  have "filter (\<lambda>x. fst x \<noteq> fst e) m = m"
    using less by (induction m) auto
  then show ?case
    using Cons ok by (cases e) (auto simp: bt_remove_def split: if_splits)
qed simp

lemma pages_new_inv: "pages_inv (pages_with_capacity n)"
  by (simp add: pages_inv_def pages_with_capacity_def bytes_used_def)

lemma store_bytes_ok:
  assumes "pages_inv st"
  shows "\<exists>r st'. store_bytes path data compressed st = Some (r, st') \<and> pages_inv st' \<and>
    pg_max_total_bytes st' = pg_max_total_bytes st \<and>
    (case r of Inl _ \<Rightarrow> st' = st
     | Inr _ \<Rightarrow> \<forall>p. page_get st' p = (if p = path then Some (data, compressed) else page_get st p))"
proof (cases "validate_path path = Inr () \<and> \<not> max_single_page < length data")
  case False
  with assms show ?thesis by (auto simp: store_bytes_def split: sum.split)
next
  case True
  let ?new = "\<lparr>sp_data = data, sp_compressed = compressed\<rparr>"
  let ?old = "case map_of (pg_pages st) path of None \<Rightarrow> 0 | Some p \<Rightarrow> length (sp_data p)"
  let ?key = "if map_of (pg_pages st) path = None then length path else 0"
  have ok: "bt_ok (pg_pages st)" "pg_total_bytes st = bytes_used (pg_pages st)"
    using assms by (simp_all add: pages_inv_def)
  have u: "bytes_used (bt_insert path ?new (pg_pages st)) + ?old = pg_total_bytes st + length data + ?key"
    using bytes_used_insert [OF ok(1), of path ?new] ok(2)
    by (auto simp: page_cost_def psram_bytes_len_def split: option.splits)
  have "?old \<le> pg_total_bytes st"
    using ok bytes_used_remove [OF ok(1), of path]
    by (fastforce simp: page_cost_def psram_bytes_len_def split: option.splits)
  then show ?thesis
    using True u ok assms
    by (auto simp: store_bytes_def sub_checked_def psram_bytes_len_def psram_from_bytes_def psram_as_bytes_def
        domIff pages_inv_def page_get_def page_ok_def Let_def dest: set_bt_insert split: option.splits)
qed

lemma page_remove_ok:
  assumes "pages_inv st"
  shows "\<exists>r st'. page_remove path st = Some (r, st') \<and> pages_inv st' \<and>
    pg_max_total_bytes st' = pg_max_total_bytes st \<and>
    (r = Inr () \<longleftrightarrow> page_get st path \<noteq> None) \<and>
    (\<forall>p. page_get st' p = (if p = path then None else page_get st p))"
proof (cases "map_of (pg_pages st) path")
  case None
  with assms show ?thesis by (auto simp: page_remove_def page_get_def)
next
  case (Some page)
  have ok: "bt_ok (pg_pages st)" "pg_total_bytes st = bytes_used (pg_pages st)"
    using assms by (simp_all add: pages_inv_def)
  with bytes_used_remove [OF ok(1) Some] have
    "bytes_used (bt_remove path (pg_pages st)) + (length (sp_data page) + length path) = pg_total_bytes st"
    by (simp add: page_cost_def psram_bytes_len_def)
  then show ?thesis
    using Some ok assms
    by (auto simp: page_remove_def sub_checked_def psram_bytes_len_def pages_inv_def page_get_def set_bt_remove)
qed

lemma page_step_inv: "pages_inv st \<Longrightarrow> \<exists>st'. page_step c st = Some st' \<and> pages_inv st' \<and>
    pg_max_total_bytes st' = pg_max_total_bytes st"
proof (cases c)
  case (StoreBytes path data compressed)
  then show "pages_inv st \<Longrightarrow> ?thesis" using store_bytes_ok [of st path data compressed] by auto
next
  case (RemovePage path)
  then show "pages_inv st \<Longrightarrow> ?thesis" using page_remove_ok [of st path] by auto
qed

lemma page_run_inv: "pages_inv st \<Longrightarrow> \<exists>st'. fold_opt page_step cs st = Some st' \<and> pages_inv st' \<and>
    pg_max_total_bytes st' = pg_max_total_bytes st"
proof (induction cs arbitrary: st)
  case (Cons c cs)
  then show ?case using page_step_inv [of st c] by fastforce
qed simp

text \<open>C26: The page store never miscounts. Starting from an empty store, no sequence of stores and
  removals underflows its byte count; afterwards the count is exactly the length of all paths
  and pages held, it does not exceed the limit, every held path is a valid unreserved
  path, and no page is larger than 64 KB. A successful store is what the path then returns, with every
  other page unchanged; a refused one changes nothing; a removal succeeds exactly for a stored
  path.\<close>

theorem page_store_accounts:
  "\<exists>st. fold_opt page_step cs (pages_with_capacity n) = Some st \<and>
    pg_total_bytes st = bytes_used (pg_pages st) \<and> bytes_used (pg_pages st) \<le> n \<and>
    list_all page_ok (pg_pages st) \<and>
    (\<exists>r st'. store_bytes path data compressed st = Some (r, st') \<and>
      (case r of Inl _ \<Rightarrow> st' = st
       | Inr _ \<Rightarrow> \<forall>p. page_get st' p = (if p = path then Some (data, compressed) else page_get st p))) \<and>
    (\<exists>r st'. page_remove path st = Some (r, st') \<and> (r = Inr () \<longleftrightarrow> page_get st path \<noteq> None) \<and>
      (\<forall>p. page_get st' p = (if p = path then None else page_get st p)))"
proof -
  obtain st where st: "fold_opt page_step cs (pages_with_capacity n) = Some st" "pages_inv st"
    "pg_max_total_bytes st = n"
    using page_run_inv [OF pages_new_inv, of cs n] by (auto simp: pages_with_capacity_def)
  have inv: "pg_total_bytes st = bytes_used (pg_pages st)" "bytes_used (pg_pages st) \<le> n"
    "list_all page_ok (pg_pages st)"
    using st(2,3) by (simp_all add: pages_inv_def list_all_iff)
  obtain r1 st1 where store: "store_bytes path data compressed st = Some (r1, st1)"
    "case r1 of Inl _ \<Rightarrow> st1 = st
      | Inr _ \<Rightarrow> \<forall>p. page_get st1 p = (if p = path then Some (data, compressed) else page_get st p)"
    using store_bytes_ok [OF st(2), of path data compressed] by (elim exE conjE) (rule that)
  obtain r2 st2 where remove: "page_remove path st = Some (r2, st2)" "r2 = Inr () \<longleftrightarrow> page_get st path \<noteq> None"
    "\<forall>p. page_get st2 p = (if p = path then None else page_get st p)"
    using page_remove_ok [OF st(2), of path] by (elim exE conjE) (rule that)
  show ?thesis
    by (intro exI [of _ st] conjI st(1) inv exI [of _ r1] exI [of _ st1] store exI [of _ r2] exI [of _ st2] remove)
qed

end
