(* ===== verification/OnboardSm.thy ===== *)
theory OnboardSm
  imports Machine
begin

text \<open>
  \<open>src/wsop/onboard_sm.rs\<close>: the state machine of a joining device. Its two counters are \<open>u32\<close>
  and wrap.
\<close>

section \<open>States, events and actions\<close>

datatype fail_reason = FrDenied | FrTimeout | DecryptionError | ConnectionFailed | FrNonceMismatch

datatype onboard_state =
  Scanning | OConnecting | Requesting | Polling nat | Decrypting | Succeeded | OFailed fail_reason

datatype onboard_action = StartScan | OConnect | SendRequest | WaitPoll nat | Decrypt | OIdle

datatype onboard_event =
  ApFound | ApNotFound | OConnected | OConnectFailed | RequestSent | PollTimeout | ResponseApproved
  | ResponseDenied | NoResponse | ENonceMismatch | DecryptOk | DecryptFailed

record onboard_config =
  oc_poll_interval_ms :: nat
  oc_max_poll_attempts :: nat
  oc_max_scan_retries :: nat

definition onboard_default_config :: onboard_config where
  "onboard_default_config =
     \<lparr>oc_poll_interval_ms = 10000, oc_max_poll_attempts = 6, oc_max_scan_retries = 3\<rparr>"

record onboard_sm =
  os_state :: onboard_state
  os_config :: onboard_config
  os_scan_retries :: nat

definition onboard_new :: "onboard_config \<Rightarrow> onboard_sm" where
  "onboard_new config = \<lparr>os_state = Scanning, os_config = config, os_scan_retries = 0\<rparr>"

definition onboard_initial_action :: "onboard_sm \<Rightarrow> onboard_action" where
  "onboard_initial_action sm = StartScan"

section \<open>Events\<close>

definition onboard_fail :: "fail_reason \<Rightarrow> onboard_sm \<Rightarrow> onboard_action \<times> onboard_sm" where
  "onboard_fail reason sm = (OIdle, sm\<lparr>os_state := OFailed reason\<rparr>)"

definition poll_again :: "nat \<Rightarrow> onboard_sm \<Rightarrow> onboard_action \<times> onboard_sm" where
  "poll_again attempt sm =
     (let attempt = (attempt + 1) mod 2 ^ 32
      in if oc_max_poll_attempts (os_config sm) \<le> attempt then onboard_fail FrTimeout sm
         else (WaitPoll (oc_poll_interval_ms (os_config sm)), sm\<lparr>os_state := Polling attempt\<rparr>))"

definition onboard_handle_event :: "onboard_event \<Rightarrow> onboard_sm \<Rightarrow> onboard_action \<times> onboard_sm" where
  "onboard_handle_event event sm =
     (case (os_state sm, event) of
        (Scanning, ApFound) \<Rightarrow> (OConnect, sm\<lparr>os_state := OConnecting\<rparr>)
      | (Scanning, ApNotFound) \<Rightarrow>
          (let sm = sm\<lparr>os_scan_retries := (os_scan_retries sm + 1) mod 2 ^ 32\<rparr>
           in if oc_max_scan_retries (os_config sm) \<le> os_scan_retries sm then onboard_fail FrTimeout sm
              else (StartScan, sm))
      | (OConnecting, OConnected) \<Rightarrow> (SendRequest, sm\<lparr>os_state := Requesting\<rparr>)
      | (OConnecting, OConnectFailed) \<Rightarrow> onboard_fail ConnectionFailed sm
      | (Requesting, RequestSent) \<Rightarrow>
          (WaitPoll (oc_poll_interval_ms (os_config sm)), sm\<lparr>os_state := Polling 0\<rparr>)
      | (Polling attempt, PollTimeout) \<Rightarrow> poll_again attempt sm
      | (Polling attempt, NoResponse) \<Rightarrow> poll_again attempt sm
      | (Polling _, ResponseApproved) \<Rightarrow> (Decrypt, sm\<lparr>os_state := Decrypting\<rparr>)
      | (Polling _, ResponseDenied) \<Rightarrow> onboard_fail FrDenied sm
      | (Polling _, ENonceMismatch) \<Rightarrow> onboard_fail FrNonceMismatch sm
      | (Decrypting, DecryptOk) \<Rightarrow> (OIdle, sm\<lparr>os_state := Succeeded\<rparr>)
      | (Decrypting, DecryptFailed) \<Rightarrow> onboard_fail DecryptionError sm
      | _ \<Rightarrow> (OIdle, sm))"

section \<open>Every run is short\<close>

definition onboard_terminal :: "onboard_sm \<Rightarrow> bool" where
  "onboard_terminal sm = (case os_state sm of Succeeded \<Rightarrow> True | OFailed _ \<Rightarrow> True | _ \<Rightarrow> False)"

text \<open>The events that a state expects.\<close>

definition onboard_expects :: "onboard_sm \<Rightarrow> onboard_event \<Rightarrow> bool" where
  "onboard_expects sm e =
     (case os_state sm of
        Scanning \<Rightarrow> e \<in> {ApFound, ApNotFound}
      | OConnecting \<Rightarrow> e \<in> {OConnected, OConnectFailed}
      | Requesting \<Rightarrow> e = RequestSent
      | Polling _ \<Rightarrow> e \<in> {PollTimeout, NoResponse, ResponseApproved, ResponseDenied, ENonceMismatch}
      | Decrypting \<Rightarrow> e \<in> {DecryptOk, DecryptFailed}
      | _ \<Rightarrow> False)"

definition onboard_ok :: "onboard_sm \<Rightarrow> bool" where
  "onboard_ok sm \<longleftrightarrow>
     oc_max_scan_retries (os_config sm) < 2 ^ 32 \<and> oc_max_poll_attempts (os_config sm) < 2 ^ 32 \<and>
     (os_state sm = Scanning \<longrightarrow> os_scan_retries sm = 0 \<or> os_scan_retries sm < oc_max_scan_retries (os_config sm)) \<and>
     (\<forall>a. os_state sm = Polling a \<longrightarrow> a = 0 \<or> a < oc_max_poll_attempts (os_config sm))"

definition onboard_rank :: "onboard_sm \<Rightarrow> nat" where
  "onboard_rank sm =
     (let polls = oc_max_poll_attempts (os_config sm); scans = oc_max_scan_retries (os_config sm)
      in case os_state sm of
           Scanning \<Rightarrow> polls + 5 + (scans - os_scan_retries sm)
         | OConnecting \<Rightarrow> polls + 4
         | Requesting \<Rightarrow> polls + 3
         | Polling a \<Rightarrow> (polls - a) + 2
         | Decrypting \<Rightarrow> 1
         | _ \<Rightarrow> 0)"

lemma onboard_new_ok:
  "oc_max_scan_retries c < 2 ^ 32 \<Longrightarrow> oc_max_poll_attempts c < 2 ^ 32 \<Longrightarrow> onboard_ok (onboard_new c)"
  by (simp add: onboard_ok_def onboard_new_def)

text \<open>The action that belongs to a state: what the platform is told to do next.\<close>

fun action_of :: "onboard_sm \<Rightarrow> onboard_action \<Rightarrow> bool" where
  "action_of sm StartScan = (os_state sm = Scanning)"
| "action_of sm OConnect = (os_state sm = OConnecting)"
| "action_of sm SendRequest = (os_state sm = Requesting)"
| "action_of sm (WaitPoll ms) = (\<exists>a. os_state sm = Polling a)"
| "action_of sm Decrypt = (os_state sm = Decrypting)"
| "action_of sm OIdle = onboard_terminal sm"

lemma onboard_step:
  assumes "onboard_ok sm" "onboard_expects sm e"
  shows "onboard_ok (snd (onboard_handle_event e sm)) \<and>
    onboard_rank (snd (onboard_handle_event e sm)) < onboard_rank sm \<and>
    action_of (snd (onboard_handle_event e sm)) (fst (onboard_handle_event e sm))"
proof (cases "os_state sm")
  case Scanning
  have "(os_scan_retries sm + 1) mod 2 ^ 32 = os_scan_retries sm + 1"
    using assms(1) Scanning by (intro mod_less) (auto simp: onboard_ok_def)
  with Scanning assms show ?thesis
    by (auto simp: onboard_expects_def onboard_handle_event_def onboard_fail_def Let_def onboard_ok_def
        onboard_rank_def onboard_terminal_def split: if_splits)
next
  case (Polling a)
  have "(a + 1) mod 2 ^ 32 = a + 1"
    using assms(1) Polling by (intro mod_less) (auto simp: onboard_ok_def)
  with Polling assms show ?thesis
    by (auto simp: onboard_expects_def onboard_handle_event_def onboard_fail_def poll_again_def Let_def
        onboard_ok_def onboard_rank_def onboard_terminal_def split: if_splits)
qed (use assms in \<open>auto simp: onboard_expects_def onboard_handle_event_def onboard_fail_def Let_def
       onboard_ok_def onboard_rank_def onboard_terminal_def\<close>)

interpretation onboarding: ranked_machine onboard_handle_event onboard_ok onboard_expects onboard_rank
  using onboard_step by unfold_locales auto

end
