(* ===== verification/WsopProtocol.thy ===== *)
theory WsopProtocol
  imports Wire Encoding
begin

text \<open>
  \<open>src/wsop/protocol.rs\<close> and the verification code of \<open>src/wsop/crypto.rs\<close>: the messages
  of the onboarding protocol and their binary form. Byte arrays are byte strings, their lengths are
  part of \<open>request_ok\<close> and \<open>response_ok\<close>. The crates base64, blake2 and crypto_box are the fields
  of a record.
\<close>

section \<open>The crates the protocol uses\<close>

text \<open>The standard base64 engine, one-byte BLAKE2b, and the sealed box with the entropy it draws.\<close>

record wsop_env =
  we_b64_encode :: "string \<Rightarrow> string"
  we_b64_decode :: "string \<Rightarrow> string option"
  we_blake2b_1 :: "string \<Rightarrow> nat"
  we_public :: "string \<Rightarrow> string"
  we_seal :: "nat \<Rightarrow> string \<Rightarrow> string \<Rightarrow> string"
  we_unseal :: "string \<Rightarrow> string \<Rightarrow> string option"

section \<open>Messages\<close>

definition protocol_version :: nat where "protocol_version = 1"
definition max_join_request :: nat where "max_join_request = 84"
definition status_approved :: nat where "status_approved = 1"
definition status_denied :: nat where "status_denied = 0"

datatype security_type = Wpa2Psk | Wpa3Sae | Wpa2Enterprise

definition security_byte :: "security_type \<Rightarrow> nat" where
  "security_byte t = (case t of Wpa2Psk \<Rightarrow> 1 | Wpa3Sae \<Rightarrow> 2 | Wpa2Enterprise \<Rightarrow> 3)"

definition security_from_byte :: "nat \<Rightarrow> security_type option" where
  "security_from_byte b =
     (if b = 1 then Some Wpa2Psk else if b = 2 then Some Wpa3Sae else if b = 3 then Some Wpa2Enterprise
      else None)"

record join_request =
  jr_name :: string
  jr_mac :: string
  jr_pubkey :: string
  jr_nonce :: string
  jr_timestamp :: nat

record wifi_credentials =
  wk_ssid :: string
  wk_security :: security_type
  wk_credential :: string

record join_response =
  js_nonce_echo :: string
  js_status :: nat
  js_ciphertext :: string

datatype protocol_error =
  InvalidVersion | TruncatedMessage | InvalidUtf8 | FieldTooLong | InvalidSecurityType

section \<open>Binary form\<close>

definition write_len_prefixed_str :: "nat \<Rightarrow> string \<Rightarrow> protocol_error + string" where
  "write_len_prefixed_str max_len s =
     (if max_len < length s then Inl FieldTooLong else Inr (char_of (length s) # s))"

definition read_len_prefixed_str :: "(protocol_error, string) reader" where
  "read_len_prefixed_str s =
     rbind (take_u8 TruncatedMessage s) (\<lambda>(n, s).
     rbind (take_bytes TruncatedMessage n s) (\<lambda>(b, s).
       case from_utf8 b of None \<Rightarrow> Inl InvalidUtf8 | Some t \<Rightarrow> Inr (t, s)))"

definition request_serialize :: "join_request \<Rightarrow> protocol_error + string" where
  "request_serialize req =
     rbind (write_len_prefixed_str 32 (jr_name req)) (\<lambda>name.
       Inr (char_of protocol_version # name @ jr_mac req @ jr_pubkey req @ jr_nonce req
              @ u32_be (jr_timestamp req)))"

definition request_read :: "(protocol_error, join_request) reader" where
  "request_read data =
     rbind (take_u8 TruncatedMessage data) (\<lambda>(version, s).
       if version \<noteq> protocol_version then Inl InvalidVersion
       else rbind (read_len_prefixed_str s) (\<lambda>(name, s).
         rbind (take_bytes TruncatedMessage 6 s) (\<lambda>(mac, s).
         rbind (take_bytes TruncatedMessage 32 s) (\<lambda>(pubkey, s).
         rbind (take_bytes TruncatedMessage 8 s) (\<lambda>(nonce, s).
         rbind (take_bytes TruncatedMessage 4 s) (\<lambda>(ts, s).
           Inr (\<lparr>jr_name = name, jr_mac = mac, jr_pubkey = pubkey, jr_nonce = nonce,
                 jr_timestamp = u32_of_be ts\<rparr>, s)))))))"

definition request_deserialize :: "string \<Rightarrow> protocol_error + join_request" where
  "request_deserialize data = rbind (request_read data) (\<lambda>(req, _). Inr req)"

definition credentials_serialize :: "wifi_credentials \<Rightarrow> protocol_error + string" where
  "credentials_serialize c =
     rbind (write_len_prefixed_str 32 (wk_ssid c)) (\<lambda>ssid.
     rbind (write_len_prefixed_str 63 (wk_credential c)) (\<lambda>credential.
       Inr (ssid @ char_of (security_byte (wk_security c)) # credential)))"

definition credentials_read :: "(protocol_error, wifi_credentials) reader" where
  "credentials_read data =
     rbind (read_len_prefixed_str data) (\<lambda>(ssid, s).
     rbind (take_u8 TruncatedMessage s) (\<lambda>(b, s).
     rbind (ok_or InvalidSecurityType (security_from_byte b)) (\<lambda>security.
     rbind (read_len_prefixed_str s) (\<lambda>(credential, s).
       Inr (\<lparr>wk_ssid = ssid, wk_security = security, wk_credential = credential\<rparr>, s)))))"

definition credentials_deserialize :: "string \<Rightarrow> protocol_error + wifi_credentials" where
  "credentials_deserialize data = rbind (credentials_read data) (\<lambda>(c, _). Inr c)"

definition response_serialize :: "join_response \<Rightarrow> string" where
  "response_serialize r =
     char_of protocol_version # js_nonce_echo r @ char_of (js_status r) # js_ciphertext r"

definition response_deserialize :: "string \<Rightarrow> protocol_error + join_response" where
  "response_deserialize data =
     (if length data < 10 then Inl TruncatedMessage
      else rbind (take_u8 TruncatedMessage data) (\<lambda>(version, s).
        if version \<noteq> protocol_version then Inl InvalidVersion
        else rbind (take_bytes TruncatedMessage 8 s) (\<lambda>(nonce_echo, s).
          rbind (take_u8 TruncatedMessage s) (\<lambda>(status, s).
            Inr \<lparr>js_nonce_echo = nonce_echo, js_status = status, js_ciphertext = s\<rparr>))))"

section \<open>Verification code\<close>

definition verify_colors :: "(nat \<times> nat \<times> nat) list" where
  "verify_colors =
     [(255, 0, 0), (0, 255, 0), (0, 0, 255), (255, 255, 0), (0, 255, 255), (255, 0, 255),
      (255, 255, 255), (255, 128, 0)]"

definition color_index :: "nat \<Rightarrow> nat" where "color_index byte = byte div 32"
definition verify_color :: "nat \<Rightarrow> nat \<times> nat \<times> nat" where "verify_color byte = verify_colors ! color_index byte"
definition verify_digit :: "nat \<Rightarrow> nat" where "verify_digit byte = byte mod 10"

section \<open>Round trips\<close>

lemma read_len_prefixed_append:
  "utf8_valid s \<Longrightarrow> length s < 256 \<Longrightarrow> read_len_prefixed_str (char_of (length s) # s @ rest) = Inr (s, rest)"
  by (simp add: read_len_prefixed_str_def from_utf8_def)

interpretation name_codec: codec "write_len_prefixed_str 32" read_len_prefixed_str utf8_valid
  by unfold_locales (auto simp: write_len_prefixed_str_def read_len_prefixed_append split: if_splits)

definition request_ok :: "join_request \<Rightarrow> bool" where
  "request_ok r \<longleftrightarrow> utf8_valid (jr_name r) \<and> length (jr_mac r) = 6 \<and> length (jr_pubkey r) = 32 \<and>
     length (jr_nonce r) = 8 \<and> jr_timestamp r < 2 ^ 32"

definition credentials_ok :: "wifi_credentials \<Rightarrow> bool" where
  "credentials_ok c \<longleftrightarrow> utf8_valid (wk_ssid c) \<and> utf8_valid (wk_credential c)"

interpretation request_codec: codec request_serialize request_read request_ok
proof
  fix r b rest assume "request_ok r" "request_serialize r = Inr b"
  then show "request_read (b @ rest) = Inr (r, rest)"
    by (cases r)
      (auto simp: request_serialize_def request_read_def request_ok_def rbind_eq_Inr protocol_version_def
        name_codec.enc_dec)
qed

lemma security_from_byte_byte [simp]: "security_from_byte (security_byte t) = Some t"
  by (cases t) (simp_all add: security_from_byte_def security_byte_def)

lemma security_byte_less [simp]: "security_byte t mod 256 = security_byte t"
  by (cases t) (simp_all add: security_byte_def)

interpretation credentials_codec: codec credentials_serialize credentials_read credentials_ok
proof
  fix c b rest assume "credentials_ok c" "credentials_serialize c = Inr b"
  then show "credentials_read (b @ rest) = Inr (c, rest)"
    by (cases c)
      (auto simp: credentials_serialize_def credentials_read_def credentials_ok_def rbind_eq_Inr
        write_len_prefixed_str_def read_len_prefixed_append split: if_splits)
qed

definition response_ok :: "join_response \<Rightarrow> bool" where
  "response_ok r \<longleftrightarrow> length (js_nonce_echo r) = 8 \<and> js_status r < 256"

lemma response_roundtrip: "response_ok r \<Longrightarrow> response_deserialize (response_serialize r) = Inr r"
  by (cases r) (simp add: response_ok_def response_serialize_def response_deserialize_def protocol_version_def)

lemma read_len_prefixed_Inr:
  "read_len_prefixed_str s = Inr (t, r) \<Longrightarrow> s = char_of (length t) # t @ r \<and> utf8_valid t \<and> length t < 256"
  by (auto simp: read_len_prefixed_str_def rbind_eq_Inr take_u8_eq_Inr take_bytes_eq_Inr from_utf8_def
      split: if_splits)

text \<open>Reading is canonical: what is read as a request begins with the bytes of that request.\<close>

lemma request_read_canonical:
  assumes "request_read data = Inr (req, r)" "length (jr_name req) \<le> 32"
  shows "\<exists>b. request_serialize req = Inr b \<and> data = b @ r"
proof -
  obtain s1 name s2 mac s3 pubkey s4 nonce s5 ts where
    v: "data = char_of protocol_version # s1" and
    n: "read_len_prefixed_str s1 = Inr (name, s2)" and
    f: "s2 = mac @ s3" "s3 = pubkey @ s4" "s4 = nonce @ s5" "s5 = ts @ r" "length ts = 4" and
    req: "req = \<lparr>jr_name = name, jr_mac = mac, jr_pubkey = pubkey, jr_nonce = nonce, jr_timestamp = u32_of_be ts\<rparr>"
    using assms(1)
    by (auto simp: request_read_def rbind_eq_Inr take_u8_eq_Inr take_bytes_eq_Inr split: if_splits)
  show ?thesis
    using assms(2) u32_be_of_be [OF f(5)] read_len_prefixed_Inr [OF n]
    by (simp add: v f(1-4) req request_serialize_def write_len_prefixed_str_def)
qed

lemma security_from_byte_eq: "security_from_byte b = Some t \<Longrightarrow> b = security_byte t"
  by (auto simp: security_from_byte_def security_byte_def split: if_splits)

lemma credentials_read_canonical:
  assumes "credentials_read data = Inr (c, r)" "length (wk_ssid c) \<le> 32" "length (wk_credential c) \<le> 63"
  shows "\<exists>b. credentials_serialize c = Inr b \<and> data = b @ r"
proof -
  obtain ssid sb s2 t credential where
    a: "read_len_prefixed_str data = Inr (ssid, char_of sb # s2)" and
    b: "security_from_byte sb = Some t" and
    c: "read_len_prefixed_str s2 = Inr (credential, r)" and
    eq: "c = \<lparr>wk_ssid = ssid, wk_security = t, wk_credential = credential\<rparr>"
    using assms(1)
    by (fastforce simp: credentials_read_def rbind_eq_Inr take_u8_eq_Inr ok_or_def split: option.splits)
  show ?thesis
    using assms(2,3) read_len_prefixed_Inr [OF a] read_len_prefixed_Inr [OF c] security_from_byte_eq [OF b]
    by (simp add: eq credentials_serialize_def write_len_prefixed_str_def)
qed

lemma response_read_canonical:
  "response_deserialize data = Inr resp \<Longrightarrow> data = response_serialize resp \<and> response_ok resp"
  by (auto simp: response_deserialize_def response_serialize_def rbind_eq_Inr take_u8_eq_Inr take_bytes_eq_Inr
      response_ok_def split: if_splits)

text \<open>C32: The onboarding messages have one binary form. A join request with a name of at most 32
  bytes is serialized to at most 84 bytes, and what the gateway reads as that request is exactly the
  data that begins with them; credentials within their limits likewise; a response is read exactly
  from its serialization.\<close>

theorem onboarding_messages_roundtrip:
  assumes "request_ok req" "length (jr_name req) \<le> 32"
    and "credentials_ok cred" "length (wk_ssid cred) \<le> 32" "length (wk_credential cred) \<le> 63"
    and "response_ok resp"
  shows "(\<exists>b. request_serialize req = Inr b \<and> length b \<le> max_join_request \<and>
        (\<forall>data. request_deserialize data = Inr req \<longleftrightarrow> (\<exists>r. data = b @ r))) \<and>
     (\<exists>b. credentials_serialize cred = Inr b \<and>
        (\<forall>data. credentials_deserialize data = Inr cred \<longleftrightarrow> (\<exists>r. data = b @ r))) \<and>
     (\<forall>data. response_deserialize data = Inr resp \<longleftrightarrow> data = response_serialize resp)"
proof (intro conjI allI)
  obtain b where b: "request_serialize req = Inr b" "length b \<le> max_join_request"
    using assms(1,2)
    by (auto simp: request_serialize_def write_len_prefixed_str_def max_join_request_def request_ok_def)
  have "request_deserialize data = Inr req \<longleftrightarrow> (\<exists>r. data = b @ r)" for data
    using request_codec.enc_dec [OF assms(1) b(1)] request_read_canonical [of data req] assms(2) b(1)
    by (fastforce simp: request_deserialize_def rbind_eq_Inr)
  with b show "\<exists>b. request_serialize req = Inr b \<and> length b \<le> max_join_request \<and>
        (\<forall>data. request_deserialize data = Inr req \<longleftrightarrow> (\<exists>r. data = b @ r))"
    by blast
  obtain c where c: "credentials_serialize cred = Inr c"
    using assms(4,5) by (simp add: credentials_serialize_def write_len_prefixed_str_def)
  have "credentials_deserialize data = Inr cred \<longleftrightarrow> (\<exists>r. data = c @ r)" for data
    using credentials_codec.enc_dec [OF assms(3) c] credentials_read_canonical [of data cred] assms(4,5) c
    by (fastforce simp: credentials_deserialize_def rbind_eq_Inr)
  with c show "\<exists>b. credentials_serialize cred = Inr b \<and>
        (\<forall>data. credentials_deserialize data = Inr cred \<longleftrightarrow> (\<exists>r. data = b @ r))"
    by blast
  show "response_deserialize data = Inr resp \<longleftrightarrow> data = response_serialize resp" for data
    using response_roundtrip [OF assms(6)] response_read_canonical by blast
qed

definition sample_request :: join_request where
  "sample_request = \<lparr>jr_name = ''sensor'', jr_mac = replicate 6 CHR 0xAA, jr_pubkey = replicate 32 CHR 0x01,
     jr_nonce = replicate 8 CHR 0x02, jr_timestamp = 1700000000\<rparr>"

definition sample_credentials :: wifi_credentials where
  "sample_credentials = \<lparr>wk_ssid = ''home'', wk_security = Wpa2Psk, wk_credential = ''secret''\<rparr>"

lemma samples_ok: "request_ok sample_request" "credentials_ok sample_credentials"
  by (simp_all add: request_ok_def credentials_ok_def sample_request_def sample_credentials_def
      utf8_valid_ascii ascii_def)

theorem onboarding_messages_roundtrip_witness:
  "\<exists>b. request_serialize sample_request = Inr b \<and> length b \<le> max_join_request \<and>
     request_deserialize (b @ ''trailing'') = Inr sample_request"
  using onboarding_messages_roundtrip [of sample_request sample_credentials
      "\<lparr>js_nonce_echo = replicate 8 CHR 0x02, js_status = 1, js_ciphertext = []\<rparr>"] samples_ok
  by (auto simp: sample_request_def sample_credentials_def response_ok_def)

end
