(* ===== verification/Gateway.thy ===== *)
theory Gateway
  imports WsopProtocol OdfTree Machine
begin

text \<open>
  \<open>src/wsop/gateway.rs\<close> and the gateway part of the main loop (\<open>src/main.rs\<close>): the queue of
  join requests that wait for the owner, the approvals, and the items through which both arrive.
  Starting the hidden access point is driver code and not modelled.
\<close>

section \<open>State\<close>

definition path_join_request :: string where "path_join_request = ''/OnboardingGateway/JoinRequest''"
definition path_join_response :: string where "path_join_response = ''/OnboardingGateway/JoinResponse''"
definition path_pending_requests :: string where "path_pending_requests = ''/OnboardingGateway/PendingRequests''"
definition path_approval :: string where "path_approval = ''/OnboardingGateway/Approval''"

definition color_names :: "string list" where
  "color_names = [''Red'', ''Green'', ''Blue'', ''Yellow'', ''Cyan'', ''Magenta'', ''White'', ''Orange'']"

definition verify_color_name :: "nat \<Rightarrow> string" where
  "verify_color_name byte = color_names ! (byte div 32)"

definition max_pending :: nat where "max_pending = 4"
definition default_approval_timeout_secs :: nat where "default_approval_timeout_secs = 60"
definition max_timestamp_drift_secs :: nat where "max_timestamp_drift_secs = 300"

record pending_request =
  pr_mac :: string
  pr_name :: string
  pr_pubkey :: string
  pr_nonce :: string
  pr_verify_color :: string
  pr_verify_digit :: nat
  pr_display_mode :: string
  pr_queued_at :: f64

record gateway_state =
  gw_pending :: "pending_request list"
  gw_timeout :: nat

datatype join_result = Queued | Rejected
datatype approval_result = Approved string string | ApprovalNotFound

record denial_response =
  dn_nonce_echo :: string
  dn_response :: string

definition gateway_new :: gateway_state where
  "gateway_new = \<lparr>gw_pending = [], gw_timeout = default_approval_timeout_secs\<rparr>"

definition pending_count :: "gateway_state \<Rightarrow> nat" where
  "pending_count gw = length (gw_pending gw)"

definition remaining_secs :: "pending_request \<Rightarrow> f64 \<Rightarrow> nat \<Rightarrow> f64" where
  "remaining_secs p now timeout = f64_max (pr_queued_at p + f64_of_int (int timeout) - now) (Fin 0)"

section \<open>Join requests\<close>

definition timestamp_drift :: "nat \<Rightarrow> nat \<Rightarrow> nat" where
  "timestamp_drift t g = (if g < t then t - g else g - t)"

definition pending_of :: "wsop_env \<Rightarrow> f64 \<Rightarrow> string \<Rightarrow> join_request \<Rightarrow> pending_request" where
  "pending_of env now display_mode req =
     (let byte = we_blake2b_1 env (jr_pubkey req)
      in \<lparr>pr_mac = jr_mac req, pr_name = jr_name req, pr_pubkey = jr_pubkey req, pr_nonce = jr_nonce req,
          pr_verify_color = verify_color_name byte, pr_verify_digit = verify_digit byte,
          pr_display_mode = display_mode, pr_queued_at = now\<rparr>)"

definition decode_request :: "wsop_env \<Rightarrow> string \<Rightarrow> join_request option" where
  "decode_request env b64 =
     (case we_b64_decode env b64 of
        None \<Rightarrow> None
      | Some wire \<Rightarrow> (case request_deserialize wire of Inl _ \<Rightarrow> None | Inr req \<Rightarrow> Some req))"

definition process_join_request ::
  "wsop_env \<Rightarrow> string \<Rightarrow> nat \<Rightarrow> f64 \<Rightarrow> string \<Rightarrow> gateway_state \<Rightarrow> join_result \<times> gateway_state" where
  "process_join_request env b64 gateway_time now display_mode gw =
     (case decode_request env b64 of
        None \<Rightarrow> (Rejected, gw)
      | Some req \<Rightarrow>
          if max_timestamp_drift_secs < timestamp_drift (jr_timestamp req) gateway_time then (Rejected, gw)
          else if max_pending \<le> length (gw_pending gw) then (Rejected, gw)
          else (Queued, gw\<lparr>gw_pending :=
                  filter (\<lambda>p. pr_mac p \<noteq> jr_mac req) (gw_pending gw) @ [pending_of env now display_mode req]\<rparr>))"

section \<open>The pending list as JSON\<close>

definition hex_upper :: "nat \<Rightarrow> char" where "hex_upper d = ''0123456789ABCDEF'' ! d"

definition hex_byte :: "char \<Rightarrow> string" where
  "hex_byte c = [hex_upper (byte_of c div 16), hex_upper (byte_of c mod 16)]"

definition mac_text :: "string \<Rightarrow> string" where
  "mac_text mac = join_with CHR '':'' (map hex_byte mac)"

definition pending_json :: "f64 \<Rightarrow> nat \<Rightarrow> pending_request \<Rightarrow> string" where
  "pending_json now timeout p =
     (let remaining = nat (f64_to_int 0 (2 ^ 32 - 1) (remaining_secs p now timeout))
      in ''{\"mac\":\"'' @ mac_text (pr_mac p) @ ''\",\"name\":\"'' @ pr_name p
           @ ''\",\"color\":\"'' @ pr_verify_color p @ ''\",\"digit\":'' @ dec_of_nat (pr_verify_digit p)
           @ '',\"display_mode\":\"'' @ pr_display_mode p @ ''\",\"expires_in\":'' @ dec_of_nat remaining @ ''}'')"

definition pending_requests_json :: "f64 \<Rightarrow> gateway_state \<Rightarrow> string" where
  "pending_requests_json now gw =
     ''['' @ join_with CHR '','' (map (pending_json now (gw_timeout gw)) (gw_pending gw)) @ '']''"

section \<open>Approvals\<close>

text \<open>The text after the first occurrence of a pattern.\<close>

fun after_sub :: "string \<Rightarrow> string \<Rightarrow> string option" where
  "after_sub p s =
     (case strip_prefix p s of
        Some r \<Rightarrow> Some r
      | None \<Rightarrow> (case s of [] \<Rightarrow> None | _ # t \<Rightarrow> after_sub p t))"

declare after_sub.simps [simp del]

definition extract_json_string :: "string \<Rightarrow> string \<Rightarrow> string option" where
  "extract_json_string json key = do {
     after_key \<leftarrow> after_sub (CHR 0x22 # key @ [CHR 0x22]) json;
     after_colon \<leftarrow> strip_prefix '':'' (trim_start after_key);
     after_quote \<leftarrow> strip_prefix [CHR 0x22] (trim_start after_colon);
     if CHR 0x22 \<in> set after_quote then Some (takeWhile (\<lambda>c. c \<noteq> CHR 0x22) after_quote) else None
   }"

text \<open>\<open>u8::from_str_radix(s, 16)\<close>.\<close>

fun radix16_value :: "nat \<Rightarrow> string \<Rightarrow> nat option" where
  "radix16_value acc [] = Some acc"
| "radix16_value acc (c # s) =
     (case hex_digit c of
        None \<Rightarrow> None
      | Some d \<Rightarrow> if 256 \<le> 16 * acc + d then None else radix16_value (16 * acc + d) s)"

definition u8_from_hex :: "string \<Rightarrow> nat option" where
  "u8_from_hex s =
     (let d = (case s of c # r \<Rightarrow> if c = CHR ''+'' then r else s | [] \<Rightarrow> s)
      in if d = [] then None else radix16_value 0 d)"

definition parse_mac_str :: "string \<Rightarrow> string option" where
  "parse_mac_str s =
     (let parts = split_on CHR '':'' s
      in if length parts \<noteq> 6 then None
         else map_option (map char_of) (those (map u8_from_hex parts)))"

definition parse_approval_mac :: "string \<Rightarrow> string option" where
  "parse_approval_mac json = Option.bind (extract_json_string json ''mac'') parse_mac_str"

definition parse_approval_action :: "string \<Rightarrow> string option" where
  "parse_approval_action json = extract_json_string json ''action''"

definition denial_of :: "wsop_env \<Rightarrow> string \<Rightarrow> string" where
  "denial_of env nonce =
     we_b64_encode env (response_serialize \<lparr>js_nonce_echo = nonce, js_status = status_denied, js_ciphertext = []\<rparr>)"

definition grant_of :: "wsop_env \<Rightarrow> nat \<Rightarrow> string \<Rightarrow> pending_request \<Rightarrow> string" where
  "grant_of env entropy creds_bytes p =
     we_b64_encode env (response_serialize
       \<lparr>js_nonce_echo = pr_nonce p, js_status = status_approved,
        js_ciphertext = we_seal env entropy creds_bytes (pr_pubkey p)\<rparr>)"

definition wifi_grant :: "string \<Rightarrow> string \<Rightarrow> wifi_credentials" where
  "wifi_grant ssid password = \<lparr>wk_ssid = ssid, wk_security = Wpa2Psk, wk_credential = password\<rparr>"

text \<open>The answer to a decision of the owner: sealed credentials for an approval, otherwise (and
  when the credentials are too long for the message) a denial.\<close>

definition decision_of :: "wsop_env \<Rightarrow> nat \<Rightarrow> string option \<Rightarrow> string \<Rightarrow> string \<Rightarrow> pending_request \<Rightarrow> string" where
  "decision_of env entropy action ssid password p =
     (if action \<noteq> Some ''approve'' then denial_of env (pr_nonce p)
      else (case credentials_serialize (wifi_grant ssid password) of
              Inl _ \<Rightarrow> denial_of env (pr_nonce p)
            | Inr creds_bytes \<Rightarrow> grant_of env entropy creds_bytes p))"

fun remove_first :: "('a \<Rightarrow> bool) \<Rightarrow> 'a list \<Rightarrow> ('a \<times> 'a list) option" where
  "remove_first P [] = None"
| "remove_first P (x # xs) =
     (if P x then Some (x, xs) else map_option (\<lambda>(y, ys). (y, x # ys)) (remove_first P xs))"

definition process_approval ::
  "wsop_env \<Rightarrow> nat \<Rightarrow> string \<Rightarrow> string \<Rightarrow> string \<Rightarrow> gateway_state \<Rightarrow> approval_result \<times> gateway_state" where
  "process_approval env entropy json ssid password gw =
     (case parse_approval_mac json of
        None \<Rightarrow> (ApprovalNotFound, gw)
      | Some mac \<Rightarrow>
          (case remove_first (\<lambda>p. pr_mac p = mac) (gw_pending gw) of
             None \<Rightarrow> (ApprovalNotFound, gw)
           | Some (p, rest) \<Rightarrow>
               (Approved (pr_nonce p) (decision_of env entropy (parse_approval_action json) ssid password p),
                gw\<lparr>gw_pending := rest\<rparr>)))"

section \<open>Timeouts\<close>

definition request_expired :: "f64 \<Rightarrow> nat \<Rightarrow> pending_request \<Rightarrow> bool" where
  "request_expired now timeout p = (remaining_secs p now timeout \<le> Fin 0)"

definition tick_timeouts :: "wsop_env \<Rightarrow> f64 \<Rightarrow> gateway_state \<Rightarrow> denial_response list \<times> gateway_state" where
  "tick_timeouts env now gw =
     (map (\<lambda>p. \<lparr>dn_nonce_echo = pr_nonce p, dn_response = denial_of env (pr_nonce p)\<rparr>)
        (filter (request_expired now (gw_timeout gw)) (gw_pending gw)),
      gw\<lparr>gw_pending := filter (\<lambda>p. \<not> request_expired now (gw_timeout gw) p) (gw_pending gw)\<rparr>)"

section \<open>The items\<close>

definition split_display_mode :: "string \<Rightarrow> string \<times> string" where
  "split_display_mode raw =
     (case strip_prefix ''color:'' raw of
        Some rest \<Rightarrow> (''color'', rest)
      | None \<Rightarrow>
          (case strip_prefix ''digit:'' raw of
             Some rest \<Rightarrow> (''digit'', rest)
           | None \<Rightarrow>
               (case strip_prefix ''none:'' raw of
                  Some rest \<Rightarrow> (''none'', rest)
                | None \<Rightarrow> (''color'', raw))))"

fun with_type :: "string option \<Rightarrow> object \<Rightarrow> object" where
  "with_type t (Object i _ d its obs) = Object i t d its obs"

definition gateway_item :: "nat \<Rightarrow> bool \<Rightarrow> info_item option" where
  "gateway_item capacity writable = do {
     item \<leftarrow> info_item_new capacity;
     Some (if writable then item\<lparr>it_meta := Some [(''writable'', Bool True)]\<rparr> else item)
   }"

definition build_gateway_tree :: "objects option" where
  "build_gateway_tree = do {
     join_req \<leftarrow> gateway_item 4 True;
     join_resp \<leftarrow> gateway_item 4 False;
     pending \<leftarrow> gateway_item 1 False;
     approval \<leftarrow> gateway_item 4 True;
     Some [(''OnboardingGateway'',
       add_item ''Approval'' approval (add_item ''PendingRequests'' pending
         (add_item ''JoinResponse'' join_resp (add_item ''JoinRequest'' join_req
           (with_type (Some ''omi:wsop:gateway'') (object_new ''OnboardingGateway''))))))]
   }"

text \<open>The newest value of an item, when it is a string; the outer option is a panic.\<close>

definition newest_string :: "object_tree \<Rightarrow> string \<Rightarrow> string option option" where
  "newest_string tree path =
     (case resolve tree path of
        Inr (PtInfoItem item) \<Rightarrow> do {
          vals \<leftarrow> query_values item (Some 1) None None None;
          Some (case vals of v # _ \<Rightarrow> (case val_v v of Str s \<Rightarrow> Some s | _ \<Rightarrow> None) | [] \<Rightarrow> None)
        }
      | _ \<Rightarrow> Some None)"

text \<open>What a tick of the main loop does with the newest values of the two writable items: it
  returns the responses to write.\<close>

record gateway_input =
  gi_time :: nat
  gi_now :: f64
  gi_join :: "string option"
  gi_approval :: "string option"
  gi_entropy :: nat
  gi_ssid :: string
  gi_password :: string

definition tick_join :: "wsop_env \<Rightarrow> gateway_input \<Rightarrow> gateway_state \<Rightarrow> gateway_state" where
  "tick_join env i gw =
     (case gi_join i of
        None \<Rightarrow> gw
      | Some raw \<Rightarrow> (case split_display_mode raw of
          (mode, b64) \<Rightarrow> snd (process_join_request env b64 (gi_time i) (gi_now i) mode gw)))"

definition tick_approval :: "wsop_env \<Rightarrow> gateway_input \<Rightarrow> gateway_state \<Rightarrow> string list \<times> gateway_state" where
  "tick_approval env i gw =
     (case gi_approval i of
        None \<Rightarrow> ([], gw)
      | Some json \<Rightarrow>
          (case process_approval env (gi_entropy i) json (gi_ssid i) (gi_password i) gw of
             (Approved _ response, gw) \<Rightarrow> ([response], gw)
           | (ApprovalNotFound, gw) \<Rightarrow> ([], gw)))"

definition gateway_tick :: "wsop_env \<Rightarrow> gateway_input \<Rightarrow> gateway_state \<Rightarrow> string list \<times> gateway_state" where
  "gateway_tick env i gw =
     (case tick_approval env i (tick_join env i gw) of
        (responses, gw) \<Rightarrow>
          (case tick_timeouts env (gi_now i) gw of
             (denials, gw) \<Rightarrow> (responses @ map dn_response denials, gw)))"

text \<open>The same on the object tree: responses and the pending list are written back. A failed write
  is only logged.\<close>

definition write_logged :: "string \<Rightarrow> string \<Rightarrow> f64 \<Rightarrow> object_tree \<Rightarrow> object_tree option" where
  "write_logged path text now tree = map_option fst (write_value path (Str text) (Some now) tree)"

definition gateway_tick_tree ::
  "wsop_env \<Rightarrow> gateway_input \<Rightarrow> gateway_state \<times> object_tree \<Rightarrow> (gateway_state \<times> object_tree) option" where
  "gateway_tick_tree env i = (\<lambda>(gw, tree). do {
     join \<leftarrow> newest_string tree path_join_request;
     approval \<leftarrow> newest_string tree path_approval;
     let (responses, gw) = gateway_tick env (i\<lparr>gi_join := join, gi_approval := approval\<rparr>) gw;
     tree \<leftarrow> fold_opt (\<lambda>r. write_logged path_join_response r (gi_now i)) responses tree;
     tree \<leftarrow> write_logged path_pending_requests (pending_requests_json (gi_now i) gw) (gi_now i) tree;
     Some (gw, tree)
   })"

end
