(* ===== verification/Joiner.thy ===== *)
theory Joiner
  imports OnboardSm Gateway WifiCfg
begin

text \<open>
  \<open>src/wsop/joiner.rs\<close>: the driver of a joining device. Scanning, connecting, the HTTP client, the
  display with its waiting, the entropy of keys and nonces, the clock and the NVS are functions over a
  world; an operation that fails returns the message of its error.
\<close>

section \<open>The platform\<close>

definition gateway_base_url :: string where "gateway_base_url = ''http://192.168.4.1''"
definition join_request_path :: string where "join_request_path = ''/Objects/OnboardingGateway/JoinRequest''"
definition join_response_path :: string where "join_response_path = ''/Objects/OnboardingGateway/JoinResponse''"
definition max_retry_attempts :: nat where "max_retry_attempts = 6"

record 'w joiner_hw =
  jh_keypair :: "'w \<Rightarrow> string \<times> 'w"
  jh_nonce :: "'w \<Rightarrow> string \<times> 'w"
  jh_mac :: "'w \<Rightarrow> string"
  jh_now :: "'w \<Rightarrow> nat"
  jh_show :: "nat \<Rightarrow> 'w \<Rightarrow> 'w"
  jh_sleep :: "nat \<Rightarrow> nat \<Rightarrow> 'w \<Rightarrow> 'w"
  jh_scan :: "'w \<Rightarrow> (string + bool) \<times> 'w"
  jh_connect :: "'w \<Rightarrow> (string + unit) \<times> 'w"
  jh_disconnect :: "'w \<Rightarrow> 'w"
  jh_post :: "string \<Rightarrow> string \<Rightarrow> 'w \<Rightarrow> (string + string) \<times> 'w"
  jh_get :: "string \<Rightarrow> 'w \<Rightarrow> (string + string) \<times> 'w"
  jh_nvs_write :: "'w \<Rightarrow> bool \<times> 'w"

section \<open>Messages\<close>

text \<open>\<open>s.chars().take(n)\<close> on UTF-8 bytes.\<close>

primrec take_chars :: "nat \<Rightarrow> string \<Rightarrow> string" where
  "take_chars 0 s = []"
| "take_chars (Suc n) s =
     (if s = [] then [] else take (snd (utf8_chunk s)) s @ take_chars n (drop (snd (utf8_chunk s)) s))"

definition join_request_body :: "wsop_env \<Rightarrow> string \<Rightarrow> string \<Rightarrow> string" where
  "join_request_body env display_mode wire =
     ''{\"'' @ join_request_path @ ''\": {\"value\": \"'' @ display_mode @ '':'' @ we_b64_encode env wire @ ''\"}}''"

definition send_join_request ::
  "wsop_env \<Rightarrow> 'w joiner_hw \<Rightarrow> join_request \<Rightarrow> string \<Rightarrow> 'w \<Rightarrow> bool \<times> 'w" where
  "send_join_request env hw req display_mode w =
     (case request_serialize req of
        Inl _ \<Rightarrow> (False, w)
      | Inr wire \<Rightarrow>
          (case jh_post hw (gateway_base_url @ ''/write'') (join_request_body env display_mode wire) w of
             (r, w) \<Rightarrow> (is_ok r, w)))"

definition extract_omi_value :: "string \<Rightarrow> string option" where
  "extract_omi_value json = do {
     after_key \<leftarrow> after_sub ''\"value\"'' json;
     after_colon \<leftarrow> strip_prefix '':'' (trim_start after_key);
     content \<leftarrow> strip_prefix [CHR 0x22] (trim_start after_colon);
     if CHR 0x22 \<in> set content then Some (takeWhile (\<lambda>c. c \<noteq> CHR 0x22) content) else None
   }"

text \<open>The answer in a value that was read: none yet, an error, or a response to the own nonce.\<close>

definition response_in :: "wsop_env \<Rightarrow> string \<Rightarrow> string \<Rightarrow> protocol_error + join_response option" where
  "response_in env nonce val =
     (if val = [] then Inr None
      else rbind (ok_or InvalidUtf8 (we_b64_decode env val)) (\<lambda>bytes.
        rbind (response_deserialize bytes) (\<lambda>response.
          Inr (if js_nonce_echo response = nonce then Some response else None))))"

definition poll_join_response ::
  "wsop_env \<Rightarrow> 'w joiner_hw \<Rightarrow> string \<Rightarrow> 'w \<Rightarrow> (protocol_error + join_response option) \<times> 'w" where
  "poll_join_response env hw nonce w =
     (case jh_get hw (gateway_base_url @ ''/read'' @ join_response_path) w of
        (Inl _, w) \<Rightarrow> (Inr None, w)
      | (Inr body, w) \<Rightarrow>
          (case extract_omi_value body of
             None \<Rightarrow> (Inr None, w)
           | Some val \<Rightarrow> (response_in env nonce val, w)))"

definition poll_event :: "string \<Rightarrow> protocol_error + join_response option \<Rightarrow> onboard_event" where
  "poll_event nonce r =
     (case r of
        Inr (Some response) \<Rightarrow>
          (if js_nonce_echo response \<noteq> nonce then ENonceMismatch
           else if js_status response = status_approved then ResponseApproved
           else if js_status response = status_denied then ResponseDenied
           else NoResponse)
      | _ \<Rightarrow> NoResponse)"

definition open_credentials :: "wsop_env \<Rightarrow> string \<Rightarrow> string \<Rightarrow> wifi_credentials option" where
  "open_credentials env secret ciphertext =
     (case we_unseal env ciphertext secret of
        None \<Rightarrow> None
      | Some plaintext \<Rightarrow>
          (case credentials_deserialize plaintext of Inl _ \<Rightarrow> None | Inr creds \<Rightarrow> Some creds))"

section \<open>One attempt\<close>

record 'w joiner_st =
  jt_sm :: onboard_sm
  jt_ciphertext :: string
  jt_cfg :: wifi_config
  jt_nvs :: "string option"
  jt_world :: 'w

record attempt_keys =
  ak_secret :: string
  ak_nonce :: string
  ak_mac :: string
  ak_hostname :: string
  ak_display_mode :: string

definition ofeed :: "onboard_event \<Rightarrow> 'w joiner_st \<Rightarrow> onboard_action \<times> 'w joiner_st" where
  "ofeed e st = (case onboard_handle_event e (jt_sm st) of (a, sm) \<Rightarrow> (a, st\<lparr>jt_sm := sm\<rparr>))"

text \<open>What a step of the inner loop does for an action: the next action, or success.\<close>

datatype 'w joiner_next = Next onboard_action "'w joiner_st" | Joined "'w joiner_st"

definition feed_next :: "onboard_event \<Rightarrow> 'w joiner_st \<Rightarrow> 'w joiner_next" where
  "feed_next e st = (case ofeed e st of (a, st) \<Rightarrow> Next a st)"

definition store_credentials :: "'w joiner_hw \<Rightarrow> wifi_credentials \<Rightarrow> 'w joiner_st \<Rightarrow> 'w joiner_st" where
  "store_credentials hw creds st =
     (let cfg = (jt_cfg st)\<lparr>wc_ssids := wc_ssids (jt_cfg st) @ [(wk_ssid creds, wk_credential creds)]\<rparr>
      in case (if is_ok (serialize_wifi_config cfg) then jh_nvs_write hw (jt_world st) else (False, jt_world st)) of
           (ok, w) \<Rightarrow>
             st\<lparr>jt_cfg := cfg, jt_nvs := snd (save_wifi_config ok cfg (jt_nvs st)), jt_world := w\<rparr>)"

fun joiner_step ::
  "wsop_env \<Rightarrow> 'w joiner_hw \<Rightarrow> attempt_keys \<Rightarrow> onboard_action \<Rightarrow> 'w joiner_st \<Rightarrow> 'w joiner_next" where
  "joiner_step env hw k StartScan st =
     (case jh_scan hw (jt_world st) of
        (r, w) \<Rightarrow> feed_next (if r = Inr True then ApFound else ApNotFound) (st\<lparr>jt_world := w\<rparr>))"
| "joiner_step env hw k OConnect st =
     (case jh_connect hw (jt_world st) of
        (r, w) \<Rightarrow> feed_next (if is_ok r then OConnected else OConnectFailed) (st\<lparr>jt_world := w\<rparr>))"
| "joiner_step env hw k SendRequest st =
     (let req = \<lparr>jr_name = take_chars 32 (ak_hostname k), jr_mac = ak_mac k,
                 jr_pubkey = we_public env (ak_secret k), jr_nonce = ak_nonce k,
                 jr_timestamp = jh_now hw (jt_world st)\<rparr>
      in case send_join_request env hw req (ak_display_mode k) (jt_world st) of
           (ok, w) \<Rightarrow> feed_next (if ok then RequestSent else OConnectFailed) (st\<lparr>jt_world := w\<rparr>))"
| "joiner_step env hw k (WaitPoll ms) st =
     (let w = jh_sleep hw ms (we_blake2b_1 env (we_public env (ak_secret k))) (jt_world st)
      in case poll_join_response env hw (ak_nonce k) w of
           (r, w) \<Rightarrow>
             (let e = poll_event (ak_nonce k) r;
                  cipher = (case r of
                      Inr (Some response) \<Rightarrow>
                        if e = ResponseApproved then js_ciphertext response else jt_ciphertext st
                    | _ \<Rightarrow> jt_ciphertext st)
              in feed_next e (st\<lparr>jt_world := w, jt_ciphertext := cipher\<rparr>)))"
| "joiner_step env hw k Decrypt st =
     (case open_credentials env (ak_secret k) (jt_ciphertext st) of
        Some creds \<Rightarrow> Joined (store_credentials hw creds st)
      | None \<Rightarrow> feed_next DecryptFailed st)"
| "joiner_step env hw k OIdle st = Next OIdle st"

text \<open>The inner loop: success, or the state in which it broke off.\<close>

fun attempt_loop ::
  "nat \<Rightarrow> wsop_env \<Rightarrow> 'w joiner_hw \<Rightarrow> attempt_keys \<Rightarrow> onboard_action \<Rightarrow> 'w joiner_st \<Rightarrow>
   ('w joiner_st + 'w joiner_st) outcome" where
  "attempt_loop 0 env hw k a st = OutOfFuel"
| "attempt_loop (Suc n) env hw k a st =
     (if a = OIdle then Finished (Inl st)
      else (case joiner_step env hw k a st of
              Joined st \<Rightarrow> Finished (Inr st)
            | Next a st \<Rightarrow> attempt_loop n env hw k a st))"

section \<open>The whole flow\<close>

datatype onboard_result = OnboardSuccess nat | OnboardFallback

record 'w joiner_dev =
  jd_cfg :: wifi_config
  jd_nvs :: "string option"
  jd_world :: 'w

text \<open>A failed attempt is final when there is no gateway or the machine stopped half way, and may be
  repeated when it was denied or could not be decrypted. \<open>None\<close> is the \<open>unreachable!\<close> of the code.\<close>

definition attempt_retriable :: "onboard_sm \<Rightarrow> bool option" where
  "attempt_retriable sm =
     (case os_state sm of
        Succeeded \<Rightarrow> None
      | OFailed reason \<Rightarrow> Some (reason \<in> {FrDenied, DecryptionError, FrNonceMismatch})
      | _ \<Rightarrow> Some False)"

definition begin_attempt ::
  "wsop_env \<Rightarrow> 'w joiner_hw \<Rightarrow> string \<Rightarrow> string \<Rightarrow> 'w joiner_dev \<Rightarrow> attempt_keys \<times> 'w joiner_st" where
  "begin_attempt env hw hostname display_mode d =
     (case jh_keypair hw (jd_world d) of (secret, w) \<Rightarrow>
        let w = jh_show hw (we_blake2b_1 env (we_public env secret)) w
        in case jh_nonce hw w of (nonce, w) \<Rightarrow>
          (\<lparr>ak_secret = secret, ak_nonce = nonce, ak_mac = jh_mac hw w, ak_hostname = hostname,
            ak_display_mode = display_mode\<rparr>,
           \<lparr>jt_sm = onboard_new onboard_default_config, jt_ciphertext = [], jt_cfg = jd_cfg d,
            jt_nvs = jd_nvs d, jt_world = w\<rparr>))"

fun run_onboarding ::
  "nat \<Rightarrow> nat \<Rightarrow> wsop_env \<Rightarrow> 'w joiner_hw \<Rightarrow> string \<Rightarrow> string \<Rightarrow> nat \<Rightarrow> 'w joiner_dev \<Rightarrow>
   (onboard_result \<times> 'w joiner_dev) outcome" where
  "run_onboarding 0 m env hw hostname mode retry d = OutOfFuel"
| "run_onboarding (Suc n) m env hw hostname mode retry d =
     (if max_retry_attempts \<le> retry then Finished (OnboardFallback, d)
      else (case begin_attempt env hw hostname mode d of (k, st) \<Rightarrow>
        obind (attempt_loop m env hw k (onboard_initial_action (jt_sm st)) st) (\<lambda>r.
          case r of
            Inr st \<Rightarrow>
              Finished (OnboardSuccess (length (wc_ssids (jt_cfg st))),
                \<lparr>jd_cfg = jt_cfg st, jd_nvs = jt_nvs st, jd_world = jt_world st\<rparr>)
          | Inl st \<Rightarrow>
              (let d = \<lparr>jd_cfg = jt_cfg st, jd_nvs = jt_nvs st, jd_world = jt_world st\<rparr>
               in obind (or_panic (attempt_retriable (jt_sm st))) (\<lambda>retriable.
                    if retriable
                    then run_onboarding n m env hw hostname mode (retry + 1)
                           (d\<lparr>jd_world := jh_disconnect hw (jd_world d)\<rparr>)
                    else Finished (OnboardFallback, d))))))"

end
