(* ===== verification/GatewaySpec.thy ===== *)
theory GatewaySpec
  imports Gateway
begin

text \<open>
  What the gateway guarantees to the owner of the network and to a joining device, and what it
  does not: credentials are sealed only to keys that were requested and named by an approval, a
  device that was approved can open them, but a decision stays in force.
\<close>

section \<open>The gateway as a machine\<close>

datatype gw_call =
  JoinWrite string nat f64 string | ApprovalWrite nat string string string | GwTick f64

datatype gw_out = JoinOut join_result | ApprovalOut approval_result | TickOut "denial_response list"

fun gw_step :: "wsop_env \<Rightarrow> gw_call \<Rightarrow> gateway_state \<Rightarrow> gw_out \<times> gateway_state" where
  "gw_step env (JoinWrite b64 gtime now mode) gw = apfst JoinOut (process_join_request env b64 gtime now mode gw)"
| "gw_step env (ApprovalWrite entropy json ssid password) gw =
     apfst ApprovalOut (process_approval env entropy json ssid password gw)"
| "gw_step env (GwTick now) gw = apfst TickOut (tick_timeouts env now gw)"

definition gw_ok :: "gateway_state \<Rightarrow> bool" where
  "gw_ok gw \<longleftrightarrow> length (gw_pending gw) \<le> max_pending \<and> distinct (map pr_mac (gw_pending gw))"

lemma remove_first_Some:
  "remove_first P xs = Some (x, ys) \<Longrightarrow> \<exists>as bs. xs = as @ x # bs \<and> ys = as @ bs \<and> P x \<and> (\<forall>a \<in> set as. \<not> P a)"
proof (induction xs arbitrary: x ys)
  case (Cons z xs)
  show ?case
  proof (cases "P z")
    case False
    then obtain ys' where "remove_first P xs = Some (x, ys')" "ys = z # ys'"
      using Cons.prems by auto
    with Cons.IH [of x ys'] False show ?thesis by (metis append_Cons set_ConsD)
  qed (use Cons.prems in \<open>auto intro: exI [of _ "[]"]\<close>)
qed simp

lemma remove_first_None: "remove_first P xs = None \<longleftrightarrow> (\<forall>x \<in> set xs. \<not> P x)"
  by (induction xs) auto

lemma process_join_request_cases:
  assumes "process_join_request env b64 gtime now mode gw = (r, gw')"
  obtains "gw' = gw" "r = Rejected"
  | req where "decode_request env b64 = Some req" "r = Queued"
      "timestamp_drift (jr_timestamp req) gtime \<le> max_timestamp_drift_secs"
      "length (gw_pending gw) < max_pending"
      "gw' = gw\<lparr>gw_pending :=
         filter (\<lambda>p. pr_mac p \<noteq> jr_mac req) (gw_pending gw) @ [pending_of env now mode req]\<rparr>"
  using assms by (auto simp: process_join_request_def split: option.splits if_splits)

lemma pending_of_sel [simp]:
  "pr_mac (pending_of env now mode req) = jr_mac req" "pr_pubkey (pending_of env now mode req) = jr_pubkey req"
  "pr_nonce (pending_of env now mode req) = jr_nonce req" "pr_queued_at (pending_of env now mode req) = now"
  by (simp_all add: pending_of_def Let_def)

lemma distinct_map_filter_le: "distinct (map f xs) \<Longrightarrow> distinct (map f (filter P xs))"
  by (simp add: distinct_map inj_on_def)

interpretation gateway: machine "gw_step env" gw_ok "\<lambda>_ _. True" for env
proof
  fix gw c assume ok: "gw_ok gw"
  show "gw_ok (snd (gw_step env c gw))"
  proof (cases c)
    case (JoinWrite b64 gtime now mode)
    obtain r gw' where p: "process_join_request env b64 gtime now mode gw = (r, gw')"
      by (cases "process_join_request env b64 gtime now mode gw")
    have len: "length (filter P (gw_pending gw)) \<le> length (gw_pending gw)" for P by (rule length_filter_le)
    from p show ?thesis
      by (cases rule: process_join_request_cases)
        (use ok JoinWrite p le_less_trans [OF len] in
          \<open>auto simp: gw_ok_def distinct_map_filter_le less_eq_Suc_le [symmetric]\<close>)
  next
    case (ApprovalWrite entropy json ssid password)
    with ok show ?thesis
      by (auto simp: process_approval_def gw_ok_def split: option.splits dest!: remove_first_Some)
  next
    case (GwTick now)
    with ok show ?thesis
      using le_trans [OF length_filter_le [of "\<lambda>p. \<not> request_expired now (gw_timeout gw) p" "gw_pending gw"]]
      by (simp add: tick_timeouts_def gw_ok_def distinct_map_filter_le)
  qed
qed

section \<open>Where pending requests come from\<close>

definition requested_by :: "wsop_env \<Rightarrow> pending_request \<Rightarrow> gw_call \<Rightarrow> bool" where
  "requested_by env p c \<longleftrightarrow>
     (\<exists>b64 gtime now mode req. c = JoinWrite b64 gtime now mode \<and> decode_request env b64 = Some req \<and>
        timestamp_drift (jr_timestamp req) gtime \<le> max_timestamp_drift_secs \<and> p = pending_of env now mode req)"

lemma gw_step_origin:
  "p \<in> set (gw_pending (snd (gw_step env c gw))) \<Longrightarrow> p \<in> set (gw_pending gw) \<or> requested_by env p c"
proof (cases c)
  case (JoinWrite b64 gtime now mode)
  obtain r gw' where j: "process_join_request env b64 gtime now mode gw = (r, gw')"
    by (cases "process_join_request env b64 gtime now mode gw")
  assume "p \<in> set (gw_pending (snd (gw_step env c gw)))"
  then have p: "p \<in> set (gw_pending gw')" by (simp add: JoinWrite j)
  from j show ?thesis
    by (cases rule: process_join_request_cases) (use p JoinWrite in \<open>auto simp: requested_by_def\<close>)
next
  case (ApprovalWrite entropy json ssid password)
  then show "p \<in> set (gw_pending (snd (gw_step env c gw))) \<Longrightarrow> ?thesis"
    by (auto simp: process_approval_def split: option.splits dest!: remove_first_Some)
qed (auto simp: tick_timeouts_def)

lemma run_origin:
  "p \<in> set (gw_pending (final_state (gw_step env) cs gw)) \<Longrightarrow>
   p \<in> set (gw_pending gw) \<or> (\<exists>c \<in> set cs. requested_by env p c)"
proof (induction cs arbitrary: gw)
  case (Cons c cs)
  then show ?case using gw_step_origin [of p env c gw] by (auto simp del: run.simps(2))
qed simp

lemma all_fit_True: "all_fit step (\<lambda>_ _. True) cs s"
  by (induction cs arbitrary: s) simp_all

lemma run_gw_ok: "gw_ok (final_state (gw_step env) cs gateway_new)"
  by (rule gateway.run_ok) (simp_all add: gw_ok_def gateway_new_def all_fit_True)

text \<open>C33: In every run of the gateway at most four requests wait, from distinct devices, and each of them
  was written as a join request whose timestamp was within 300 seconds. An approval write answers only a
  waiting request, the one whose MAC it names, and takes it off the queue: with an answer to its
  nonce that carries the credentials sealed to the key of that request exactly when the action is
  to approve, and no credentials otherwise. An approval for another device changes nothing.\<close>

theorem gateway_seals_only_for_approved:
  fixes env cs
  defines "gw \<equiv> final_state (gw_step env) cs gateway_new"
  shows "length (gw_pending gw) \<le> max_pending \<and> distinct (map pr_mac (gw_pending gw)) \<and>
    list_all (\<lambda>p. list_ex (requested_by env p) cs) (gw_pending gw) \<and>
    (case process_approval env entropy json ssid password gw of
       (ApprovalNotFound, gw') \<Rightarrow> gw' = gw \<and>
         \<not> list_ex (\<lambda>p. parse_approval_mac json = Some (pr_mac p)) (gw_pending gw)
     | (Approved nonce response, gw') \<Rightarrow>
         (\<exists>p \<in> set (gw_pending gw). parse_approval_mac json = Some (pr_mac p) \<and> nonce = pr_nonce p \<and>
            gw_pending gw' = filter (\<lambda>q. pr_mac q \<noteq> pr_mac p) (gw_pending gw) \<and>
            response =
              (case (parse_approval_action json = Some ''approve'', credentials_serialize (wifi_grant ssid password)) of
                 (True, Inr creds_bytes) \<Rightarrow> grant_of env entropy creds_bytes p
               | _ \<Rightarrow> denial_of env nonce)))"
proof (intro conjI)
  have ok: "gw_ok gw" unfolding gw_def by (rule run_gw_ok)
  then show "length (gw_pending gw) \<le> max_pending" "distinct (map pr_mac (gw_pending gw))"
    by (simp_all add: gw_ok_def)
  show "list_all (\<lambda>p. list_ex (requested_by env p) cs) (gw_pending gw)"
    using run_origin [of _ env cs gateway_new]
    by (auto simp: gw_def list_all_iff list_ex_iff gateway_new_def)
  show "case process_approval env entropy json ssid password gw of
       (ApprovalNotFound, gw') \<Rightarrow> gw' = gw \<and>
         \<not> list_ex (\<lambda>p. parse_approval_mac json = Some (pr_mac p)) (gw_pending gw)
     | (Approved nonce response, gw') \<Rightarrow>
         (\<exists>p \<in> set (gw_pending gw). parse_approval_mac json = Some (pr_mac p) \<and> nonce = pr_nonce p \<and>
            gw_pending gw' = filter (\<lambda>q. pr_mac q \<noteq> pr_mac p) (gw_pending gw) \<and>
            response =
              (case (parse_approval_action json = Some ''approve'', credentials_serialize (wifi_grant ssid password)) of
                 (True, Inr creds_bytes) \<Rightarrow> grant_of env entropy creds_bytes p
               | _ \<Rightarrow> denial_of env nonce))"
  proof (cases "parse_approval_mac json")
    case (Some mac)
    show ?thesis
    proof (cases "remove_first (\<lambda>p. pr_mac p = mac) (gw_pending gw)")
      case None
      then have "\<forall>x \<in> set (gw_pending gw). pr_mac x \<noteq> mac" by (simp add: remove_first_None)
      with Some None show ?thesis
        by (auto simp: process_approval_def list_ex_iff)
    next
      case (Some pr)
      obtain p rest where pr: "pr = (p, rest)" by (cases pr)
      obtain as bs where q: "gw_pending gw = as @ p # bs" "rest = as @ bs" "pr_mac p = mac"
        using remove_first_Some [OF Some [unfolded pr]] by blast
      have "filter (\<lambda>q. pr_mac q \<noteq> pr_mac p) as = as" "filter (\<lambda>q. pr_mac q \<noteq> pr_mac p) bs = bs"
        using ok unfolding gw_ok_def q(1) by (auto simp: filter_id_conv image_iff)
      then have "rest = filter (\<lambda>q. pr_mac q \<noteq> pr_mac p) (gw_pending gw)" by (simp add: q)
      then show ?thesis
        using \<open>parse_approval_mac json = Some mac\<close> Some q(1,3)
        by (auto simp: process_approval_def pr decision_of_def split: sum.split bool.split)
    qed
  qed (simp add: process_approval_def list_ex_iff)
qed

end
