(* ===== verification/JoinerSpec.thy ===== *)
theory JoinerSpec
  imports Joiner GatewaySpec
begin

text \<open>
  What the joining device guarantees on its own (onboarding always ends, and changes the
  configuration only by credentials it could open), and the two sides of the protocol together.
\<close>

section \<open>An attempt ends\<close>

definition attempt_ok :: "onboard_sm \<Rightarrow> bool" where
  "attempt_ok sm \<longleftrightarrow> onboard_ok sm \<and> os_state sm \<noteq> Succeeded"

text \<open>The state machine is fed an event it expects, other than a success, or the attempt is over.\<close>

definition moves_on :: "'w joiner_st \<Rightarrow> 'w joiner_next \<Rightarrow> bool" where
  "moves_on st r \<longleftrightarrow>
     (case r of
        Joined st' \<Rightarrow> \<exists>s p. wc_ssids (jt_cfg st') = wc_ssids (jt_cfg st) @ [(s, p)]
      | Next a st' \<Rightarrow> jt_cfg st' = jt_cfg st \<and> jt_nvs st' = jt_nvs st \<and> attempt_ok (jt_sm st') \<and>
          (a = OIdle \<or> action_of (jt_sm st') a \<and> onboard_rank (jt_sm st') < onboard_rank (jt_sm st)))"

lemma feed_next_moves_on:
  assumes "attempt_ok (jt_sm st)" "e \<noteq> DecryptOk" "onboard_expects (jt_sm st) e \<or> e = OConnectFailed \<and> os_state (jt_sm st) = Requesting"
    and "jt_sm st' = jt_sm st" "jt_cfg st' = jt_cfg st" "jt_nvs st' = jt_nvs st"
  shows "moves_on st (feed_next e st')"
proof (cases "onboard_expects (jt_sm st) e")
  case True
  obtain a sm where h: "onboard_handle_event e (jt_sm st) = (a, sm)" by fastforce
  have "os_state sm \<noteq> Succeeded"
    using h assms(1,2)
    by (auto simp: onboard_handle_event_def attempt_ok_def onboard_fail_def poll_again_def Let_def
        split: onboard_state.splits onboard_event.splits if_splits)
  with h onboard_step [OF _ True] assms show ?thesis
    by (simp add: moves_on_def feed_next_def ofeed_def attempt_ok_def)
next
  case False
  with assms have "e = OConnectFailed" "os_state (jt_sm st) = Requesting" by auto
  then show ?thesis
    using assms by (simp add: moves_on_def feed_next_def ofeed_def onboard_handle_event_def)
qed

lemma poll_event_expected: "poll_event nonce r \<in> {NoResponse, ResponseApproved, ResponseDenied, ENonceMismatch}"
  by (auto simp: poll_event_def split: sum.split option.split)

lemma joiner_step_moves_on:
  assumes "attempt_ok (jt_sm st)" "action_of (jt_sm st) a" "a \<noteq> OIdle"
  shows "moves_on st (joiner_step env hw k a st)"
proof (cases a)
  case StartScan
  then show ?thesis
    using assms by (auto split: prod.split intro!: feed_next_moves_on simp: onboard_expects_def)
next
  case OConnect
  then show ?thesis
    using assms by (auto split: prod.split intro!: feed_next_moves_on simp: onboard_expects_def)
next
  case SendRequest
  then show ?thesis
    using assms by (auto simp: Let_def onboard_expects_def split: prod.split intro!: feed_next_moves_on)
next
  case (WaitPoll ms)
  then obtain n where "os_state (jt_sm st) = Polling n" using assms by auto
  moreover have "poll_event nonce r \<noteq> DecryptOk" for nonce r using poll_event_expected [of nonce r] by auto
  ultimately show ?thesis
    using assms WaitPoll poll_event_expected
    by (auto simp: Let_def onboard_expects_def split: prod.split intro!: feed_next_moves_on)
next
  case Decrypt
  show ?thesis
  proof (cases "open_credentials env (ak_secret k) (jt_ciphertext st)")
    case None
    with Decrypt assms show ?thesis
      by (auto intro!: feed_next_moves_on simp: onboard_expects_def)
  next
    case (Some creds)
    then show ?thesis
      by (auto simp: Decrypt moves_on_def store_credentials_def Let_def split: prod.split)
  qed
qed (use assms in simp)

lemma rank_pos: "action_of sm a \<Longrightarrow> a \<noteq> OIdle \<Longrightarrow> 0 < onboard_rank sm"
  by (cases a) (auto simp: onboard_rank_def Let_def)

text \<open>What an attempt leaves.\<close>

definition attempt_ends :: "'w joiner_st \<Rightarrow> ('w joiner_st + 'w joiner_st) outcome \<Rightarrow> bool" where
  "attempt_ends st r \<longleftrightarrow>
     (\<exists>st'. r = Finished (Inl st') \<and> jt_cfg st' = jt_cfg st \<and> jt_nvs st' = jt_nvs st \<and> os_state (jt_sm st') \<noteq> Succeeded) \<or>
     (\<exists>st' s p. r = Finished (Inr st') \<and> wc_ssids (jt_cfg st') = wc_ssids (jt_cfg st) @ [(s, p)])"

lemma begin_attempt_st:
  assumes "begin_attempt env hw hostname mode d = (k, st)"
  shows "jt_sm st = onboard_new onboard_default_config" "jt_cfg st = jd_cfg d" "jt_nvs st = jd_nvs d"
  using assms by (auto simp: begin_attempt_def Let_def split: prod.splits)

lemma initial_attempt_ok:
  "attempt_ok (onboard_new onboard_default_config)" "onboard_rank (onboard_new onboard_default_config) = 14"
  "os_state (onboard_new onboard_default_config) = Scanning"
  using onboard_new_ok [of onboard_default_config]
  by (simp_all add: attempt_ok_def onboard_default_config_def onboard_new_def onboard_rank_def)

lemma attempt_loop_ends:
  "attempt_ok (jt_sm st) \<Longrightarrow> a = OIdle \<or> action_of (jt_sm st) a \<Longrightarrow> onboard_rank (jt_sm st) < n \<Longrightarrow>
   attempt_ends st (attempt_loop n env hw k a st)"
proof (induction n arbitrary: a st)
  case (Suc n)
  show ?case
  proof (cases "a = OIdle")
    case False
    then have act: "action_of (jt_sm st) a" using Suc.prems(2) by simp
    note m = joiner_step_moves_on [OF Suc.prems(1) act False, of env hw k]
    show ?thesis
    proof (cases "joiner_step env hw k a st")
      case (Next a' st')
      then have m': "jt_cfg st' = jt_cfg st" "jt_nvs st' = jt_nvs st" "attempt_ok (jt_sm st')"
        "a' = OIdle \<or> action_of (jt_sm st') a' \<and> onboard_rank (jt_sm st') < onboard_rank (jt_sm st)"
        using m by (simp_all add: moves_on_def)
      have "attempt_ends st' (attempt_loop n env hw k a' st')"
      proof (cases "a' = OIdle")
        case True
        have "0 < n" using rank_pos [OF act False] Suc.prems(3) by simp
        then show ?thesis using True m'(3) by (cases n) (simp_all add: attempt_ends_def attempt_ok_def)
      next
        case False
        then show ?thesis using m'(3,4) Suc.prems(3) by (intro Suc.IH) auto
      qed
      then show ?thesis using False Next m'(1,2) by (simp add: attempt_ends_def)
    next
      case (Joined st')
      with m False show ?thesis by (auto simp: moves_on_def attempt_ends_def)
    qed
  qed (use Suc.prems in \<open>simp add: attempt_ends_def attempt_ok_def\<close>)
qed simp

lemma attempt_retriable_total: "os_state sm \<noteq> Succeeded \<Longrightarrow> \<exists>r. attempt_retriable sm = Some r"
  by (cases "os_state sm") (auto simp: attempt_retriable_def)

text \<open>C36: Onboarding always ends. Whatever the radio, the gateway, the clock and the entropy source do,
  after at most six attempts of at most fourteen steps it has either fallen back, with the
  configuration and the stored blob as they were, or it has joined, with exactly one pair of
  credentials added; the code that is marked unreachable is not reached.\<close>

theorem onboarding_ends:
  assumes "0 < n" "max_retry_attempts < retry + n" "14 < m"
  shows "\<exists>res d'. run_onboarding n m env hw hostname mode retry d = Finished (res, d') \<and>
    (case res of
       OnboardFallback \<Rightarrow> jd_cfg d' = jd_cfg d \<and> jd_nvs d' = jd_nvs d
     | OnboardSuccess k \<Rightarrow> k = length (wc_ssids (jd_cfg d')) \<and>
         (\<exists>ssid password. wc_ssids (jd_cfg d') = wc_ssids (jd_cfg d) @ [(ssid, password)]))"
  using assms(1,2)
proof (induction n arbitrary: retry d)
  case (Suc n)
  show ?case
  proof (cases "max_retry_attempts \<le> retry")
    case False
    obtain k st where b: "begin_attempt env hw hostname mode d = (k, st)" by fastforce
    note st = begin_attempt_st [OF b]
    have "attempt_ends st (attempt_loop m env hw k (onboard_initial_action (jt_sm st)) st)"
      using assms(3)
      by (intro attempt_loop_ends) (simp_all add: st initial_attempt_ok onboard_initial_action_def)
    then consider
        (left) st' where "attempt_loop m env hw k (onboard_initial_action (jt_sm st)) st = Finished (Inl st')"
          "jt_cfg st' = jd_cfg d" "jt_nvs st' = jd_nvs d" "os_state (jt_sm st') \<noteq> Succeeded"
      | (right) st' s p where "attempt_loop m env hw k (onboard_initial_action (jt_sm st)) st = Finished (Inr st')"
          "wc_ssids (jt_cfg st') = wc_ssids (jd_cfg d) @ [(s, p)]"
      unfolding attempt_ends_def st(2,3) by blast
    then show ?thesis
    proof cases
      case left
      obtain r where r: "attempt_retriable (jt_sm st') = Some r"
        using attempt_retriable_total [OF left(4)] by blast
      show ?thesis
      proof (cases r)
        case True
        let ?d = "\<lparr>jd_cfg = jd_cfg d, jd_nvs = jd_nvs d, jd_world = jh_disconnect hw (jt_world st')\<rparr>"
        have "0 < n" "max_retry_attempts < Suc retry + n" using Suc.prems False by simp_all
        from Suc.IH [OF this, of ?d] show ?thesis
          using False b left(1-3) r True by (simp cong: onboard_result.case_cong)
      qed (use False b left(1-3) r in simp)
    qed (use False b in auto)
  qed simp
qed simp

text \<open>A box that shows its key, text as its own encoding, and a platform where no gateway is in the air.\<close>

definition plain_env :: wsop_env where
  "plain_env = \<lparr>we_b64_encode = (\<lambda>d. d), we_b64_decode = Some, we_blake2b_1 = (\<lambda>_. 77), we_public = rev,
     we_seal = (\<lambda>_ m pk. rev pk @ m), we_unseal = (\<lambda>c sk. strip_prefix sk c)\<rparr>"

definition lonely_hw :: "nat joiner_hw" where
  "lonely_hw = \<lparr>jh_keypair = Pair (replicate 32 CHR 0x07), jh_nonce = Pair (replicate 8 CHR 0x02),
     jh_mac = (\<lambda>w. replicate 6 CHR 0xAA), jh_now = (\<lambda>w. w), jh_show = (\<lambda>_ w. w), jh_sleep = (\<lambda>ms _ w. w + ms div 1000),
     jh_scan = Pair (Inr False), jh_connect = Pair (Inl ''no network''), jh_disconnect = (\<lambda>w. w),
     jh_post = (\<lambda>_ _ w. (Inl ''timeout'', w)), jh_get = (\<lambda>_ w. (Inl ''timeout'', w)), jh_nvs_write = Pair True\<rparr>"

theorem onboarding_ends_witness:
  "\<exists>res d'. run_onboarding 7 15 plain_env lonely_hw ''sensor'' ''color'' 0
     \<lparr>jd_cfg = wifi_config_new ''sensor'', jd_nvs = None, jd_world = 0\<rparr> = Finished (res, d')"
  using onboarding_ends [of 7 0 15 plain_env lonely_hw "''sensor''" "''color''"] by (fastforce simp: max_retry_attempts_def)

section \<open>The text of an approval\<close>

lemma after_sub_hit: "after_sub p (p @ s) = Some s"
  by (simp add: after_sub.simps [of p "p @ s"])

lemma after_sub_skip: "q \<notin> set t \<Longrightarrow> after_sub (q # p) (t @ s) = after_sub (q # p) s"
proof (induction t)
  case (Cons c t)
  then have "strip_prefix (q # p) ((c # t) @ s) = None"
    by (auto simp: strip_prefix_def starts_with_def)
  with Cons show ?case by (simp add: after_sub.simps [of "q # p" "c # t @ s"])
qed simp

lemma hex_upper_plain: "d < 16 \<Longrightarrow> hex_digit (hex_upper d) = Some d \<and> hex_upper d \<notin> set ''+:a\"''"
proof -
  have "\<forall>d \<in> {0..<16}. hex_digit (hex_upper d) = Some d \<and> hex_upper d \<notin> set ''+:a\"''"
    by (simp add: hex_digit_def hex_upper_def atLeastLessThan_nat_numeral)
  then show "d < 16 \<Longrightarrow> ?thesis" by simp
qed

lemma u8_from_hex_byte [simp]: "u8_from_hex (hex_byte c) = Some (byte_of c)"
  using byte_nibbles [of c] hex_upper_plain [of "byte_of c div 16"] hex_upper_plain [of "byte_of c mod 16"]
  by (auto simp: u8_from_hex_def hex_byte_def Let_def not_le)

lemma hex_byte_plain: "x \<in> set (hex_byte c) \<Longrightarrow> x \<noteq> CHR '':'' \<and> x \<noteq> CHR 0x22"
  using byte_nibbles [of c] hex_upper_plain [of "byte_of c div 16"] hex_upper_plain [of "byte_of c mod 16"]
  by (auto simp: hex_byte_def)

lemma set_join_with: "set (join_with c ss) \<subseteq> insert c (\<Union> (set ` set ss))"
  by (induction c ss rule: join_with.induct) auto

lemma mac_text_plain: "CHR 0x22 \<notin> set (mac_text mac)"
  using set_join_with [of "CHR '':''" "map hex_byte mac"] hex_byte_plain by (fastforce simp: mac_text_def)

lemma parse_mac_text: "length mac = 6 \<Longrightarrow> parse_mac_str (mac_text mac) = Some mac"
proof -
  assume len: "length mac = 6"
  then have "map hex_byte mac \<noteq> []" by auto
  then have "split_on CHR '':'' (mac_text mac) = map hex_byte mac"
    using hex_byte_plain unfolding mac_text_def by (intro split_join) auto
  moreover have "those (map u8_from_hex (map hex_byte mac)) = Some (map byte_of mac)"
    by (induction mac) simp_all
  ultimately show ?thesis by (simp add: parse_mac_str_def Let_def len o_def)
qed

text \<open>The text the web page of the gateway writes for a decision.\<close>

definition approval_text :: "string \<Rightarrow> string \<Rightarrow> string" where
  "approval_text mac action =
     ''{\"mac\": \"'' @ mac_text mac @ ''\", \"action\": \"'' @ action @ ''\"}''"


lemma mac_text_first: "mac \<noteq> [] \<Longrightarrow> \<exists>x t. mac_text mac = x # t \<and> x \<noteq> CHR ''a''"
proof (cases mac)
  case (Cons c r)
  have "hex_upper (byte_of c div 16) \<noteq> CHR ''a''"
    using hex_upper_plain [of "byte_of c div 16"] byte_nibbles [of c] by auto
  then show ?thesis by (cases r) (simp_all add: mac_text_def hex_byte_def Cons)
qed simp

lemma after_sub_miss: "strip_prefix p (c # t) = None \<Longrightarrow> after_sub p (c # t) = after_sub p t"
  by (simp add: after_sub.simps [of p "c # t"])

lemma trim_start_graphic_Cons: "graphic c \<Longrightarrow> trim_start (c # s) = c # s"
  by (subst trim_start.simps)
    (auto simp: graphic_def ascii_space_def space2_def space3_def split: list.split)

lemma trim_start_blank: "trim_start (CHR '' '' # s) = trim_start s"
  by (subst trim_start.simps) (simp add: ascii_space_def)

lemma extract_json_string_found:
  assumes "after_sub (CHR 0x22 # key @ [CHR 0x22]) json = Some ('': \"'' @ v @ CHR 0x22 # rest)"
    and "CHR 0x22 \<notin> set v"
  shows "extract_json_string json key = Some v"
proof -
  have "takeWhile (\<lambda>c. c \<noteq> CHR 0x22) (v @ CHR 0x22 # rest) = v"
    using assms(2) by (simp add: takeWhile_append)
  then show ?thesis
    by (simp add: extract_json_string_def assms(1) trim_start_graphic_Cons trim_start_blank graphic_def
        strip_prefix_def starts_with_def)
qed

lemma approval_text_parsed:
  assumes "length mac = 6" "CHR 0x22 \<notin> set action"
  shows "parse_approval_mac (approval_text mac action) = Some mac"
    and "parse_approval_action (approval_text mac action) = Some action"
proof -
  define m where "m = mac_text mac"
  have m: "CHR 0x22 \<notin> set m" "parse_mac_str m = Some mac"
    using assms(1) by (simp_all add: m_def mac_text_plain parse_mac_text)
  let ?k = "\<lambda>key. CHR 0x22 # key @ [CHR 0x22]"
  let ?tail = "'': \"'' @ action @ ''\"}''"
  have a: "approval_text mac action = ''{'' @ ?k ''mac'' @ '': \"'' @ m @ ''\", '' @ ?k ''action'' @ ?tail"
    by (simp add: approval_text_def m_def)
  have "after_sub (?k ''mac'') (approval_text mac action) =
      Some ('': \"'' @ m @ CHR 0x22 # '', '' @ ?k ''action'' @ ?tail)"
    unfolding a by (subst after_sub_skip, simp, subst after_sub_hit [where p = "?k ''mac''"]) simp
  from extract_json_string_found [OF this m(1)]
  show "parse_approval_mac (approval_text mac action) = Some mac"
    by (simp add: parse_approval_mac_def m(2))
  have "after_sub (?k ''action'') (approval_text mac action) = Some ?tail"
  proof -
    obtain x t where x: "m = x # t" "x \<noteq> CHR ''a''"
      unfolding m_def by (rule exE [OF mac_text_first [of mac]]) (use assms(1) in auto)
    have skip: "after_sub (?k ''action'') (m @ ''\", '' @ ?k ''action'' @ ?tail) =
        after_sub (?k ''action'') (''\", '' @ ?k ''action'' @ ?tail)"
      using after_sub_skip [OF m(1)] by simp
    have "after_sub (?k ''action'') (''\", '' @ ?k ''action'' @ ?tail) = after_sub (?k ''action'') (?k ''action'' @ ?tail)"
      by (simp add: after_sub_miss strip_prefix_def starts_with_def)
    with skip show ?thesis
      unfolding a after_sub_hit [symmetric, of ?tail "?k ''action''"] x(1) using x(2)
      by (simp add: after_sub_miss strip_prefix_def starts_with_def)
  qed
  then have "after_sub (?k ''action'') (approval_text mac action) = Some ('': \"'' @ action @ CHR 0x22 # ''}'')"
    by simp
  from extract_json_string_found [OF this assms(2)]
  show "parse_approval_action (approval_text mac action) = Some action"
    by (simp add: parse_approval_action_def)
qed

section \<open>Both sides\<close>

text \<open>What is documented of the crates: decoding undoes encoding, only the empty string has an empty
  encoding, and a box is opened by the secret key of the public key it was sealed to.\<close>

definition crates_ok :: "wsop_env \<Rightarrow> bool" where
  "crates_ok env \<longleftrightarrow>
     (\<forall>d. we_b64_decode env (we_b64_encode env d) = Some d \<and> (we_b64_encode env d = [] \<longrightarrow> d = [])) \<and>
     (\<forall>r m sk. we_unseal env (we_seal env r m (we_public env sk)) sk = Some m)"

lemma process_valid_request:
  assumes "crates_ok env" "request_ok req" "request_serialize req = Inr wire"
    and "timestamp_drift (jr_timestamp req) gtime \<le> max_timestamp_drift_secs"
    and "length (gw_pending gw) < max_pending"
  shows "process_join_request env (we_b64_encode env wire) gtime now mode gw =
    (Queued, gw\<lparr>gw_pending :=
       filter (\<lambda>p. pr_mac p \<noteq> jr_mac req) (gw_pending gw) @ [pending_of env now mode req]\<rparr>)"
proof -
  have "decode_request env (we_b64_encode env wire) = Some req"
    using assms(1) request_codec.enc_dec [OF assms(2,3), of "[]"]
    by (simp add: decode_request_def crates_ok_def request_deserialize_def)
  then show ?thesis using assms(4,5) by (simp add: process_join_request_def)
qed

lemma approve_waiting:
  assumes "pr_mac p = mac" "length mac = 6" "CHR 0x22 \<notin> set action"
    and "list_all (\<lambda>q. pr_mac q \<noteq> mac) ps"
  shows "process_approval env entropy (approval_text mac action) ssid password (gw\<lparr>gw_pending := ps @ p # qs\<rparr>) =
    (Approved (pr_nonce p) (decision_of env entropy (Some action) ssid password p), gw\<lparr>gw_pending := ps @ qs\<rparr>)"
proof -
  have "remove_first (\<lambda>p. pr_mac p = mac) (ps @ p # qs) = Some (p, ps @ qs)"
    using assms(1,4) by (induction ps) auto
  then show ?thesis by (simp add: process_approval_def approval_text_parsed [OF assms(2,3)])
qed

lemma response_of_grant:
  assumes "crates_ok env" "length (pr_nonce p) = 8"
  shows "response_in env nonce (grant_of env entropy m p) =
    Inr (if nonce = pr_nonce p then Some \<lparr>js_nonce_echo = pr_nonce p, js_status = status_approved,
      js_ciphertext = we_seal env entropy m (pr_pubkey p)\<rparr> else None)"
proof -
  let ?r = "\<lparr>js_nonce_echo = pr_nonce p, js_status = status_approved, js_ciphertext = we_seal env entropy m (pr_pubkey p)\<rparr>"
  have "response_deserialize (response_serialize ?r) = Inr ?r"
    by (intro response_roundtrip) (simp add: response_ok_def assms(2) status_approved_def)
  moreover have "response_serialize ?r \<noteq> []" by (simp add: response_serialize_def)
  ultimately show ?thesis
    using assms(1) by (auto simp: response_in_def grant_of_def crates_ok_def)
qed

lemma open_sealed_grant:
  assumes "crates_ok env" "credentials_ok creds" "credentials_serialize creds = Inr m"
  shows "open_credentials env sk (we_seal env r m (we_public env sk)) = Some creds"
  using assms(1) credentials_codec.enc_dec [OF assms(2,3), of "[]"]
  by (simp add: open_credentials_def crates_ok_def credentials_deserialize_def)

text \<open>C34: Gateway and joiner understand each other. A join request that the gateway can queue, followed by
  the owner's approval for its MAC, is answered by a response in which only the device that
  sent the nonce finds something: an approval, whose content it opens with its secret key to exactly
  the credentials of the gateway's network. The request is then no longer waiting.\<close>

theorem onboarding_exchange:
  assumes "crates_ok env" "request_ok req" "length (jr_name req) \<le> 32" "jr_pubkey req = we_public env secret"
    and "timestamp_drift (jr_timestamp req) gtime \<le> max_timestamp_drift_secs"
    and "length (gw_pending gw) < max_pending"
    and "credentials_ok (wifi_grant ssid password)" "length ssid \<le> 32" "length password \<le> 63"
  shows "\<exists>wire gw1 response gw2 r.
    request_serialize req = Inr wire \<and>
    process_join_request env (we_b64_encode env wire) gtime now mode gw = (Queued, gw1) \<and>
    process_approval env entropy (approval_text (jr_mac req) ''approve'') ssid password gw1 =
      (Approved (jr_nonce req) response, gw2) \<and>
    (\<forall>nonce. response_in env nonce response = Inr (if nonce = jr_nonce req then Some r else None)) \<and>
    poll_event (jr_nonce req) (Inr (Some r)) = ResponseApproved \<and>
    open_credentials env secret (js_ciphertext r) = Some (wifi_grant ssid password) \<and>
    gw_pending gw2 = filter (\<lambda>p. pr_mac p \<noteq> jr_mac req) (gw_pending gw)"
proof -
  let ?p = "pending_of env now mode req" and ?ps = "filter (\<lambda>p. pr_mac p \<noteq> jr_mac req) (gw_pending gw)"
  obtain wire where wire: "request_serialize req = Inr wire"
    using assms(3) by (simp add: request_serialize_def write_len_prefixed_str_def)
  obtain m where m: "credentials_serialize (wifi_grant ssid password) = Inr m"
    using assms(8,9) by (simp add: credentials_serialize_def write_len_prefixed_str_def wifi_grant_def)
  have len: "length (jr_mac req) = 6" "length (jr_nonce req) = 8" using assms(2) by (simp_all add: request_ok_def)
  have decision: "decision_of env entropy (Some ''approve'') ssid password ?p = grant_of env entropy m ?p"
    by (simp add: decision_of_def m)
  have approval: "process_approval env entropy (approval_text (jr_mac req) ''approve'') ssid password
      (gw\<lparr>gw_pending := ?ps @ [?p]\<rparr>) =
      (Approved (jr_nonce req) (grant_of env entropy m ?p), gw\<lparr>gw_pending := ?ps\<rparr>)"
    using approve_waiting [where p = ?p and mac = "jr_mac req" and action = "''approve''" and ps = ?ps and qs = "[]" and gw = gw] len
    by (simp add: decision list_all_iff)
  show ?thesis
    using process_valid_request [OF assms(1,2) wire assms(5,6), of now mode] wire approval
      response_of_grant [OF assms(1), of ?p _ entropy m] len
      open_sealed_grant [OF assms(1,7) m, of secret entropy]
    by (auto simp: poll_event_def assms(4) intro!: exI)
qed

lemma plain_env_ok: "crates_ok plain_env"
  by (simp add: crates_ok_def plain_env_def)

theorem onboarding_exchange_witness:
  "\<exists>wire gw1. request_serialize (sample_request\<lparr>jr_pubkey := replicate 32 CHR 0x09\<rparr>) = Inr wire \<and>
    process_join_request plain_env wire 1700000100 (Fin 100) ''color'' gateway_new = (Queued, gw1) \<and>
    fst (process_approval plain_env 5 (approval_text (replicate 6 CHR 0xAA) ''approve'') ''home'' ''secret'' gw1) \<noteq>
      ApprovalNotFound"
  using onboarding_exchange [where env = plain_env and req = "sample_request\<lparr>jr_pubkey := replicate 32 CHR 0x09\<rparr>"
      and secret = "replicate 32 CHR 0x09" and gtime = 1700000100 and gw = gateway_new and ssid = "''home''"
      and password = "''secret''" and now = "Fin 100" and mode = "''color''" and entropy = 5] samples_ok plain_env_ok
  by (fastforce simp: sample_request_def request_ok_def credentials_ok_def wifi_grant_def gateway_new_def max_pending_def
      timestamp_drift_def max_timestamp_drift_secs_def plain_env_def utf8_valid_ascii ascii_def)

end
