(* ===== verification/GatewayTree.thy ===== *)
theory GatewayTree
  imports JoinerSpec OdfTreeSpec
begin

text \<open>
  The gateway on the object tree: what a tick of the main loop reads and writes there, and what
  follows from the fact that it leaves the request and the decision where they are.
\<close>

section \<open>A tick touches two items\<close>

definition gateway_path :: "string \<Rightarrow> string list" where
  "gateway_path name = [''OnboardingGateway'', name]"

lemma gateway_paths:
  "parse_path path_join_request = Inr (gateway_path ''JoinRequest'')"
  "parse_path path_join_response = Inr (gateway_path ''JoinResponse'')"
  "parse_path path_pending_requests = Inr (gateway_path ''PendingRequests'')"
  "parse_path path_approval = Inr (gateway_path ''Approval'')"
  by code_simp+

definition same_but :: "string list set \<Rightarrow> object_tree \<Rightarrow> object_tree \<Rightarrow> bool" where
  "same_but ps tree tree' \<longleftrightarrow>
     (\<forall>p. p \<notin> ps \<longrightarrow> item_at (tr_objects tree') p = item_at (tr_objects tree) p)"

lemma same_but_trans: "same_but ps t t' \<Longrightarrow> same_but qs t' t'' \<Longrightarrow> same_but (ps \<union> qs) t t''"
  by (simp add: same_but_def)

lemma write_logged_frame:
  assumes "tree_ok tree" "parse_path path = Inr (gateway_path name)"
  obtains tree' where "write_logged path text now tree = Some tree'" "tree_ok tree'"
    "same_but {gateway_path name} tree tree'"
  using write_value_refines [OF assms(1), of path "''OnboardingGateway''" "[]" name "Str text" "Some now"] assms(2)
  by (auto simp: gateway_path_def write_logged_def same_but_def simp del: item_at.simps)

lemma write_all_frame:
  assumes "tree_ok tree" "parse_path path = Inr (gateway_path name)"
  shows "\<exists>tree'. fold_opt (\<lambda>r. write_logged path r now) rs tree = Some tree' \<and> tree_ok tree' \<and>
    same_but {gateway_path name} tree tree'"
  using assms(1)
proof (induction rs arbitrary: tree)
  case (Cons r rs)
  obtain t where t: "write_logged path r now tree = Some t" "tree_ok t" "same_but {gateway_path name} tree t"
    using write_logged_frame [OF Cons.prems assms(2)] by blast
  then obtain t' where "fold_opt (\<lambda>r. write_logged path r now) rs t = Some t'" "tree_ok t'"
    "same_but {gateway_path name} t t'"
    using Cons.IH by blast
  then show ?case using t same_but_trans [OF t(3)] by fastforce
qed (simp add: same_but_def)

lemma newest_string_at:
  assumes "parse_path path = Inr (gateway_path name)"
  shows "newest_string tree path =
      (case item_at (tr_objects tree) (gateway_path name) of None \<Rightarrow> Some None
       | Some item \<Rightarrow> do {
           vals \<leftarrow> query_values item (Some 1) None None None;
           Some (case vals of v # _ \<Rightarrow> (case val_v v of Str s \<Rightarrow> Some s | _ \<Rightarrow> None) | [] \<Rightarrow> None)
         })"
proof -
  have item: "resolve tree path = Inr (PtInfoItem it) \<longleftrightarrow> item_at (tr_objects tree) (gateway_path name) = Some it" for it
    using resolve_spec [of path "''OnboardingGateway''" "[name]" tree "PtInfoItem it"] assms
    by (auto simp: gateway_path_def split: option.splits simp del: item_at.simps object_at.simps)
  show ?thesis
  proof (cases "item_at (tr_objects tree) (gateway_path name)")
    case None
    then have "resolve tree path \<noteq> Inr (PtInfoItem it)" for it by (simp add: item)
    with None show ?thesis by (auto simp: newest_string_def split: sum.split path_target.split)
  next
    case (Some it)
    then have "resolve tree path = Inr (PtInfoItem it)" by (simp add: item)
    with Some show ?thesis by (simp add: newest_string_def)
  qed
qed

lemma newest_string_same:
  assumes "same_but ps tree tree'" "parse_path path = Inr (gateway_path name)" "gateway_path name \<notin> ps"
  shows "newest_string tree' path = newest_string tree path"
  using assms by (simp add: same_but_def newest_string_at)

lemma newest_string_written:
  assumes "tree_ok tree" "parse_path path = Inr (gateway_path name)"
    and "write_logged path text now tree = Some tree'"
  shows "newest_string tree' path = Some (Some text)"
proof -
  let ?old = "item_at (tr_objects tree) (gateway_path name)"
  have ok: "0 < tr_default_capacity tree" "objs_ok (tr_objects tree)"
    using assms(1) by (simp_all add: tree_ok_def)
  obtain item where item: "written (tr_default_capacity tree) (Str text) (Some now) ?old = Some item" "item_ok item"
      "item_history item = written_history (tr_default_capacity tree) (value_new (Str text) (Some now)) ?old"
    using written_ok [OF ok(1), of ?old] item_at_ok [OF ok(2)] by metis
  have cap: "0 < rb_capacity (it_values i)" if "?old = Some i" for i
    using item_at_ok [OF ok(2) that] by (simp add: item_ok_def rb_inv_def)
  have "item_at (tr_objects tree') (gateway_path name) = Some item"
    using write_value_refines [OF assms(1), of path "''OnboardingGateway''" "[]" name "Str text" "Some now"] assms(2,3) item(1)
    by (auto simp: gateway_path_def write_logged_def simp del: item_at.simps)
  moreover have "query_spec (item_history item) (Some 1) None None None = [value_new (Str text) (Some now)]"
    using cap by (auto simp: item(3) written_history_def query_spec_def rev_last_n_eq take_Cons' split: option.split)
  ultimately show ?thesis
    by (simp add: newest_string_at [OF assms(2)] query_values_ok [OF item(2)] value_new_def)
qed

text \<open>A tick reads the newest request and the newest decision, and leaves both as they are.\<close>

lemma gateway_tick_tree_frame:
  assumes "tree_ok tree"
    and "newest_string tree path_join_request = Some join" "newest_string tree path_approval = Some approval"
    and "gateway_tick env (i\<lparr>gi_join := join, gi_approval := approval\<rparr>) gw = (rs, gw')"
  shows "\<exists>tree'. gateway_tick_tree env i (gw, tree) = Some (gw', tree') \<and> tree_ok tree' \<and>
    same_but {gateway_path ''JoinResponse'', gateway_path ''PendingRequests''} tree tree' \<and>
    newest_string tree' path_join_request = Some join \<and> newest_string tree' path_approval = Some approval"
proof -
  obtain t where t: "fold_opt (\<lambda>r. write_logged path_join_response r (gi_now i)) rs tree = Some t" "tree_ok t"
      "same_but {gateway_path ''JoinResponse''} tree t"
    using write_all_frame [OF assms(1) gateway_paths(2)] by blast
  obtain t' where t': "write_logged path_pending_requests (pending_requests_json (gi_now i) gw') (gi_now i) t = Some t'"
      "tree_ok t'" "same_but {gateway_path ''PendingRequests''} t t'"
    using write_logged_frame [OF t(2) gateway_paths(3)] by blast
  have same: "same_but {gateway_path ''JoinResponse'', gateway_path ''PendingRequests''} tree t'"
    using same_but_trans [OF t(3) t'(3)] by (simp add: insert_commute)
  have "newest_string t' path_join_request = Some join" "newest_string t' path_approval = Some approval"
    using newest_string_same [OF same gateway_paths(1)] newest_string_same [OF same gateway_paths(4)] assms(2,3)
    by (simp_all add: gateway_path_def)
  with t t' same assms(2-4) show ?thesis by (simp add: gateway_tick_tree_def)
qed

section \<open>A decision stays in force\<close>

lemma split_display_mode_color: "split_display_mode (''color:'' @ s) = (''color'', s)"
  by (simp only: split_display_mode_def strip_prefix_append option.case)

text \<open>What a tick does with a request that is newest in the tree when the newest decision approves its MAC.\<close>

lemma tick_with_standing_approval:
  assumes "crates_ok env" "request_ok req" "request_serialize req = Inr wire"
    and "timestamp_drift (jr_timestamp req) (gi_time i) \<le> max_timestamp_drift_secs"
    and "length (gw_pending gw) < max_pending"
    and "credentials_serialize (wifi_grant (gi_ssid i) (gi_password i)) = Inr m"
    and "gi_join i = Some (''color:'' @ we_b64_encode env wire)"
    and "gi_approval i = Some (approval_text (jr_mac req) ''approve'')"
  shows "\<exists>denials gw'. gateway_tick env i gw =
      (grant_of env (gi_entropy i) m (pending_of env (gi_now i) ''color'' req) # denials, gw') \<and>
    length (gw_pending gw') < max_pending"
proof -
  let ?p = "pending_of env (gi_now i) ''color'' req" and ?ps = "filter (\<lambda>p. pr_mac p \<noteq> jr_mac req) (gw_pending gw)"
  have join: "tick_join env i gw = gw\<lparr>gw_pending := ?ps @ [?p]\<rparr>"
    by (simp add: tick_join_def assms(7) split_display_mode_color [simplified] process_valid_request [OF assms(1-3,4,5)])
  have len: "length (jr_mac req) = 6" using assms(2) by (simp add: request_ok_def)
  have "tick_approval env i (gw\<lparr>gw_pending := ?ps @ [?p]\<rparr>) =
      ([decision_of env (gi_entropy i) (Some ''approve'') (gi_ssid i) (gi_password i) ?p], gw\<lparr>gw_pending := ?ps\<rparr>)"
    using approve_waiting [where p = ?p and mac = "jr_mac req" and action = "''approve''" and ps = ?ps and qs = "[]" and gw = gw] len
    by (simp add: tick_approval_def assms(8) list_all_iff)
  then have approval: "tick_approval env i (tick_join env i gw) =
      ([grant_of env (gi_entropy i) m ?p], gw\<lparr>gw_pending := ?ps\<rparr>)"
    by (simp add: join decision_of_def assms(6))
  have "length (filter P ?ps) < max_pending" for P
    using le_less_trans [OF order_trans [OF length_filter_le [of P ?ps] length_filter_le [of _ "gw_pending gw"]] assms(5)] .
  then show ?thesis by (simp add: gateway_tick_def approval tick_timeouts_def)
qed

text \<open>C35: A decision stays in force. A tick leaves the newest request and the newest decision where it
  read them, so after an approval of a MAC every later tick seals the network's credentials to the key of
  whatever valid request with that MAC is then the newest, without asking the owner again: the request
  need not be the one that was shown, nor have been there when the decision was made. The queue has
  room for the next one afterwards.\<close>

theorem approval_stays_in_force:
  assumes "tree_ok tree" "crates_ok env" "request_ok req" "request_serialize req = Inr wire"
    and "timestamp_drift (jr_timestamp req) (gi_time i) \<le> max_timestamp_drift_secs"
    and "length (gw_pending gw) < max_pending"
    and "credentials_serialize (wifi_grant (gi_ssid i) (gi_password i)) = Inr m"
    and "newest_string tree path_join_request = Some (Some (''color:'' @ we_b64_encode env wire))"
    and "newest_string tree path_approval = Some (Some (approval_text (jr_mac req) ''approve''))"
  shows "\<exists>denials gw' tree'. gateway_tick_tree env i (gw, tree) = Some (gw', tree') \<and>
    gateway_tick env (i\<lparr>gi_join := Some (''color:'' @ we_b64_encode env wire),
        gi_approval := Some (approval_text (jr_mac req) ''approve'')\<rparr>) gw =
      (grant_of env (gi_entropy i) m (pending_of env (gi_now i) ''color'' req) # denials, gw') \<and>
    tree_ok tree' \<and> length (gw_pending gw') < max_pending \<and>
    same_but {gateway_path ''JoinResponse'', gateway_path ''PendingRequests''} tree tree' \<and>
    newest_string tree' path_approval = Some (Some (approval_text (jr_mac req) ''approve''))"
proof -
  let ?i = "i\<lparr>gi_join := Some (''color:'' @ we_b64_encode env wire),
    gi_approval := Some (approval_text (jr_mac req) ''approve'')\<rparr>"
  obtain denials gw' where tick: "gateway_tick env ?i gw =
      (grant_of env (gi_entropy i) m (pending_of env (gi_now i) ''color'' req) # denials, gw')"
      "length (gw_pending gw') < max_pending"
    using tick_with_standing_approval [of env req wire ?i gw m] assms(2-7) by auto
  from gateway_tick_tree_frame [OF assms(1,8,9) tick(1)] tick show ?thesis by blast
qed

text \<open>A tree with a request and a decision written to it.\<close>

definition sample_wire :: string where
  "sample_wire = (case request_serialize sample_request of Inr w \<Rightarrow> w | Inl _ \<Rightarrow> [])"

definition requested_tree :: object_tree where
  "requested_tree = the (write_logged path_join_request (''color:'' @ sample_wire) (Fin 10) tree_new)"

definition decided_tree :: object_tree where
  "decided_tree = the (write_logged path_approval (approval_text (jr_mac sample_request) ''approve'') (Fin 11) requested_tree)"

lemma decided_tree_facts:
  "tree_ok decided_tree"
  "newest_string decided_tree path_join_request = Some (Some (''color:'' @ sample_wire))"
  "newest_string decided_tree path_approval = Some (Some (approval_text (jr_mac sample_request) ''approve''))"
proof -
  obtain t1 where t1: "write_logged path_join_request (''color:'' @ sample_wire) (Fin 10) tree_new = Some t1" "tree_ok t1"
    using write_logged_frame [OF tree_new_ok gateway_paths(1)] by blast
  obtain t2 where t2: "write_logged path_approval (approval_text (jr_mac sample_request) ''approve'') (Fin 11) t1 = Some t2"
      "tree_ok t2" "same_but {gateway_path ''Approval''} t1 t2"
    using write_logged_frame [OF t1(2) gateway_paths(4)] by blast
  have d: "decided_tree = t2" by (simp only: decided_tree_def requested_tree_def t1(1) t2(1) option.sel)
  show "tree_ok decided_tree" by (simp add: d t2(2))
  show "newest_string decided_tree path_approval = Some (Some (approval_text (jr_mac sample_request) ''approve''))"
    unfolding d by (rule newest_string_written [OF t1(2) gateway_paths(4) t2(1)])
  show "newest_string decided_tree path_join_request = Some (Some (''color:'' @ sample_wire))"
    using newest_string_same [OF t2(3) gateway_paths(1)] newest_string_written [OF tree_new_ok gateway_paths(1) t1(1)]
    by (simp add: d gateway_path_def)
qed

theorem approval_stays_in_force_witness:
  "\<exists>r denials gw' tree'. gateway_tick_tree plain_env \<lparr>gi_time = 1700000100, gi_now = Fin 100, gi_join = None,
      gi_approval = None, gi_entropy = 5, gi_ssid = ''home'', gi_password = ''secret''\<rparr>
      (gateway_new, decided_tree) = Some (gw', tree') \<and>
    newest_string tree' path_approval = Some (Some (approval_text (jr_mac sample_request) ''approve''))"
proof -
  let ?i = "\<lparr>gi_time = 1700000100, gi_now = Fin 100, gi_join = None, gi_approval = None, gi_entropy = 5,
    gi_ssid = ''home'', gi_password = ''secret''\<rparr>"
  have w: "request_serialize sample_request = Inr sample_wire"
    by (simp add: sample_wire_def request_serialize_def write_len_prefixed_str_def sample_request_def)
  have d: "timestamp_drift (jr_timestamp sample_request) (gi_time ?i) \<le> max_timestamp_drift_secs"
    by (simp add: sample_request_def timestamp_drift_def max_timestamp_drift_secs_def)
  obtain m where m: "credentials_serialize (wifi_grant (gi_ssid ?i) (gi_password ?i)) = Inr m"
    by (simp add: credentials_serialize_def write_len_prefixed_str_def wifi_grant_def)
  have n: "newest_string decided_tree path_join_request = Some (Some (''color:'' @ we_b64_encode plain_env sample_wire))"
    using decided_tree_facts(2) by (simp add: plain_env_def)
  have q: "length (gw_pending gateway_new) < max_pending" by (simp add: gateway_new_def max_pending_def)
  from approval_stays_in_force [OF decided_tree_facts(1) plain_env_ok samples_ok(1) w d q m n decided_tree_facts(3)]
  show ?thesis by blast
qed

end
