(* ===== verification/Http.thy ===== *)
theory Http
  imports Pages WifiCfg Provision Lexer OmiMsg
begin

text \<open>
  \<open>src/http.rs\<close>: the pure helpers of the HTTP server. Authorization, the length of a body, which
  operations need the token, URIs and their query strings, and the landing page.
\<close>

section \<open>Requests and responses\<close>

text \<open>A request: the value of a header by its name in lower case, and the bytes of the body.\<close>

datatype http_method = MGet | MPost | MPatch | MDelete

record http_request =
  rq_method :: http_method
  rq_uri :: string
  rq_header :: "string \<Rightarrow> string option"
  rq_body :: string

record http_response =
  hr_status :: nat
  hr_reason :: string
  hr_headers :: "(string \<times> string) list"
  hr_body :: string

definition response :: "nat \<Rightarrow> string \<Rightarrow> (string \<times> string) list \<Rightarrow> string \<Rightarrow> http_response" where
  "response status reason headers body =
     \<lparr>hr_status = status, hr_reason = reason, hr_headers = headers, hr_body = body\<rparr>"

lemma response_sel [simp]:
  "hr_status (response s r h b) = s" "hr_headers (response s r h b) = h" "hr_body (response s r h b) = b"
  by (simp_all add: response_def)

section \<open>Authorization and bodies\<close>

datatype body_error = BeEmpty | BeTooLarge | BeInvalid | BeReadFailed

definition constant_time_eq :: "string \<Rightarrow> string \<Rightarrow> bool" where
  "constant_time_eq a b =
     (if length a \<noteq> length b then False
      else fold (\<lambda>(x, y) diff. diff OR byte_xor x y) (zip a b) 0 = 0)"

definition check_bearer_auth :: "string option \<Rightarrow> string \<Rightarrow> bool" where
  "check_bearer_auth header_value token =
     (if token = [] then False
      else case Option.bind header_value (strip_prefix ''Bearer '') of
             None \<Rightarrow> False
           | Some t \<Rightarrow> constant_time_eq t token)"

definition validate_content_length :: "string option \<Rightarrow> nat \<Rightarrow> body_error + nat" where
  "validate_content_length content_length max_len =
     (case content_length of
        None \<Rightarrow> Inl BeEmpty
      | Some raw \<Rightarrow>
          rbind (ok_or BeInvalid (parse_usize raw)) (\<lambda>len.
            if len = 0 then Inl BeEmpty else if max_len < len then Inl BeTooLarge else Inr len))"

definition is_successful_write_response :: "omi_message \<Rightarrow> bool" where
  "is_successful_write_response resp =
     (case om_operation resp of
        OpResponse body \<Rightarrow> rs_status body = 200 \<or> rs_status body = 201
      | _ \<Rightarrow> False)"

definition is_mutating_operation :: "operation \<Rightarrow> bool" where
  "is_mutating_operation op =
     (case op of
        OpWrite _ \<Rightarrow> True
      | OpDelete _ \<Rightarrow> True
      | OpCancel _ \<Rightarrow> True
      | OpRead r \<Rightarrow> read_kind_of r = Subscription
      | OpResponse _ \<Rightarrow> False)"

section \<open>URIs\<close>

definition uri_path :: "string \<Rightarrow> string" where
  "uri_path uri = hd (split_on CHR ''?'' uri)"

definition uri_query :: "string \<Rightarrow> string option" where
  "uri_query uri = map_option snd (split_once CHR ''?'' uri)"

definition parse_query_params :: "string \<Rightarrow> (string \<times> string) list" where
  "parse_query_params query =
     List.map_filter (\<lambda>pair.
       case split_once CHR ''='' pair of
         None \<Rightarrow> None
       | Some (key, val) \<Rightarrow> if key = [] then None else Some (key, val)) (split_on CHR ''&'' query)"

text \<open>\<open>str::parse\<close> of Rust for \<open>i64\<close> and for \<open>f64\<close>, on any text.\<close>

definition parse_i64_str :: "string \<Rightarrow> int option" where
  "parse_i64_str s =
     (let d = (case s of c # r \<Rightarrow> if c = CHR ''+'' \<or> c = CHR ''-'' then r else s | [] \<Rightarrow> s);
          i = (if starts_with ''-'' s then - int (nat_of_dec 0 d) else int (nat_of_dec 0 d))
      in if d \<noteq> [] \<and> list_all is_digit d \<and> - (2 ^ 63) \<le> i \<and> i < 2 ^ 63 then Some i else None)"

definition ascii_lower :: "char \<Rightarrow> char" where
  "ascii_lower c = (if 65 \<le> (byte_of c :: nat) \<and> byte_of c \<le> (90 :: nat) then char_of (byte_of c + 32 :: nat) else c)"

definition exponent_ok :: "string \<Rightarrow> bool" where
  "exponent_ok s =
     (case s of
        [] \<Rightarrow> True
      | e # r \<Rightarrow>
          (let d = (case r of c # r' \<Rightarrow> if c = CHR ''+'' \<or> c = CHR ''-'' then r' else r | [] \<Rightarrow> r)
           in ascii_lower e = CHR ''e'' \<and> d \<noteq> [] \<and> list_all is_digit d))"

definition parse_f64_str :: "string \<Rightarrow> f64 option" where
  "parse_f64_str s =
     (let neg = starts_with ''-'' s;
          body = (case s of c # r \<Rightarrow> if c = CHR ''+'' \<or> c = CHR ''-'' then r else s | [] \<Rightarrow> s);
          word = map ascii_lower body;
          whole = takeWhile is_digit body;
          rest = dropWhile is_digit body;
          frac = (if starts_with ''.'' rest then takeWhile is_digit (tl rest) else []);
          rest = (if starts_with ''.'' rest then dropWhile is_digit (tl rest) else rest)
      in if word = ''inf'' \<or> word = ''infinity'' then Some (if neg then NegInf else PosInf)
         else if word = ''nan'' then Some NaN
         else if (whole \<noteq> [] \<or> frac \<noteq> []) \<and> exponent_ok rest
              then Some (parse_f64 ((if neg then ''-'' else []) @ body))
         else None)"

record omi_read_params =
  rp_newest :: "nat option"
  rp_oldest :: "nat option"
  rp_begin :: "f64 option"
  rp_end :: "f64 option"
  rp_depth :: "nat option"

definition default_params :: omi_read_params where
  "default_params = \<lparr>rp_newest = None, rp_oldest = None, rp_begin = None, rp_end = None, rp_depth = None\<rparr>"

definition clamped_u64 :: "string \<Rightarrow> nat option" where
  "clamped_u64 v = map_option nat (parse_i64_str v)"

definition query_param :: "string \<times> string \<Rightarrow> omi_read_params \<Rightarrow> omi_read_params" where
  "query_param = (\<lambda>(k, v) p.
     if k = ''newest'' then p\<lparr>rp_newest := clamped_u64 v\<rparr>
     else if k = ''oldest'' then p\<lparr>rp_oldest := clamped_u64 v\<rparr>
     else if k = ''begin'' then p\<lparr>rp_begin := parse_f64_str v\<rparr>
     else if k = ''end'' then p\<lparr>rp_end := parse_f64_str v\<rparr>
     else if k = ''depth'' then p\<lparr>rp_depth := clamped_u64 v\<rparr>
     else p)"

definition params_from_query :: "string \<Rightarrow> omi_read_params" where
  "params_from_query query = fold query_param (parse_query_params query) default_params"

definition trim_end_slashes :: "string \<Rightarrow> string" where
  "trim_end_slashes s = rev (dropWhile (\<lambda>c. c = CHR ''/'') (rev s))"

definition omi_uri_to_odf_path :: "string \<Rightarrow> string \<times> bool" where
  "omi_uri_to_odf_path path =
     (let rest = (if path = ''/omi'' then [] else if starts_with ''/omi/'' path then drop 4 path else path)
      in if rest = [] \<or> rest = ''/'' then (''/'', True)
         else if trim_end_slashes rest = [] then (''/'', True)
         else (trim_end_slashes rest, ends_with ''/'' rest))"

definition build_read_op :: "string \<Rightarrow> omi_read_params \<Rightarrow> omi_message" where
  "build_read_op odf_path params =
     \<lparr>om_version = ''1.0'', om_ttl = 0,
      om_operation = OpRead \<lparr>rd_path = Some odf_path, rd_rid = None, rd_newest = rp_newest params,
        rd_oldest = rp_oldest params, rd_begin = rp_begin params, rd_end = rp_end params,
        rd_depth = rp_depth params, rd_interval = None, rd_callback = None\<rparr>\<rparr>"

section \<open>The landing page\<close>

definition html_escape_char :: "char \<Rightarrow> string" where
  "html_escape_char c =
     (if c = CHR ''&'' then ''&amp;'' else if c = CHR ''<'' then ''&lt;'' else if c = CHR ''>'' then ''&gt;''
      else if c = CHR 0x22 then ''&quot;'' else if c = CHR 0x27 then ''&#x27;'' else [c])"

definition html_escape :: "string \<Rightarrow> string" where
  "html_escape s = concat (map html_escape_char s)"

definition page_link :: "string \<Rightarrow> string" where
  "page_link path = ''<li><a href=\"'' @ html_escape path @ ''\">'' @ html_escape path @ ''</a></li>''"

definition render_landing_page :: "page_store \<Rightarrow> string" where
  "render_landing_page store =
     ''<!DOCTYPE html><html><body><h1>Reconfigurable Device</h1><p>Status: running</p>'' @
     ''<p>PATCH HTML to any path to store a page.</p><h2>Stored pages</h2>'' @
     (if page_list store = [] then ''<p>No pages stored yet.</p>''
      else ''<ul>'' @ concat (map page_link (page_list store)) @ ''</ul>'') @
     ''</body></html>''"

section \<open>What the helpers promise\<close>

lemma constant_time_eq_iff [simp]: "constant_time_eq a b \<longleftrightarrow> a = b"
  using zip_all_eq [of a b] by (auto simp: constant_time_eq_def fold_or_zero)

lemma check_bearer_auth_iff:
  "check_bearer_auth header token \<longleftrightarrow> token \<noteq> [] \<and> header = Some (''Bearer '' @ token)"
proof (cases header)
  case (Some h)
  show ?thesis
    by (cases "strip_prefix ''Bearer '' h")
      (use strip_prefix_Some [of "''Bearer ''" h] in \<open>auto simp: check_bearer_auth_def Some simp del: append.simps\<close>)
qed (simp add: check_bearer_auth_def)

lemma validate_content_length_Inr:
  "validate_content_length h m = Inr n \<Longrightarrow> 0 < n \<and> n \<le> m"
  by (auto simp: validate_content_length_def rbind_eq_Inr split: option.splits if_splits)

text \<open>Escaped text has no character that ends an attribute or opens a tag.\<close>

lemma html_escape_safe: "c \<in> set (html_escape s) \<Longrightarrow> c \<notin> {CHR ''<'', CHR ''>'', CHR 0x22, CHR 0x27}"
  by (auto simp: html_escape_def html_escape_char_def split: if_splits)

lemma odf_path_of_uri: "fst (omi_uri_to_odf_path path) = ''/'' \<or> last (fst (omi_uri_to_odf_path path)) \<noteq> CHR ''/''"
proof -
  have "last (trim_end_slashes s) \<noteq> CHR ''/''" if "trim_end_slashes s \<noteq> []" for s
  proof -
    have "hd (dropWhile (\<lambda>c. c = CHR ''/'') (rev s)) \<noteq> CHR ''/''"
      using that hd_dropWhile [of "\<lambda>c. c = CHR ''/''" "rev s"] by (simp add: trim_end_slashes_def)
    then show ?thesis using that by (simp add: trim_end_slashes_def last_rev)
  qed
  then show ?thesis by (simp add: omi_uri_to_odf_path_def Let_def)
qed

end
