(* ===== verification/Gzip.thy ===== *)
theory Gzip
  imports Machine Wire "HOL-Library.Word"
begin

text \<open>
  \<open>src/compress.rs\<close>: gzip framing around the DEFLATE of the crate \<open>miniz_oxide\<close>, and the
  streaming decompressor of firmware updates. The crate's one-shot functions and its inflate step
  are fields of a record. Bytes collected in a fixed buffer are the string of the bytes collected so
  far.
\<close>

unbundle bit_operations_syntax

section \<open>The crate\<close>

datatype inflate_status = InflateOk | InflateEnd | InflateError

text \<open>An inflate step takes input and the size of its output buffer; it returns how many bytes it
  consumed and the bytes it wrote.\<close>

record 'z miniz =
  mz_compress :: "string \<Rightarrow> string"
  mz_decompress :: "string \<Rightarrow> nat \<Rightarrow> string option"
  mz_new :: 'z
  mz_inflate :: "string \<Rightarrow> nat \<Rightarrow> 'z \<Rightarrow> inflate_status \<times> nat \<times> string \<times> 'z"

section \<open>CRC32 and one-shot gzip\<close>

definition crc_bit :: "32 word \<Rightarrow> 32 word" where
  "crc_bit crc = (if crc AND 1 \<noteq> 0 then drop_bit 1 crc XOR 0xEDB88320 else drop_bit 1 crc)"

definition crc_byte :: "char \<Rightarrow> 32 word \<Rightarrow> 32 word" where
  "crc_byte b crc = (crc_bit ^^ 8) (crc XOR of_char b)"

definition crc_update :: "string \<Rightarrow> 32 word \<Rightarrow> 32 word" where
  "crc_update data crc = fold crc_byte data crc"

definition crc_init :: "32 word" where "crc_init = 0xFFFFFFFF"

definition crc32 :: "string \<Rightarrow> 32 word" where
  "crc32 data = NOT (crc_update data crc_init)"

definition word_le :: "32 word \<Rightarrow> string" where
  "word_le w = map (\<lambda>i. char_of (unat w div 256 ^ i)) [0, 1, 2, 3]"

definition word_of_le :: "string \<Rightarrow> 32 word" where
  "word_of_le s = word_of_nat (foldr (\<lambda>c n. byte_of c + 256 * n) s 0)"

definition gzip_min_free_heap :: nat where "gzip_min_free_heap = 350000"

definition gzip_header :: string where
  "gzip_header = [CHR 0x1F, CHR 0x8B, CHR 0x08, CHR 0x00, CHR 0x00, CHR 0x00, CHR 0x00, CHR 0x00, CHR 0x00, CHR 0xFF]"

definition gzip_compress :: "'z miniz \<Rightarrow> nat \<Rightarrow> string \<Rightarrow> string option" where
  "gzip_compress mz free_heap data =
     (if free_heap < gzip_min_free_heap then None
      else Some (gzip_header @ mz_compress mz data @ word_le (crc32 data) @ word_le (of_nat (length data))))"

definition gzip_decompress :: "'z miniz \<Rightarrow> string \<Rightarrow> nat \<Rightarrow> string option" where
  "gzip_decompress mz data max_size =
     (if length data < 18 then None
      else if data ! 0 \<noteq> CHR 0x1F \<or> data ! 1 \<noteq> CHR 0x8B then None
      else do {
        let trailer = drop (length data - 8) data;
        decompressed \<leftarrow> mz_decompress mz (drop 10 (take (length data - 8) data)) max_size;
        if crc32 decompressed \<noteq> word_of_le (take 4 trailer) then None
        else if of_nat (length decompressed) \<noteq> word_of_le (drop 4 trailer) then None
        else Some decompressed
      })"

section \<open>Streaming\<close>

datatype gzip_stream_error = GzInvalidHeader | GzDecompressFailed | GzCrcMismatch | GzSizeMismatch | GzTruncated

datatype gzip_phase =
    PhHeader | PhExtraLen | PhExtraData nat | PhName | PhComment | PhHeaderCrc | PhDeflate | PhTrailer
  | PhDone | PhFailed

record 'z gzip_stream =
  gz_phase :: gzip_phase
  gz_inflater :: 'z
  gz_header :: string
  gz_flg :: nat
  gz_extra_len :: string
  gz_hcrc :: nat
  gz_crc :: "32 word"
  gz_total_out :: "32 word"
  gz_trailer :: string

definition gzip_stream_out_size :: nat where "gzip_stream_out_size = 8192"
definition flag_hcrc :: nat where "flag_hcrc = 1"
definition flag_extra :: nat where "flag_extra = 2"
definition flag_name :: nat where "flag_name = 3"
definition flag_comment :: nat where "flag_comment = 4"

definition gzip_stream_new :: "'z miniz \<Rightarrow> 'z gzip_stream" where
  "gzip_stream_new mz =
     \<lparr>gz_phase = PhHeader, gz_inflater = mz_new mz, gz_header = [], gz_flg = 0, gz_extra_len = [], gz_hcrc = 0,
      gz_crc = crc_init, gz_total_out = 0, gz_trailer = []\<rparr>"

definition is_done :: "'z gzip_stream \<Rightarrow> bool" where
  "is_done gz = (gz_phase gz = PhDone)"

definition after_comment :: "nat \<Rightarrow> gzip_phase" where
  "after_comment flg = (if bit flg flag_hcrc then PhHeaderCrc else PhDeflate)"

definition after_name :: "nat \<Rightarrow> gzip_phase" where
  "after_name flg = (if bit flg flag_comment then PhComment else after_comment flg)"

definition after_extra :: "nat \<Rightarrow> gzip_phase" where
  "after_extra flg = (if bit flg flag_name then PhName else after_name flg)"

definition after_header :: "nat \<Rightarrow> gzip_phase" where
  "after_header flg = (if bit flg flag_extra then PhExtraLen else after_extra flg)"

text \<open>The steps of the header take the rest of the input and return what they leave of it.\<close>

definition consume_header :: "string \<Rightarrow> 'z gzip_stream \<Rightarrow> string \<times> 'z gzip_stream" where
  "consume_header data gz =
     (let n = min (10 - length (gz_header gz)) (length data);
          header = gz_header gz @ take n data;
          gz = gz\<lparr>gz_header := header\<rparr>
      in (drop n data,
          if length header \<noteq> 10 then gz
          else if header ! 0 \<noteq> CHR 0x1F \<or> header ! 1 \<noteq> CHR 0x8B \<or> header ! 2 \<noteq> CHR 0x08
          then gz\<lparr>gz_phase := PhFailed\<rparr>
          else gz\<lparr>gz_flg := of_char (header ! 3), gz_phase := after_header (of_char (header ! 3))\<rparr>))"

definition consume_extra_len :: "string \<Rightarrow> 'z gzip_stream \<Rightarrow> string \<times> 'z gzip_stream" where
  "consume_extra_len data gz =
     (let n = min (2 - length (gz_extra_len gz)) (length data);
          xlen = gz_extra_len gz @ take n data;
          gz = gz\<lparr>gz_extra_len := xlen\<rparr>
      in (drop n data,
          if length xlen \<noteq> 2 then gz
          else if u16_of_le xlen = 0 then gz\<lparr>gz_phase := after_extra (gz_flg gz)\<rparr>
          else gz\<lparr>gz_phase := PhExtraData (u16_of_le xlen)\<rparr>))"

definition skip_extra_data :: "nat \<Rightarrow> string \<Rightarrow> 'z gzip_stream \<Rightarrow> string \<times> 'z gzip_stream" where
  "skip_extra_data remaining data gz =
     (let skip = min remaining (length data)
      in (drop skip data,
          gz\<lparr>gz_phase := (if remaining - skip = 0 then after_extra (gz_flg gz) else PhExtraData (remaining - skip))\<rparr>))"

definition skip_null_terminated :: "string \<Rightarrow> gzip_phase \<Rightarrow> 'z gzip_stream \<Rightarrow> string \<times> 'z gzip_stream" where
  "skip_null_terminated data next gz =
     (case dropWhile (\<lambda>c. c \<noteq> CHR 0x00) data of
        [] \<Rightarrow> ([], gz)
      | _ # rest \<Rightarrow> (rest, gz\<lparr>gz_phase := next\<rparr>))"

definition consume_header_crc :: "string \<Rightarrow> 'z gzip_stream \<Rightarrow> string \<times> 'z gzip_stream" where
  "consume_header_crc data gz =
     (let n = min (2 - gz_hcrc gz) (length data);
          gz = gz\<lparr>gz_hcrc := gz_hcrc gz + n\<rparr>
      in (drop n data, if gz_hcrc gz = 2 then gz\<lparr>gz_phase := PhDeflate\<rparr> else gz))"

definition process_inflated :: "string \<Rightarrow> 'z gzip_stream \<Rightarrow> 'z gzip_stream" where
  "process_inflated written gz =
     gz\<lparr>gz_crc := crc_update written (gz_crc gz), gz_total_out := gz_total_out gz + of_nat (length written)\<rparr>"

text \<open>The inflate loop ends with input left, the output, or an error; a crate that never stops is
  \<open>OutOfFuel\<close>.\<close>

fun inflate_all ::
  "nat \<Rightarrow> 'z miniz \<Rightarrow> string \<Rightarrow> string \<Rightarrow> 'z gzip_stream \<Rightarrow>
   ((gzip_stream_error + string \<times> string) \<times> 'z gzip_stream) outcome" where
  "inflate_all 0 mz data out gz = OutOfFuel"
| "inflate_all (Suc n) mz data out gz =
     (case mz_inflate mz data gzip_stream_out_size (gz_inflater gz) of
        (status, consumed, written, z) \<Rightarrow>
          (let gz = process_inflated written (gz\<lparr>gz_inflater := z\<rparr>); rest = drop consumed data; out = out @ written
           in case status of
                InflateOk \<Rightarrow>
                  (if rest = [] \<or> consumed = 0 \<and> written = [] then Finished (Inr (rest, out), gz)
                   else inflate_all n mz rest out gz)
              | InflateEnd \<Rightarrow> Finished (Inr (rest, out), gz\<lparr>gz_phase := PhTrailer\<rparr>)
              | InflateError \<Rightarrow> Finished (Inl GzDecompressFailed, gz\<lparr>gz_phase := PhFailed\<rparr>)))"

definition verify_trailer :: "'z gzip_stream \<Rightarrow> (gzip_stream_error + unit) \<times> 'z gzip_stream" where
  "verify_trailer gz =
     (if NOT (gz_crc gz) \<noteq> word_of_le (take 4 (gz_trailer gz)) then (Inl GzCrcMismatch, gz\<lparr>gz_phase := PhFailed\<rparr>)
      else if gz_total_out gz \<noteq> word_of_le (drop 4 (gz_trailer gz)) then (Inl GzSizeMismatch, gz\<lparr>gz_phase := PhFailed\<rparr>)
      else (Inr (), gz\<lparr>gz_phase := PhDone\<rparr>))"

definition consume_trailer :: "string \<Rightarrow> 'z gzip_stream \<Rightarrow> (gzip_stream_error + string) \<times> 'z gzip_stream" where
  "consume_trailer data gz =
     (let n = min (8 - length (gz_trailer gz)) (length data);
          gz = gz\<lparr>gz_trailer := gz_trailer gz @ take n data\<rparr>
      in if length (gz_trailer gz) \<noteq> 8 then (Inr (drop n data), gz)
         else (case verify_trailer gz of (r, gz) \<Rightarrow> (map_sum id (\<lambda>_. drop n data) r, gz)))"

fun gzip_feed ::
  "nat \<Rightarrow> 'z miniz \<Rightarrow> string \<Rightarrow> string \<Rightarrow> 'z gzip_stream \<Rightarrow>
   ((gzip_stream_error + string) \<times> 'z gzip_stream) outcome" where
  "gzip_feed 0 mz input out gz = OutOfFuel"
| "gzip_feed (Suc n) mz input out gz =
     (if input = [] then Finished (Inr out, gz)
      else let cont = (\<lambda>(rest, gz). gzip_feed n mz rest out gz)
      in case gz_phase gz of
           PhHeader \<Rightarrow> cont (consume_header input gz)
         | PhExtraLen \<Rightarrow> cont (consume_extra_len input gz)
         | PhExtraData remaining \<Rightarrow> cont (skip_extra_data remaining input gz)
         | PhName \<Rightarrow> cont (skip_null_terminated input (after_name (gz_flg gz)) gz)
         | PhComment \<Rightarrow> cont (skip_null_terminated input (after_comment (gz_flg gz)) gz)
         | PhHeaderCrc \<Rightarrow> cont (consume_header_crc input gz)
         | PhDeflate \<Rightarrow>
             obind (inflate_all n mz input out gz) (\<lambda>r. case r of
               (Inl e, gz) \<Rightarrow> Finished (Inl e, gz)
             | (Inr (rest, out), gz) \<Rightarrow> gzip_feed n mz rest out gz)
         | PhTrailer \<Rightarrow>
             (case consume_trailer input gz of
                (Inl e, gz) \<Rightarrow> Finished (Inl e, gz)
              | (Inr rest, gz) \<Rightarrow> gzip_feed n mz rest out gz)
         | PhDone \<Rightarrow> Finished (Inr out, gz)
         | PhFailed \<Rightarrow> Finished (Inl GzDecompressFailed, gz))"

definition gzip_finish :: "'z gzip_stream \<Rightarrow> gzip_stream_error + unit" where
  "gzip_finish gz = (if is_done gz then Inr () else Inl GzTruncated)"

section \<open>One-shot round trip\<close>

lemma length_word_le [simp]: "length (word_le w) = 4"
  by (simp add: word_le_def)

lemma bytes_of_nat:
  fixes n :: nat
  shows "n mod 256 + (256 * (n div 256 mod 256) + (65536 * (n div 65536 mod 256) + 16777216 * (n div 16777216))) = n"
proof -
  have b: "n div 65536 = n div 256 div 256" using div_mult2_eq [of n 256 256] by simp
  have c: "n div 16777216 = n div 256 div 256 div 256" using div_mult2_eq [of n 65536 256] b by simp
  have e: "n mod 256 + 256 * a = n" "a mod 256 + 256 * b = a" "b mod 256 + 256 * c = b"
    if "a = n div 256" "b = a div 256" "c = b div 256" for a b c
    using that by simp_all
  have "x0 + (256 * x1 + (65536 * x2 + 16777216 * c)) = n"
    if "x0 + 256 * a = n" "x1 + 256 * b = a" "x2 + 256 * c = b" for x0 x1 x2 a b c :: nat
    using that by linarith
  from this [OF e] show ?thesis unfolding b c by blast
qed

lemma word_of_le_le [simp]: "word_of_le (word_le w) = w"
proof -
  have "unat w < 2 ^ LENGTH(32)" by (rule unsigned_less)
  then have "unat w < 2 ^ 32" by simp
  then have "foldr (\<lambda>c n. byte_of c + 256 * n) (word_le w) 0 = unat w"
    using bytes_of_nat [of "unat w"] by (simp add: word_le_def)
  then show ?thesis by (simp add: word_of_le_def)
qed

lemma length_gzip_header: "length gzip_header = 10" "gzip_header ! 0 = CHR 0x1F" "gzip_header ! Suc 0 = CHR 0x8B"
  by (simp_all add: gzip_header_def)

text \<open>With a DEFLATE that undoes its compression, what is compressed is decompressed.\<close>

lemma gzip_roundtrip:
  assumes "mz_decompress mz (mz_compress mz data) max_size = Some data"
    and "gzip_compress mz free_heap data = Some z"
  shows "gzip_decompress mz z max_size = Some data"
proof -
  let ?t = "word_le (crc32 data) @ word_le (of_nat (length data))"
  have z: "z = gzip_header @ mz_compress mz data @ ?t"
    using assms(2) by (simp add: gzip_compress_def split: if_splits)
  have len: "length z = 18 + length (mz_compress mz data)" by (simp add: z length_gzip_header)
  have parts: "take (length z - 8) z = gzip_header @ mz_compress mz data" "drop (length z - 8) z = ?t"
    unfolding len by (simp_all add: z length_gzip_header)
  have "z ! 0 = CHR 0x1F" "z ! 1 = CHR 0x8B" by (simp_all add: z nth_append length_gzip_header)
  then show ?thesis
    using assms(1) parts len by (simp add: gzip_decompress_def Let_def length_gzip_header)
qed

text \<open>What is decompressed has the checksum and the length of the trailer.\<close>

lemma gzip_decompress_checked:
  "gzip_decompress mz data max_size = Some out \<Longrightarrow>
   18 \<le> length data \<and> word_of_le (take 4 (drop (length data - 8) data)) = crc32 out \<and>
   word_of_le (drop (length data - 4) data) = of_nat (length out)"
  by (auto simp: gzip_decompress_def Let_def split: if_splits option.splits Option.bind_splits)

section \<open>A stream that is done has been verified\<close>

text \<open>The running checksum and length are those of everything written so far; a stream is done only
  when its trailer carries both.\<close>

definition gz_inv :: "string \<Rightarrow> 'z gzip_stream \<Rightarrow> bool" where
  "gz_inv written gz \<longleftrightarrow>
     gz_crc gz = crc_update written crc_init \<and> gz_total_out gz = of_nat (length written) \<and>
     (is_done gz \<longrightarrow> word_of_le (take 4 (gz_trailer gz)) = crc32 written \<and>
        word_of_le (drop 4 (gz_trailer gz)) = of_nat (length written))"

lemma gz_inv_new: "gz_inv [] (gzip_stream_new mz)"
  by (simp add: gz_inv_def gzip_stream_new_def is_done_def crc_update_def)

lemma gz_inv_phase: "gz_inv w gz \<Longrightarrow> p \<noteq> PhDone \<Longrightarrow> gz_inv w (gz\<lparr>gz_phase := p\<rparr>)"
  by (simp add: gz_inv_def is_done_def)

lemma after_not_done [simp]: "after_header flg \<noteq> PhDone" "after_extra flg \<noteq> PhDone" "after_name flg \<noteq> PhDone"
  "after_comment flg \<noteq> PhDone"
  by (simp_all add: after_header_def after_extra_def after_name_def after_comment_def)

lemma gz_inv_header_steps:
  assumes "gz_inv w gz" "\<not> is_done gz" "next \<noteq> PhDone"
  shows "gz_inv w (snd (consume_header data gz))" "gz_inv w (snd (consume_extra_len data gz))"
    "gz_inv w (snd (skip_extra_data r data gz))" "gz_inv w (snd (skip_null_terminated data next gz))"
    "gz_inv w (snd (consume_header_crc data gz))"
  using assms
  by (auto simp: gz_inv_def is_done_def consume_header_def consume_extra_len_def skip_extra_data_def
      skip_null_terminated_def consume_header_crc_def Let_def split: list.split)

lemma gz_inv_inflated:
  "gz_inv w gz \<Longrightarrow> \<not> is_done gz \<Longrightarrow> gz_inv (w @ v) (process_inflated v (gz\<lparr>gz_inflater := z\<rparr>)) \<and>
   \<not> is_done (process_inflated v (gz\<lparr>gz_inflater := z\<rparr>))"
  by (simp add: gz_inv_def process_inflated_def is_done_def crc_update_def)

lemma inflate_all_inv:
  "gz_inv (w @ out) gz \<Longrightarrow> \<not> is_done gz \<Longrightarrow> inflate_all n mz data out gz = Finished (r, gz') \<Longrightarrow>
   \<not> is_done gz' \<and> (case r of Inl _ \<Rightarrow> True | Inr (_, out') \<Rightarrow> gz_inv (w @ out') gz')"
proof (induction n arbitrary: data out gz)
  case (Suc n)
  obtain status consumed written z where i:
    "mz_inflate mz data gzip_stream_out_size (gz_inflater gz) = (status, consumed, written, z)"
    by (metis prod_cases4)
  note step = gz_inv_inflated [OF Suc.prems(1,2), of written z, simplified append_assoc]
  show ?case
    using Suc.prems(3) step Suc.IH [of "out @ written" _ "drop consumed data"]
    by (cases status)
      (auto simp: i Let_def is_done_def gz_inv_phase split: if_splits)
qed simp

lemma consume_trailer_inv:
  assumes "gz_inv w gz" "\<not> is_done gz" "consume_trailer data gz = (r, gz')"
  shows "gz_inv w gz'"
proof -
  let ?n = "min (8 - length (gz_trailer gz)) (length data)"
  have "gz_inv w (gz\<lparr>gz_trailer := gz_trailer gz @ take ?n data\<rparr>)"
    using assms(1,2) by (simp add: gz_inv_def is_done_def)
  with assms(3) show ?thesis
    by (auto simp: consume_trailer_def Let_def verify_trailer_def gz_inv_def is_done_def crc32_def
        split: if_splits prod.splits)
qed

lemma consume_trailer_failed: "consume_trailer data gz = (Inl e, gz') \<Longrightarrow> \<not> is_done gz'"
  by (auto simp: consume_trailer_def Let_def verify_trailer_def is_done_def split: if_splits prod.splits)

lemma gzip_feed_inv:
  "gz_inv (w @ out) gz \<Longrightarrow> gzip_feed n mz input out gz = Finished (r, gz') \<Longrightarrow>
   (case r of Inl _ \<Rightarrow> \<not> is_done gz' | Inr out' \<Rightarrow> gz_inv (w @ out') gz')"
proof (induction n arbitrary: input out gz)
  case (Suc n)
  note IH = Suc.IH and inv = Suc.prems(1) and eq = Suc.prems(2)
  show ?case
  proof (cases "input = []")
    case False
    have step: ?thesis if "(case s of (rest, gz) \<Rightarrow> gzip_feed n mz rest out gz) = Finished (r, gz')"
        "gz_inv (w @ out) (snd s)" for s
      using that IH [of out "snd s" "fst s"] by (simp split: prod.splits)
    note header = gz_inv_header_steps [OF inv, unfolded is_done_def]
    show ?thesis
    proof (cases "gz_phase gz")
      case PhHeader
      show ?thesis by (rule step [of "consume_header input gz"]) (use False eq PhHeader header(1) in auto)
    next
      case PhExtraLen
      show ?thesis by (rule step [of "consume_extra_len input gz"]) (use False eq PhExtraLen header(2) in auto)
    next
      case (PhExtraData k)
      show ?thesis by (rule step [of "skip_extra_data k input gz"]) (use False eq PhExtraData header(3) in auto)
    next
      case PhName
      show ?thesis by (rule step [of "skip_null_terminated input (after_name (gz_flg gz)) gz"])
          (use False eq PhName header(4) in auto)
    next
      case PhComment
      show ?thesis by (rule step [of "skip_null_terminated input (after_comment (gz_flg gz)) gz"])
          (use False eq PhComment header(4) in auto)
    next
      case PhHeaderCrc
      show ?thesis by (rule step [of "consume_header_crc input gz"]) (use False eq PhHeaderCrc header(5) in auto)
    next
      case PhDeflate
      then show ?thesis
        using False eq inv inflate_all_inv [OF inv, of n mz input] IH
        by (cases "inflate_all n mz input out gz") (fastforce simp: is_done_def split: sum.splits prod.splits)+
    next
      case PhTrailer
      obtain r' gz1 where t: "consume_trailer input gz = (r', gz1)" by fastforce
      then show ?thesis
        using PhTrailer False eq inv consume_trailer_inv [OF inv _ t] consume_trailer_failed [of input gz] IH [of out gz1]
        by (cases r') (auto simp: is_done_def)
    qed (use False eq inv in \<open>auto simp: is_done_def\<close>)
  qed (use inv eq in auto)
qed simp

end
