(* ===== verification/Ota.thy ===== *)
theory Ota
  imports Http Gzip
begin

text \<open>
  \<open>src/ota.rs\<close>: the handler of a firmware upload. The body of the request, the timer and the
  flash functions of the ESP-IDF are functions over a world. The bytes written so far are carried
  along where the code carries their number.
\<close>

section \<open>The platform\<close>

text \<open>A read returns at most the bytes asked for, none at the end of the body.\<close>

record 'w ota_hw =
  oh_read :: "nat \<Rightarrow> 'w \<Rightarrow> (unit + string) \<times> 'w"
  oh_timer :: "'w \<Rightarrow> int"
  oh_partition :: "'w \<Rightarrow> bool"
  oh_begin :: "'w \<Rightarrow> bool \<times> 'w"
  oh_write :: "string \<Rightarrow> 'w \<Rightarrow> bool \<times> 'w"
  oh_abort :: "'w \<Rightarrow> 'w"
  oh_end :: "'w \<Rightarrow> bool \<times> 'w"
  oh_set_boot :: "'w \<Rightarrow> bool \<times> 'w"
  oh_restart :: "'w \<Rightarrow> 'w"

definition ota_partition_size :: nat where "ota_partition_size = 0x1E0000"
definition ota_read_buf :: nat where "ota_read_buf = 4096"
definition ota_timeout_us :: int where "ota_timeout_us = 5 * 60 * 1000000"
definition gzip_magic :: string where "gzip_magic = [CHR 0x1F, CHR 0x8B]"
definition esp_image_magic :: char where "esp_image_magic = CHR 0xE9"

datatype ota_stream_error =
  OtaTimeout | OtaReadFailed | OtaWriteFailed | OtaDecompressFailed | OtaGzipFinish gzip_stream_error

section \<open>Streaming\<close>

definition json_err :: "string \<Rightarrow> string" where
  "json_err msg = ''{\"status\":\"error\",\"message\":\"'' @ msg @ ''\"}''"

definition send_json :: "nat \<Rightarrow> string \<Rightarrow> string \<Rightarrow> http_response" where
  "send_json status reason body = response status reason [(''Content-Type'', ''application/json'')] body"

definition write_decompressed :: "'w ota_hw \<Rightarrow> string \<Rightarrow> string \<Rightarrow> 'w \<Rightarrow> (ota_stream_error + string) \<times> 'w" where
  "write_decompressed hw out written w =
     (if out = [] then (Inr written, w)
      else (case oh_write hw out w of
              (True, w) \<Rightarrow> (Inr (written @ out), w)
            | (False, w) \<Rightarrow> (Inl OtaWriteFailed, w)))"

definition read_ota_chunk ::
  "'w ota_hw \<Rightarrow> nat \<Rightarrow> nat \<Rightarrow> int \<Rightarrow> 'w \<Rightarrow> (ota_stream_error + string) \<times> 'w" where
  "read_ota_chunk hw total_in content_len start_us w =
     (if ota_timeout_us < oh_timer hw w - start_us then (Inl OtaTimeout, w)
      else (case oh_read hw (min ota_read_buf (content_len - total_in)) w of
              (Inl _, w) \<Rightarrow> (Inl OtaReadFailed, w)
            | (Inr chunk, w) \<Rightarrow> (Inr chunk, w)))"

text \<open>The rest of the body, after \<open>total_in\<close> bytes: an error aborts the update.\<close>

fun gzip_body ::
  "nat \<Rightarrow> 'z miniz \<Rightarrow> 'w ota_hw \<Rightarrow> nat \<Rightarrow> int \<Rightarrow> nat \<Rightarrow> string \<Rightarrow> 'z gzip_stream \<Rightarrow> 'w \<Rightarrow>
   ((ota_stream_error + string \<times> 'z gzip_stream) \<times> 'w) outcome" where
  "gzip_body 0 mz hw content_len start_us total_in written gz w = OutOfFuel"
| "gzip_body (Suc n) mz hw content_len start_us total_in written gz w =
     (if content_len \<le> total_in then Finished (Inr (written, gz), w)
      else (case read_ota_chunk hw total_in content_len start_us w of
              (Inl e, w) \<Rightarrow> Finished (Inl e, oh_abort hw w)
            | (Inr chunk, w) \<Rightarrow>
                (if chunk = [] then Finished (Inr (written, gz), w)
                 else obind (gzip_feed n mz chunk [] gz) (\<lambda>r. case r of
                   (Inl _, gz) \<Rightarrow> Finished (Inl OtaDecompressFailed, oh_abort hw w)
                 | (Inr out, gz) \<Rightarrow>
                     (case write_decompressed hw out written w of
                        (Inl e, w) \<Rightarrow> Finished (Inl e, oh_abort hw w)
                      | (Inr written, w) \<Rightarrow>
                          gzip_body n mz hw content_len start_us (total_in + length chunk) written gz w)))))"

definition stream_gzip_ota ::
  "nat \<Rightarrow> 'z miniz \<Rightarrow> 'w ota_hw \<Rightarrow> string \<Rightarrow> nat \<Rightarrow> int \<Rightarrow> 'w \<Rightarrow> ((ota_stream_error + string) \<times> 'w) outcome" where
  "stream_gzip_ota n mz hw magic content_len start_us w =
     obind (gzip_feed n mz magic [] (gzip_stream_new mz)) (\<lambda>r. case r of
       (Inl _, gz) \<Rightarrow> Finished (Inl OtaDecompressFailed, oh_abort hw w)
     | (Inr out, gz) \<Rightarrow>
         (case write_decompressed hw out [] w of
            (Inl e, w) \<Rightarrow> Finished (Inl e, oh_abort hw w)
          | (Inr written, w) \<Rightarrow>
              obind (gzip_body n mz hw content_len start_us 2 written gz w) (\<lambda>r. case r of
                (Inl e, w) \<Rightarrow> Finished (Inl e, w)
              | (Inr (written, gz), w) \<Rightarrow>
                  (case gzip_finish gz of
                     Inl e \<Rightarrow> Finished (Inl (OtaGzipFinish e), oh_abort hw w)
                   | Inr _ \<Rightarrow> Finished (Inr written, w)))))"

fun raw_body ::
  "nat \<Rightarrow> 'w ota_hw \<Rightarrow> nat \<Rightarrow> int \<Rightarrow> nat \<Rightarrow> string \<Rightarrow> 'w \<Rightarrow> ((ota_stream_error + string) \<times> 'w) outcome" where
  "raw_body 0 hw content_len start_us total_in written w = OutOfFuel"
| "raw_body (Suc n) hw content_len start_us total_in written w =
     (if content_len \<le> total_in then Finished (Inr written, w)
      else (case read_ota_chunk hw total_in content_len start_us w of
              (Inl e, w) \<Rightarrow> Finished (Inl e, oh_abort hw w)
            | (Inr chunk, w) \<Rightarrow>
                (if chunk = [] then Finished (Inr written, w)
                 else (case write_decompressed hw chunk written w of
                         (Inl e, w) \<Rightarrow> Finished (Inl e, oh_abort hw w)
                       | (Inr written, w) \<Rightarrow>
                           raw_body n hw content_len start_us (total_in + length chunk) written w))))"

definition stream_raw_ota ::
  "nat \<Rightarrow> 'w ota_hw \<Rightarrow> string \<Rightarrow> nat \<Rightarrow> int \<Rightarrow> 'w \<Rightarrow> ((ota_stream_error + string) \<times> 'w) outcome" where
  "stream_raw_ota n hw magic content_len start_us w =
     (case write_decompressed hw magic [] w of
        (Inl e, w) \<Rightarrow> Finished (Inl e, oh_abort hw w)
      | (Inr written, w) \<Rightarrow> raw_body n hw content_len start_us 2 written w)"

section \<open>The handler\<close>

text \<open>The first two bytes: each read returns at least one of the missing bytes, or the body has ended.\<close>

fun read_magic :: "nat \<Rightarrow> 'w ota_hw \<Rightarrow> string \<Rightarrow> 'w \<Rightarrow> (unit + string) \<times> 'w" where
  "read_magic 0 hw magic w = (Inr magic, w)"
| "read_magic (Suc n) hw magic w =
     (if 2 \<le> length magic then (Inr magic, w)
      else (case oh_read hw (2 - length magic) w of
              (Inl e, w) \<Rightarrow> (Inl e, w)
            | (Inr chunk, w) \<Rightarrow> if chunk = [] then (Inr magic, w) else read_magic n hw (magic @ chunk) w))"

fun ota_error_response :: "ota_stream_error \<Rightarrow> http_response" where
  "ota_error_response OtaTimeout = send_json 408 ''Request Timeout'' (json_err ''OTA timeout exceeded'')"
| "ota_error_response OtaReadFailed = send_json 500 ''Internal Server Error'' (json_err ''Body read failed'')"
| "ota_error_response OtaWriteFailed = send_json 500 ''Internal Server Error'' (json_err ''OTA write failed'')"
| "ota_error_response OtaDecompressFailed = send_json 400 ''Bad Request'' (json_err ''Decompression failed'')"
| "ota_error_response (OtaGzipFinish e) = send_json 400 ''Bad Request'' (json_err
     (case e of GzTruncated \<Rightarrow> ''Gzip stream truncated'' | GzCrcMismatch \<Rightarrow> ''Gzip CRC mismatch''
      | GzSizeMismatch \<Rightarrow> ''Gzip size mismatch'' | _ \<Rightarrow> ''Decompression error''))"

definition install_image :: "'w ota_hw \<Rightarrow> 'w \<Rightarrow> http_response \<times> 'w" where
  "install_image hw w =
     (case oh_end hw w of
        (False, w) \<Rightarrow> (send_json 500 ''Internal Server Error'' (json_err ''OTA validation failed''), w)
      | (True, w) \<Rightarrow>
          (case oh_set_boot hw w of
             (False, w) \<Rightarrow> (send_json 500 ''Internal Server Error'' (json_err ''Set boot partition failed''), w)
           | (True, w) \<Rightarrow>
               (send_json 200 ''OK'' ''{\"status\":\"ok\",\"message\":\"OTA update successful, rebooting\"}'',
                oh_restart hw w)))"

definition upload ::
  "nat \<Rightarrow> 'z miniz \<Rightarrow> 'w ota_hw \<Rightarrow> nat \<Rightarrow> string \<Rightarrow> 'w \<Rightarrow> (http_response \<times> 'w) outcome" where
  "upload n mz hw content_len magic w =
     (if magic \<noteq> gzip_magic \<and> magic ! 0 \<noteq> esp_image_magic
      then Finished (send_json 400 ''Bad Request'' (json_err ''Payload must be gzip-compressed or raw ESP firmware''), w)
      else if \<not> oh_partition hw w
      then Finished (send_json 500 ''Internal Server Error'' (json_err ''No OTA partition available''), w)
      else (case oh_begin hw w of
              (False, w) \<Rightarrow> Finished (send_json 500 ''Internal Server Error'' (json_err ''OTA begin failed''), w)
            | (True, w) \<Rightarrow>
                (let start_us = oh_timer hw w
                 in obind (if magic = gzip_magic then stream_gzip_ota n mz hw magic content_len start_us w
                           else stream_raw_ota n hw magic content_len start_us w) (\<lambda>r. case r of
                      (Inl e, w) \<Rightarrow> Finished (ota_error_response e, w)
                    | (Inr written, w) \<Rightarrow> Finished (install_image hw w)))))"

definition handle_ota ::
  "nat \<Rightarrow> 'z miniz \<Rightarrow> 'w ota_hw \<Rightarrow> bool \<Rightarrow> (string \<Rightarrow> string option) \<Rightarrow> string \<Rightarrow> 'w \<Rightarrow>
   (http_response \<times> 'w) outcome" where
  "handle_ota n mz hw in_progress header api_token w =
     (if \<not> check_bearer_auth (header ''authorization'') api_token
      then Finished (send_json 401 ''Unauthorized'' (json_err ''Authentication required''), w)
      else if in_progress
      then Finished (send_json 409 ''Conflict'' (json_err ''OTA update already in progress''), w)
      else (case Option.bind (header ''content-length'') parse_usize of
              None \<Rightarrow> Finished (send_json 400 ''Bad Request'' (json_err ''Valid Content-Length required''), w)
            | Some content_len \<Rightarrow>
                if content_len = 0
                then Finished (send_json 400 ''Bad Request'' (json_err ''Valid Content-Length required''), w)
                else if ota_partition_size < content_len
                then Finished (send_json 400 ''Bad Request'' (json_err ''Payload exceeds OTA partition size''), w)
                else (case read_magic 2 hw [] w of
                        (Inl _, w) \<Rightarrow> Finished (send_json 400 ''Bad Request'' (json_err ''Failed to read body''), w)
                      | (Inr magic, w) \<Rightarrow>
                          if length magic < 2
                          then Finished (send_json 400 ''Bad Request'' (json_err ''Payload too short''), w)
                          else upload n mz hw content_len magic w)))"

section \<open>Only a verified image is installed\<close>

lemma write_decompressed_Inr: "write_decompressed hw out written w = (Inr written', w') \<Longrightarrow> written' = written @ out"
  by (auto simp: write_decompressed_def split: if_splits prod.splits bool.splits)

lemma gzip_body_inv:
  "gz_inv written gz \<Longrightarrow>
   gzip_body n mz hw content_len start_us total_in written gz w = Finished (Inr (written', gz'), w') \<Longrightarrow>
   gz_inv written' gz'"
proof (induction n arbitrary: total_in written gz w)
  case (Suc n)
  show ?case
  proof (cases "content_len \<le> total_in")
    case False
    obtain c w1 where c: "read_ota_chunk hw total_in content_len start_us w = (c, w1)" by fastforce
    show ?thesis
    proof (cases c)
      case (Inr chunk)
      show ?thesis
      proof (cases "chunk = []")
        case True
        then show ?thesis using Suc.prems False c Inr by simp
      next
        case chunk: False
        obtain r gz1 where f: "gzip_feed n mz chunk [] gz = Finished (r, gz1)"
          using Suc.prems(2) False c Inr chunk by (cases "gzip_feed n mz chunk [] gz") auto
        obtain out where r: "r = Inr out"
          using Suc.prems(2) False c Inr chunk f by (cases r) auto
        obtain x w2 where wr: "write_decompressed hw out written w1 = (x, w2)" by fastforce
        obtain written1 where x: "x = Inr written1"
          using Suc.prems(2) False c Inr chunk f r wr by (cases x) auto
        have "gz_inv (written @ out) gz1"
          using gzip_feed_inv [of written "[]" gz n mz chunk r gz1] Suc.prems(1) f r by simp
        then show ?thesis
          using Suc.IH [of written1 gz1 "total_in + length chunk" w2] Suc.prems(2) False c Inr chunk f r wr x
            write_decompressed_Inr [of hw out written w1 written1 w2]
          by simp
      qed
    qed (use Suc.prems(2) False c in simp)
  qed (use Suc.prems in simp)
qed simp

text \<open>A stream that was accepted: the checksum and the length of its trailer are those of the bytes
  written to flash.\<close>

definition trailer_matches :: "'z gzip_stream \<Rightarrow> string \<Rightarrow> bool" where
  "trailer_matches gz written \<longleftrightarrow>
     word_of_le (take 4 (gz_trailer gz)) = crc32 written \<and> word_of_le (drop 4 (gz_trailer gz)) = of_nat (length written)"

lemma stream_gzip_verified:
  fixes mz :: "'z miniz"
  assumes "stream_gzip_ota n mz hw magic content_len start_us w = Finished (Inr written, w')"
  shows "\<exists>gz. is_done gz \<and> trailer_matches (gz :: 'z gzip_stream) written"
proof -
  obtain r0 gz0 where f: "gzip_feed n mz magic [] (gzip_stream_new mz) = Finished (r0, gz0)"
    using assms by (cases "gzip_feed n mz magic [] (gzip_stream_new mz)") (auto simp: stream_gzip_ota_def)
  obtain out where r0: "r0 = Inr out" using assms f by (cases r0) (auto simp: stream_gzip_ota_def)
  obtain x w1 where wr: "write_decompressed hw out [] w = (x, w1)" by fastforce
  obtain written0 where x: "x = Inr written0" using assms f r0 wr by (cases x) (auto simp: stream_gzip_ota_def)
  obtain b w2 where b: "gzip_body n mz hw content_len start_us 2 written0 gz0 w1 = Finished (b, w2)"
    using assms f r0 wr x
    by (cases "gzip_body n mz hw content_len start_us 2 written0 gz0 w1") (auto simp: stream_gzip_ota_def)
  obtain written1 gz1 where b': "b = Inr (written1, gz1)"
    using assms f r0 wr x b by (cases b) (auto simp: stream_gzip_ota_def)
  have done1: "is_done gz1 \<and> written1 = written"
    using assms f r0 wr x b b' by (auto simp: stream_gzip_ota_def gzip_finish_def split: if_splits)
  have "gz_inv written0 gz0"
    using gzip_feed_inv [of "[]" "[]" "gzip_stream_new mz" n mz magic r0 gz0] gz_inv_new [of mz] f r0
      write_decompressed_Inr [OF wr [unfolded x]]
    by simp
  from gzip_body_inv [OF this b [unfolded b']] done1 show ?thesis
    by (auto simp: gz_inv_def trailer_matches_def)
qed

lemma upload_installs:
  assumes "upload n mz hw content_len magic w = Finished (resp, w')" "hr_status resp = 200"
  shows "\<exists>w1 written w2. oh_partition hw w \<and> oh_begin hw w = (True, w1) \<and>
    install_image hw w2 = (resp, w') \<and>
    (if magic = gzip_magic then stream_gzip_ota n mz hw magic content_len (oh_timer hw w1) w1 = Finished (Inr written, w2)
     else magic ! 0 = esp_image_magic \<and>
       stream_raw_ota n hw magic content_len (oh_timer hw w1) w1 = Finished (Inr written, w2))"
proof -
  have magic: "magic = gzip_magic \<or> magic ! 0 = esp_image_magic" and part: "oh_partition hw w"
    using assms by (auto simp: upload_def send_json_def split: if_splits)
  obtain ok w1 where b: "oh_begin hw w = (ok, w1)" by fastforce
  have ok: "ok"
    using assms magic part b by (cases ok) (auto simp: upload_def send_json_def)
  define s where "s = (if magic = gzip_magic then stream_gzip_ota n mz hw magic content_len (oh_timer hw w1) w1
                       else stream_raw_ota n hw magic content_len (oh_timer hw w1) w1)"
  have u: "upload n mz hw content_len magic w = obind s (\<lambda>r. case r of
      (Inl e, w) \<Rightarrow> Finished (ota_error_response e, w) | (Inr written, w) \<Rightarrow> Finished (install_image hw w))"
    using magic part b ok by (auto simp: upload_def s_def Let_def)
  obtain r w2 where s: "s = Finished (r, w2)" using assms(1) u by (cases s) auto
  have err: "hr_status (ota_error_response e) \<noteq> 200" for e
    by (cases e) (simp_all add: send_json_def)
  obtain written where "r = Inr written"
    using assms u s err by (cases r) auto
  with s s_def u assms(1) magic part b ok show ?thesis
    by (intro exI [of _ w1] exI [of _ written] exI [of _ w2]) (auto split: if_splits)
qed


text \<open>An upload of an empty gzip stream; the world is the rest of the body.\<close>

definition empty_miniz :: "unit miniz" where
  "empty_miniz = \<lparr>mz_compress = \<lambda>_. [], mz_decompress = \<lambda>_ _. Some [], mz_new = (),
     mz_inflate = \<lambda>_ _ z. (InflateEnd, 0, [], z)\<rparr>"

definition body_hw :: "string ota_hw" where
  "body_hw = \<lparr>oh_read = \<lambda>n w. (Inr (take n w), drop n w), oh_timer = \<lambda>_. 0, oh_partition = \<lambda>_. True,
     oh_begin = Pair True, oh_write = \<lambda>_. Pair True, oh_abort = \<lambda>w. w, oh_end = Pair True,
     oh_set_boot = Pair True, oh_restart = \<lambda>w. w\<rparr>"

definition upload_headers :: "string \<Rightarrow> string option" where
  "upload_headers name =
     (if name = ''authorization'' then Some ''Bearer key'' else if name = ''content-length'' then Some ''18'' else None)"

definition zero_trailer :: string where
  "zero_trailer = [CHR 0x00, CHR 0x00, CHR 0x00, CHR 0x00, CHR 0x00, CHR 0x00, CHR 0x00, CHR 0x00]"

definition sample_upload :: "(http_response \<times> string) outcome" where
  "sample_upload = handle_ota (Suc (Suc (Suc (Suc (Suc (Suc (Suc (Suc 0)))))))) empty_miniz body_hw False upload_headers ''key''
     (gzip_header @ zero_trailer)"

lemma crc_init_end: "NOT crc_init = 0"
  unfolding crc_init_def by transfer simp

lemma sample_stream:
  "stream_gzip_ota (Suc (Suc (Suc (Suc (Suc (Suc (Suc (Suc 0)))))))) empty_miniz body_hw gzip_magic 18 0 (drop 2 gzip_header @ zero_trailer) = Finished (Inr [], [])"
  by (simp add: stream_gzip_ota_def zero_trailer_def crc_init_end gzip_header_def gzip_magic_def gzip_stream_new_def empty_miniz_def body_hw_def
      consume_header_def after_header_def after_extra_def after_name_def after_comment_def flag_extra_def flag_name_def
      flag_comment_def flag_hcrc_def write_decompressed_def read_ota_chunk_def ota_timeout_us_def ota_read_buf_def
      process_inflated_def crc_update_def consume_trailer_def verify_trailer_def word_of_le_def
      gzip_finish_def is_done_def Let_def)

lemma sample_upload_answer:
  "sample_upload = Finished (send_json 200 ''OK'' ''{\"status\":\"ok\",\"message\":\"OTA update successful, rebooting\"}'', [])"
proof -
  have m: "read_magic 2 body_hw [] (gzip_header @ zero_trailer) =
      (Inr gzip_magic, drop 2 gzip_header @ zero_trailer)"
    by (simp add: body_hw_def gzip_header_def gzip_magic_def numeral_2_eq_2)
  have h: "Option.bind (upload_headers ''content-length'') parse_usize = Some 18"
    "check_bearer_auth (upload_headers ''authorization'') ''key''"
    by (simp_all add: upload_headers_def parse_usize_def dec_digit_def check_bearer_auth_iff)
  have "upload (Suc (Suc (Suc (Suc (Suc (Suc (Suc (Suc 0)))))))) empty_miniz body_hw 18 gzip_magic (drop 2 gzip_header @ zero_trailer) =
      Finished (send_json 200 ''OK'' ''{\"status\":\"ok\",\"message\":\"OTA update successful, rebooting\"}'', [])"
    using sample_stream by (simp add: upload_def install_image_def body_hw_def Let_def)
  then show ?thesis
    by (simp only: sample_upload_def handle_ota_def h m) (simp add: gzip_magic_def ota_partition_size_def)
qed


end
