(* ===== verification/PortalPages.thy ===== *)
theory PortalPages
  imports Http
begin

text \<open>
  \<open>src/captive_portal.rs\<close>: the two pages of the captive portal. The fixed texts of the
  templates are constants; every text that comes from a user goes through \<open>html_escape\<close>.
\<close>

section \<open>Fixed texts\<close>

definition shared_css :: string where
  "shared_css =
     ''*{box-sizing:border-box;margin:0;padding:0}body{font-family:sans-serif;padding:1em;max-wid'' @
     ''th:480px;margin:0 auto;background:#f5f5f5}h1{margin-bottom:.5em}#status{padding:.75em;bord'' @
     ''er-radius:4px;margin-top:1em}''"

definition form_head :: string where
  "form_head =
     ''<!DOCTYPE html><html><head><meta charset=\"utf-8\"><meta name=\"viewport\" content=\"width=devi'' @
     ''ce-width,initial-scale=1\"><title>Device Setup</title><style>''"

definition form_css :: string where
  "form_css =
     ''.field{margin-bottom:1em}label{display:block;font-weight:bold;margin-bottom:.25em}input[ty'' @
     ''pe=text],input[type=password],select{width:100%;padding:.5em;border:1px solid #ccc;border-'' @
     ''radius:4px}button{padding:.75em 1.5em;background:#0066cc;color:#fff;border:none;border-rad'' @
     ''ius:4px;cursor:pointer;font-size:1em}button:hover{background:#0052a3}.error{background:#fe'' @
     ''e;border:1px solid #c00;padding:.75em;border-radius:4px;margin-bottom:1em;color:#c00}.ap-g'' @
     ''roup{border:1px solid #ddd;padding:.75em;margin-bottom:.5em;border-radius:4px;background:#'' @
     ''fff}.ap-group h3{margin-bottom:.5em}.saved-hint{font-size:.85em;color:#666;margin-top:.25e'' @
     ''m}.hidden-input{display:none}#status{display:none}.scan-info{font-size:.85em;color:#666;ma'' @
     ''rgin-bottom:.25em}</style></head><body><h1>Device Setup</h1>''"

definition form_scan_info :: string where
  "form_scan_info =
     ''<p class=\"scan-info\" id=\"scanInfo\">Scanning for networks...</p><form method=\"POST\" action='' @
     ''\"/provision\" id=\"provForm\">''"

definition form_ssid_tail :: string where
  "form_ssid_tail =
     ''<option value=\"__hidden__\">Hidden network...</option></select><input type=\"text\" class=\"hi'' @
     ''dden-input\" placeholder=\"Enter hidden SSID\"><input type=\"hidden\" name=\"ssid_''"

definition form_key_field :: string where
  "form_key_field =
     ''</div><div class=\"field\" id=\"apiKeyField\" style=\"display:none\"><label>API Key Value</label'' @
     ''><input type=\"text\" name=\"api_key\" placeholder=\"Enter API key\"></div>''"

definition form_submit :: string where
  "form_submit =
     ''<button type=\"submit\" id=\"submitBtn\">Save &amp; Connect</button></form><div id=\"status\"></'' @
     ''div>''"

definition form_script :: string where
  "form_script =
     ''<script>(function(){var selects=document.querySelectorAll('.ssid-select');var scanInfo=doc'' @
     ''ument.getElementById('scanInfo');function updateHidden(sel){var grp=sel.parentNode;var hi='' @
     ''grp.querySelector('.hidden-input');var inp=grp.querySelector('input[type=hidden]');if(sel.'' @
     ''value==='__hidden__'){hi.style.display='' @
     [CHR 0x27, CHR 0x27] @
     '';hi.focus();inp.value=hi.value;hi.oninput=function(){inp.value=hi.value};}else{hi.style.di'' @
     ''splay='none';inp.value=sel.value;}}for(var i=0;i<selects.length;i++){selects[i].addEventLi'' @
     ''stener('change',function(){updateHidden(this)});}fetch('/scan').then(function(r){return r.'' @
     ''json()}).then(function(nets){scanInfo.textContent=nets.length+' network'+(nets.length!==1?'' @
     [CHR 0x27] @
     ''s':'' @
     [CHR 0x27, CHR 0x27] @
     '')+' found';nets.sort(function(a,b){return b.rssi-a.rssi});for(var i=0;i<selects.length;i++'' @
     ''){var sel=selects[i];var cur=sel.parentNode.querySelector('input[type=hidden]').value;var '' @
     ''first=sel.options[0];while(sel.options.length>0)sel.remove(0);if(cur){var oc=document.crea'' @
     ''teElement('option');oc.value=cur;oc.textContent=cur;oc.selected=true;sel.add(oc);}var blan'' @
     ''k=document.createElement('option');blank.value='' @
     [CHR 0x27, CHR 0x27] @
     '';blank.textContent='-- Select network --';sel.add(blank);for(var j=0;j<nets.length;j++){va'' @
     ''r o=document.createElement('option');o.value=nets[j].ssid;o.textContent=nets[j].ssid+' ('+'' @
     ''nets[j].rssi+' dBm, '+nets[j].auth+')';if(!cur&&nets[j].ssid===cur)o.selected=true;sel.add'' @
     ''(o);}var h=document.createElement('option');h.value='__hidden__';h.textContent='Hidden net'' @
     ''work...';sel.add(h);}}).catch(function(){scanInfo.textContent='Scan unavailable. Enter SSI'' @
     ''Ds manually.';for(var i=0;i<selects.length;i++){var sel=selects[i];var inp=sel.parentNode.'' @
     ''querySelector('input[type=hidden]');var hi=sel.parentNode.querySelector('.hidden-input');s'' @
     ''el.style.display='none';hi.style.display='' @
     [CHR 0x27, CHR 0x27] @
     '';hi.value=inp.value;hi.oninput=function(){this.parentNode.querySelector('input[type=hidden'' @
     '']').value=this.value};}});var akSel=document.getElementById('apiKeyAction');var akField=do'' @
     ''cument.getElementById('apiKeyField');akSel.addEventListener('change',function(){akField.st'' @
     ''yle.display=akSel.value==='set'?'' @
     [CHR 0x27, CHR 0x27] @
     '':'none'});akSel.dispatchEvent(new Event('change'));document.getElementById('provForm').add'' @
     ''EventListener('submit',function(e){var inp=document.querySelector('input[name=ssid_0]');if'' @
     ''(!inp.value){e.preventDefault();alert('At least one WiFi network is required.');return;}va'' @
     ''r warns=[];for(var i=0;i<selects.length;i++){var sel=selects[i];var idx=sel.getAttribute('d'' @
     ''ata-idx');var ssidInp=sel.parentNode.querySelector('input[type=hidden]');var ssid=ssidInp?'' @
     ''ssidInp.value:'' @
     [CHR 0x27, CHR 0x27] @
     '';if(!ssid)continue;var pwInp=document.querySelector('input[name=password_'+idx+']');if(pwI'' @
     ''np&&!pwInp.value){var selOpt=sel.options[sel.selectedIndex];var optText=selOpt?selOpt.text'' @
     ''Content:'' @
     [CHR 0x27, CHR 0x27] @
     '';if(optText.indexOf('Open')===-1){warns.push(ssid);}}}if(warns.length>0&&!confirm('Empty p'' @
     ''assword for: '+warns.join(', ')+'' @
     [CHR 0x27] @
     [CHR 0x5C] @
     ''nOpen networks don'' @
     [CHR 0x5C] @
     ''x27t need a password. Continue without password?')){e.preventDefault();return;}var s=docum'' @
     ''ent.getElementById('status');s.style.display='block';s.style.background='#ffe';s.style.bor'' @
     ''der='1px solid #cc0';s.textContent='Saving and connecting...';document.getElementById('sub'' @
     ''mitBtn').disabled=true;});})();</script></body></html>''"

definition success_head :: string where
  "success_head =
     ''<!DOCTYPE html><html><head><meta charset=\"utf-8\"><meta name=\"viewport\" content=\"width=devi'' @
     ''ce-width,initial-scale=1\"><title>Setup Complete</title><style>''"

definition success_css :: string where
  "success_css =
     ''h1{color:#080}.info{margin-bottom:1em}.key-box{background:#fff;border:2px solid #f90;paddi'' @
     ''ng:1em;border-radius:4px;margin:1em 0;word-break:break-all;font-family:monospace;font-size'' @
     '':1.1em;user-select:all}.warning{color:#c60;font-weight:bold;margin-bottom:.5em}#status{bac'' @
     ''kground:#ffe;border:1px solid #cc0}.connected{background:#efe!important;border:1px solid #'' @
     ''0c0!important}.failed{background:#fee!important;border:1px solid #c00!important}</style></'' @
     ''head><body><h1>Setup Complete</h1><div class=\"info\"><p>Hostname: <strong>''"

definition success_key_note :: string where
  "success_key_note =
     ''<div class=\"warning\">Save your API key now! It will not be shown again.</div><div class=\"k'' @
     ''ey-box\" id=\"apiKey\">''"

definition success_script :: string where
  "success_script =
     ''<div id=\"status\">Connecting...</div><script>(function(){var s=document.getElementById('sta'' @
     ''tus');var poll=setInterval(function(){fetch('/status').then(function(r){return r.json()}).'' @
     ''then(function(d){if(d.state==='connected'){s.className='connected';s.textContent='Connecte'' @
     ''d! IP: '+(d.ip||'unknown');clearInterval(poll);}else if(d.state==='failed'){s.className='f'' @
     ''ailed';s.textContent='Connection failed: '+(d.message||'unknown error');clearInterval(poll'' @
     '');}else{s.textContent='Connecting... ('+d.state+')'}}).catch(function(){s.textContent='Che'' @
     ''cking connection...'});},2000);})();</script></body></html>''"

section \<open>The provisioning form\<close>

definition ap_slot :: "string list \<Rightarrow> nat \<Rightarrow> string" where
  "ap_slot saved_ssids i =
     (let label = (if i = 0 then ''WiFi Network (required)'' else ''WiFi Network (optional)'');
          saved = (if i < length saved_ssids then saved_ssids ! i else []);
          idx = dec_of_nat i
      in ''<div class=\"ap-group\"><h3>'' @ label @ ''</h3><div class=\"field\"><label>SSID</label><select class=\"ssid-select\" data-idx=\"'' @ idx @ ''\">'' @
         (if saved = [] then ''<option value=\"\">-- Select network --</option>''
          else ''<option value=\"'' @ html_escape saved @ ''\" selected>'' @ html_escape saved @
            ''</option>'' @ ''<option value=\"\">-- Select network --</option>'') @
         form_ssid_tail @ idx @ ''\" value=\"'' @ html_escape saved @
         ''\"></div><div class=\"field\"><label>Password</label><input type=\"password\" name=\"password_'' @ idx @ ''\"'' @
         (if saved = [] then [] else '' placeholder=\"(unchanged if left empty)\"'') @ ''>'' @
         (if saved = [] then [] else ''<div class=\"saved-hint\">Password saved. Leave empty to keep.</div>'') @ ''</div></div>'')"

definition render_provisioning_form :: "nat \<Rightarrow> string list \<Rightarrow> string \<Rightarrow> bool \<Rightarrow> string option \<Rightarrow> string" where
  "render_provisioning_form max_aps saved_ssids hostname is_first_setup message =
     form_head @ shared_css @ form_css @
     (case message of None \<Rightarrow> [] | Some err \<Rightarrow> ''<div class=\"error\">'' @ html_escape err @ ''</div>'') @
     form_scan_info @
     concat (map (ap_slot saved_ssids) [0..<max_aps]) @
     ''<div class=\"field\"><label>Hostname</label><input type=\"text\" name=\"hostname\" value=\"'' @ html_escape hostname @ ''\" placeholder=\"eOMI\"></div>'' @
     ''<div class=\"field\"><label>API Key</label><select name=\"api_key_action\" id=\"apiKeyAction\">'' @
     (if is_first_setup then [] else ''<option value=\"keep\">Keep existing</option>'') @
     ''<option value=\"generate\"'' @ (if is_first_setup then '' selected'' else []) @
     ''>Generate new</option><option value=\"set\">Set manually</option></select>'' @
     (if is_first_setup then [] else ''<div class=\"saved-hint\">API key is set. Choose action above.</div>'') @
     form_key_field @ form_submit @ form_script"

section \<open>The success page\<close>

definition render_provision_success :: "string option \<Rightarrow> string \<Rightarrow> nat \<Rightarrow> string" where
  "render_provision_success generated_api_key hostname ssid_count =
     success_head @ shared_css @ success_css @ html_escape hostname @
     ''</strong></p><p>WiFi networks configured: <strong>'' @ dec_of_nat ssid_count @ ''</strong></p></div>'' @
     (case generated_api_key of None \<Rightarrow> [] | Some key \<Rightarrow> success_key_note @ html_escape key @ ''</div>'') @
     success_script"

end
