(* ===== verification/Server.thy ===== *)
theory Server
  imports Ota PortalPages Parser Engine WifiLoop
begin

text \<open>
  \<open>src/server.rs\<close>: the HTTP routes and the WebSocket endpoint. A handler takes the request and
  the state the handlers share (the mutexes and atomics of the code) and returns the response and the
  state; it may panic where the engine or the page store does. Reading the socket, matching a URI
  against a template, and the upload platform are fields of the environment; failures to write a
  response are only logged by the code and not represented.
\<close>

section \<open>State\<close>

record form_config =
  fc_max_aps :: nat
  fc_saved_ssids :: "string list"
  fc_hostname :: string
  fc_first_setup :: bool
  fc_error :: "string option"

text \<open>\<open>PortalState\<close>, the engine, the page store, the NVS flag, the pending deliveries, the
  WebSocket sessions by connection and the senders by session.\<close>

record ('m, 'w) server =
  sv_mode :: server_mode
  sv_status :: connection_status
  sv_provision :: "pending_provision option"
  sv_scan :: "scanned_network list"
  sv_form :: form_config
  sv_reset :: bool
  sv_engine :: "'m engine"
  sv_store :: page_store
  sv_dirty :: bool
  sv_deliveries :: "delivery list"
  sv_fds :: "(int, session_id) btree"
  sv_senders :: "(session_id, int) btree"
  sv_next_session :: session_id
  sv_world :: 'w

text \<open>What the handlers close over, and what they read of the platform when a request arrives.\<close>

record ('m, 'f, 'z, 'w) server_env =
  se_api :: "('m, 'f) mjs"
  se_ryu :: "f64 \<Rightarrow> string"
  se_miniz :: "'z miniz"
  se_ota_hw :: "'w ota_hw"
  se_fuel :: nat
  se_token :: string
  se_deny_api :: bool
  se_uri_match :: "string \<Rightarrow> string \<Rightarrow> bool"
  se_no_route :: "http_request \<Rightarrow> http_response"

record platform =
  pl_now :: f64
  pl_random :: string
  pl_free_heap :: nat
  pl_ota_busy :: bool

definition portal_new :: "server_mode \<Rightarrow> nat \<Rightarrow> string list \<Rightarrow> string \<Rightarrow> bool \<Rightarrow> 'm option \<Rightarrow> 'w \<Rightarrow> ('m, 'w) server" where
  "portal_new mode max_aps saved hostname first script w =
     \<lparr>sv_mode = mode, sv_status = \<lparr>cs_state = CIdle, cs_message = None, cs_ip = None\<rparr>, sv_provision = None,
      sv_scan = [], sv_form = \<lparr>fc_max_aps = max_aps, fc_saved_ssids = saved, fc_hostname = hostname,
        fc_first_setup = first, fc_error = None\<rparr>,
      sv_reset = False, sv_engine = engine_new script, sv_store = pages_new, sv_dirty = False, sv_deliveries = [],
      sv_fds = [], sv_senders = [], sv_next_session = 1, sv_world = w\<rparr>"

text \<open>The operations of the main loop on the shared state.\<close>

definition set_mode :: "server_mode \<Rightarrow> ('m, 'w) server \<Rightarrow> ('m, 'w) server" where
  "set_mode mode st = st\<lparr>sv_mode := mode\<rparr>"

definition take_pending_provision :: "('m, 'w) server \<Rightarrow> pending_provision option \<times> ('m, 'w) server" where
  "take_pending_provision st = (sv_provision st, st\<lparr>sv_provision := None\<rparr>)"

definition set_form_error :: "string option \<Rightarrow> ('m, 'w) server \<Rightarrow> ('m, 'w) server" where
  "set_form_error msg st = st\<lparr>sv_form := (sv_form st)\<lparr>fc_error := msg\<rparr>\<rparr>"

definition take_factory_reset :: "('m, 'w) server \<Rightarrow> bool \<times> ('m, 'w) server" where
  "take_factory_reset st = (sv_reset st, st\<lparr>sv_reset := False\<rparr>)"

definition update_form_config :: "string list \<Rightarrow> string \<Rightarrow> ('m, 'w) server \<Rightarrow> ('m, 'w) server" where
  "update_form_config saved hostname st =
     st\<lparr>sv_form := (sv_form st)\<lparr>fc_saved_ssids := saved, fc_hostname := hostname, fc_first_setup := False\<rparr>\<rparr>"

definition take_event_deliveries :: "('m, 'w) server \<Rightarrow> delivery list \<times> ('m, 'w) server" where
  "take_event_deliveries st = (sv_deliveries st, st\<lparr>sv_deliveries := []\<rparr>)"

definition is_api_denied :: "('m, 'f, 'z, 'w) server_env \<Rightarrow> ('m, 'w) server \<Rightarrow> bool" where
  "is_api_denied env st = (se_deny_api env \<and> sv_mode st = ModePortal)"

definition generate_api_key :: "string \<Rightarrow> string" where
  "generate_api_key random = concat (map (\<lambda>b. [hex_char (byte_of b div 16), hex_char (byte_of b mod 16)]) random)"

section \<open>Reading and answering\<close>

definition read_body :: "http_request \<Rightarrow> nat \<Rightarrow> body_error + string" where
  "read_body req max_len =
     rbind (validate_content_length (rq_header req ''content-length'') max_len) (\<lambda>len.
       if length (rq_body req) < len then Inl BeReadFailed else Inr (take len (rq_body req)))"

definition body_error_response :: "body_error \<Rightarrow> string \<Rightarrow> http_response" where
  "body_error_response e max_desc =
     (case e of
        BeEmpty \<Rightarrow> response 400 ''Bad Request'' [] ''Empty body''
      | BeTooLarge \<Rightarrow> response 413 ''Payload Too Large'' [] max_desc
      | BeInvalid \<Rightarrow> response 400 ''Bad Request'' [] ''Invalid Content-Length''
      | BeReadFailed \<Rightarrow> response 500 ''Internal Server Error'' [] ''Failed to read body'')"

definition accepts_gzip :: "http_request \<Rightarrow> bool" where
  "accepts_gzip req = str_contains ''gzip'' (case_option [] id (rq_header req ''accept-encoding''))"

definition gzip_headers :: "(string \<times> string) list" where
  "gzip_headers = [(''Content-Type'', ''text/html''), (''Content-Encoding'', ''gzip'')]"

definition html_response ::
  "('m, 'f, 'z, 'w) server_env \<Rightarrow> platform \<Rightarrow> http_request \<Rightarrow> nat \<Rightarrow> string \<Rightarrow> string \<Rightarrow> http_response" where
  "html_response env pl req status reason html =
     (case (if accepts_gzip req then gzip_compress (se_miniz env) (pl_free_heap pl) html else None) of
        Some compressed \<Rightarrow> response status reason gzip_headers compressed
      | None \<Rightarrow> response status reason [(''Content-Type'', ''text/html'')] html)"

definition omi_response :: "('m, 'f, 'z, 'w) server_env \<Rightarrow> omi_message \<Rightarrow> http_response outcome" where
  "omi_response env msg =
     obind (Machine.or_panic (to_json_string (se_ryu env) msg)) (\<lambda>json.
       Finished (response 200 ''OK'' [(''Content-Type'', ''application/json'')] json))"

definition denied_response :: http_response where
  "denied_response = response 503 ''Service Unavailable'' [] ''API disabled during provisioning''"

definition unauthorized_response :: http_response where
  "unauthorized_response = response 401 ''Unauthorized'' [] ''Authentication required''"

definition check_auth :: "('m, 'f, 'z, 'w) server_env \<Rightarrow> http_request \<Rightarrow> bool" where
  "check_auth env req = check_bearer_auth (rq_header req ''authorization'') (se_token env)"

text \<open>A parsed message, the text of the error, or the parser's own failure.\<close>

definition parse_text :: "string \<Rightarrow> (string + omi_message) outcome" where
  "parse_text text =
     (case parse_omi_message text of
        Inr msg \<Rightarrow> Finished (Inr msg)
      | Inl (Fails e) \<Rightarrow> Finished (Inl (''Parse error: '' @ parse_error_text e))
      | Inl Panics \<Rightarrow> Panicked
      | Inl stop.OutOfFuel \<Rightarrow> outcome.OutOfFuel)"

definition run_engine ::
  "('m, 'f, 'z, 'w) server_env \<Rightarrow> platform \<Rightarrow> omi_message \<Rightarrow> session_id option \<Rightarrow> ('m, 'w) server \<Rightarrow>
   (omi_message \<times> delivery list \<times> ('m, 'w) server) outcome" where
  "run_engine env pl msg session st =
     obind (Machine.or_panic (process (se_api env) (se_ryu env) msg (pl_now pl) session (sv_engine st)))
       (\<lambda>((resp, ds), en). Finished (resp, ds, st\<lparr>sv_engine := en\<rparr>))"

section \<open>Portal routes\<close>

type_synonym ('m, 'w) handled = "(http_response \<times> ('m, 'w) server) outcome"

definition form_page :: "string option \<Rightarrow> form_config \<Rightarrow> string" where
  "form_page msg cfg =
     render_provisioning_form (fc_max_aps cfg) (fc_saved_ssids cfg) (fc_hostname cfg) (fc_first_setup cfg) msg"

definition root_get :: "('m, 'f, 'z, 'w) server_env \<Rightarrow> platform \<Rightarrow> http_request \<Rightarrow> ('m, 'w) server \<Rightarrow> ('m, 'w) handled" where
  "root_get env pl req st =
     Finished (html_response env pl req 200 ''OK''
       (if sv_mode st = ModePortal then form_page (fc_error (sv_form st)) (sv_form st)
        else render_landing_page (sv_store st)), st)"

definition root_post :: "http_request \<Rightarrow> ('m, 'w) server \<Rightarrow> ('m, 'w) handled" where
  "root_post req st =
     Finished (case read_body req (64 * 1024) of
        Inl e \<Rightarrow> body_error_response e ''Payload exceeds 64KB limit''
      | Inr buf \<Rightarrow>
          (case from_utf8 buf of
             None \<Rightarrow> response 400 ''Bad Request'' [] ''Invalid UTF-8''
           | Some _ \<Rightarrow> response 200 ''OK'' [] ''OK: payload received''), st)"

definition form_error_text :: "form_error \<Rightarrow> string" where
  "form_error_text e =
     (case e of
        NoCredentials \<Rightarrow> ''At least one WiFi network is required''
      | EmptySsid \<Rightarrow> ''SSID cannot be empty''
      | InvalidEncoding \<Rightarrow> ''Invalid form encoding''
      | ApiKeyRequired \<Rightarrow> ''API key is required on first setup'')"

definition provision_post ::
  "('m, 'f, 'z, 'w) server_env \<Rightarrow> platform \<Rightarrow> http_request \<Rightarrow> ('m, 'w) server \<Rightarrow> ('m, 'w) handled" where
  "provision_post env pl req st =
     (case read_body req 4096 of
        Inl e \<Rightarrow> Finished (body_error_response e ''Form body exceeds 4KB limit'', st)
      | Inr buf \<Rightarrow>
          (case from_utf8 buf of
             None \<Rightarrow> Finished (response 400 ''Bad Request'' [] ''Invalid UTF-8'', st)
           | Some body \<Rightarrow>
               (case parse_provision_form body (fc_max_aps (sv_form st)) (fc_first_setup (sv_form st)) of
                  Inr form \<Rightarrow>
                    (let key = (if pf_api_key_action form = Generate then Some (generate_api_key (pl_random pl)) else None);
                         hostname = case_option (fc_hostname (sv_form st)) id (pf_hostname form)
                     in Finished (html_response env pl req 200 ''OK''
                            (render_provision_success key hostname (length (pf_credentials form))),
                          st\<lparr>sv_status := \<lparr>cs_state = CConnecting, cs_message = None, cs_ip = None\<rparr>,
                             sv_provision := Some \<lparr>pp_form = form, pp_generated_key = key\<rparr>\<rparr>))
                | Inl e \<Rightarrow>
                    Finished (html_response env pl req 400 ''Bad Request''
                      (form_page (Some (form_error_text e)) (sv_form st)), st))))"

definition network_to_json :: "scanned_network \<Rightarrow> json_writer \<Rightarrow> json_writer" where
  "network_to_json net w =
     end_object (field_str ''auth'' (sn_auth net) (i64_val (sn_rssi net) (jw_key ''rssi''
       (field_str ''ssid'' (sn_ssid net) (begin_object w)))))"

definition scan_results_json :: "scanned_network list \<Rightarrow> string" where
  "scan_results_json networks = into_string (end_array (fold network_to_json networks (begin_array writer_new)))"

definition state_text :: "connection_state \<Rightarrow> string" where
  "state_text s = (case s of CIdle \<Rightarrow> ''idle'' | CConnecting \<Rightarrow> ''connecting'' | CConnected \<Rightarrow> ''connected'' | CFailed \<Rightarrow> ''failed'')"

definition connection_status_json :: "connection_status \<Rightarrow> string" where
  "connection_status_json s =
     into_string (end_object (field_str_opt ''ip'' (cs_ip s) (field_str_opt ''message'' (cs_message s)
       (jw_string (state_text (cs_state s)) (jw_key ''state'' (begin_object writer_new))))))"

definition json_ok :: "string \<Rightarrow> http_response" where
  "json_ok json = response 200 ''OK'' [(''Content-Type'', ''application/json'')] json"

definition scan_get :: "('m, 'w) server \<Rightarrow> ('m, 'w) handled" where
  "scan_get st = Finished (json_ok (scan_results_json (sv_scan st)), st)"

definition status_get :: "('m, 'w) server \<Rightarrow> ('m, 'w) handled" where
  "status_get st = Finished (json_ok (connection_status_json (sv_status st)), st)"

section \<open>Updates and the factory reset\<close>

definition ota_post ::
  "('m, 'f, 'z, 'w) server_env \<Rightarrow> platform \<Rightarrow> http_request \<Rightarrow> ('m, 'w) server \<Rightarrow> ('m, 'w) handled" where
  "ota_post env pl req st =
     (if is_api_denied env st then Finished (denied_response, st)
      else obind (handle_ota (se_fuel env) (se_miniz env) (se_ota_hw env) (pl_ota_busy pl) (rq_header req) (se_token env)
                    (sv_world st)) (\<lambda>(resp, w). Finished (resp, st\<lparr>sv_world := w\<rparr>)))"

definition factory_reset_post ::
  "('m, 'f, 'z, 'w) server_env \<Rightarrow> http_request \<Rightarrow> ('m, 'w) server \<Rightarrow> ('m, 'w) handled" where
  "factory_reset_post env req st =
     (if \<not> check_auth env req then Finished (response 401 ''Unauthorized'' [] ''Invalid or missing token'', st)
      else Finished (response 200 ''OK'' [] ''{\"ok\":true,\"message\":\"Rebooting into portal mode\"}'', st\<lparr>sv_reset := True\<rparr>))"

section \<open>O-MI over HTTP\<close>

definition is_write :: "operation \<Rightarrow> bool" where
  "is_write op = (case op of OpWrite _ \<Rightarrow> True | _ \<Rightarrow> False)"

definition omi_request ::
  "('m, 'f, 'z, 'w) server_env \<Rightarrow> platform \<Rightarrow> http_request \<Rightarrow> omi_message \<Rightarrow> ('m, 'w) server \<Rightarrow> ('m, 'w) handled" where
  "omi_request env pl req msg st =
     (if is_mutating_operation (om_operation msg) \<and> \<not> check_auth env req
      then obind (omi_response env (unauthorized ''Authentication required'')) (\<lambda>r. Finished (r, st))
      else obind (run_engine env pl msg None st) (\<lambda>(resp, ds, st).
        let st = st\<lparr>sv_dirty := (sv_dirty st \<or> is_write (om_operation msg) \<and> is_successful_write_response resp),
                    sv_deliveries := sv_deliveries st @ ds\<rparr>
        in obind (omi_response env resp) (\<lambda>r. Finished (r, st))))"

definition omi_post ::
  "('m, 'f, 'z, 'w) server_env \<Rightarrow> platform \<Rightarrow> http_request \<Rightarrow> ('m, 'w) server \<Rightarrow> ('m, 'w) handled" where
  "omi_post env pl req st =
     (if is_api_denied env st then Finished (denied_response, st)
      else if (case rq_header req ''content-type'' of None \<Rightarrow> False | Some ct \<Rightarrow> \<not> str_contains ''application/json'' ct)
      then Finished (response 415 ''Unsupported Media Type'' [] ''Expected application/json'', st)
      else (case read_body req (16 * 1024) of
              Inl e \<Rightarrow> Finished (body_error_response e ''Body exceeds 16KB limit'', st)
            | Inr buf \<Rightarrow>
                (case from_utf8 buf of
                   None \<Rightarrow> Finished (response 400 ''Bad Request'' [] ''Invalid UTF-8'', st)
                 | Some text \<Rightarrow>
                     obind (parse_text text) (\<lambda>r. case r of
                       Inl err \<Rightarrow> Finished (response 400 ''Bad Request'' [] err, st)
                     | Inr msg \<Rightarrow> omi_request env pl req msg st))))"

definition omi_read ::
  "('m, 'f, 'z, 'w) server_env \<Rightarrow> platform \<Rightarrow> string \<Rightarrow> http_request \<Rightarrow> ('m, 'w) server \<Rightarrow> ('m, 'w) handled" where
  "omi_read env pl odf_path req st =
     (let params = (case uri_query (rq_uri req) of None \<Rightarrow> default_params | Some q \<Rightarrow> params_from_query q)
      in obind (run_engine env pl (build_read_op odf_path params) None st) (\<lambda>(resp, ds, st).
           obind (omi_response env resp) (\<lambda>r. Finished (r, st))))"

definition omi_get_root ::
  "('m, 'f, 'z, 'w) server_env \<Rightarrow> platform \<Rightarrow> http_request \<Rightarrow> ('m, 'w) server \<Rightarrow> ('m, 'w) handled" where
  "omi_get_root env pl req st =
     (if is_api_denied env st then Finished (denied_response, st) else omi_read env pl ''/'' req st)"

definition omi_get_path ::
  "('m, 'f, 'z, 'w) server_env \<Rightarrow> platform \<Rightarrow> http_request \<Rightarrow> ('m, 'w) server \<Rightarrow> ('m, 'w) handled" where
  "omi_get_path env pl req st =
     (if is_api_denied env st then Finished (denied_response, st)
      else omi_read env pl (fst (omi_uri_to_odf_path (uri_path (rq_uri req)))) req st)"

section \<open>Pages\<close>

definition page_error_response :: "page_error \<Rightarrow> http_response" where
  "page_error_response e =
     (case e of
        ReservedPath \<Rightarrow> response 403 ''Forbidden'' [] ''Reserved path''
      | page_error.InvalidPath \<Rightarrow> response 400 ''Bad Request'' [] ''Invalid path''
      | PageTooLarge \<Rightarrow> response 413 ''Payload Too Large'' [] ''Page exceeds 64KB limit''
      | StorageFull \<Rightarrow> response 507 ''Insufficient Storage'' [] ''Storage full''
      | PageNotFound \<Rightarrow> response 500 ''Internal Server Error'' [] ''Unexpected error'')"

definition page_patch ::
  "('m, 'f, 'z, 'w) server_env \<Rightarrow> http_request \<Rightarrow> ('m, 'w) server \<Rightarrow> ('m, 'w) handled" where
  "page_patch env req st =
     (if \<not> check_auth env req then Finished (unauthorized_response, st)
      else let is_gzip = (case rq_header req ''content-encoding'' of None \<Rightarrow> False | Some v \<Rightarrow> map ascii_lower v = ''gzip'')
      in case read_body req (64 * 1024) of
           Inl e \<Rightarrow> Finished (body_error_response e ''Payload exceeds 64KB limit'', st)
         | Inr body \<Rightarrow>
             if \<not> is_gzip \<and> from_utf8 body = None
             then Finished (response 400 ''Bad Request'' [] ''Invalid UTF-8'', st)
             else obind (Machine.or_panic (store_bytes (uri_path (rq_uri req)) body is_gzip (sv_store st))) (\<lambda>(r, store).
               Finished (case r of Inr _ \<Rightarrow> response 200 ''OK'' [] ''OK: page stored'' | Inl e \<Rightarrow> page_error_response e,
                 st\<lparr>sv_store := store\<rparr>)))"

definition page_delete ::
  "('m, 'f, 'z, 'w) server_env \<Rightarrow> http_request \<Rightarrow> ('m, 'w) server \<Rightarrow> ('m, 'w) handled" where
  "page_delete env req st =
     (if \<not> check_auth env req then Finished (unauthorized_response, st)
      else obind (Machine.or_panic (page_remove (uri_path (rq_uri req)) (sv_store st))) (\<lambda>(r, store).
        Finished (case r of
            Inr _ \<Rightarrow> response 200 ''OK'' [] ''OK: page removed''
          | Inl e \<Rightarrow> if e = PageNotFound then response 404 ''Not Found'' [] ''Page not found''
                     else response 500 ''Internal Server Error'' [] ''Unexpected error'',
          st\<lparr>sv_store := store\<rparr>)))"

definition ap_ip :: string where "ap_ip = ''192.168.4.1''"

definition page_serve ::
  "('m, 'f, 'z, 'w) server_env \<Rightarrow> platform \<Rightarrow> http_request \<Rightarrow> ('m, 'w) server \<Rightarrow> ('m, 'w) handled" where
  "page_serve env pl req st =
     (let path = uri_path (rq_uri req)
      in Finished (if sv_mode st = ModePortal \<and> should_redirect_to_portal ''GET'' path
           then (case redirect_to_form ap_ip of (status, headers, body) \<Rightarrow> response status ''Found'' [hd headers] body)
           else (case page_get (sv_store st) path of
                   Some (data, True) \<Rightarrow>
                     (if accepts_gzip req then response 200 ''OK'' gzip_headers data
                      else (case gzip_decompress (se_miniz env) data max_single_page of
                              Some plain \<Rightarrow> response 200 ''OK'' [(''Content-Type'', ''text/html'')] plain
                            | None \<Rightarrow> response 500 ''Internal Server Error'' [] ''Decompression failed''))
                 | Some (data, False) \<Rightarrow> html_response env pl req 200 ''OK'' data
                 | None \<Rightarrow> response 404 ''Not Found'' [] ''Page not found''), st))"

section \<open>Routes\<close>

datatype route =
    RootGet | RootPost | ProvisionPost | ScanGet | StatusGet | OtaPost | ResetPost | OmiPost | OmiGetRoot
  | OmiGetPath | PagePatch | PageDelete | PageServe

text \<open>The routes in the order in which they are registered; the first that matches is taken.\<close>

definition routes :: "(string \<times> http_method \<times> route) list" where
  "routes =
     [(''/'', MGet, RootGet), (''/'', MPost, RootPost), (''/provision'', MPost, ProvisionPost),
      (''/scan'', MGet, ScanGet), (''/status'', MGet, StatusGet), (''/ota'', MPost, OtaPost),
      (''/api/factory-reset'', MPost, ResetPost), (''/omi'', MPost, OmiPost), (''/omi'', MGet, OmiGetRoot),
      (''/omi/*'', MGet, OmiGetPath), (''/*'', MPatch, PagePatch), (''/*'', MDelete, PageDelete), (''/*'', MGet, PageServe)]"

definition route_of :: "('m, 'f, 'z, 'w) server_env \<Rightarrow> http_request \<Rightarrow> route option" where
  "route_of env req =
     map_option (snd \<circ> snd)
       (List.find (\<lambda>(template, meth, _). meth = rq_method req \<and> se_uri_match env template (rq_uri req)) routes)"

fun run_route ::
  "route \<Rightarrow> ('m, 'f, 'z, 'w) server_env \<Rightarrow> platform \<Rightarrow> http_request \<Rightarrow> ('m, 'w) server \<Rightarrow> ('m, 'w) handled" where
  "run_route RootGet env pl req st = root_get env pl req st"
| "run_route RootPost env pl req st = root_post req st"
| "run_route ProvisionPost env pl req st = provision_post env pl req st"
| "run_route ScanGet env pl req st = scan_get st"
| "run_route StatusGet env pl req st = status_get st"
| "run_route OtaPost env pl req st = ota_post env pl req st"
| "run_route ResetPost env pl req st = factory_reset_post env req st"
| "run_route OmiPost env pl req st = omi_post env pl req st"
| "run_route OmiGetRoot env pl req st = omi_get_root env pl req st"
| "run_route OmiGetPath env pl req st = omi_get_path env pl req st"
| "run_route PagePatch env pl req st = page_patch env req st"
| "run_route PageDelete env pl req st = page_delete env req st"
| "run_route PageServe env pl req st = page_serve env pl req st"

definition serve ::
  "('m, 'f, 'z, 'w) server_env \<Rightarrow> platform \<Rightarrow> http_request \<Rightarrow> ('m, 'w) server \<Rightarrow> ('m, 'w) handled" where
  "serve env pl req st =
     (case route_of env req of
        None \<Rightarrow> Finished (se_no_route env req, st)
      | Some r \<Rightarrow> run_route r env pl req st)"

section \<open>WebSocket\<close>

datatype ws_frame = WsText string | WsBinary string | WsPing | WsPong | WsClose

text \<open>A new connection comes with whether a detached sender could be made for it.\<close>

datatype ws_event = WsNew int bool | WsClosed int | WsFrame int ws_frame

datatype ws_out = OutText string | OutPong

definition max_ws_msg :: nat where "max_ws_msg = 16 * 1024"

definition trim_nuls :: "string \<Rightarrow> string" where
  "trim_nuls buf = rev (dropWhile (\<lambda>c. c = CHR 0x00) (rev buf))"

definition ws_reply ::
  "('m, 'f, 'z, 'w) server_env \<Rightarrow> omi_message \<Rightarrow> ('m, 'w) server \<Rightarrow> (ws_out list \<times> ('m, 'w) server) outcome" where
  "ws_reply env msg st =
     obind (Machine.or_panic (to_json_string (se_ryu env) msg)) (\<lambda>json. Finished ([OutText json], st))"

definition ws_text ::
  "('m, 'f, 'z, 'w) server_env \<Rightarrow> platform \<Rightarrow> int \<Rightarrow> string \<Rightarrow> ('m, 'w) server \<Rightarrow>
   (ws_out list \<times> ('m, 'w) server) outcome" where
  "ws_text env pl fd payload st =
     (case from_utf8 payload of
        None \<Rightarrow> ws_reply env (bad_request ''Invalid UTF-8'') st
      | Some text \<Rightarrow>
          obind (parse_text text) (\<lambda>r. case r of
            Inl err \<Rightarrow> ws_reply env (bad_request err) st
          | Inr msg \<Rightarrow>
              (case om_operation msg of
                 OpWrite _ \<Rightarrow> ws_reply env (unauthorized ''Write/delete operations require the authenticated HTTP endpoint'') st
               | OpDelete _ \<Rightarrow> ws_reply env (unauthorized ''Write/delete operations require the authenticated HTTP endpoint'') st
               | _ \<Rightarrow>
                   (let session = case_option 0 id (map_of (sv_fds st) fd)
                    in obind (run_engine env pl msg (Some session) st) (\<lambda>(resp, ds, st). ws_reply env resp st)))))"

fun ws_handle ::
  "('m, 'f, 'z, 'w) server_env \<Rightarrow> platform \<Rightarrow> ws_event \<Rightarrow> ('m, 'w) server \<Rightarrow> (ws_out list \<times> ('m, 'w) server) outcome" where
  "ws_handle env pl (WsNew fd sender_ok) st =
     (if is_api_denied env st \<or> \<not> sender_ok then Finished ([], st)
      else Finished ([], st\<lparr>sv_next_session := sv_next_session st + 1,
             sv_fds := bt_insert fd (sv_next_session st) (sv_fds st),
             sv_senders := bt_insert (sv_next_session st) fd (sv_senders st)\<rparr>))"
| "ws_handle env pl (WsClosed fd) st =
     (let st' = st\<lparr>sv_fds := bt_remove fd (sv_fds st)\<rparr>
      in Finished ([], case map_of (sv_fds st) fd of
           None \<Rightarrow> st'
         | Some sid \<Rightarrow>
             st'\<lparr>sv_engine := (sv_engine st)\<lparr>en_subs := fst (cancel_by_ws_session sid (en_subs (sv_engine st)))\<rparr>,
                 sv_senders := bt_remove sid (sv_senders st)\<rparr>))"
| "ws_handle env pl (WsFrame fd WsPing) st = Finished ([OutPong], st)"
| "ws_handle env pl (WsFrame fd WsPong) st = Finished ([], st)"
| "ws_handle env pl (WsFrame fd WsClose) st = Finished ([], st)"
| "ws_handle env pl (WsFrame fd (WsBinary _)) st = ws_reply env (bad_request ''Binary frames not supported'') st"
| "ws_handle env pl (WsFrame fd (WsText buf)) st =
     (if max_ws_msg < length buf then ws_reply env (payload_too_large ''Message too large'') st
      else ws_text env pl fd (trim_nuls buf) st)"

end
