(* ===== verification/ServerSpec.thy ===== *)
theory ServerSpec
  imports Server EngineProps
begin

text \<open>
  What a client without the bearer token can change on the server: HTTP requests and WebSocket events
  in any order leave the object tree, the pages and the update partition alone. Reads never change
  the tree and queue no deliveries; every other handler of \<open>Server\<close> is covered by one lemma.
\<close>

section \<open>Reads and cancellations leave the tree alone\<close>

lemma run_onread_script_tree:
  "run_onread_script api path v ts en = Some (r, en') \<Longrightarrow> en_tree en' = en_tree en \<and> en_subs en' = en_subs en"
  by (auto simp: run_onread_script_def Let_def split: sum.splits path_target.splits option.splits if_splits
      Option.bind_splits)

lemma process_read_one_time_tree:
  "process_read_one_time api ryu op en = Some (r, en') \<Longrightarrow> en_tree en' = en_tree en \<and> en_subs en' = en_subs en"
  by (auto simp: process_read_one_time_def Let_def split: sum.splits path_target.splits if_splits
      prod.split_asm Option.bind_splits dest: run_onread_script_tree)

lemma process_read_subscription_tree:
  "process_read_subscription op ttl now ws en = Some (r, en') \<Longrightarrow> en_tree en' = en_tree en"
  by (auto simp: process_read_subscription_def Let_def split: if_splits Option.bind_splits)

lemma process_read_poll_tree: "process_read_poll op now en = Some (r, en') \<Longrightarrow> en_tree en' = en_tree en"
  by (auto simp: process_read_poll_def Let_def split: Option.bind_splits)

definition writes_tree :: "operation \<Rightarrow> bool" where
  "writes_tree op = (case op of OpWrite _ \<Rightarrow> True | OpDelete _ \<Rightarrow> True | _ \<Rightarrow> False)"

lemma process_keeps_tree:
  assumes "process api ryu msg now ws en = Some ((resp, ds), en')" "\<not> writes_tree (om_operation msg)"
  shows "en_tree en' = en_tree en \<and> ds = []"
proof (cases "om_operation msg")
  case (OpRead op)
  then show ?thesis using assms(1)
    by (auto simp: process_def process_read_def split: read_kind.splits Option.bind_splits
        dest: process_read_one_time_tree process_read_subscription_tree process_read_poll_tree)
qed (use assms in \<open>auto simp: process_def process_cancel_def writes_tree_def\<close>)

section \<open>What the bearer token protects\<close>

definition guarded_state ::
  "('m, 'w) server \<Rightarrow> object_tree \<times> page_store \<times> bool \<times> bool \<times> delivery list \<times> 'w \<times> server_mode \<times> form_config"
where
  "guarded_state st =
     (en_tree (sv_engine st), sv_store st, sv_dirty st, sv_reset st, sv_deliveries st, sv_world st, sv_mode st, sv_form st)"

text \<open>What the portal hands to the main loop.\<close>

definition portal_state :: "('m, 'w) server \<Rightarrow> pending_provision option \<times> connection_status" where
  "portal_state st = (sv_provision st, sv_status st)"

lemma obind_Finished: "obind x f = Finished z \<longleftrightarrow> (\<exists>y. x = Finished y \<and> f y = Finished z)"
  by (cases x) auto

lemma run_engine_guarded:
  assumes "run_engine env pl msg session st = Finished (resp, ds, st')" "\<not> writes_tree (om_operation msg)"
  shows "guarded_state st' = guarded_state st \<and> portal_state st' = portal_state st \<and> ds = []"
proof -
  obtain en where "process (se_api env) (se_ryu env) msg (pl_now pl) session (sv_engine st) = Some ((resp, ds), en)"
      "st' = st\<lparr>sv_engine := en\<rparr>"
    using assms(1) unfolding run_engine_def
    by (cases "process (se_api env) (se_ryu env) msg (pl_now pl) session (sv_engine st)") auto
  with process_keeps_tree assms(2) show ?thesis by (fastforce simp: guarded_state_def portal_state_def)
qed

lemma writes_tree_mutating: "writes_tree op \<Longrightarrow> is_mutating_operation op"
  by (auto simp: writes_tree_def is_mutating_operation_def split: operation.splits)

lemma is_write_writes_tree: "is_write op \<Longrightarrow> writes_tree op"
  by (auto simp: writes_tree_def is_write_def split: operation.splits)

lemma omi_request_guarded:
  assumes "omi_request env pl req msg st = Finished (resp, st')" "\<not> check_auth env req"
  shows "guarded_state st' = guarded_state st \<and> portal_state st' = portal_state st"
proof (cases "is_mutating_operation (om_operation msg)")
  case True
  with assms show ?thesis by (auto simp: omi_request_def obind_Finished)
next
  case False
  then have w: "\<not> writes_tree (om_operation msg)" "\<not> is_write (om_operation msg)"
    using writes_tree_mutating is_write_writes_tree by blast+
  obtain resp' ds st'' where "run_engine env pl msg None st = Finished (resp', ds, st'')"
      "st' = st''\<lparr>sv_dirty := sv_dirty st'', sv_deliveries := sv_deliveries st'' @ ds\<rparr>"
    using assms(1) False w(2) by (auto simp: omi_request_def obind_Finished Let_def)
  with run_engine_guarded [OF _ w(1)] show ?thesis by (fastforce simp: guarded_state_def portal_state_def)
qed

lemma omi_post_cases:
  assumes "omi_post env pl req st = Finished (resp, st')"
  shows "st' = st \<or> (\<exists>msg. omi_request env pl req msg st = Finished (resp, st'))"
proof (cases "\<exists>body. read_body req (16 * 1024) = Inr body \<and> from_utf8 body \<noteq> None")
  case False
  with assms show ?thesis by (auto simp: omi_post_def split: if_splits sum.split_asm option.split_asm)
next
  case True
  then obtain body chars where body: "read_body req (16 * 1024) = Inr body" "from_utf8 body = Some chars" by blast
  show ?thesis
  proof (cases "parse_text chars")
    case (Finished r)
    with assms body show ?thesis by (cases r) (auto simp: omi_post_def split: if_splits option.split_asm)
  qed (use assms body in \<open>auto simp: omi_post_def split: if_splits option.split_asm\<close>)
qed

lemma omi_post_guarded:
  assumes "omi_post env pl req st = Finished (resp, st')" "\<not> check_auth env req"
  shows "guarded_state st' = guarded_state st \<and> portal_state st' = portal_state st"
  using omi_post_cases [OF assms(1)] omi_request_guarded [OF _ assms(2)] by blast

lemma build_read_op_reads: "\<not> writes_tree (om_operation (build_read_op path params))"
  by (simp add: build_read_op_def writes_tree_def)

lemma omi_read_guarded:
  assumes "omi_read env pl path req st = Finished (resp, st')"
  shows "guarded_state st' = guarded_state st \<and> portal_state st' = portal_state st"
  using assms run_engine_guarded [OF _ build_read_op_reads]
  by (fastforce simp: omi_read_def obind_Finished Let_def)

lemma ota_post_guarded:
  assumes "ota_post env pl req st = Finished (resp, st')" "\<not> check_auth env req"
  shows "st' = st"
  using assms by (auto simp: ota_post_def handle_ota_def check_auth_def split: if_splits)

lemma provision_post_guarded:
  "provision_post env pl req st = Finished (resp, st') \<Longrightarrow> guarded_state st' = guarded_state st"
  by (auto simp: provision_post_def guarded_state_def Let_def split: sum.splits option.splits)

lemma run_route_guarded:
  assumes "run_route r env pl req st = Finished (resp, st')" "\<not> check_auth env req"
  shows "guarded_state st' = guarded_state st \<and> (r \<noteq> ProvisionPost \<longrightarrow> portal_state st' = portal_state st)"
proof (cases r)
  case OmiPost
  with assms omi_post_guarded show ?thesis by fastforce
next
  case OmiGetRoot
  with assms omi_read_guarded show ?thesis by (fastforce simp: omi_get_root_def split: if_splits)
next
  case OmiGetPath
  with assms omi_read_guarded show ?thesis by (fastforce simp: omi_get_path_def split: if_splits)
next
  case OtaPost
  with assms ota_post_guarded show ?thesis by fastforce
next
  case ProvisionPost
  with assms provision_post_guarded show ?thesis by fastforce
qed (use assms in \<open>auto simp: root_get_def root_post_def scan_get_def status_get_def factory_reset_post_def
    page_patch_def page_delete_def page_serve_def Let_def\<close>)

lemma ws_reply_state: "ws_reply env msg st = Finished (out, st') \<Longrightarrow> st' = st"
  by (auto simp: ws_reply_def obind_Finished)

lemma ws_text_guarded:
  assumes "ws_text env pl fd payload st = Finished (out, st')"
  shows "guarded_state st' = guarded_state st \<and> portal_state st' = portal_state st"
proof (cases "from_utf8 payload")
  case None
  with assms show ?thesis by (auto simp: ws_text_def dest: ws_reply_state)
next
  case (Some body)
  then obtain r where r: "parse_text body = Finished r" using assms by (auto simp: ws_text_def obind_Finished)
  show ?thesis
  proof (cases r)
    case (Inl err)
    with assms Some r show ?thesis by (auto simp: ws_text_def dest: ws_reply_state)
  next
    case (Inr msg)
    show ?thesis
    proof (cases "writes_tree (om_operation msg)")
      case True
      with assms Some r Inr show ?thesis
        by (auto simp: ws_text_def writes_tree_def dest: ws_reply_state split: operation.split_asm)
    next
      case False
      then obtain session resp ds st1 where
        "run_engine env pl msg session st = Finished (resp, ds, st1)" "ws_reply env resp st1 = Finished (out, st')"
        using assms Some r Inr
        by (auto simp: ws_text_def obind_Finished writes_tree_def Let_def split: operation.split_asm)
      with False run_engine_guarded ws_reply_state show ?thesis by blast
    qed
  qed
qed

lemma ws_handle_guarded:
  assumes "ws_handle env pl ev st = Finished (out, st')"
  shows "guarded_state st' = guarded_state st \<and> portal_state st' = portal_state st"
  using assms
proof (cases "(env, pl, ev, st)" rule: ws_handle.cases)
  case (7 env' pl' fd buf st'')
  with assms show ?thesis by (auto split: if_splits dest: ws_reply_state ws_text_guarded)
qed (auto simp: Let_def guarded_state_def portal_state_def dest: ws_reply_state split: if_splits option.splits)

section \<open>Clients in any order\<close>

datatype server_input = Request platform http_request | Event platform ws_event

fun server_step :: "('m, 'f, 'z, 'w) server_env \<Rightarrow> server_input \<Rightarrow> ('m, 'w) server \<Rightarrow> ('m, 'w) server outcome" where
  "server_step env (Request pl req) st = obind (serve env pl req st) (\<lambda>(_, st). Finished st)"
| "server_step env (Event pl ev) st = obind (ws_handle env pl ev st) (\<lambda>(_, st). Finished st)"

fun server_run :: "('m, 'f, 'z, 'w) server_env \<Rightarrow> server_input list \<Rightarrow> ('m, 'w) server \<Rightarrow> ('m, 'w) server outcome" where
  "server_run env [] st = Finished st"
| "server_run env (i # inputs) st = obind (server_step env i st) (server_run env inputs)"

fun anonymous :: "('m, 'f, 'z, 'w) server_env \<Rightarrow> server_input \<Rightarrow> bool" where
  "anonymous env (Request pl req) = (\<not> check_auth env req)"
| "anonymous env (Event pl ev) = True"

fun provisions :: "('m, 'f, 'z, 'w) server_env \<Rightarrow> server_input \<Rightarrow> bool" where
  "provisions env (Request pl req) = (route_of env req = Some ProvisionPost)"
| "provisions env (Event pl ev) = False"

lemma server_step_guarded:
  assumes "server_step env i st = Finished st'" "anonymous env i"
  shows "guarded_state st' = guarded_state st \<and> (\<not> provisions env i \<longrightarrow> portal_state st' = portal_state st)"
  using assms by (cases i)
    (auto simp: obind_Finished serve_def dest: run_route_guarded ws_handle_guarded split: option.splits)

text \<open>C38: Whatever sequence of HTTP requests without the bearer token and of WebSocket events of any
  kind the server answers, the object tree, the stored pages, the flag that makes the main loop save
  the tree, the factory-reset request, the queued deliveries, the update hardware, the mode and the
  form settings are what they were. Unless one of the requests is a POST to /provision, nothing is
  queued for provisioning either.\<close>

theorem unauthenticated_changes_nothing:
  assumes "server_run env inputs st = Finished st'" "list_all (anonymous env) inputs"
  shows "guarded_state st' = guarded_state st \<and>
    (list_ex (provisions env) inputs \<or> portal_state st' = portal_state st)"
  using assms
proof (induction inputs arbitrary: st)
  case (Cons i inputs)
  then obtain st1 where "server_step env i st = Finished st1" "server_run env inputs st1 = Finished st'"
    by (auto simp: obind_Finished)
  with Cons server_step_guarded show ?case by fastforce
qed simp

text \<open>A device in normal mode whose token is "key"; the last template matches every path.\<close>

definition sample_server_env :: "(unit, unit, unit, string) server_env" where
  "sample_server_env = \<lparr>se_api = idle_mjs, se_ryu = (\<lambda>_. []), se_miniz = empty_miniz, se_ota_hw = body_hw, se_fuel = 0,
     se_token = ''key'', se_deny_api = False, se_uri_match = (\<lambda>template uri. template = uri \<or> template = ''/*''),
     se_no_route = (\<lambda>_. unauthorized_response)\<rparr>"

definition sample_platform :: platform where
  "sample_platform = \<lparr>pl_now = Fin 0, pl_random = [], pl_free_heap = 0, pl_ota_busy = False\<rparr>"

definition sample_server :: "(unit, string) server" where
  "sample_server = portal_new ModeNormal 3 [] ''eomi'' False None []"

definition tokenless :: "http_method \<Rightarrow> string \<Rightarrow> server_input" where
  "tokenless meth uri =
     Request sample_platform \<lparr>rq_method = meth, rq_uri = uri, rq_header = (\<lambda>_. None), rq_body = []\<rparr>"

definition sample_inputs :: "server_input list" where
  "sample_inputs =
     [tokenless MDelete ''/index'', tokenless MPost ''/api/factory-reset'', tokenless MPatch ''/index'',
      Event sample_platform (WsNew 4 True), Event sample_platform (WsFrame 4 WsPing)]"

theorem unauthenticated_changes_nothing_witness:
  "\<exists>st'. server_run sample_server_env sample_inputs sample_server = Finished st' \<and>
     guarded_state st' = guarded_state sample_server \<and> portal_state st' = portal_state sample_server \<and>
     sv_next_session st' = 2"
proof -
  let ?st = "sample_server\<lparr>sv_next_session := 2, sv_fds := bt_insert 4 1 [], sv_senders := bt_insert 1 4 []\<rparr>"
  have no: "\<not> check_auth sample_server_env \<lparr>rq_method = m, rq_uri = u, rq_header = (\<lambda>_. None), rq_body = []\<rparr>" for m u
    by (simp add: check_auth_def check_bearer_auth_iff)
  have run: "server_run sample_server_env sample_inputs sample_server = Finished ?st"
    using no by (simp add: sample_inputs_def tokenless_def serve_def route_of_def routes_def sample_server_env_def
        page_delete_def factory_reset_post_def page_patch_def is_api_denied_def sample_server_def portal_new_def)
  have anon: "list_all (anonymous sample_server_env) sample_inputs"
    using no by (simp add: sample_inputs_def tokenless_def)
  have "\<not> list_ex (provisions sample_server_env) sample_inputs"
    by (simp add: sample_inputs_def tokenless_def route_of_def routes_def sample_server_env_def)
  with unauthenticated_changes_nothing [OF run anon] run show ?thesis by auto
qed

end
