(* ===== verification/Dispatch.thy ===== *)
theory Dispatch
  imports Server
begin

text \<open>
  Sending subscription deliveries: \<open>dispatch_deliveries\<close> of \<open>src/server.rs\<close>, the callback URLs
  (\<open>src/callback_url.rs\<close>), and the HTTP POST with one retry (\<open>src/callback.rs\<close>). The network is a record of functions on an abstract
  world. Scripts run by a callback may write and so cause further deliveries, which are dispatched
  before the next callback; the depth of that recursion is bounded by fuel.
\<close>

section \<open>Callback URLs\<close>

datatype callback_scheme = SchemeHttp | SchemeJavaScript string

definition js_prefix :: string where "js_prefix = ''javascript://''"

definition is_javascript_callback :: "string \<Rightarrow> bool" where
  "is_javascript_callback url =
     (length js_prefix \<le> length url \<and> map ascii_lower (take (length js_prefix) url) = map ascii_lower js_prefix)"

definition parse_callback_url :: "string \<Rightarrow> callback_scheme option" where
  "parse_callback_url url =
     (if is_javascript_callback url
      then let raw = drop (length js_prefix) url
           in Some (SchemeJavaScript (case raw of CHR ''/'' # path \<Rightarrow> path | _ \<Rightarrow> raw))
      else if is_prefix_of ''http://'' url \<or> is_prefix_of ''https://'' url then Some SchemeHttp
      else None)"

section \<open>HTTP callbacks\<close>

datatype delivery_outcome = Delivered | Retried | Dropped string string

definition callback_headers :: "nat \<Rightarrow> (string \<times> string) list" where
  "callback_headers n = [(''Content-Type'', ''application/json''), (''Content-Length'', dec_of_nat n)]"

definition is_success_status :: "nat \<Rightarrow> bool" where
  "is_success_status status = (200 \<le> status \<and> status < 300)"

text \<open>The client of ESP-IDF: every call changes the world and may fail with an error text.\<close>

record 'x http_client =
  hc_connect :: "'x \<Rightarrow> (string + unit) \<times> 'x"
  hc_post :: "string \<Rightarrow> (string \<times> string) list \<Rightarrow> 'x \<Rightarrow> (string + unit) \<times> 'x"
  hc_write :: "string \<Rightarrow> 'x \<Rightarrow> (string + unit) \<times> 'x"
  hc_flush :: "'x \<Rightarrow> (string + unit) \<times> 'x"
  hc_submit :: "'x \<Rightarrow> (string + nat) \<times> 'x"

definition client_call ::
  "string \<Rightarrow> ('x \<Rightarrow> (string + 'a) \<times> 'x) \<Rightarrow> ('a \<Rightarrow> 'x \<Rightarrow> (string + 'b) \<times> 'x) \<Rightarrow> 'x \<Rightarrow> (string + 'b) \<times> 'x"
where
  "client_call what call k x =
     (case call x of (Inl e, x) \<Rightarrow> (Inl (what @ '': '' @ e), x) | (Inr a, x) \<Rightarrow> k a x)"

definition post_callback :: "'x http_client \<Rightarrow> string \<Rightarrow> string \<Rightarrow> 'x \<Rightarrow> (string + unit) \<times> 'x" where
  "post_callback hc url body =
     client_call ''connection'' (hc_connect hc) (\<lambda>_.
     client_call ''request'' (hc_post hc url (callback_headers (length body))) (\<lambda>_.
     client_call ''write'' (hc_write hc body) (\<lambda>_.
     client_call ''flush'' (hc_flush hc) (\<lambda>_.
     client_call ''submit'' (hc_submit hc) (\<lambda>status x.
       (if is_success_status status then Inr () else Inl (''HTTP '' @ dec_of_nat status), x))))))"

definition deliver_with_poster :: "('x \<Rightarrow> (string + unit) \<times> 'x) \<Rightarrow> 'x \<Rightarrow> delivery_outcome \<times> 'x" where
  "deliver_with_poster poster x =
     (case poster x of
        (Inr _, x) \<Rightarrow> (Delivered, x)
      | (Inl e1, x) \<Rightarrow>
          (case poster x of
             (Inr _, x) \<Rightarrow> (Retried, x)
           | (Inl e2, x) \<Rightarrow> (Dropped e1 e2, x)))"

definition deliver_callback :: "'x http_client \<Rightarrow> string \<Rightarrow> string \<Rightarrow> 'x \<Rightarrow> 'x" where
  "deliver_callback hc url body x = snd (deliver_with_poster (post_callback hc url body) x)"

section \<open>Dispatching\<close>

text \<open>The connection of a session as the server reaches it, the clock, and the client for callbacks.\<close>

record 'x network =
  nw_send :: "int \<Rightarrow> string \<Rightarrow> 'x \<Rightarrow> bool \<times> 'x"
  nw_now :: "'x \<Rightarrow> f64 \<times> 'x"
  nw_client :: "'x http_client"

text \<open>The first pass over the deliveries: WebSocket frames are sent at once, callbacks collected.\<close>

record 'x sorted_out =
  so_failed :: "session_id list"
  so_callbacks :: "(string \<times> string) list"
  so_scripts :: "(string \<times> string \<times> odf_value list) list"
  so_world :: 'x

definition delivery_text :: "(f64 \<Rightarrow> string) \<Rightarrow> delivery \<Rightarrow> string outcome" where
  "delivery_text ryu d =
     Machine.or_panic (to_json_string ryu (subscription_event (dl_rid d) (dl_path d) (dl_values d)))"

definition send_one ::
  "'x network \<Rightarrow> (f64 \<Rightarrow> string) \<Rightarrow> (session_id, int) btree \<Rightarrow> delivery \<Rightarrow> 'x sorted_out \<Rightarrow> 'x sorted_out outcome"
where
  "send_one nw ryu senders d so =
     (case dl_target d of
        WebSocket session \<Rightarrow>
          (case map_of senders session of
             None \<Rightarrow> Finished so
           | Some sender \<Rightarrow>
               obind (delivery_text ryu d) (\<lambda>json.
                 (case nw_send nw sender json (so_world so) of
                    (True, x) \<Rightarrow> Finished (so\<lparr>so_world := x\<rparr>)
                  | (False, x) \<Rightarrow>
                      Finished (so\<lparr>so_world := x, so_failed :=
                        (if session \<in> set (so_failed so) then so_failed so else so_failed so @ [session])\<rparr>))))
      | Callback url \<Rightarrow>
          (if is_javascript_callback url
           then Finished (so\<lparr>so_scripts := so_scripts so @ [(url, dl_path d, dl_values d)]\<rparr>)
           else obind (delivery_text ryu d) (\<lambda>json.
             Finished (so\<lparr>so_callbacks := so_callbacks so @ [(url, json)]\<rparr>)))
      | Poll \<Rightarrow> Finished so)"

fun send_all ::
  "'x network \<Rightarrow> (f64 \<Rightarrow> string) \<Rightarrow> (session_id, int) btree \<Rightarrow> delivery list \<Rightarrow> 'x sorted_out \<Rightarrow> 'x sorted_out outcome"
where
  "send_all nw ryu senders [] so = Finished so"
| "send_all nw ryu senders (d # ds) so = obind (send_one nw ryu senders d so) (send_all nw ryu senders ds)"

definition cancel_sessions :: "session_id list \<Rightarrow> 'm engine \<Rightarrow> 'm engine" where
  "cancel_sessions failed en =
     en\<lparr>en_subs := fold (\<lambda>sid reg. fst (cancel_by_ws_session sid reg)) failed (en_subs en)\<rparr>"

text \<open>The scripts of the collected callbacks in order, each followed by what it caused.\<close>

fun dispatch_deliveries ::
  "nat \<Rightarrow> 'x network \<Rightarrow> ('m, 'f, 'z, 'w) server_env \<Rightarrow> delivery list \<Rightarrow> ('m, 'w) server \<times> 'x \<Rightarrow>
   (('m, 'w) server \<times> 'x) outcome"
and run_scripts ::
  "nat \<Rightarrow> 'x network \<Rightarrow> ('m, 'f, 'z, 'w) server_env \<Rightarrow> f64 \<Rightarrow> (string \<times> string \<times> odf_value list) list \<Rightarrow>
   ('m, 'w) server \<times> 'x \<Rightarrow> (('m, 'w) server \<times> 'x) outcome"
where
  "dispatch_deliveries 0 nw env ds s = outcome.OutOfFuel"
| "dispatch_deliveries (Suc n) nw env ds (st, x) =
     (if ds = [] then Finished (st, x)
      else obind (send_all nw (se_ryu env) (sv_senders st) ds
                   \<lparr>so_failed = [], so_callbacks = [], so_scripts = [], so_world = x\<rparr>) (\<lambda>so.
        let st = st\<lparr>sv_senders := fold bt_remove (so_failed so) (sv_senders st)\<rparr>;
            x = fold (\<lambda>(url, json). deliver_callback (nw_client nw) url json) (so_callbacks so) (so_world so);
            scripted = (if so_scripts so = [] then Finished (st, x)
                        else case nw_now nw x of (now, x) \<Rightarrow> run_scripts n nw env now (so_scripts so) (st, x))
        in obind scripted (\<lambda>(st, x).
             Finished (st\<lparr>sv_engine := cancel_sessions (so_failed so) (sv_engine st)\<rparr>, x))))"
| "run_scripts n nw env now [] s = Finished s"
| "run_scripts 0 nw env now (c # cs) s = outcome.OutOfFuel"
| "run_scripts (Suc n) nw env now ((url, path, vals) # cs) (st, x) =
     obind (Machine.or_panic (run_callback_script (se_api env) url path vals now (sv_engine st))) (\<lambda>(cascaded, en).
       let st = st\<lparr>sv_engine := en\<rparr>
       in obind (if cascaded = [] then Finished (st, x) else dispatch_deliveries n nw env cascaded (st, x))
            (run_scripts n nw env now cs))"

text \<open>What the main loop does with the deliveries that writes have queued.\<close>

definition dispatch_queued ::
  "nat \<Rightarrow> 'x network \<Rightarrow> ('m, 'f, 'z, 'w) server_env \<Rightarrow> ('m, 'w) server \<times> 'x \<Rightarrow> (('m, 'w) server \<times> 'x) outcome"
where
  "dispatch_queued n nw env s =
     (case s of (st, x) \<Rightarrow>
       (case take_event_deliveries st of (ds, st) \<Rightarrow>
         (if ds = [] then Finished (st, x) else dispatch_deliveries n nw env ds (st, x))))"

section \<open>How much fuel\<close>

text \<open>A result does not depend on the fuel once there is enough of it.\<close>

declare dispatch_deliveries.simps(2) [simp del] run_scripts.simps(3) [simp del]

lemma obind_not_out: "obind r f \<noteq> outcome.OutOfFuel \<Longrightarrow> r \<noteq> outcome.OutOfFuel"
  by (cases r) auto

lemma dispatch_more_fuel:
  "dispatch_deliveries n nw env ds s \<noteq> outcome.OutOfFuel \<Longrightarrow>
     dispatch_deliveries (Suc n) nw env ds s = dispatch_deliveries n nw env ds s"
  "run_scripts n nw env now cs s \<noteq> outcome.OutOfFuel \<Longrightarrow>
     run_scripts (Suc n) nw env now cs s = run_scripts n nw env now cs s"
proof (induction n nw env ds s and n nw env now cs s rule: dispatch_deliveries_run_scripts.induct)
  case (2 n nw env ds st x)
  show ?case
  proof (cases "ds = []")
    case False
    let ?sent = "send_all nw (se_ryu env) (sv_senders st) ds
        \<lparr>so_failed = [], so_callbacks = [], so_scripts = [], so_world = x\<rparr>"
    show ?thesis
    proof (cases ?sent)
      case (Finished so)
      let ?st = "st\<lparr>sv_senders := fold bt_remove (so_failed so) (sv_senders st)\<rparr>"
      let ?x = "fold (\<lambda>(url, json). deliver_callback (nw_client nw) url json) (so_callbacks so) (so_world so)"
      show ?thesis
      proof (cases "so_scripts so = []")
        case False
        obtain now y where y: "nw_now nw ?x = (now, y)" by fastforce
        have "run_scripts n nw env now (so_scripts so) (?st, y) \<noteq> outcome.OutOfFuel"
          using 2(2) False \<open>ds \<noteq> []\<close> Finished y by (auto simp: dispatch_deliveries.simps(2))
        with 2(1) [OF \<open>ds \<noteq> []\<close> refl refl False y [symmetric]] show ?thesis
          using \<open>ds \<noteq> []\<close> Finished y False by (simp add: dispatch_deliveries.simps(2))
      qed (use \<open>ds \<noteq> []\<close> Finished in \<open>simp add: dispatch_deliveries.simps(2)\<close>)
    qed (use \<open>ds \<noteq> []\<close> in \<open>simp_all add: dispatch_deliveries.simps(2)\<close>)
  qed (simp add: dispatch_deliveries.simps(2))
next
  case (5 n nw env now url path vals cs st x)
  let ?script = "Machine.or_panic (run_callback_script (se_api env) url path vals now (sv_engine st))"
  show ?case
  proof (cases ?script)
    case (Finished r)
    obtain cascaded en where r: "r = (cascaded, en)" by fastforce
    let ?st = "st\<lparr>sv_engine := en\<rparr>"
    let ?one = "\<lambda>n. if cascaded = [] then Finished (?st, x) else dispatch_deliveries n nw env cascaded (?st, x)"
    have "?one n \<noteq> outcome.OutOfFuel"
      using 5(3) Finished r by (auto simp: run_scripts.simps(3) dest: obind_not_out)
    then have "?one (Suc n) = ?one n" using 5(1) [OF refl] by auto
    moreover from this 5(2) [OF refl] 5(3) Finished r
    have "obind (?one n) (run_scripts (Suc n) nw env now cs) = obind (?one n) (run_scripts n nw env now cs)"
      by (cases "?one n") (auto simp: run_scripts.simps(3))
    ultimately show ?thesis using Finished r by (simp only: run_scripts.simps(3) obind.simps prod.case Let_def)
  qed (simp_all add: run_scripts.simps(3))
qed auto

text \<open>Without callbacks to scripts nothing recurs.\<close>

definition scripted :: "delivery \<Rightarrow> bool" where
  "scripted d = (case dl_target d of Callback url \<Rightarrow> is_javascript_callback url | _ \<Rightarrow> False)"

lemma send_all_scripts:
  assumes "send_all nw ryu senders ds so = Finished so'" "\<not> list_ex scripted ds"
  shows "so_scripts so' = so_scripts so"
  using assms
proof (induction ds arbitrary: so)
  case (Cons d ds)
  then obtain so1 where "send_one nw ryu senders d so = Finished so1" "so_scripts so' = so_scripts so1"
    by (cases "send_one nw ryu senders d so") auto
  moreover from this(1) Cons.prems(2) have "so_scripts so1 = so_scripts so"
    by (cases "delivery_text ryu d")
      (auto simp: send_one_def scripted_def split: delivery_target.splits option.splits prod.splits bool.splits if_splits)
  ultimately show ?case by simp
qed simp

end
