(* ===== verification/RateLimit.thy ===== *)
theory RateLimit
  imports Prelude "HOL-Library.Word"
begin

text \<open>
  \<open>src/log_util.rs\<close>: repeated log lines are let through once per window. A message is known by its
  64-bit FNV-1a hash; an \<open>Instant\<close> is a number of nanoseconds, and \<open>duration_since\<close> saturates at
  zero.
\<close>

unbundle bit_operations_syntax

definition default_window_secs :: nat where "default_window_secs = 10"

record rl_entry =
  re_last_emit :: nat
  re_suppressed_count :: "32 word"

record rate_limiter =
  rl_window_secs :: nat
  rl_entries :: "64 word \<Rightarrow> rl_entry option"

definition hash_byte :: "64 word \<Rightarrow> char \<Rightarrow> 64 word" where
  "hash_byte h b = (h XOR of_nat (of_char b)) * 0x100000001b3"

definition hash_msg :: "string \<Rightarrow> 64 word" where
  "hash_msg msg = foldl hash_byte 0xcbf29ce484222325 msg"

definition rl_with_window :: "nat \<Rightarrow> rate_limiter" where
  "rl_with_window w = \<lparr>rl_window_secs = w, rl_entries = (\<lambda>_. None)\<rparr>"

definition rl_new :: rate_limiter where
  "rl_new = rl_with_window default_window_secs"

definition secs_since :: "nat \<Rightarrow> nat \<Rightarrow> nat" where
  "secs_since now earlier = (now - earlier) div 10 ^ 9"

definition should_emit :: "string \<Rightarrow> nat \<Rightarrow> rate_limiter \<Rightarrow> bool \<times> rate_limiter" where
  "should_emit msg now rl =
     (let key = hash_msg msg
      in case rl_entries rl key of
           Some e \<Rightarrow>
             (if rl_window_secs rl \<le> secs_since now (re_last_emit e)
              then (True, rl\<lparr>rl_entries := (rl_entries rl)(key \<mapsto> \<lparr>re_last_emit = now, re_suppressed_count = 0\<rparr>)\<rparr>)
              else (False, rl\<lparr>rl_entries := (rl_entries rl)(key \<mapsto> e\<lparr>re_suppressed_count := re_suppressed_count e + 1\<rparr>)\<rparr>))
         | None \<Rightarrow>
             (True, rl\<lparr>rl_entries := (rl_entries rl)(key \<mapsto> \<lparr>re_last_emit = now, re_suppressed_count = 0\<rparr>)\<rparr>))"

section \<open>One line per window\<close>

text \<open>The times at which a message is let through among a sequence of calls.\<close>

fun emitted :: "string \<Rightarrow> (string \<times> nat) list \<Rightarrow> rate_limiter \<Rightarrow> nat list" where
  "emitted msg [] rl = []"
| "emitted msg ((m, now) # calls) rl =
     (case should_emit m now rl of (b, rl') \<Rightarrow>
        (if b \<and> m = msg then now # emitted msg calls rl' else emitted msg calls rl'))"

definition last_emit :: "string \<Rightarrow> rate_limiter \<Rightarrow> nat option" where
  "last_emit msg rl = map_option re_last_emit (rl_entries rl (hash_msg msg))"

lemma should_emit_window: "should_emit m now rl = (b, rl') \<Longrightarrow> rl_window_secs rl' = rl_window_secs rl"
  by (auto simp: should_emit_def Let_def split: option.splits if_splits)

lemma emitted_first:
  assumes "emitted msg calls rl = t # ts" "last_emit msg rl = Some s"
  shows "rl_window_secs rl \<le> secs_since t s \<or> (\<exists>m u. (m, u) \<in> set calls \<and> m \<noteq> msg \<and> hash_msg m = hash_msg msg)"
  using assms
proof (induction calls arbitrary: rl)
  case (Cons c calls)
  obtain m now where c: "c = (m, now)" by fastforce
  obtain b rl' where r: "should_emit m now rl = (b, rl')" by fastforce
  show ?case
  proof (cases "hash_msg m = hash_msg msg \<and> m \<noteq> msg")
    case True
    then show ?thesis by (auto simp: c)
  next
    case no: False
    show ?thesis
    proof (cases "b \<and> m = msg")
      case True
      then show ?thesis using r Cons.prems c
        by (auto simp: should_emit_def last_emit_def Let_def split: option.splits if_splits)
    next
      case False
      have "last_emit msg rl' = Some s"
        using False no r Cons.prems(2)
        by (auto simp: should_emit_def last_emit_def Let_def split: option.splits if_splits)
      moreover have "emitted msg calls rl' = t # ts" using Cons.prems(1) False r by (auto simp: c)
      ultimately show ?thesis using Cons.IH [of rl'] should_emit_window [OF r] by auto
    qed
  qed
qed simp

lemma emitted_spaced:
  assumes "\<And>m u. (m, u) \<in> set calls \<Longrightarrow> hash_msg m = hash_msg msg \<Longrightarrow> m = msg"
  shows "successively (\<lambda>s t. rl_window_secs rl \<le> secs_since t s) (emitted msg calls rl)"
  using assms
proof (induction calls arbitrary: rl)
  case (Cons c calls)
  obtain m now where c: "c = (m, now)" by fastforce
  obtain b rl' where r: "should_emit m now rl = (b, rl')" by fastforce
  have ih: "successively (\<lambda>s t. rl_window_secs rl \<le> secs_since t s) (emitted msg calls rl')"
    using Cons.IH [of rl'] Cons.prems should_emit_window [OF r] by auto
  have "successively (\<lambda>s t. rl_window_secs rl \<le> secs_since t s) (now # emitted msg calls rl')" if "b" "m = msg"
  proof (cases "emitted msg calls rl'")
    case (Cons t ts)
    have "last_emit msg rl' = Some now"
      using r that by (auto simp: should_emit_def last_emit_def Let_def split: option.splits if_splits)
    from emitted_first [OF Cons this] have "rl_window_secs rl \<le> secs_since t now"
      using Cons.prems should_emit_window [OF r] assms by (auto simp: c dest: Cons.prems)
    then show ?thesis using ih Cons by simp
  qed simp
  with ih r show ?case by (auto simp: c)
qed simp

end
