(* ===== verification/FloatBits.thy ===== *)
theory FloatBits
  imports Float64 Wire
begin

text \<open>
  The bits of an \<open>f64\<close> and their eight bytes in little-endian order (\<open>f64::to_le_bytes\<close>,
  \<open>f64::from_le_bytes\<close> of the standard library). Every NaN is read as the one NaN of the model,
  which is written with the bits of \<open>f64::NAN\<close>. A value that is a double survives the way to bytes
  and back.
\<close>

section \<open>Little-endian numbers\<close>

primrec le_bytes :: "nat \<Rightarrow> nat \<Rightarrow> string" where
  "le_bytes 0 n = []"
| "le_bytes (Suc k) n = char_of n # le_bytes k (n div 256)"

primrec of_le_bytes :: "string \<Rightarrow> nat" where
  "of_le_bytes [] = 0"
| "of_le_bytes (c # cs) = byte_of c + 256 * of_le_bytes cs"

lemma length_le_bytes [simp]: "length (le_bytes k n) = k"
  by (induction k arbitrary: n) auto

lemma of_le_bytes_le [simp]: "n < 256 ^ k \<Longrightarrow> of_le_bytes (le_bytes k n) = n"
  by (induction k arbitrary: n) (auto simp: less_mult_imp_div_less mult.commute)

section \<open>Bits\<close>

definition sign_bit :: nat where "sign_bit = 2 ^ 63"

definition exponent_inf :: nat where "exponent_inf = 2047 * 2 ^ 52"

definition magnitude_bits :: "rat \<Rightarrow> nat" where
  "magnitude_bits q = nat (ulp_exp q + 1074) * 2 ^ 52 + nat \<lfloor>\<bar>q\<bar> / 2 powi ulp_exp q\<rfloor>"

fun f64_bits :: "f64 \<Rightarrow> nat" where
  "f64_bits NaN = exponent_inf + 2 ^ 51"
| "f64_bits PosInf = exponent_inf"
| "f64_bits NegInf = sign_bit + exponent_inf"
| "f64_bits NegZero = sign_bit"
| "f64_bits (Fin q) = (if q = 0 then 0 else (if q < 0 then sign_bit else 0) + magnitude_bits q)"

definition f64_of_bits :: "nat \<Rightarrow> f64" where
  "f64_of_bits n =
     (let neg = odd (n div 2 ^ 63); e = n div 2 ^ 52 mod 2048; f = n mod 2 ^ 52
      in if e = 2047 then (if f \<noteq> 0 then NaN else if neg then NegInf else PosInf)
         else let m = (if e = 0 then f else f + 2 ^ 52);
                  q = of_nat m * 2 powi (int (max e 1) - 1075)
              in if q = 0 then (if neg then NegZero else Fin 0) else Fin (if neg then - q else q))"

definition f64_to_le :: "f64 \<Rightarrow> string" where
  "f64_to_le x = le_bytes 8 (f64_bits x)"

definition f64_of_le :: "string \<Rightarrow> f64" where
  "f64_of_le b = f64_of_bits (of_le_bytes b)"

text \<open>The rational values a double can have.\<close>

definition is_double :: "f64 \<Rightarrow> bool" where
  "is_double x = (case x of Fin q \<Rightarrow> round64 q = Fin q | _ \<Rightarrow> True)"

lemma double_magnitude:
  assumes "round64 q = Fin q" "q \<noteq> 0"
  obtains m e :: nat where "\<bar>q\<bar> = of_nat m * 2 powi (int e - 1074)" "m < 2 ^ 53" "e \<le> 2045"
    "e = 0 \<or> 2 ^ 52 \<le> m" "magnitude_bits q = e * 2 ^ 52 + m" "0 < m"
proof -
  let ?u = "(2::rat) powi ulp_exp q"
  define n where "n = round_half_even (q / ?u)"
  have r: "rounded q = q" "\<bar>q\<bar> < 2 ^ 1024"
    using assms by (auto simp: round64_rounded split: if_splits)
  then have q: "q = of_int n * ?u" by (simp add: rounded_def n_def)
  have u: "0 < ?u" by simp
  then have a: "\<bar>q\<bar> = of_int \<bar>n\<bar> * ?u" using q by (metis abs_mult abs_of_pos of_int_abs)
  have p: "0 < \<bar>q\<bar>" using assms(2) by simp
  note l = ilog2_bounds [OF p]
  have e: "ulp_exp q = ilog2 \<bar>q\<bar> - 52 \<or> ulp_exp q = - 1074 \<and> ilog2 \<bar>q\<bar> - 52 < - 1074" "- 1074 \<le> ulp_exp q"
    by (auto simp: ulp_exp_def max_def)
  have "\<bar>q\<bar> < 2 powi 1024" using r(2) by simp
  with p have "ilog2 \<bar>q\<bar> < 1024" by (rule ilog2_less)
  with e have top: "ulp_exp q \<le> 971" by auto
  have "of_int \<bar>n\<bar> * ?u < 2 powi 53 * ?u"
  proof -
    have "of_int \<bar>n\<bar> * ?u < 2 powi (ilog2 \<bar>q\<bar> + 1)" using l(2) a by simp
    also have "\<dots> \<le> 2 powi (53 + ulp_exp q)" using e by (intro powi_mono) (auto simp: ulp_exp_def)
    also have "\<dots> = 2 powi 53 * ?u" by (simp add: power_int_add)
    finally show ?thesis .
  qed
  then have "of_int \<bar>n\<bar> < (2::rat) ^ 53" using u by (simp only: mult_less_cancel_right) simp
  then have "(of_int \<bar>n\<bar> :: rat) < of_int (2 ^ 53)" by simp
  then have n53: "\<bar>n\<bar> < 2 ^ 53" by (simp only: of_int_less_iff)
  have n52: "2 ^ 52 \<le> \<bar>n\<bar>" if "ulp_exp q \<noteq> - 1074"
  proof -
    have "52 + ulp_exp q = ilog2 \<bar>q\<bar>" using that e(1) by auto
    with l(1) have "2 powi (52 + ulp_exp q) \<le> of_int \<bar>n\<bar> * ?u" unfolding a [symmetric] by simp
    then have "2 powi 52 * ?u \<le> of_int \<bar>n\<bar> * ?u" by (simp add: power_int_add)
    then have "(2::rat) ^ 52 \<le> of_int \<bar>n\<bar>" using u by (simp only: mult_le_cancel_right) simp
    then have "(of_int (2 ^ 52) :: rat) \<le> of_int \<bar>n\<bar>" by simp
    then show ?thesis by (simp only: of_int_le_iff)
  qed
  have "n \<noteq> 0" using q assms(2) by auto
  show ?thesis
  proof (rule that [of "nat \<bar>n\<bar>" "nat (ulp_exp q + 1074)"])
    show "\<bar>q\<bar> = of_nat (nat \<bar>n\<bar>) * 2 powi (int (nat (ulp_exp q + 1074)) - 1074)"
      using a e(2) by simp
    show "nat \<bar>n\<bar> < 2 ^ 53" using n53 by (simp add: nat_less_iff)
    show "nat (ulp_exp q + 1074) \<le> 2045" using top by simp
    show "nat (ulp_exp q + 1074) = 0 \<or> 2 ^ 52 \<le> nat \<bar>n\<bar>"
      using n52 e(2) by (cases "ulp_exp q = - 1074") (simp_all add: le_nat_iff)
    have "\<bar>q\<bar> / ?u = of_int \<bar>n\<bar>" using a by simp
    then show "magnitude_bits q = nat (ulp_exp q + 1074) * 2 ^ 52 + nat \<bar>n\<bar>"
      by (simp only: magnitude_bits_def floor_of_int)
    show "0 < nat \<bar>n\<bar>" using \<open>n \<noteq> 0\<close> by simp
  qed
qed

section \<open>Back from the bits\<close>

lemma bits_split: "m < b \<Longrightarrow> (e * b + m) div b = e \<and> (e * b + m) mod b = m" for m e b :: nat
  by simp

lemma f64_of_bits_number:
  assumes "e \<le> 2045" "m < 2 ^ 53" "e = 0 \<or> 2 ^ 52 \<le> m" "0 < m"
  shows "f64_of_bits ((if neg then sign_bit else 0) + (e * 2 ^ 52 + m)) =
    (let q = of_nat m * 2 powi (int e - 1074) in Fin (if neg then - q else q))"
proof -
  define big where "big \<longleftrightarrow> 2 ^ 52 \<le> m"
  define E where "E = (if big then e + 1 else 0)"
  define F where "F = (if big then m - 2 ^ 52 else m)"
  have F: "F < 2 ^ 52" using assms(2) by (auto simp: F_def big_def)
  have E: "E \<le> 2046" using assms(1) by (simp add: E_def)
  have sum: "e * 2 ^ 52 + m = E * 2 ^ 52 + F" using assms(3) by (auto simp: E_def F_def big_def)
  define n where "n = (if neg then sign_bit else 0) + (E * 2 ^ 52 + F)"
  have s: "n = ((if neg then 2048 else 0) + E) * 2 ^ 52 + F" by (simp add: n_def sign_bit_def)
  have d: "n div 2 ^ 52 = (if neg then 2048 else 0) + E" "n mod 2 ^ 52 = F" unfolding s using bits_split [OF F] by blast+
  have "n div 2 ^ 63 = n div 2 ^ 52 div 2 ^ 11" by (simp add: div_mult2_eq flip: power_add)
  then have neg: "odd (n div 2 ^ 63) = neg" unfolding d(1) using E by simp
  have e': "n div 2 ^ 52 mod 2048 = E" unfolding d(1) using E by simp
  have m: "(if E = 0 then F else F + 2 ^ 52) = m" "int (max E 1) - 1075 = int e - 1074"
    using assms(3) by (auto simp: E_def F_def big_def)
  have "E \<noteq> 2047" using E by simp
  then have "f64_of_bits n = (let q = of_nat m * 2 powi (int e - 1074) in Fin (if neg then - q else q))"
    using assms(4) unfolding f64_of_bits_def neg e' d(2) m Let_def by simp
  then show ?thesis unfolding n_def sum .
qed

lemma f64_of_bits_bits: "is_double x \<Longrightarrow> f64_of_bits (f64_bits x) = x"
proof (cases x)
  case (Fin q)
  assume "is_double x"
  then have r: "round64 q = Fin q" by (simp add: is_double_def Fin)
  show ?thesis
  proof (cases "q = 0")
    case False
    obtain m e where m: "\<bar>q\<bar> = of_nat m * 2 powi (int e - 1074)" "m < 2 ^ 53" "e \<le> 2045"
        "e = 0 \<or> 2 ^ 52 \<le> m" "magnitude_bits q = e * 2 ^ 52 + m" "0 < m"
      by (rule double_magnitude [OF r False])
    show ?thesis
      using False f64_of_bits_number [OF m(3,2,4,6), of "q < 0"]
      by (simp add: Fin m(5) Let_def flip: m(1))
  qed (simp add: Fin f64_of_bits_def)
qed (simp_all add: f64_of_bits_def exponent_inf_def sign_bit_def Let_def)

lemma f64_bits_less: "is_double x \<Longrightarrow> f64_bits x < 256 ^ 8"
proof (cases x)
  case (Fin q)
  assume "is_double x"
  then have r: "round64 q = Fin q" by (simp add: is_double_def Fin)
  show ?thesis
  proof (cases "q = 0")
    case False
    obtain m e where m: "m < 2 ^ 53" "e \<le> 2045" "magnitude_bits q = e * 2 ^ 52 + m"
      by (rule double_magnitude [OF r False])
    then show ?thesis by (simp add: Fin sign_bit_def)
  qed (simp add: Fin)
qed (simp_all add: exponent_inf_def sign_bit_def)

lemma length_f64_to_le [simp]: "length (f64_to_le x) = 8"
  by (simp add: f64_to_le_def)

lemma f64_of_le_to_le [simp]: "is_double x \<Longrightarrow> f64_of_le (f64_to_le x) = x"
  unfolding f64_of_le_def f64_to_le_def by (simp only: of_le_bytes_le f64_bits_less f64_of_bits_bits)

end
