(* ===== verification/Persist.thy ===== *)
theory Persist
  imports FloatBits Engine EngineTree
begin

text \<open>
  Saving the values that clients wrote across a restart: the walk over the tree and the binary format
  of \<open>src/device.rs\<close>, the blob in flash of \<open>src/nvs.rs\<close>, and the part of \<open>src/main.rs\<close> that
  writes the loaded items back. The error texts of the reader, which are only logged, are the
  constructors of \<open>load_error\<close>.
\<close>

section \<open>The saved items\<close>

record saved_item =
  si_path :: string
  si_v :: omi_value
  si_t :: "f64 option"

definition collect_item :: "string \<Rightarrow> string \<times> info_item \<Rightarrow> saved_item list option" where
  "collect_item base = (\<lambda>(name, item).
     if is_writable item
     then do {
       vals \<leftarrow> query_values item (Some 1) None None None;
       Some (case vals of
               newest # _ \<Rightarrow> [\<lparr>si_path = base @ ''/'' @ name, si_v = val_v newest, si_t = val_t newest\<rparr>]
             | [] \<Rightarrow> [])
     }
     else Some [])"

fun collect_from_object :: "object \<Rightarrow> string \<Rightarrow> saved_item list option" where
  "collect_from_object (Object oid ty de its obs) base = do {
     own \<leftarrow> those (map (collect_item base) (case its of None \<Rightarrow> [] | Some m \<Rightarrow> m));
     below \<leftarrow> those (case obs of None \<Rightarrow> []
               | Some m \<Rightarrow> map (\<lambda>e. collect_from_object (snd e) (base @ ''/'' @ fst e)) m);
     Some (concat own @ concat below)
   }"

definition collect_writable_items :: "object_tree \<Rightarrow> saved_item list option" where
  "collect_writable_items tree = do {
     found \<leftarrow> those (map (\<lambda>e. collect_from_object (snd e) (''/'' @ fst e)) (tr_objects tree));
     Some (concat found)
   }"

section \<open>The binary format\<close>

definition max_nvs_blob :: nat where "max_nvs_blob = 4000"
definition saved_items_version :: nat where "saved_items_version = 1"

datatype nvs_save_error = TooLarge nat | SerializeFailed
datatype load_error = UnexpectedEnd | UnsupportedVersion nat | NotUtf8 | UnknownTag nat

definition put_u16 :: "nat \<Rightarrow> nvs_save_error + string" where
  "put_u16 n = (if n < 2 ^ 16 then Inr (u16_le n) else Inl SerializeFailed)"

definition put_text :: "string \<Rightarrow> nvs_save_error + string" where
  "put_text s = rbind (put_u16 (length s)) (\<lambda>b. Inr (b @ s))"

definition put_value :: "omi_value \<Rightarrow> nvs_save_error + string" where
  "put_value v =
     (case v of
        Null \<Rightarrow> Inr [char_of (0 :: nat)]
      | Bool b \<Rightarrow> Inr [char_of (if b then 2 else 1 :: nat)]
      | Number n \<Rightarrow> Inr (char_of (3 :: nat) # f64_to_le n)
      | Str s \<Rightarrow> rbind (put_text s) (\<lambda>b. Inr (char_of (4 :: nat) # b)))"

definition put_time :: "f64 option \<Rightarrow> string" where
  "put_time t = (case t of Some x \<Rightarrow> char_of (1 :: nat) # f64_to_le x | None \<Rightarrow> [char_of (0 :: nat)])"

definition put_saved :: "saved_item \<Rightarrow> nvs_save_error + string" where
  "put_saved item =
     rbind (put_text (si_path item)) (\<lambda>p.
     rbind (put_value (si_v item)) (\<lambda>v. Inr (p @ v @ put_time (si_t item))))"

definition serialize_saved_items :: "saved_item list \<Rightarrow> nvs_save_error + string" where
  "serialize_saved_items items =
     rbind (put_u16 (length items)) (\<lambda>count.
     rbind (enc_list put_saved items) (\<lambda>body.
       let buf = char_of saved_items_version # count @ body
       in if max_nvs_blob < length buf then Inl (TooLarge (length buf)) else Inr buf))"

definition get_u16 :: "(load_error, nat) reader" where
  "get_u16 s = rbind (take_bytes UnexpectedEnd 2 s) (\<lambda>(b, s). Inr (u16_of_le b, s))"

definition get_f64 :: "(load_error, f64) reader" where
  "get_f64 s = rbind (take_bytes UnexpectedEnd 8 s) (\<lambda>(b, s). Inr (f64_of_le b, s))"

definition get_text :: "(load_error, string) reader" where
  "get_text s =
     rbind (get_u16 s) (\<lambda>(n, s).
     rbind (take_bytes UnexpectedEnd n s) (\<lambda>(b, s).
     rbind (ok_or NotUtf8 (from_utf8 b)) (\<lambda>str. Inr (str, s))))"

definition get_value :: "(load_error, omi_value) reader" where
  "get_value s =
     rbind (take_u8 UnexpectedEnd s) (\<lambda>(tag, s).
       if tag = 0 then Inr (Null, s)
       else if tag = 1 then Inr (Bool False, s)
       else if tag = 2 then Inr (Bool True, s)
       else if tag = 3 then rbind (get_f64 s) (\<lambda>(n, s). Inr (Number n, s))
       else if tag = 4 then rbind (get_text s) (\<lambda>(str, s). Inr (Str str, s))
       else Inl (UnknownTag tag))"

definition get_time :: "(load_error, f64 option) reader" where
  "get_time s =
     rbind (take_u8 UnexpectedEnd s) (\<lambda>(has_t, s).
       if has_t = 1 then rbind (get_f64 s) (\<lambda>(t, s). Inr (Some t, s)) else Inr (None, s))"

definition get_saved :: "(load_error, saved_item) reader" where
  "get_saved s =
     rbind (get_text s) (\<lambda>(path, s).
     rbind (get_value s) (\<lambda>(v, s).
     rbind (get_time s) (\<lambda>(t, s). Inr (\<lparr>si_path = path, si_v = v, si_t = t\<rparr>, s))))"

definition deserialize_saved_items :: "string \<Rightarrow> load_error + saved_item list" where
  "deserialize_saved_items data =
     rbind (take_u8 UnexpectedEnd data) (\<lambda>(version, s).
       if version \<noteq> saved_items_version then Inl (UnsupportedVersion version)
       else rbind (get_u16 s) (\<lambda>(count, s).
         rbind (dec_list count get_saved s) (\<lambda>(items, _). Inr items)))"

section \<open>The blob in flash\<close>

text \<open>What the flash answers when asked for the length of the blob and for the blob; a write gives
  the new content or fails.\<close>

definition load_writable_items :: "(string + nat option) \<Rightarrow> (string + string option) \<Rightarrow> saved_item list" where
  "load_writable_items len blob =
     (case len of
        Inr (Some _) \<Rightarrow>
          (case blob of
             Inr (Some data) \<Rightarrow> (case deserialize_saved_items data of Inr items \<Rightarrow> items | Inl _ \<Rightarrow> [])
           | _ \<Rightarrow> [])
      | _ \<Rightarrow> [])"

definition save_writable_items :: "bool \<Rightarrow> saved_item list \<Rightarrow> string option \<Rightarrow> string option" where
  "save_writable_items flash_ok items flash =
     (case serialize_saved_items items of
        Inr data \<Rightarrow> (if flash_ok then Some data else flash)
      | Inl _ \<Rightarrow> flash)"

text \<open>What the main loop does when the tree is marked, and what it does at the start.\<close>

definition save_if_dirty :: "bool \<Rightarrow> bool \<Rightarrow> object_tree \<Rightarrow> string option \<Rightarrow> (bool \<times> string option) option" where
  "save_if_dirty flash_ok dirty tree flash =
     (if dirty then do {
        items \<leftarrow> collect_writable_items tree;
        Some (False, save_writable_items flash_ok items flash)
      } else Some (False, flash))"

definition restore_item :: "saved_item \<Rightarrow> 'm engine \<Rightarrow> 'm engine option" where
  "restore_item saved en = do {
     (tree, r) \<leftarrow> write_value (si_path saved) (si_v saved) (si_t saved) (en_tree en);
     let en = en\<lparr>en_tree := tree\<rparr>;
     Some (case r of Inl _ \<Rightarrow> en | Inr _ \<Rightarrow> mark_writable (si_path saved) en)
   }"

definition restore_items :: "saved_item list \<Rightarrow> 'm engine \<Rightarrow> 'm engine option" where
  "restore_items items en = fold_opt restore_item items en"

end
