(* ===== verification/PersistSpec.thy ===== *)
theory PersistSpec
  imports Persist
begin

text \<open>
  What a client wrote survives a restart: the format reads back what was written, the walk finds
  exactly the newest values of the writable items, and restoring them puts every one in its place.
\<close>

section \<open>The format\<close>

definition storable_value :: "omi_value \<Rightarrow> bool" where
  "storable_value v = (case v of Number n \<Rightarrow> is_double n | Str s \<Rightarrow> utf8_valid s | _ \<Rightarrow> True)"

definition storable :: "saved_item \<Rightarrow> bool" where
  "storable item \<longleftrightarrow> utf8_valid (si_path item) \<and> storable_value (si_v item) \<and>
     (case si_t item of None \<Rightarrow> True | Some t \<Rightarrow> is_double t)"

lemma get_u16_le: "n < 2 ^ 16 \<Longrightarrow> get_u16 (u16_le n @ s) = Inr (n, s)"
  by (simp add: get_u16_def)

lemma get_f64_le: "is_double x \<Longrightarrow> get_f64 (f64_to_le x @ s) = Inr (x, s)"
  by (simp add: get_f64_def)

lemma get_text_put: "put_text t = Inr b \<Longrightarrow> utf8_valid t \<Longrightarrow> get_text (b @ s) = Inr (t, s)"
  by (auto simp: put_text_def put_u16_def get_text_def get_u16_le from_utf8_def rbind_eq_Inr split: if_splits)

lemma get_value_put:
  assumes "put_value v = Inr b" "storable_value v"
  shows "get_value (b @ s) = Inr (v, s)"
proof (cases v)
  case (Str t)
  with assms obtain c where "put_text t = Inr c" "b = char_of (4 :: nat) # c" "utf8_valid t"
    by (auto simp: put_value_def storable_value_def rbind_eq_Inr)
  with Str show ?thesis by (simp add: get_value_def get_text_put)
next
  case (Bool x)
  with assms(1) show ?thesis by (auto simp: put_value_def get_value_def split: if_splits)
qed (use assms in \<open>auto simp: put_value_def storable_value_def get_value_def get_f64_le\<close>)

lemma get_time_put:
  "(case t of None \<Rightarrow> True | Some x \<Rightarrow> is_double x) \<Longrightarrow> get_time (put_time t @ s) = Inr (t, s)"
  by (cases t) (auto simp: put_time_def get_time_def get_f64_le)

interpretation saved_codec: codec put_saved get_saved storable
proof unfold_locales
  fix x :: saved_item and b rest
  assume v: "storable x" and e: "put_saved x = Inr b"
  from e obtain p w where pw: "put_text (si_path x) = Inr p" "put_value (si_v x) = Inr w"
      "b = p @ w @ put_time (si_t x)"
    by (auto simp: put_saved_def rbind_eq_Inr)
  show "get_saved (b @ rest) = Inr (x, rest)"
    using v unfolding pw(3)
    by (simp add: get_saved_def get_text_put [OF pw(1)] get_value_put [OF pw(2)] get_time_put storable_def)
qed

lemma saved_items_deserialize:
  assumes "serialize_saved_items items = Inr blob" "list_all storable items"
  shows "deserialize_saved_items blob = Inr items"
proof -
  from assms(1) obtain body where b: "enc_list put_saved items = Inr body" "length items < 2 ^ 16"
      "blob = char_of saved_items_version # u16_le (length items) @ body"
    by (auto simp: serialize_saved_items_def put_u16_def rbind_eq_Inr Let_def split: if_splits)
  have "dec_list (length items) get_saved (body @ []) = Inr (items, [])"
    by (rule saved_codec.list_enc_dec [OF assms(2) b(1)])
  then show ?thesis
    by (simp add: b(3) deserialize_saved_items_def saved_items_version_def get_u16_le [OF b(2)])
qed

section \<open>The walk\<close>

text \<open>The newest value of a writable item.\<close>

definition kept_value :: "info_item \<Rightarrow> odf_value option" where
  "kept_value item = (if is_writable item \<and> item_history item \<noteq> [] then Some (last (item_history item)) else None)"

definition saved_at :: "string \<Rightarrow> odf_value \<Rightarrow> saved_item" where
  "saved_at path x = \<lparr>si_path = path, si_v = val_v x, si_t = val_t x\<rparr>"

definition slashed :: "string list \<Rightarrow> string" where
  "slashed segs = concat (map (\<lambda>s. CHR ''/'' # s) segs)"

lemma slashed_simps [simp]: "slashed [] = []" "slashed (s # segs) = CHR ''/'' # s @ slashed segs"
  by (simp_all add: slashed_def)

lemma path_of_slashed: "segs \<noteq> [] \<Longrightarrow> path_of segs = slashed segs"
proof (induction segs)
  case (Cons s segs)
  then show ?case by (cases segs) (auto simp: path_of_def)
qed simp

lemma collect_item_spec:
  assumes "item_ok item"
  shows "collect_item base (name, item) =
    Some (case kept_value item of None \<Rightarrow> [] | Some x \<Rightarrow> [saved_at (base @ CHR ''/'' # name) x])"
  using assms
  by (auto simp: collect_item_def query_values_def rb_query_newest_1 [simplified] item_ok_def kept_value_def item_history_def saved_at_def)

text \<open>What a walk from a place in the tree finds.\<close>

definition found :: "string \<Rightarrow> (string list \<Rightarrow> info_item option) \<Rightarrow> saved_item set" where
  "found base items = {saved_at (base @ slashed segs) x | segs item x. items segs = Some item \<and> kept_value item = Some x}"

lemma those_map_Some: "(\<And>x. x \<in> set xs \<Longrightarrow> f x = Some (g x)) \<Longrightarrow> those (map f xs) = Some (map g xs)"
  by (induction xs) auto

lemma foundI: "items segs = Some item \<Longrightarrow> kept_value item = Some x \<Longrightarrow> saved_at (base @ slashed segs) x \<in> found base items"
  by (auto simp: found_def)

lemma collect_children_spec:
  assumes "bt_ok m"
    and "\<And>e base. e \<in> set m \<Longrightarrow>
      \<exists>items. collect_from_object (snd e) base = Some items \<and> set items = found base (item_in (snd e))"
  shows "\<exists>l. those (map (\<lambda>e. collect_from_object (snd e) (base @ CHR ''/'' # fst e)) m) = Some l \<and>
    set (concat l) = found base (item_at m)"
proof -
  have "\<forall>e \<in> set m. \<exists>items. collect_from_object (snd e) (base @ CHR ''/'' # fst e) = Some items \<and>
      set items = found (base @ CHR ''/'' # fst e) (item_in (snd e))"
    using assms(2) by blast
  then obtain g where g: "\<And>e. e \<in> set m \<Longrightarrow> collect_from_object (snd e) (base @ CHR ''/'' # fst e) = Some (g e)"
      "\<And>e. e \<in> set m \<Longrightarrow> set (g e) = found (base @ CHR ''/'' # fst e) (item_in (snd e))"
    by metis
  have "set (concat (map g m)) = found base (item_at m)"
  proof (intro equalityI subsetI)
    fix s assume "s \<in> set (concat (map g m))"
    then obtain e segs item x where x: "e \<in> set m" "item_in (snd e) segs = Some item" "kept_value item = Some x"
        "s = saved_at (base @ slashed (fst e # segs)) x"
      using g(2) by (fastforce simp: found_def)
    have "map_of m (fst e) = Some (snd e)" using assms(1) x(1) by (intro bt_ok_map_of) simp_all
    with x(2) have "item_at m (fst e # segs) = Some item" by simp
    from foundI [where base = base and items = "item_at m" and segs = "fst e # segs", OF this x(3)]
    show "s \<in> found base (item_at m)" by (simp only: x(4))
  next
    fix s assume "s \<in> found base (item_at m)"
    then obtain segs item x where x: "item_at m segs = Some item" "kept_value item = Some x"
        "s = saved_at (base @ slashed segs) x"
      by (auto simp: found_def)
    then obtain n rest c where "segs = n # rest" "(n, c) \<in> set m" "item_in c rest = Some item"
      by (cases segs) (auto split: bind_splits dest: map_of_SomeD)
    with g(2) [of "(n, c)"] x(2,3) show "s \<in> set (concat (map g m))"
      using foundI [where items = "item_in c" and base = "base @ CHR ''/'' # n"] by fastforce
  qed
  moreover have "those (map (\<lambda>e. collect_from_object (snd e) (base @ CHR ''/'' # fst e)) m) = Some (map g m)"
    by (rule those_map_Some) (rule g(1))
  ultimately show ?thesis by blast
qed

lemma collect_from_object_spec:
  "obj_ok obj \<Longrightarrow> \<exists>items. collect_from_object obj base = Some items \<and> set items = found base (item_in obj)"
proof (induction obj arbitrary: base)
  case (Object oid ty de its obs)
  define im where "im = (case its of None \<Rightarrow> [] | Some m \<Rightarrow> m)"
  define om where "om = (case obs of None \<Rightarrow> [] | Some m \<Rightarrow> m)"
  have ok: "bt_ok im" "\<And>e. e \<in> set im \<Longrightarrow> item_ok (snd e)" "bt_ok om" "\<And>e. e \<in> set om \<Longrightarrow> obj_ok (snd e)"
    using Object.prems by (auto simp: im_def om_def items_ok_def split: option.splits)
  let ?own = "\<lambda>e. case kept_value (snd e) of None \<Rightarrow> [] | Some x \<Rightarrow> [saved_at (base @ CHR ''/'' # fst e) x]"
  have own: "those (map (collect_item base) im) = Some (map ?own im)"
  proof (rule those_map_Some)
    fix e assume "e \<in> set im"
    from collect_item_spec [OF ok(2) [OF this], of base "fst e"] show "collect_item base e = Some (?own e)" by simp
  qed
  have ih: "\<exists>items. collect_from_object (snd e) base = Some items \<and> set items = found base (item_in (snd e))"
    if "e \<in> set om" for e base
  proof -
    from that obtain m where "obs = Some m" "e \<in> set m" by (auto simp: om_def split: option.splits)
    then show ?thesis using ok(4) [OF that] by (intro Object.IH) (auto simp: snds.simps)
  qed
  obtain l where l: "those (map (\<lambda>e. collect_from_object (snd e) (base @ CHR ''/'' # fst e)) om) = Some l"
      "set (concat l) = found base (item_at om)"
    using collect_children_spec [OF ok(3) ih] by blast
  have c: "collect_from_object (Object oid ty de its obs) base = Some (concat (map ?own im) @ concat l)"
    using own l(1) by (cases its; cases obs) (simp_all add: im_def om_def)
  have look: "get_item (Object oid ty de its obs) n = map_of im n" "get_child (Object oid ty de its obs) n = map_of om n" for n
    by (cases its; cases obs; simp add: im_def om_def get_item_def get_child_def)+
  have item: "item_in (Object oid ty de its obs) segs =
      (case segs of [n] \<Rightarrow> map_of im n | _ \<Rightarrow> item_at om segs)" for segs
  proof (cases segs)
    case (Cons n rest)
    then show ?thesis by (cases rest) (auto simp: look item_in_child split: bind_splits)
  qed simp
  have "set (concat (map ?own im)) = {saved_at (base @ slashed [n]) x | n item x. map_of im n = Some item \<and> kept_value item = Some x}"
    using ok(1) by (force simp: bt_ok_map_of dest: map_of_SomeD split: option.splits)
  moreover have "found base (item_in (Object oid ty de its obs)) =
      {saved_at (base @ slashed [n]) x | n item x. map_of im n = Some item \<and> kept_value item = Some x} \<union>
      found base (item_at om)"
  proof (intro equalityI subsetI)
    fix s assume "s \<in> found base (item_in (Object oid ty de its obs))"
    then obtain segs i x where x: "item_in (Object oid ty de its obs) segs = Some i" "kept_value i = Some x"
        "s = saved_at (base @ slashed segs) x"
      by (auto simp: found_def)
    show "s \<in> {saved_at (base @ slashed [n]) x | n item x. map_of im n = Some item \<and> kept_value item = Some x} \<union>
        found base (item_at om)"
    proof (cases "\<exists>n. segs = [n]")
      case True
      then obtain n where n: "segs = [n]" by blast
      with x(1) have "map_of im n = Some i" unfolding item by simp
      with x(2,3) n show ?thesis by blast
    next
      case False
      then have "item_at om segs = Some i" using x(1) unfolding item by (auto split: list.splits)
      with x(2,3) show ?thesis by (intro UnI2) (auto simp: found_def)
    qed
  next
    fix s assume "s \<in> {saved_at (base @ slashed [n]) x | n item x. map_of im n = Some item \<and> kept_value item = Some x} \<union>
        found base (item_at om)"
    then consider n i x where "map_of im n = Some i" "kept_value i = Some x" "s = saved_at (base @ slashed [n]) x"
      | segs i x where "item_at om segs = Some i" "kept_value i = Some x" "s = saved_at (base @ slashed segs) x"
      unfolding found_def by blast
    then show "s \<in> found base (item_in (Object oid ty de its obs))"
    proof cases
      case (1 n)
      then show ?thesis using item [of "[n]"] unfolding found_def by (metis (mono_tags, lifting) list.simps(5) list.simps(4) mem_Collect_eq)
    next
      case (2 segs)
      then have "item_in (Object oid ty de its obs) segs = item_at om segs"
        unfolding item by (auto split: list.splits bind_splits)
      with 2 show ?thesis by (auto simp: found_def)
    qed
  qed
  ultimately show ?case using c l(2) by auto
qed

lemma collect_writable_items_spec:
  assumes "tree_ok tree"
  shows "\<exists>items. collect_writable_items tree = Some items \<and> set items = found [] (item_at (tr_objects tree))"
  using assms collect_children_spec [of "tr_objects tree" "[]"] collect_from_object_spec
  by (auto simp: collect_writable_items_def tree_ok_def objs_ok_def)

section \<open>Restoring\<close>

text \<open>The newest value of the writable item at a place of the tree.\<close>

definition kept_at :: "object_tree \<Rightarrow> string list \<Rightarrow> odf_value option" where
  "kept_at tree segs = Option.bind (item_at (tr_objects tree) segs) kept_value"

lemma item_at_length: "item_at m segs = Some item \<Longrightarrow> \<exists>first mid name. segs = first # mid @ [name]"
  by (cases segs; cases "tl segs" rule: rev_cases) (auto split: bind_splits)

lemma path_of_inj:
  assumes "list_all plain_segment p" "list_all plain_segment q" "path_of p = path_of q"
  shows "p = q"
proof -
  have "parse_path (path_of p) = Inr p" "parse_path (path_of q) = Inr q"
    by (rule parse_path_of, rule assms(1,2) [unfolded list_all_iff])+
  then show ?thesis unfolding assms(3) by (metis sum.inject(2))
qed

lemma last_written_history:
  "(\<And>item. old = Some item \<Longrightarrow> item_ok item) \<Longrightarrow>
     written_history cap x old \<noteq> [] \<and> last (written_history cap x old) = x"
proof (cases old)
  case (Some item)
  assume "\<And>item. old = Some item \<Longrightarrow> item_ok item"
  then have "0 < rb_capacity (it_values item)"
    using Some by (auto simp: item_ok_def rb_inv_def)
  then show ?thesis by (simp add: Some written_history_def last_n_def last_drop)
qed (simp add: written_history_def)

lemma restore_item_spec:
  assumes ok: "tree_ok (en_tree en)" and path: "parse_path (si_path s) = Inr (first # mid @ [name])"
  shows "\<exists>en' item. restore_item s en = Some en' \<and> tree_ok (en_tree en') \<and>
    item_at (tr_objects (en_tree en')) = (item_at (tr_objects (en_tree en)))(first # mid @ [name] \<mapsto> item) \<and>
    kept_value item = Some (value_new (si_v s) (si_t s))"
proof -
  let ?segs = "first # mid @ [name]"
  let ?m = "tr_objects (en_tree en)"
  obtain tree' where w: "write_value (si_path s) (si_v s) (si_t s) (en_tree en) =
        Some (tree', Inr (item_at ?m ?segs = None))" "tree_ok tree'"
      "item_at (tr_objects tree') =
        (item_at ?m)(?segs := written (tr_default_capacity (en_tree en)) (si_v s) (si_t s) (item_at ?m ?segs))"
    using write_value_refines [OF ok path] by blast
  have old: "\<And>item. item_at ?m ?segs = Some item \<Longrightarrow> item_ok item" and cap: "0 < tr_default_capacity (en_tree en)"
    using ok item_at_ok [of ?m ?segs] by (auto simp: tree_ok_def simp del: item_at.simps)
  obtain item where item: "written (tr_default_capacity (en_tree en)) (si_v s) (si_t s) (item_at ?m ?segs) = Some item"
      "item_history item = written_history (tr_default_capacity (en_tree en)) (value_new (si_v s) (si_t s)) (item_at ?m ?segs)"
    using written_ok [OF cap old] by metis
  let ?en = "mark_writable (si_path s) (en\<lparr>en_tree := tree'\<rparr>)"
  have mark: "tree_ok (en_tree ?en)" "item_at (tr_objects (en_tree ?en)) =
      (item_at ?m)(?segs \<mapsto> insert_meta ''writable'' (Bool True) item)"
    using set_meta_at_spec [of "en\<lparr>en_tree := tree'\<rparr>" "si_path s" "''writable''" "Bool True"] w(2,3) item(1) path
    by (auto simp: mark_writable_def)
  have "kept_value (insert_meta ''writable'' (Bool True) item) = Some (value_new (si_v s) (si_t s))"
    using last_written_history [OF old] item(2)
    by (simp add: kept_value_def is_writable_def item_history_def)
  with mark w(1) show ?thesis by (auto simp: restore_item_def)
qed

lemma restore_items_spec:
  assumes "tree_ok (en_tree en)"
    and "\<And>s. s \<in> set items \<Longrightarrow> \<exists>segs x. list_all plain_segment segs \<and> 2 \<le> length segs \<and>
           s = saved_at (path_of segs) x \<and> src segs = Some x"
  defines "hit \<equiv> \<lambda>segs. list_all plain_segment segs \<and> path_of segs \<in> si_path ` set items"
  shows "\<exists>en'. restore_items items en = Some en' \<and> tree_ok (en_tree en') \<and>
    (\<forall>segs. if hit segs then kept_at (en_tree en') segs = src segs
       else item_at (tr_objects (en_tree en')) segs = item_at (tr_objects (en_tree en)) segs)"
  using assms(1,2) unfolding hit_def
proof (induction items arbitrary: en)
  case Nil
  then show ?case by (simp add: restore_items_def)
next
  case (Cons s items)
  obtain segs x where s: "list_all plain_segment segs" "2 \<le> length segs" "s = saved_at (path_of segs) x" "src segs = Some x"
    using Cons.prems(2) [of s] by auto
  then obtain first mid name where f: "segs = first # mid @ [name]"
    by (cases segs; cases "tl segs" rule: rev_cases) auto
  have "parse_path (si_path s) = Inr (first # mid @ [name])"
    using s(1) f parse_path_of [of segs] by (simp add: s(3) saved_at_def list_all_iff)
  from restore_item_spec [OF Cons.prems(1) this] obtain en1 item where one:
      "restore_item s en = Some en1" "tree_ok (en_tree en1)"
      "item_at (tr_objects (en_tree en1)) = (item_at (tr_objects (en_tree en)))(segs \<mapsto> item)"
      "kept_value item = Some x"
    by (auto simp: f s(3) saved_at_def value_new_def)
  from Cons.IH [OF one(2) Cons.prems(2) [OF list.set_intros(2)]] obtain en' where
    rest': "restore_items items en1 = Some en' \<and> tree_ok (en_tree en') \<and>
      (\<forall>p. if list_all plain_segment p \<and> path_of p \<in> si_path ` set items then kept_at (en_tree en') p = src p
        else item_at (tr_objects (en_tree en')) p = item_at (tr_objects (en_tree en1)) p)"
    by (rule exE)
  note rest = rest' [THEN conjunct1] rest' [THEN conjunct2, THEN conjunct1] rest' [THEN conjunct2, THEN conjunct2, THEN spec]
  have inj: "p = segs" if "list_all plain_segment p" "path_of p = path_of segs" for p
    by (rule path_of_inj [OF that(1) s(1) that(2)])
  have "if list_all plain_segment p \<and> path_of p \<in> si_path ` set (s # items) then kept_at (en_tree en') p = src p
        else item_at (tr_objects (en_tree en')) p = item_at (tr_objects (en_tree en)) p" for p
  proof (cases "list_all plain_segment p \<and> path_of p \<in> si_path ` set items")
    case False
    with rest(3) [of p] have i: "item_at (tr_objects (en_tree en')) p = item_at (tr_objects (en_tree en1)) p" by simp
    show ?thesis
    proof (cases "p = segs")
      case True
      with i one(3,4) s show ?thesis by (auto simp: kept_at_def saved_at_def)
    next
      case other: False
      with i one(3) inj [of p] False s(3) show ?thesis by (auto simp: saved_at_def)
    qed
  qed (use rest(3) [of p] in auto)
  with one(1) rest(1,2) show ?case by (auto simp: restore_items_def)
qed


text \<open>A device on which a client wrote one value; the item is written back into a new engine.\<close>

definition written_item :: saved_item where
  "written_item = saved_at ''/Dev/Led'' (value_new (Str ''on'') None)"

definition written_tree :: object_tree where
  "written_tree = (case restore_item written_item (engine_new None :: unit engine) of
     Some en \<Rightarrow> en_tree en | None \<Rightarrow> tree_new)"

lemma written_tree_collected: "collect_writable_items written_tree = Some [written_item]"
  by code_simp

lemma written_item_serialized: "\<exists>blob. serialize_saved_items [written_item] = Inr blob"
  by (simp add: serialize_saved_items_def put_saved_def put_text_def put_u16_def put_value_def put_time_def
      written_item_def saved_at_def value_new_def max_nvs_blob_def saved_items_version_def Let_def)

lemma written_tree_kept:
  "tree_ok written_tree" "kept_at written_tree segs = (if segs = [''Dev'', ''Led''] then Some (value_new (Str ''on'') None) else None)"
proof -
  have p: "parse_path (si_path written_item) = Inr (''Dev'' # [] @ [''Led''])" by code_simp
  have "item_at (tr_objects (en_tree (engine_new None :: unit engine))) p = None" for p
    by (cases p) (simp_all add: engine_new_def tree_new_def)
  moreover have "tree_ok (en_tree (engine_new None :: unit engine))" by (simp add: engine_new_def tree_new_ok)
  ultimately show "tree_ok written_tree" "kept_at written_tree segs =
      (if segs = [''Dev'', ''Led''] then Some (value_new (Str ''on'') None) else None)"
    using restore_item_spec [of "engine_new None :: unit engine", OF _ p]
    by (auto simp: written_tree_def kept_at_def written_item_def saved_at_def value_new_def simp del: item_at.simps)
qed


end
