(* ===== verification/Device.thy ===== *)
theory Device
  imports Persist Gateway
begin

text \<open>
  The tree a device starts with (\<open>src/device.rs\<close>), the peers found on the network
  (\<open>src/mdns_discovery.rs\<close>) with their mirror in the tree, and the announcements of the device
  itself (\<open>src/mdns.rs\<close>). The mDNS stack of ESP-IDF is a record of functions on an abstract world;
  the features the firmware is built with are fields of \<open>build\<close>.
\<close>

section \<open>The sensor tree\<close>

record build =
  bu_mem_stats :: bool
  bu_psram :: bool
  bu_temp_sensor :: bool
  bu_firmware_version :: string

definition path_free_heap :: string where "path_free_heap = ''/System/FreeHeap''"
definition path_free_flash :: string where "path_free_flash = ''/System/FreeFlash''"
definition path_free_odf_storage :: string where "path_free_odf_storage = ''/System/FreeOdfStorage''"
definition path_free_psram :: string where "path_free_psram = ''/System/FreePsram''"
definition path_temperature :: string where "path_temperature = ''/System/Temperature''"
definition path_discovery :: string where "path_discovery = ''/System/discovery''"
definition sensor_capacity :: nat where "sensor_capacity = 20"

definition sensor_item :: "string \<Rightarrow> (string \<times> omi_value) list \<Rightarrow> info_item option" where
  "sensor_item uri meta = do {
     item \<leftarrow> info_item_new sensor_capacity;
     Some (item\<lparr>it_type := Some uri, it_meta := Some (fold (\<lambda>(k, v). bt_insert k v) meta [])\<rparr>)
   }"

definition memory_item :: "string \<Rightarrow> info_item option" where
  "memory_item uri = sensor_item uri [(''unit'', Str ''B''), (''total'', Number (Fin 0))]"

definition degree_celsius :: string where "degree_celsius = [CHR 0xC2, CHR 0xB0, CHR ''C'']"

definition add_if :: "bool \<Rightarrow> string \<Rightarrow> info_item option \<Rightarrow> object \<Rightarrow> object option" where
  "add_if b name item obj = (if b then do { i \<leftarrow> item; Some (add_item name i obj) } else Some obj)"

definition build_sensor_tree :: "build \<Rightarrow> objects option" where
  "build_sensor_tree bu = do {
     sys \<leftarrow> add_if True ''FreeHeap'' (memory_item ''omi:memory:freeheap'')
       (with_type (Some ''omi:device:system'') (object_new ''System''));
     sys \<leftarrow> add_if (bu_mem_stats bu) ''FreeFlash'' (memory_item ''omi:memory:freeflash'') sys;
     sys \<leftarrow> add_if (bu_mem_stats bu) ''FreeOdfStorage'' (memory_item ''omi:memory:freeodf'') sys;
     sys \<leftarrow> add_if (bu_mem_stats bu \<and> bu_psram bu) ''FreePsram'' (memory_item ''omi:memory:freepsram'') sys;
     fw \<leftarrow> info_item_new 1;
     fw \<leftarrow> add_value (Str (bu_firmware_version bu)) None (fw\<lparr>it_type := Some ''omi:device:firmwareversion''\<rparr>);
     let sys = add_item ''FirmwareVersion'' fw sys;
     sys \<leftarrow> add_if (bu_temp_sensor bu) ''Temperature''
       (sensor_item ''omi:sensor:temperature'' [(''unit'', Str degree_celsius)]) sys;
     Some [(''System'', sys)]
   }"

section \<open>Peers\<close>

record peer =
  pe_hostname :: string
  pe_ip :: string
  pe_port :: nat

record query_result =
  qr_hostname :: "string option"
  qr_port :: nat
  qr_addr :: "string list"

definition max_results :: nat where "max_results = 8"

definition empty_result :: query_result where
  "empty_result = \<lparr>qr_hostname = None, qr_port = 0, qr_addr = []\<rparr>"

text \<open>The answer of a PTR query: the number of results and the buffer they were written to.\<close>

definition discover_peers :: "(string + nat \<times> query_result list) \<Rightarrow> peer list" where
  "discover_peers answer =
     (case answer of
        Inl _ \<Rightarrow> []
      | Inr (count, buf) \<Rightarrow>
          concat (map (\<lambda>r. case qr_addr r of
              [] \<Rightarrow> []
            | ip # _ \<Rightarrow> [\<lparr>pe_hostname = case_option [] id (qr_hostname r), pe_ip = ip, pe_port = qr_port r\<rparr>])
            (take count buf)))"

definition discovery_path :: "string \<Rightarrow> string" where
  "discovery_path hostname = path_discovery @ ''/'' @ hostname"

definition remove_stale :: "peer list \<Rightarrow> string \<Rightarrow> nat \<times> object_tree \<Rightarrow> nat \<times> object_tree" where
  "remove_stale peers name = (\<lambda>(removed, tree).
     if name \<in> pe_hostname ` set peers then (removed, tree)
     else (case tree_delete (discovery_path name) tree of
             (tree, Inr _) \<Rightarrow> (removed + 1, tree)
           | (tree, Inl _) \<Rightarrow> (removed, tree)))"

definition write_peer :: "f64 option \<Rightarrow> peer \<Rightarrow> object_tree \<Rightarrow> object_tree option" where
  "write_peer now p tree =
     (if pe_hostname p = [] then Some tree
      else map_option fst (write_value (discovery_path (pe_hostname p))
             (Str (pe_ip p @ '':'' @ dec_of_nat (pe_port p))) now tree))"

definition update_discovery_tree :: "peer list \<Rightarrow> f64 option \<Rightarrow> object_tree \<Rightarrow> (nat \<times> object_tree) option" where
  "update_discovery_tree peers now tree = do {
     let current = (case resolve tree path_discovery of
                      Inr (PtObject obj) \<Rightarrow> map fst (entries (obj_items obj))
                    | _ \<Rightarrow> []);
     let (removed, tree) = fold (remove_stale peers) current (0, tree);
     tree \<leftarrow> fold_opt (write_peer now) peers tree;
     Some (removed, tree)
   }"

section \<open>Periodic browsing\<close>

definition default_browse_interval_ms :: nat where "default_browse_interval_ms = 30000"
definition min_browse_interval_ms :: nat where "min_browse_interval_ms = 5000"
definition max_browse_interval_ms :: nat where "max_browse_interval_ms = 300000"

definition with_interval_ms :: "nat \<Rightarrow> nat" where
  "with_interval_ms ms = min (max ms min_browse_interval_ms) max_browse_interval_ms"

record mdns_browser =
  mb_interval :: nat
  mb_elapsed :: nat
  mb_cycles :: nat

definition browser_new :: "nat \<Rightarrow> mdns_browser" where
  "browser_new interval = \<lparr>mb_interval = interval, mb_elapsed = interval, mb_cycles = 0\<rparr>"

text \<open>The peers are only asked for when the interval is over.\<close>

definition browser_tick :: "nat \<Rightarrow> (string + nat \<times> query_result list) \<Rightarrow> mdns_browser \<Rightarrow> (peer list \<times> nat) option \<times> mdns_browser" where
  "browser_tick delta answer b =
     (let elapsed = mb_elapsed b + delta
      in if mb_interval b \<le> elapsed
         then (Some (discover_peers answer, mb_cycles b + 1), b\<lparr>mb_elapsed := 0, mb_cycles := mb_cycles b + 1\<rparr>)
         else (None, b\<lparr>mb_elapsed := elapsed\<rparr>))"

definition browser_reset :: "mdns_browser \<Rightarrow> mdns_browser" where
  "browser_reset b = b\<lparr>mb_elapsed := 0\<rparr>"

definition remaining_ms :: "mdns_browser \<Rightarrow> nat" where
  "remaining_ms b = mb_interval b - mb_elapsed b"

section \<open>The responder\<close>

record mdns_config =
  mc_hostname :: string
  mc_port :: nat
  mc_odf_path :: string

definition service_type :: string where "service_type = ''_omi''"
definition service_proto :: string where "service_proto = ''_tcp''"
definition default_odf_path :: string where "default_odf_path = ''/Objects''"
definition default_port :: nat where "default_port = 80"

definition mdns_config_new :: "string \<Rightarrow> mdns_config" where
  "mdns_config_new hostname = \<lparr>mc_hostname = hostname, mc_port = default_port, mc_odf_path = default_odf_path\<rparr>"

record 'x mdns_stack =
  md_take :: "'x \<Rightarrow> (string + unit) \<times> 'x"
  md_set_hostname :: "string \<Rightarrow> 'x \<Rightarrow> (string + unit) \<times> 'x"
  md_set_instance :: "string \<Rightarrow> 'x \<Rightarrow> (string + unit) \<times> 'x"
  md_add_service :: "string \<Rightarrow> string \<Rightarrow> string \<Rightarrow> nat \<Rightarrow> (string \<times> string) list \<Rightarrow> 'x \<Rightarrow> (string + unit) \<times> 'x"
  md_remove_service :: "string \<Rightarrow> string \<Rightarrow> 'x \<Rightarrow> (string + unit) \<times> 'x"
  md_free :: "'x \<Rightarrow> 'x"

definition mdns_then :: "('x \<Rightarrow> (string + unit) \<times> 'x) \<Rightarrow> ('x \<Rightarrow> (string + 'a) \<times> 'x) \<Rightarrow> 'x \<Rightarrow> (string + 'a) \<times> 'x" where
  "mdns_then call k x = (case call x of (Inl e, x) \<Rightarrow> (Inl e, x) | (Inr _, x) \<Rightarrow> k x)"

definition announce :: "'x mdns_stack \<Rightarrow> mdns_config \<Rightarrow> 'x \<Rightarrow> (string + unit) \<times> 'x" where
  "announce md cfg =
     md_add_service md (mc_hostname cfg) service_type service_proto (mc_port cfg) [(''path'', mc_odf_path cfg)]"

definition responder_start :: "'x mdns_stack \<Rightarrow> mdns_config \<Rightarrow> 'x \<Rightarrow> (string + mdns_config) \<times> 'x" where
  "responder_start md cfg =
     mdns_then (md_take md) (mdns_then (md_set_hostname md (mc_hostname cfg))
       (mdns_then (md_set_instance md (mc_hostname cfg)) (mdns_then (announce md cfg) (Pair (Inr cfg)))))"

definition update_ip :: "'x mdns_stack \<Rightarrow> mdns_config \<Rightarrow> 'x \<Rightarrow> (string + unit) \<times> 'x" where
  "update_ip md cfg = mdns_then (md_remove_service md service_type service_proto) (announce md cfg)"

text \<open>The responder in the main loop: it runs while the station is connected, announces itself again
  when the address changes, is restarted after a provisioning, and looks for peers. Dropping it is
  \<open>md_free\<close>.\<close>

record mdns_life =
  ml_running :: "mdns_config option"
  ml_last_ip :: "string option"
  ml_discovery_ms :: nat

definition start_mdns :: "'x mdns_stack \<Rightarrow> string \<Rightarrow> mdns_life \<times> 'x \<Rightarrow> mdns_life \<times> 'x" where
  "start_mdns md hostname = (\<lambda>(ml, x).
     (case responder_start md (mdns_config_new hostname) x of
        (Inr cfg, x) \<Rightarrow> (ml\<lparr>ml_running := Some cfg\<rparr>, x)
      | (Inl _, x) \<Rightarrow> (ml, x)))"

definition restart_mdns :: "'x mdns_stack \<Rightarrow> string \<Rightarrow> mdns_life \<times> 'x \<Rightarrow> mdns_life \<times> 'x" where
  "restart_mdns md hostname = (\<lambda>(ml, x).
     (case ml_running ml of
        None \<Rightarrow> (ml, x)
      | Some _ \<Rightarrow> start_mdns md hostname (ml\<lparr>ml_running := None\<rparr>, md_free md x)))"

definition check_ip :: "'x mdns_stack \<Rightarrow> (string + string) \<Rightarrow> mdns_life \<times> 'x \<Rightarrow> mdns_life \<times> 'x" where
  "check_ip md ip_info = (\<lambda>(ml, x).
     (case ip_info of
        Inl _ \<Rightarrow> (ml, x)
      | Inr ip \<Rightarrow>
          (if ml_last_ip ml = Some ip then (ml, x)
           else (ml\<lparr>ml_last_ip := Some ip\<rparr>,
                 case ml_running ml of Some cfg \<Rightarrow> snd (update_ip md cfg x) | None \<Rightarrow> x))))"

definition mdns_turn :: "'x mdns_stack \<Rightarrow> bool \<Rightarrow> string \<Rightarrow> (string + string) \<Rightarrow> mdns_life \<times> 'x \<Rightarrow> mdns_life \<times> 'x" where
  "mdns_turn md online hostname ip_info = (\<lambda>(ml, x).
     if online
     then check_ip md ip_info (if ml_running ml = None then start_mdns md hostname (ml, x) else (ml, x))
     else (case ml_running ml of
             None \<Rightarrow> (ml, x)
           | Some _ \<Rightarrow> (ml\<lparr>ml_running := None, ml_last_ip := None\<rparr>, md_free md x)))"

definition discovery_interval_ms :: nat where "discovery_interval_ms = 30000"

definition discovery_turn ::
  "nat \<Rightarrow> (string + nat \<times> query_result list) \<Rightarrow> f64 \<Rightarrow> mdns_life \<times> object_tree \<Rightarrow> (mdns_life \<times> object_tree) option" where
  "discovery_turn tick_ms answer now = (\<lambda>(ml, tree).
     let ms = ml_discovery_ms ml + tick_ms
     in if ms < discovery_interval_ms then Some (ml\<lparr>ml_discovery_ms := ms\<rparr>, tree)
        else map_option (\<lambda>tree. (ml\<lparr>ml_discovery_ms := 0\<rparr>, tree))
          (case ml_running ml of
             None \<Rightarrow> Some tree
           | Some _ \<Rightarrow> map_option snd (update_discovery_tree (discover_peers answer) (Some now) tree)))"

section \<open>What the main loop measures\<close>

text \<open>The totals of the memories become metadata of their items at the start.\<close>

definition set_total :: "string \<Rightarrow> f64 option \<Rightarrow> 'm engine \<Rightarrow> 'm engine" where
  "set_total path amount en = (case amount of None \<Rightarrow> en | Some x \<Rightarrow> set_meta_at path ''total'' (Number x) en)"

definition set_totals :: "build \<Rightarrow> (string \<Rightarrow> f64 option) \<Rightarrow> 'm engine \<Rightarrow> 'm engine" where
  "set_totals bu amount en =
     (let en = set_total path_free_heap (amount path_free_heap) en;
          en = (if bu_mem_stats bu
                then set_total path_free_odf_storage (amount path_free_odf_storage)
                       (set_total path_free_flash (amount path_free_flash) en)
                else en)
      in if bu_mem_stats bu \<and> bu_psram bu then set_total path_free_psram (amount path_free_psram) en else en)"

definition record_reading :: "string \<Rightarrow> f64 option \<Rightarrow> f64 \<Rightarrow> 'm engine \<Rightarrow> 'm engine option" where
  "record_reading path reading now en =
     (case reading of
        None \<Rightarrow> Some en
      | Some x \<Rightarrow> do {
          (tree, _) \<leftarrow> write_value path (Number x) (Some now) (en_tree en);
          Some (en\<lparr>en_tree := tree\<rparr>)
        })"

definition memory_interval_ms :: nat where "memory_interval_ms = 30000"
definition temp_interval_ms :: nat where "temp_interval_ms = 300000"

text \<open>The counters of the slow readings, with the tree.\<close>

definition record_readings ::
  "build \<Rightarrow> nat \<Rightarrow> (string \<Rightarrow> f64 option) \<Rightarrow> f64 \<Rightarrow> nat \<times> nat \<times> 'm engine \<Rightarrow> (nat \<times> nat \<times> 'm engine) option"
where
  "record_readings bu tick_ms free now = (\<lambda>(memory_ms, temp_ms, en). do {
     en \<leftarrow> record_reading path_free_heap (free path_free_heap) now en;
     let memory_ms = (if bu_mem_stats bu then memory_ms + tick_ms else memory_ms);
     let due = bu_mem_stats bu \<and> memory_interval_ms \<le> memory_ms;
     en \<leftarrow> (if due then record_reading path_free_flash (free path_free_flash) now en else Some en);
     en \<leftarrow> (if due \<and> bu_psram bu then record_reading path_free_psram (free path_free_psram) now en else Some en);
     en \<leftarrow> (if due then record_reading path_free_odf_storage (free path_free_odf_storage) now en else Some en);
     let memory_ms = (if due then 0 else memory_ms);
     let temp_ms = temp_ms + tick_ms;
     en \<leftarrow> (if temp_interval_ms \<le> temp_ms then record_reading path_temperature (free path_temperature) now en else Some en);
     Some (memory_ms, if temp_interval_ms \<le> temp_ms then 0 else temp_ms, en)
   })"

section \<open>The start is well-formed\<close>

lemma sensor_item_ok: "\<exists>i. sensor_item uri meta = Some i \<and> item_ok i"
proof -
  obtain i where i: "info_item_new sensor_capacity = Some i" "item_ok i"
    using info_item_new_ok [of sensor_capacity] by (auto simp: sensor_capacity_def)
  have "bt_ok (fold (\<lambda>(k, v). bt_insert k v) meta m)" if "bt_ok m" for m :: "(string, omi_value) btree"
    using that by (induction meta arbitrary: m) auto
  from this [of "[]"] i show ?thesis by (auto simp: sensor_item_def item_ok_def)
qed

lemma add_if_ok:
  assumes "obj_ok obj" "\<exists>i. item = Some i \<and> item_ok i"
  shows "\<exists>obj'. add_if b name item obj = Some obj' \<and> obj_ok obj'"
  using assms by (auto simp: add_if_def obj_ok_add_item)

lemma with_type_ok [simp]: "obj_ok (with_type t obj) = obj_ok obj"
  by (cases obj) simp

lemma memory_item_ok: "\<exists>i. memory_item uri = Some i \<and> item_ok i"
  by (simp add: memory_item_def sensor_item_ok)

lemma build_sensor_tree_ok: "\<exists>m. build_sensor_tree bu = Some m \<and> objs_ok m"
proof -
  obtain s1 where s1: "add_if True ''FreeHeap'' (memory_item ''omi:memory:freeheap'')
      (with_type (Some ''omi:device:system'') (object_new ''System'')) = Some s1" "obj_ok s1"
    using add_if_ok [OF _ memory_item_ok] by (metis obj_ok_new with_type_ok)
  obtain s2 where s2: "add_if (bu_mem_stats bu) ''FreeFlash'' (memory_item ''omi:memory:freeflash'') s1 = Some s2" "obj_ok s2"
    using add_if_ok [OF s1(2) memory_item_ok] by blast
  obtain s3 where s3: "add_if (bu_mem_stats bu) ''FreeOdfStorage'' (memory_item ''omi:memory:freeodf'') s2 = Some s3" "obj_ok s3"
    using add_if_ok [OF s2(2) memory_item_ok] by blast
  obtain s4 where s4: "add_if (bu_mem_stats bu \<and> bu_psram bu) ''FreePsram'' (memory_item ''omi:memory:freepsram'') s3 = Some s4" "obj_ok s4"
    using add_if_ok [OF s3(2) memory_item_ok] by blast
  obtain fw where fw: "info_item_new 1 = Some fw" "item_ok fw" using info_item_new_ok [of 1] by auto
  then have "item_ok (fw\<lparr>it_type := Some ''omi:device:firmwareversion''\<rparr>)" by (simp add: item_ok_def)
  then obtain fw' where fw': "add_value (Str (bu_firmware_version bu)) None (fw\<lparr>it_type := Some ''omi:device:firmwareversion''\<rparr>) = Some fw'" "item_ok fw'"
    using add_value_ok by metis
  obtain s5 where "add_if (bu_temp_sensor bu) ''Temperature'' (sensor_item ''omi:sensor:temperature'' [(''unit'', Str degree_celsius)])
      (add_item ''FirmwareVersion'' fw' s4) = Some s5" "obj_ok s5"
    using add_if_ok [OF obj_ok_add_item [OF s4(2) fw'(2)] sensor_item_ok] by blast
  with s1(1) s2(1) s3(1) s4(1) fw(1) fw'(1) show ?thesis
    by (auto simp: build_sensor_tree_def Let_def objs_ok_def bt_ok_def)
qed

section \<open>Discovery never panics\<close>

lemma remove_stale_ok: "tree_ok (snd s) \<Longrightarrow> tree_ok (snd (remove_stale peers name s))"
  using delete_keeps by (cases s) (fastforce simp: remove_stale_def split: prod.splits sum.splits)

lemma update_discovery_tree_ok:
  assumes "tree_ok tree"
  shows "\<exists>removed tree'. update_discovery_tree peers now tree = Some (removed, tree') \<and> tree_ok tree'"
proof -
  have "tree_ok (snd (fold (remove_stale peers) names s))" if "tree_ok (snd s)" for names and s :: "nat \<times> object_tree"
    using that by (induction names arbitrary: s) (simp_all add: remove_stale_ok)
  from this [of "(0, tree)"] assms have "tree_ok (snd (fold (remove_stale peers) names (0, tree)))" for names
    by simp
  let ?names = "case resolve tree path_discovery of
      Inr (PtObject obj) \<Rightarrow> map fst (entries (obj_items obj)) | _ \<Rightarrow> []"
  obtain r t1 where t1: "fold (remove_stale peers) ?names (0, tree) = (r, t1)" by fastforce
  with \<open>\<And>names. tree_ok (snd (fold (remove_stale peers) names (0, tree)))\<close> [of ?names] have "tree_ok t1" by simp
  have "\<exists>t'. fold_opt (write_peer now) ps t = Some t' \<and> tree_ok t'" if "tree_ok t" for ps t
    using that
  proof (induction ps arbitrary: t)
    case (Cons p ps)
    have "\<exists>t'. write_peer now p t = Some t' \<and> tree_ok t'"
      using write_value_total [OF Cons.prems] Cons.prems by (fastforce simp: write_peer_def)
    with Cons.IH show ?case by fastforce
  qed simp
  from this [OF \<open>tree_ok t1\<close>] obtain t' where "fold_opt (write_peer now) peers t1 = Some t'" "tree_ok t'" by blast
  with t1 show ?thesis by (simp add: update_discovery_tree_def)
qed

end
