(* ===== verification/Dns.thy ===== *)
theory Dns
  imports Provision Wire
begin

text \<open>
  \<open>src/dns.rs\<close>: the responder of the captive portal, which answers every A query with the address of
  the device. Packets are strings of bytes; reading outside a packet would be a panic of the code, and
  the positions below show that it never happens: \<open>skip_labels\<close> tests its position first, and a
  question is only used after its end was compared with the packet.
\<close>

unbundle bit_operations_syntax

definition header_len :: nat where "header_len = 12"

function skip_labels :: "string \<Rightarrow> nat \<Rightarrow> nat option" where
  "skip_labels data pos =
     (if length data \<le> pos then None
      else let len = (byte_of (data ! pos) :: nat)
           in if len = 0 then Some (pos + 1)
              else if len AND 0xC0 = 0xC0 then Some (pos + 2)
              else skip_labels data (pos + 1 + len))"
  by pat_completeness auto
termination
  by (relation "measure (\<lambda>(data, pos). length data - pos)") auto

declare skip_labels.simps [simp del]

definition skip_question :: "string \<Rightarrow> nat option" where
  "skip_question data =
     Option.bind (skip_labels data 0) (\<lambda>pos. if length data < pos + 4 then None else Some (pos + 4))"

definition u16_of_be :: "char \<Rightarrow> char \<Rightarrow> nat" where
  "u16_of_be a b = 256 * byte_of a + byte_of b"

definition byte :: "nat \<Rightarrow> char" where "byte n = char_of n"

definition answer_record :: "string \<Rightarrow> string" where
  "answer_record ip = map byte [0xC0, 0x0C, 0, 1, 0, 1, 0, 0, 0, 0x3C, 0, 4] @ ip"

definition dns_header :: "char \<Rightarrow> char \<Rightarrow> nat \<Rightarrow> string" where
  "dns_header id1 id2 ancount =
     [id1, id2] @ map byte [0x85, 0x80, 0, 1, ancount div 256, ancount, 0, 0, 0, 0]"

definition build_response :: "string \<Rightarrow> string \<Rightarrow> string option" where
  "build_response query ip =
     (if length query < header_len then None
      else do {
        q_end \<leftarrow> skip_question (drop header_len query);
        let question = take q_end (drop header_len query);
        let qtype = (if 4 \<le> length question
                     then u16_of_be (question ! (length question - 4)) (question ! (length question - 3)) else 0);
        let has_answer = (qtype = 1);
        Some (dns_header (query ! 0) (query ! 1) (if has_answer then 1 else 0) @ question @
              (if has_answer then answer_record ip else []))
      })"

definition parse_octet :: "string \<Rightarrow> nat option" where
  "parse_octet s = (case parse_usize s of Some n \<Rightarrow> if n < 256 then Some n else None | None \<Rightarrow> None)"

definition parse_ip :: "string \<Rightarrow> string option" where
  "parse_ip s =
     (let parts = split_on CHR ''.'' s
      in if length parts < 4 then None
         else do {
           octets \<leftarrow> those (map parse_octet (take 4 parts));
           if length parts = 4 then Some (map byte octets) else None
         })"

text \<open>One turn of the responder's thread: a packet of at most 512 bytes, or a timeout.\<close>

definition dns_turn :: "string \<Rightarrow> string option \<Rightarrow> string option" where
  "dns_turn ip received = Option.bind received (\<lambda>packet. build_response (take 512 packet) ip)"

section \<open>Well-formed queries\<close>

text \<open>A name is a sequence of labels, each after its length, and a zero.\<close>

definition dns_label :: "string \<Rightarrow> bool" where
  "dns_label l \<longleftrightarrow> l \<noteq> [] \<and> length l < 64"

definition name_bytes :: "string list \<Rightarrow> string" where
  "name_bytes labels = concat (map (\<lambda>l. byte (length l) # l) labels) @ [byte 0]"

lemma name_bytes_simps [simp]:
  "name_bytes [] = [byte 0]" "name_bytes (l # labels) = byte (length l) # l @ name_bytes labels"
  by (simp_all add: name_bytes_def)

lemma short_label_mask: "n < 64 \<Longrightarrow> n AND 0xC0 = (0 :: nat)"
proof -
  assume "n < 64"
  then have n: "take_bit 6 n = n" by (simp add: take_bit_nat_eq_self)
  have "take_bit 6 (n AND 0xC0) = take_bit 6 n AND take_bit 6 0xC0" by (rule take_bit_and)
  moreover have "take_bit 6 (0xC0 :: nat) = 0" by (simp add: take_bit_eq_mod)
  moreover have "take_bit 6 (n AND 0xC0) = take_bit 6 n AND 0xC0"
    by (metis n and.assoc and.commute take_bit_eq_mask)
  ultimately show ?thesis by (metis n and_zero_eq)
qed

lemma skip_labels_name:
  "list_all dns_label labels \<Longrightarrow> skip_labels (pre @ name_bytes labels @ rest) (length pre) =
     Some (length pre + length (name_bytes labels))"
proof (induction labels arbitrary: pre)
  case Nil
  then show ?case by (subst skip_labels.simps) (simp add: nth_append byte_def)
next
  case (Cons l labels)
  have l: "l \<noteq> []" "length l < 64" using Cons.prems by (simp_all add: dns_label_def)
  have b: "byte_of (byte (length l)) = length l" using l by (simp add: byte_def)
  have "skip_labels (pre @ name_bytes (l # labels) @ rest) (length pre) =
      skip_labels (pre @ name_bytes (l # labels) @ rest) (length pre + 1 + length l)"
    using l by (subst skip_labels.simps) (simp add: nth_append b short_label_mask Let_def)
  also have "\<dots> = skip_labels ((pre @ byte (length l) # l) @ name_bytes labels @ rest) (length (pre @ byte (length l) # l))"
    by (simp add: ac_simps)
  finally show ?case using Cons.IH [of "pre @ byte (length l) # l"] Cons.prems by simp
qed

lemma skip_question_name:
  "list_all dns_label labels \<Longrightarrow> length tail = 4 \<Longrightarrow>
     skip_question (name_bytes labels @ tail @ rest) = Some (length (name_bytes labels) + 4)"
  using skip_labels_name [of labels "[]" "tail @ rest"] by (simp add: skip_question_def)

text \<open>Every well-formed query is answered: the identification and the question are echoed, and an
  A query gets one record with the address of the device.\<close>

lemma build_response_query:
  assumes "list_all dns_label labels" "length flags = 10"
  shows "build_response ([id1, id2] @ flags @ name_bytes labels @ [t1, t2, c1, c2] @ extra) ip =
    Some (if u16_of_be t1 t2 = 1
          then dns_header id1 id2 1 @ name_bytes labels @ [t1, t2, c1, c2] @ answer_record ip
          else dns_header id1 id2 0 @ name_bytes labels @ [t1, t2, c1, c2])"
proof -
  let ?query = "[id1, id2] @ flags @ name_bytes labels @ [t1, t2, c1, c2] @ extra"
  have d: "drop header_len ?query = name_bytes labels @ [t1, t2, c1, c2] @ extra"
    using assms(2) by (simp add: header_len_def)
  have q: "skip_question (drop header_len ?query) = Some (length (name_bytes labels) + 4)"
    unfolding d by (rule skip_question_name [OF assms(1)]) simp
  have t: "take (length (name_bytes labels) + 4) (drop header_len ?query) = name_bytes labels @ [t1, t2, c1, c2]"
    unfolding d by simp
  have "\<not> length ?query < header_len" using assms(2) by (simp add: header_len_def)
  then show ?thesis
    by (simp only: build_response_def q t if_False Option.bind.bind_lunit Let_def)
      (simp add: nth_append)
qed

lemma build_response_short: "length query < header_len \<Longrightarrow> build_response query ip = None"
  by (simp add: build_response_def)

end
