(* ===== verification/Gpio.thy ===== *)
theory Gpio
  imports Device Http
begin

text \<open>
  The pins of the device: the configuration and the registry of \<open>src/gpio/mod.rs\<close>, the digital
  pins of \<open>src/gpio/driver.rs\<close>, the set of analog channels of \<open>src/gpio/adc.rs\<close>, the manager of
  \<open>src/gpio/pwm.rs\<close> and the part of the main loop that calls it. The drivers of ESP-IDF are a
  record of functions on an abstract world; a driver is known by the number of its pin. The flag an
  interrupt handler sets is a field of the pin, set by \<open>edge_interrupt\<close>.
\<close>

section \<open>Configuration\<close>

datatype gpio_mode = DigitalIn | DigitalOut | AnalogIn | Pwm | LowEdgeTrigger | HighEdgeTrigger

definition mode_as_str :: "gpio_mode \<Rightarrow> string" where
  "mode_as_str mode =
     (case mode of
        DigitalIn \<Rightarrow> ''digital_in''
      | DigitalOut \<Rightarrow> ''digital_out''
      | AnalogIn \<Rightarrow> ''analog_in''
      | Pwm \<Rightarrow> ''pwm''
      | LowEdgeTrigger \<Rightarrow> ''low_edge_trigger''
      | HighEdgeTrigger \<Rightarrow> ''high_edge_trigger'')"

definition mode_is_writable :: "gpio_mode \<Rightarrow> bool" where
  "mode_is_writable mode = (mode = DigitalOut \<or> mode = Pwm)"

record gpio_pin_config =
  gc_pin :: nat
  gc_mode :: gpio_mode
  gc_name :: string

definition pin_config_new :: "nat \<Rightarrow> gpio_mode \<Rightarrow> gpio_pin_config" where
  "pin_config_new pin mode = \<lparr>gc_pin = pin, gc_mode = mode, gc_name = ''GPIO'' @ dec_of_nat pin\<rparr>"

definition with_name :: "string \<Rightarrow> gpio_pin_config \<Rightarrow> gpio_pin_config" where
  "with_name name c = c\<lparr>gc_name := name\<rparr>"

definition gpio_capacity :: nat where "gpio_capacity = 20"

definition build_gpio_info_item :: "gpio_pin_config \<Rightarrow> info_item option" where
  "build_gpio_info_item c = do {
     item \<leftarrow> info_item_new gpio_capacity;
     let meta = bt_insert ''gpio_pin'' (Number (f64_of_int (int (gc_pin c))))
       (bt_insert ''mode'' (Str (mode_as_str (gc_mode c))) []);
     let meta = (if mode_is_writable (gc_mode c) then bt_insert ''writable'' (Bool True) meta else meta);
     Some (item\<lparr>it_meta := Some meta\<rparr>)
   }"

definition build_gpio_items :: "gpio_pin_config list \<Rightarrow> (string \<times> info_item) list option" where
  "build_gpio_items configs =
     those (map (\<lambda>c. map_option (Pair (gc_name c)) (build_gpio_info_item c)) configs)"

type_synonym pin_registry = "nat \<Rightarrow> string option"

definition register_pin :: "nat \<Rightarrow> string \<Rightarrow> pin_registry \<Rightarrow> string + pin_registry" where
  "register_pin pin purpose owners =
     (case owners pin of
        Some existing \<Rightarrow> Inl (''GPIO pin conflict: pin '' @ dec_of_nat pin @ '' already assigned to '' @ existing @
          '', cannot assign to '' @ purpose)
      | None \<Rightarrow> Inr (owners(pin \<mapsto> purpose)))"

section \<open>Analog channels\<close>

record 'x adc_sampler =
  as_pin_num :: nat
  as_name :: string
  as_sample :: "'x \<Rightarrow> (string + nat) \<times> 'x"

record 'x adc_channel_set =
  ac_channels :: "'x adc_sampler list"
  ac_allocated :: "nat \<Rightarrow> string option"

definition adc_set_new :: "'x adc_channel_set" where
  "adc_set_new = \<lparr>ac_channels = [], ac_allocated = (\<lambda>_. None)\<rparr>"

definition add_channel :: "'x adc_sampler \<Rightarrow> 'x adc_channel_set \<Rightarrow> string + 'x adc_channel_set" where
  "add_channel ch acs =
     (let pin = as_pin_num ch; name = as_name ch
      in case ac_allocated acs pin of
           Some existing \<Rightarrow> Inl (''ADC pin conflict: GPIO'' @ dec_of_nat pin @ '' already allocated to '' @ [CHR 0x27] @ existing @ [CHR 0x27] @
             '', cannot assign to '' @ [CHR 0x27] @ name @ [CHR 0x27])
         | None \<Rightarrow> Inr (acs\<lparr>ac_allocated := (ac_allocated acs)(pin \<mapsto> name), ac_channels := ac_channels acs @ [ch]\<rparr>))"

definition is_pin_allocated :: "'x adc_channel_set \<Rightarrow> nat \<Rightarrow> bool" where
  "is_pin_allocated acs pin = (ac_allocated acs pin \<noteq> None)"

fun sample_channels :: "'x adc_sampler list \<Rightarrow> 'x \<Rightarrow> (nat \<times> string \<times> (string + nat)) list \<times> 'x" where
  "sample_channels [] x = ([], x)"
| "sample_channels (ch # chs) x =
     (case as_sample ch x of (r, x) \<Rightarrow>
        (case sample_channels chs x of (rs, x) \<Rightarrow> ((as_pin_num ch, as_name ch, r) # rs, x)))"

definition sample_all :: "'x adc_channel_set \<Rightarrow> 'x \<Rightarrow> (nat \<times> string \<times> (string + nat)) list \<times> 'x" where
  "sample_all acs x = sample_channels (ac_channels acs) x"

section \<open>Values for pins\<close>

definition parse_digital :: "omi_value \<Rightarrow> bool" where
  "parse_digital v =
     (case v of
        Number n \<Rightarrow> \<not> f64_eq n (Fin 0)
      | Bool b \<Rightarrow> b
      | Str s \<Rightarrow> s = ''1'' \<or> s = ''true'' \<or> s = ''high'' \<or> s = ''on''
      | Null \<Rightarrow> False)"

definition default_freq_hz :: nat where "default_freq_hz = 5000"
definition pwm_max_duty :: nat where "pwm_max_duty = 255"

definition duty_of_f64 :: "f64 \<Rightarrow> nat" where
  "duty_of_f64 n = nat (max 0 (min (int pwm_max_duty) (f64_to_int (- (2 ^ 63)) (2 ^ 63 - 1) n)))"

definition parse_duty :: "omi_value \<Rightarrow> nat" where
  "parse_duty v =
     (case v of
        Number n \<Rightarrow> duty_of_f64 n
      | Str s \<Rightarrow> (case parse_f64_str s of Some n \<Rightarrow> duty_of_f64 n | None \<Rightarrow> 0)
      | _ \<Rightarrow> 0)"

section \<open>The hardware\<close>

datatype edge_type = Low | High

record 'x gpio_hw =
  hw_ledc_timer :: "nat \<Rightarrow> nat \<Rightarrow> 'x \<Rightarrow> (string + unit) \<times> 'x"
  hw_ledc_channel :: "nat \<Rightarrow> 'x \<Rightarrow> (string + unit) \<times> 'x"
  hw_set_duty :: "nat \<Rightarrow> nat \<Rightarrow> 'x \<Rightarrow> (string + unit) \<times> 'x"
  hw_input :: "nat \<Rightarrow> 'x \<Rightarrow> (string + unit) \<times> 'x"
  hw_is_high :: "nat \<Rightarrow> 'x \<Rightarrow> bool \<times> 'x"
  hw_output :: "nat \<Rightarrow> 'x \<Rightarrow> (string + unit) \<times> 'x"
  hw_set_level :: "nat \<Rightarrow> bool \<Rightarrow> 'x \<Rightarrow> (string + unit) \<times> 'x"
  hw_interrupt_type :: "nat \<Rightarrow> edge_type \<Rightarrow> 'x \<Rightarrow> (string + unit) \<times> 'x"
  hw_subscribe :: "nat \<Rightarrow> 'x \<Rightarrow> (string + unit) \<times> 'x"
  hw_enable_interrupt :: "nat \<Rightarrow> 'x \<Rightarrow> (string + unit) \<times> 'x"
  hw_adc_channel :: "nat \<Rightarrow> 'x \<Rightarrow> (string + unit) \<times> 'x"
  hw_read_raw :: "nat \<Rightarrow> 'x \<Rightarrow> (string + nat) \<times> 'x"

definition driver_then :: "('x \<Rightarrow> (string + unit) \<times> 'x) \<Rightarrow> ('x \<Rightarrow> (string + 'a) \<times> 'x) \<Rightarrow> 'x \<Rightarrow> (string + 'a) \<times> 'x" where
  "driver_then call k x = (case call x of (Inl e, x) \<Rightarrow> (Inl e, x) | (Inr _, x) \<Rightarrow> k x)"

section \<open>The manager\<close>

record pwm_pin =
  pw_path :: string
  pw_driver :: nat
  pw_last_duty :: nat

record edge_pin =
  ed_path :: string
  ed_pin_num :: nat
  ed_type :: edge_type
  ed_fired :: bool

record edge_event =
  ee_path :: string
  ee_pin_num :: nat
  ee_type :: edge_type

record adc_entry =
  ad_path :: string
  ad_pin_num :: nat

record digital_input_pin =
  di_path :: string
  di_pin_num :: nat
  di_last_level :: "bool option"

record digital_output_pin =
  do_path :: string
  do_pin_num :: nat
  do_last_level :: "bool option"

record gpio_manager =
  gm_pwm :: "pwm_pin list"
  gm_edge :: "edge_pin list"
  gm_adc :: "adc_entry list"
  gm_inputs :: "digital_input_pin list"
  gm_outputs :: "digital_output_pin list"
  gm_registry :: pin_registry

definition gpio_manager_new :: gpio_manager where
  "gpio_manager_new =
     \<lparr>gm_pwm = [], gm_edge = [], gm_adc = [], gm_inputs = [], gm_outputs = [], gm_registry = (\<lambda>_. None)\<rparr>"

text \<open>A pin is registered first and stays registered when its driver cannot be made.\<close>

definition add_pin ::
  "nat \<Rightarrow> string \<Rightarrow> ('x \<Rightarrow> (string + unit) \<times> 'x) \<Rightarrow> (gpio_manager \<Rightarrow> gpio_manager) \<Rightarrow>
   gpio_manager \<times> 'x \<Rightarrow> (string + unit) \<times> gpio_manager \<times> 'x"
where
  "add_pin pin why setup store = (\<lambda>(gm, x).
     (case register_pin pin why (gm_registry gm) of
        Inl e \<Rightarrow> (Inl e, gm, x)
      | Inr owners \<Rightarrow>
          (let gm = gm\<lparr>gm_registry := owners\<rparr>
           in case setup x of
                (Inl e, x) \<Rightarrow> (Inl e, gm, x)
              | (Inr _, x) \<Rightarrow> (Inr (), store gm, x))))"

definition edge_mode :: "edge_type \<Rightarrow> string" where
  "edge_mode e = (case e of Low \<Rightarrow> ''low_edge_trigger'' | High \<Rightarrow> ''high_edge_trigger'')"

definition purpose :: "string \<Rightarrow> string \<Rightarrow> string" where
  "purpose label path = label @ '' ('' @ path @ '')''"

definition add_pwm :: "'x gpio_hw \<Rightarrow> string \<Rightarrow> nat \<Rightarrow> gpio_manager \<times> 'x \<Rightarrow> (string + unit) \<times> gpio_manager \<times> 'x" where
  "add_pwm hw path pin =
     add_pin pin (purpose ''PWM'' path)
       (driver_then (hw_ledc_timer hw pin default_freq_hz) (hw_ledc_channel hw pin))
       (\<lambda>gm. gm\<lparr>gm_pwm := gm_pwm gm @ [\<lparr>pw_path = path, pw_driver = pin, pw_last_duty = 0\<rparr>]\<rparr>)"

definition add_edge_pin ::
  "'x gpio_hw \<Rightarrow> string \<Rightarrow> nat \<Rightarrow> edge_type \<Rightarrow> gpio_manager \<times> 'x \<Rightarrow> (string + unit) \<times> gpio_manager \<times> 'x" where
  "add_edge_pin hw path pin e =
     add_pin pin (purpose (edge_mode e) path)
       (driver_then (hw_input hw pin) (driver_then (hw_interrupt_type hw pin e)
         (driver_then (hw_subscribe hw pin) (hw_enable_interrupt hw pin))))
       (\<lambda>gm. gm\<lparr>gm_edge := gm_edge gm @ [\<lparr>ed_path = path, ed_pin_num = pin, ed_type = e, ed_fired = False\<rparr>]\<rparr>)"

definition add_adc :: "'x gpio_hw \<Rightarrow> string \<Rightarrow> nat \<Rightarrow> gpio_manager \<times> 'x \<Rightarrow> (string + unit) \<times> gpio_manager \<times> 'x" where
  "add_adc hw path pin =
     add_pin pin (purpose ''analog_in'' path) (hw_adc_channel hw pin)
       (\<lambda>gm. gm\<lparr>gm_adc := gm_adc gm @ [\<lparr>ad_path = path, ad_pin_num = pin\<rparr>]\<rparr>)"

definition add_digital_in :: "'x gpio_hw \<Rightarrow> string \<Rightarrow> nat \<Rightarrow> gpio_manager \<times> 'x \<Rightarrow> (string + unit) \<times> gpio_manager \<times> 'x" where
  "add_digital_in hw path pin =
     add_pin pin (purpose ''digital_in'' path) (hw_input hw pin)
       (\<lambda>gm. gm\<lparr>gm_inputs := gm_inputs gm @ [\<lparr>di_path = path, di_pin_num = pin, di_last_level = None\<rparr>]\<rparr>)"

definition add_digital_out :: "'x gpio_hw \<Rightarrow> string \<Rightarrow> nat \<Rightarrow> gpio_manager \<times> 'x \<Rightarrow> (string + unit) \<times> gpio_manager \<times> 'x" where
  "add_digital_out hw path pin =
     add_pin pin (purpose ''digital_out'' path) (driver_then (hw_output hw pin) (hw_set_level hw pin False))
       (\<lambda>gm. gm\<lparr>gm_outputs := gm_outputs gm @ [\<lparr>do_path = path, do_pin_num = pin, do_last_level = Some False\<rparr>]\<rparr>)"

section \<open>Items of the tree\<close>

text \<open>An item for a pin or a bus: an initial value, then a type and metadata through \<open>resolve_mut\<close>.\<close>

definition init_item :: "string \<Rightarrow> omi_value \<Rightarrow> string \<Rightarrow> (string \<times> omi_value) list \<Rightarrow> object_tree \<Rightarrow> object_tree option" where
  "init_item path v type_uri meta tree = do {
     (tree, r) \<leftarrow> write_value path v None tree;
     Some (case r of
             Inl _ \<Rightarrow> tree
           | Inr _ \<Rightarrow>
               (case resolve_mut tree path of
                  Inr (PmInfoItem item store) \<Rightarrow>
                    store (fold (\<lambda>(k, v). insert_meta k v) meta (item\<lparr>it_type := Some type_uri\<rparr>))
                | _ \<Rightarrow> tree))
   }"

definition pin_number :: "nat \<Rightarrow> string \<times> omi_value" where
  "pin_number pin = (''gpio_pin'', Number (f64_of_int (int pin)))"

definition register_pwm_item :: "pwm_pin \<Rightarrow> object_tree \<Rightarrow> object_tree option" where
  "register_pwm_item pin =
     init_item (pw_path pin) (Number (Fin 0)) ''omi:gpio:pwm''
       [(''mode'', Str ''pwm''), (''writable'', Bool True),
        (''max_duty'', Number (f64_of_int (int pwm_max_duty))),
        (''frequency_hz'', Number (f64_of_int (int default_freq_hz)))]"

definition register_edge_item :: "edge_pin \<Rightarrow> object_tree \<Rightarrow> object_tree option" where
  "register_edge_item pin =
     init_item (ed_path pin) (Number (Fin 0)) ''omi:gpio:edge''
       [(''mode'', Str (edge_mode (ed_type pin))), pin_number (ed_pin_num pin)]"

definition register_adc_item :: "adc_entry \<Rightarrow> object_tree \<Rightarrow> object_tree option" where
  "register_adc_item entry =
     init_item (ad_path entry) (Number (Fin 0)) ''omi:gpio:analog_in''
       [(''mode'', Str ''analog_in''), pin_number (ad_pin_num entry)]"

definition register_input_item :: "digital_input_pin \<Rightarrow> object_tree \<Rightarrow> object_tree option" where
  "register_input_item pin =
     init_item (di_path pin) (Number (Fin 0)) ''omi:gpio:digital_in''
       [(''mode'', Str ''digital_in''), pin_number (di_pin_num pin)]"

definition register_output_item :: "digital_output_pin \<Rightarrow> object_tree \<Rightarrow> object_tree option" where
  "register_output_item pin =
     init_item (do_path pin) (Number (Fin 0)) ''omi:gpio:digital_out''
       [(''mode'', Str ''digital_out''), (''writable'', Bool True), pin_number (do_pin_num pin)]"

definition gpio_register_tree_items :: "gpio_manager \<Rightarrow> object_tree \<Rightarrow> object_tree option" where
  "gpio_register_tree_items gm tree = do {
     tree \<leftarrow> fold_opt register_pwm_item (gm_pwm gm) tree;
     tree \<leftarrow> fold_opt register_edge_item (gm_edge gm) tree;
     tree \<leftarrow> fold_opt register_adc_item (gm_adc gm) tree;
     tree \<leftarrow> fold_opt register_input_item (gm_inputs gm) tree;
     fold_opt register_output_item (gm_outputs gm) tree
   }"

section \<open>Inputs\<close>

text \<open>A value is written without a notification; a failure is only logged.\<close>

definition write_input :: "string \<Rightarrow> omi_value \<Rightarrow> f64 \<Rightarrow> object_tree \<Rightarrow> object_tree option" where
  "write_input path v now tree = map_option fst (write_value path v (Some now) tree)"

definition input_poll :: "bool \<Rightarrow> digital_input_pin \<Rightarrow> bool option \<times> digital_input_pin" where
  "input_poll level pin =
     (if di_last_level pin = Some level then (None, pin) else (Some level, pin\<lparr>di_last_level := Some level\<rparr>))"

fun poll_inputs ::
  "'x gpio_hw \<Rightarrow> f64 \<Rightarrow> digital_input_pin list \<Rightarrow> object_tree \<times> 'x \<Rightarrow> (digital_input_pin list \<times> object_tree \<times> 'x) option"
where
  "poll_inputs hw now [] (tree, x) = Some ([], tree, x)"
| "poll_inputs hw now (pin # pins) (tree, x) = do {
     let (level, x) = hw_is_high hw (di_pin_num pin) x;
     let (changed, pin) = input_poll level pin;
     tree \<leftarrow> (case changed of
               Some l \<Rightarrow> write_input (di_path pin) (Number (if l then Fin 1 else Fin 0)) now tree
             | None \<Rightarrow> Some tree);
     (pins, tree, x) \<leftarrow> poll_inputs hw now pins (tree, x);
     Some (pin # pins, tree, x)
   }"

definition poll_digital_inputs ::
  "'x gpio_hw \<Rightarrow> f64 \<Rightarrow> gpio_manager \<times> object_tree \<times> 'x \<Rightarrow> (gpio_manager \<times> object_tree \<times> 'x) option" where
  "poll_digital_inputs hw now = (\<lambda>(gm, tree, x). do {
     (pins, tree, x) \<leftarrow> poll_inputs hw now (gm_inputs gm) (tree, x);
     Some (gm\<lparr>gm_inputs := pins\<rparr>, tree, x)
   })"

fun sample_entries :: "'x gpio_hw \<Rightarrow> f64 \<Rightarrow> adc_entry list \<Rightarrow> object_tree \<times> 'x \<Rightarrow> (object_tree \<times> 'x) option" where
  "sample_entries hw now [] (tree, x) = Some (tree, x)"
| "sample_entries hw now (entry # es) (tree, x) =
     (case hw_read_raw hw (ad_pin_num entry) x of
        (Inr val, x) \<Rightarrow> do {
          tree \<leftarrow> write_input (ad_path entry) (Number (f64_of_int (int val))) now tree;
          sample_entries hw now es (tree, x)
        }
      | (Inl _, x) \<Rightarrow> sample_entries hw now es (tree, x))"

definition sample_adc :: "'x gpio_hw \<Rightarrow> f64 \<Rightarrow> gpio_manager \<Rightarrow> object_tree \<times> 'x \<Rightarrow> (object_tree \<times> 'x) option" where
  "sample_adc hw now gm = sample_entries hw now (gm_adc gm)"

text \<open>The interrupt handler of a pin, and the draining of the flags it set.\<close>

definition edge_interrupt :: "nat \<Rightarrow> gpio_manager \<Rightarrow> gpio_manager" where
  "edge_interrupt pin gm =
     gm\<lparr>gm_edge := map (\<lambda>p. if ed_pin_num p = pin then p\<lparr>ed_fired := True\<rparr> else p) (gm_edge gm)\<rparr>"

fun drain_pins :: "'x gpio_hw \<Rightarrow> edge_pin list \<Rightarrow> 'x \<Rightarrow> edge_event list \<times> edge_pin list \<times> 'x" where
  "drain_pins hw [] x = ([], [], x)"
| "drain_pins hw (pin # pins) x =
     (if ed_fired pin
      then (case hw_enable_interrupt hw (ed_pin_num pin) x of (_, x) \<Rightarrow>
             (case drain_pins hw pins x of (events, pins, x) \<Rightarrow>
               (\<lparr>ee_path = ed_path pin, ee_pin_num = ed_pin_num pin, ee_type = ed_type pin\<rparr> # events,
                pin\<lparr>ed_fired := False\<rparr> # pins, x)))
      else (case drain_pins hw pins x of (events, pins, x) \<Rightarrow> (events, pin # pins, x)))"

definition drain_edge_events :: "'x gpio_hw \<Rightarrow> gpio_manager \<times> 'x \<Rightarrow> edge_event list \<times> gpio_manager \<times> 'x" where
  "drain_edge_events hw = (\<lambda>(gm, x).
     (case drain_pins hw (gm_edge gm) x of (events, pins, x) \<Rightarrow> (events, gm\<lparr>gm_edge := pins\<rparr>, x)))"

definition write_edge_event :: "f64 \<Rightarrow> edge_event \<Rightarrow> object_tree \<Rightarrow> object_tree option" where
  "write_edge_event now event =
     write_input (ee_path event) (Number (case ee_type event of Low \<Rightarrow> Fin 0 | High \<Rightarrow> Fin 1)) now"

section \<open>Outputs\<close>

definition newest_at :: "object_tree \<Rightarrow> string \<Rightarrow> odf_value option option" where
  "newest_at tree path =
     (case resolve tree path of
        Inr (PtInfoItem item) \<Rightarrow> do {
          vals \<leftarrow> query_values item (Some 1) None None None;
          Some (case vals of v # _ \<Rightarrow> Some v | [] \<Rightarrow> None)
        }
      | _ \<Rightarrow> Some None)"

definition set_duty :: "'x gpio_hw \<Rightarrow> nat \<Rightarrow> pwm_pin \<times> 'x \<Rightarrow> (string + unit) \<times> pwm_pin \<times> 'x" where
  "set_duty hw duty = (\<lambda>(pin, x).
     let clamped = min duty pwm_max_duty
     in case hw_set_duty hw (pw_driver pin) clamped x of
          (Inl e, x) \<Rightarrow> (Inl (''LEDC set_duty failed: '' @ e), pin, x)
        | (Inr _, x) \<Rightarrow> (Inr (), pin\<lparr>pw_last_duty := clamped\<rparr>, x))"

definition sync_pwm_pin :: "'x gpio_hw \<Rightarrow> object_tree \<Rightarrow> pwm_pin \<times> 'x \<Rightarrow> (pwm_pin \<times> 'x) option" where
  "sync_pwm_pin hw tree = (\<lambda>(pin, x). do {
     newest \<leftarrow> newest_at tree (pw_path pin);
     Some (case newest of
             None \<Rightarrow> (pin, x)
           | Some v \<Rightarrow>
               (let duty = parse_duty (val_v v)
                in if duty \<noteq> pw_last_duty pin then snd (set_duty hw duty (pin, x)) else (pin, x)))
   })"

fun sync_pins :: "('p \<times> 'x \<Rightarrow> ('p \<times> 'x) option) \<Rightarrow> 'p list \<Rightarrow> 'x \<Rightarrow> ('p list \<times> 'x) option" where
  "sync_pins f [] x = Some ([], x)"
| "sync_pins f (p # ps) x = do {
     (p, x) \<leftarrow> f (p, x);
     (ps, x) \<leftarrow> sync_pins f ps x;
     Some (p # ps, x)
   }"

definition sync_from_tree :: "'x gpio_hw \<Rightarrow> object_tree \<Rightarrow> gpio_manager \<times> 'x \<Rightarrow> (gpio_manager \<times> 'x) option" where
  "sync_from_tree hw tree = (\<lambda>(gm, x). do {
     (pins, x) \<leftarrow> sync_pins (sync_pwm_pin hw tree) (gm_pwm gm) x;
     Some (gm\<lparr>gm_pwm := pins\<rparr>, x)
   })"

definition output_write :: "'x gpio_hw \<Rightarrow> bool \<Rightarrow> digital_output_pin \<times> 'x \<Rightarrow> (string + bool) \<times> digital_output_pin \<times> 'x" where
  "output_write hw high = (\<lambda>(pin, x).
     if do_last_level pin = Some high then (Inr False, pin, x)
     else case hw_set_level hw (do_pin_num pin) high x of
            (Inl e, x) \<Rightarrow> (Inl e, pin, x)
          | (Inr _, x) \<Rightarrow> (Inr True, pin\<lparr>do_last_level := Some high\<rparr>, x))"

definition sync_output_pin :: "'x gpio_hw \<Rightarrow> object_tree \<Rightarrow> digital_output_pin \<times> 'x \<Rightarrow> (digital_output_pin \<times> 'x) option" where
  "sync_output_pin hw tree = (\<lambda>(pin, x). do {
     newest \<leftarrow> newest_at tree (do_path pin);
     Some (case newest of
             None \<Rightarrow> (pin, x)
           | Some v \<Rightarrow> snd (output_write hw (parse_digital (val_v v)) (pin, x)))
   })"

definition sync_digital_outputs :: "'x gpio_hw \<Rightarrow> object_tree \<Rightarrow> gpio_manager \<times> 'x \<Rightarrow> (gpio_manager \<times> 'x) option" where
  "sync_digital_outputs hw tree = (\<lambda>(gm, x). do {
     (pins, x) \<leftarrow> sync_pins (sync_output_pin hw tree) (gm_outputs gm) x;
     Some (gm\<lparr>gm_outputs := pins\<rparr>, x)
   })"

text \<open>Direct control of the first pin with a path.\<close>

fun on_first :: "('p \<Rightarrow> bool) \<Rightarrow> ('p \<times> 'x \<Rightarrow> 'r \<times> 'p \<times> 'x) \<Rightarrow> 'p list \<Rightarrow> 'x \<Rightarrow> 'r option \<times> 'p list \<times> 'x" where
  "on_first sel f [] x = (None, [], x)"
| "on_first sel f (p # ps) x =
     (if sel p then (case f (p, x) of (r, p, x) \<Rightarrow> (Some r, p # ps, x))
      else (case on_first sel f ps x of (r, ps, x) \<Rightarrow> (r, p # ps, x)))"

definition write_pwm :: "'x gpio_hw \<Rightarrow> string \<Rightarrow> nat \<Rightarrow> gpio_manager \<times> 'x \<Rightarrow> (string + unit) \<times> gpio_manager \<times> 'x" where
  "write_pwm hw path duty = (\<lambda>(gm, x).
     case on_first (\<lambda>p. pw_path p = path) (set_duty hw duty) (gm_pwm gm) x of
       (None, _, x) \<Rightarrow> (Inl (''no PWM pin at path '' @ [CHR 0x27] @ path @ [CHR 0x27]), gm, x)
     | (Some r, pins, x) \<Rightarrow> (r, gm\<lparr>gm_pwm := pins\<rparr>, x))"

definition write_digital :: "'x gpio_hw \<Rightarrow> string \<Rightarrow> bool \<Rightarrow> gpio_manager \<times> 'x \<Rightarrow> (string + unit) \<times> gpio_manager \<times> 'x" where
  "write_digital hw path high = (\<lambda>(gm, x).
     case on_first (\<lambda>p. do_path p = path) (output_write hw high) (gm_outputs gm) x of
       (None, _, x) \<Rightarrow> (Inl (''no digital output at path '' @ [CHR 0x27] @ path @ [CHR 0x27]), gm, x)
     | (Some (Inl e), pins, x) \<Rightarrow> (Inl (''digital write failed: '' @ e), gm\<lparr>gm_outputs := pins\<rparr>, x)
     | (Some (Inr _), pins, x) \<Rightarrow> (Inr (), gm\<lparr>gm_outputs := pins\<rparr>, x))"

section \<open>One turn of the main loop\<close>

definition has_digital_pins :: "gpio_manager \<Rightarrow> bool" where
  "has_digital_pins gm = (gm_inputs gm \<noteq> [] \<or> gm_outputs gm \<noteq> [])"

definition gpio_turn ::
  "'x gpio_hw \<Rightarrow> f64 \<Rightarrow> f64 \<Rightarrow> gpio_manager \<times> object_tree \<times> 'x \<Rightarrow> (gpio_manager \<times> object_tree \<times> 'x) option" where
  "gpio_turn hw now1 now2 = (\<lambda>(gm, tree, x). do {
     (gm, tree, x) \<leftarrow> (if has_digital_pins gm then poll_digital_inputs hw now1 (gm, tree, x) else Some (gm, tree, x));
     let (events, gm, x) = (if gm_edge gm \<noteq> [] then drain_edge_events hw (gm, x) else ([], gm, x));
     tree \<leftarrow> fold_opt (write_edge_event now2) events tree;
     (gm, x) \<leftarrow> (if gm_pwm gm \<noteq> [] then sync_from_tree hw tree (gm, x) else Some (gm, x));
     (gm, x) \<leftarrow> (if has_digital_pins gm then sync_digital_outputs hw tree (gm, x) else Some (gm, x));
     Some (gm, tree, x)
   })"

end
