(* ===== verification/Bus.thy ===== *)
theory Bus
  imports Gpio Encoding
begin

text \<open>
  The buses of the device: the items, values and encodings of \<open>src/gpio/peripheral/mod.rs\<close>, the
  drivers for UART, SPI and I2C (\<open>uart.rs\<close>, \<open>spi.rs\<close>, \<open>i2c.rs\<close>) and the manager that polls
  them. The drivers of ESP-IDF are a record of functions on an abstract world, and a driver is known
  by a number. A value whose encoding is hex and that has a character of several bytes across a pair
  of digits makes the decoder panic, which is \<open>None\<close> here as everywhere.
\<close>

section \<open>Values on the wire\<close>

definition peripheral_capacity :: nat where "peripheral_capacity = 20"

definition strip_zero_fraction :: "string \<Rightarrow> string" where
  "strip_zero_fraction s = (if ends_with ''.0'' s then take (length s - 2) s else s)"

definition decode_tx_data :: "(f64 \<Rightarrow> string) \<Rightarrow> omi_value \<Rightarrow> data_encoding \<Rightarrow> (string + string) option" where
  "decode_tx_data ryu v e =
     (case v of
        Str s \<Rightarrow> do {
          r \<leftarrow> decode e s;
          Some (case r of Inl (EncodingError m) \<Rightarrow> Inl m | Inr b \<Rightarrow> Inr b)
        }
      | Number n \<Rightarrow> Some (Inr (strip_zero_fraction (ryu n)))
      | Bool b \<Rightarrow> Some (Inr (if b then ''1'' else ''0''))
      | Null \<Rightarrow> Some (Inr []))"

definition encode_rx_data :: "string \<Rightarrow> data_encoding \<Rightarrow> omi_value" where
  "encode_rx_data data e = Str (encode e data)"

definition tx_encoding_from_meta :: "info_item \<Rightarrow> data_encoding" where
  "tx_encoding_from_meta item =
     (case meta_get item ''tx_encoding'' of
        Some (Str s) \<Rightarrow> (case encoding_from_str s of Inr e \<Rightarrow> e | Inl _ \<Rightarrow> EncString)
      | _ \<Rightarrow> EncString)"

section \<open>Items\<close>

definition bus_item :: "string \<Rightarrow> string \<Rightarrow> bool \<Rightarrow> info_item option" where
  "bus_item mode protocol writable = do {
     item \<leftarrow> info_item_new peripheral_capacity;
     let meta = bt_insert ''protocol'' (Str protocol) (bt_insert ''mode'' (Str mode) []);
     Some (item\<lparr>it_meta := Some (if writable then bt_insert ''writable'' (Bool True) meta else meta)\<rparr>)
   }"

definition build_peripheral_items :: "string \<Rightarrow> string \<Rightarrow> (string \<times> info_item) list option" where
  "build_peripheral_items name protocol = do {
     rx \<leftarrow> bus_item (map ascii_lower protocol @ ''_rx'') protocol False;
     tx \<leftarrow> bus_item (map ascii_lower protocol @ ''_tx'') protocol True;
     Some [(name @ ''_'' @ protocol @ ''_RX'', rx), (name @ ''_'' @ protocol @ ''_TX'', tx)]
   }"

datatype peripheral_protocol = I2C | UART | SPI

definition protocol_as_str :: "peripheral_protocol \<Rightarrow> string" where
  "protocol_as_str p = (case p of I2C \<Rightarrow> ''I2C'' | UART \<Rightarrow> ''UART'' | SPI \<Rightarrow> ''SPI'')"

record peripheral_config =
  pc_name :: string
  pc_protocol :: peripheral_protocol

text \<open>\<open>to_uppercase\<close> as far as a comparison with a word of ASCII letters can tell: besides the small
  letters only the dotless i and the long s have such an upper case; the ligatures and the sharp s,
  which have two letters, do not occur in the three words compared with.\<close>

fun ascii_upper :: "string \<Rightarrow> string" where
  "ascii_upper (a # b # s) =
     (if a = CHR 0xC4 \<and> b = CHR 0xB1 then CHR ''I'' # ascii_upper s
      else if a = CHR 0xC5 \<and> b = CHR 0xBF then CHR ''S'' # ascii_upper s
      else (if 97 \<le> (byte_of a :: nat) \<and> byte_of a \<le> (122 :: nat) then char_of (byte_of a - 32 :: nat) else a) # ascii_upper (b # s))"
| "ascii_upper [a] = [if 97 \<le> (byte_of a :: nat) \<and> byte_of a \<le> (122 :: nat) then char_of (byte_of a - 32 :: nat) else a]"
| "ascii_upper [] = []"

definition parse_protocol :: "string \<Rightarrow> peripheral_protocol option" where
  "parse_protocol s =
     (let u = ascii_upper (trim s)
      in if u = ''I2C'' then Some I2C
         else if u = ''UART'' then Some UART
         else if u = ''SPI'' then Some SPI
         else None)"

definition parse_peripheral :: "string \<Rightarrow> peripheral_config option" where
  "parse_peripheral entry =
     (let entry = trim entry;
          proto = takeWhile (\<lambda>c. c \<noteq> CHR '':'') entry
      in case drop (length proto) entry of
           [] \<Rightarrow> None
         | _ # name \<Rightarrow>
             map_option (\<lambda>p. \<lparr>pc_name = trim name, pc_protocol = p\<rparr>) (parse_protocol proto))"

definition parse_peripherals :: "string \<Rightarrow> peripheral_config list" where
  "parse_peripherals s = (if s = [] then [] else List.map_filter parse_peripheral (split_on CHR '','' s))"

definition build_peripheral_items_all :: "peripheral_config list \<Rightarrow> (string \<times> info_item) list option" where
  "build_peripheral_items_all configs =
     map_option concat (those (map (\<lambda>c. build_peripheral_items (pc_name c) (protocol_as_str (pc_protocol c))) configs))"

definition register_bus_items :: "string \<Rightarrow> string \<Rightarrow> string \<Rightarrow> object_tree \<Rightarrow> object_tree option" where
  "register_bus_items rx_path tx_path protocol tree = do {
     let lower = map ascii_lower protocol;
     tree \<leftarrow> init_item rx_path (Str []) (''omi:gpio:'' @ lower @ ''_rx'')
       [(''mode'', Str (lower @ ''_rx'')), (''protocol'', Str protocol)] tree;
     init_item tx_path (Str []) (''omi:gpio:'' @ lower @ ''_tx'')
       [(''mode'', Str (lower @ ''_tx'')), (''protocol'', Str protocol), (''writable'', Bool True)] tree
   }"

section \<open>The buses\<close>

record 'x bus_hw =
  bh_uart_read :: "nat \<Rightarrow> nat \<Rightarrow> 'x \<Rightarrow> (string + string) \<times> 'x"
  bh_uart_write :: "nat \<Rightarrow> string \<Rightarrow> 'x \<Rightarrow> (string + nat) \<times> 'x"
  bh_spi_transfer :: "nat \<Rightarrow> string \<Rightarrow> 'x \<Rightarrow> (string + string) \<times> 'x"
  bh_i2c_read :: "nat \<Rightarrow> nat \<Rightarrow> nat \<Rightarrow> 'x \<Rightarrow> (string + string) \<times> 'x"
  bh_i2c_write :: "nat \<Rightarrow> nat \<Rightarrow> string \<Rightarrow> 'x \<Rightarrow> (string + unit) \<times> 'x"

type_synonym sent = "omi_value \<times> f64 option"

record uart_bus =
  ub_driver :: nat
  ub_rx_path :: string
  ub_tx_path :: string
  ub_last_tx :: "sent option"

record spi_bus =
  sb_device :: nat
  sb_rx_path :: string
  sb_tx_path :: string
  sb_last_tx :: "sent option"

record i2c_bus =
  ib_driver :: nat
  ib_rx_path :: string
  ib_tx_path :: string
  ib_device_path :: string
  ib_name :: string
  ib_last_tx :: "sent option"
  ib_discovered :: "nat list"

definition bus_path :: "string \<Rightarrow> string \<Rightarrow> string \<Rightarrow> string" where
  "bus_path device_path name ending = device_path @ ''/'' @ name @ ending"

definition uart_new :: "string \<Rightarrow> string \<Rightarrow> nat \<Rightarrow> uart_bus" where
  "uart_new device_path name driver =
     \<lparr>ub_driver = driver, ub_rx_path = bus_path device_path name ''_UART_RX'',
      ub_tx_path = bus_path device_path name ''_UART_TX'', ub_last_tx = None\<rparr>"

definition spi_new :: "string \<Rightarrow> string \<Rightarrow> nat \<Rightarrow> spi_bus" where
  "spi_new device_path name device =
     \<lparr>sb_device = device, sb_rx_path = bus_path device_path name ''_SPI_RX'',
      sb_tx_path = bus_path device_path name ''_SPI_TX'', sb_last_tx = None\<rparr>"

definition i2c_new :: "string \<Rightarrow> string \<Rightarrow> nat \<Rightarrow> i2c_bus" where
  "i2c_new device_path name driver =
     \<lparr>ib_driver = driver, ib_rx_path = bus_path device_path name ''_I2C_RX'',
      ib_tx_path = bus_path device_path name ''_I2C_TX'', ib_device_path = device_path, ib_name = name,
      ib_last_tx = None, ib_discovered = []\<rparr>"

text \<open>Equality of what was sent, as \<open>PartialEq\<close> derives it: a NaN differs from itself.\<close>

fun same_value :: "omi_value \<Rightarrow> omi_value \<Rightarrow> bool" where
  "same_value (Number a) (Number b) = f64_eq a b"
| "same_value v w = (v = w)"

definition same_time :: "f64 option \<Rightarrow> f64 option \<Rightarrow> bool" where
  "same_time t u = (case (t, u) of (Some a, Some b) \<Rightarrow> f64_eq a b | (None, None) \<Rightarrow> True | _ \<Rightarrow> False)"

definition already_sent :: "sent option \<Rightarrow> sent \<Rightarrow> bool" where
  "already_sent l current =
     (case l of None \<Rightarrow> False | Some (v, t) \<Rightarrow> same_value v (fst current) \<and> same_time t (snd current))"

text \<open>The newest value of a TX item with the encoding of the item.\<close>

definition tx_value :: "object_tree \<Rightarrow> string \<Rightarrow> (sent \<times> data_encoding) option option" where
  "tx_value tree path =
     (case resolve tree path of
        Inr (PtInfoItem item) \<Rightarrow> do {
          vals \<leftarrow> query_values item (Some 1) None None None;
          Some (case vals of v # _ \<Rightarrow> Some ((val_v v, val_t v), tx_encoding_from_meta item) | [] \<Rightarrow> None)
        }
      | _ \<Rightarrow> Some None)"

text \<open>What has to be transmitted: nothing and nothing to remember, a value to remember, or a value
  with its bytes.\<close>

datatype tx_step = Unchanged | Remember sent | Transmit sent string data_encoding

definition next_tx :: "(f64 \<Rightarrow> string) \<Rightarrow> sent option \<Rightarrow> object_tree \<Rightarrow> string \<Rightarrow> tx_step option" where
  "next_tx ryu last_tx tree path = do {
     newest \<leftarrow> tx_value tree path;
     case newest of
       None \<Rightarrow> Some Unchanged
     | Some (current, e) \<Rightarrow>
         (if already_sent last_tx current then Some Unchanged
          else do {
            r \<leftarrow> decode_tx_data ryu (fst current) e;
            Some (case r of
                    Inr [] \<Rightarrow> Remember current
                  | Inr bytes \<Rightarrow> Transmit current bytes e
                  | Inl _ \<Rightarrow> Remember current)
          })
   }"

section \<open>UART\<close>

definition rx_buf_size :: nat where "rx_buf_size = 256"

definition uart_poll_rx :: "'x bus_hw \<Rightarrow> f64 \<Rightarrow> uart_bus \<Rightarrow> object_tree \<times> 'x \<Rightarrow> (object_tree \<times> 'x) option" where
  "uart_poll_rx hw now bus = (\<lambda>(tree, x).
     (case bh_uart_read hw (ub_driver bus) rx_buf_size x of
        (Inr data, x) \<Rightarrow>
          (if data = [] then Some (tree, x)
           else map_option (\<lambda>tree. (tree, x))
                  (write_input (ub_rx_path bus) (encode_rx_data data EncString) now tree))
      | (Inl _, x) \<Rightarrow> Some (tree, x)))"

definition uart_sync_tx :: "'x bus_hw \<Rightarrow> (f64 \<Rightarrow> string) \<Rightarrow> object_tree \<Rightarrow> uart_bus \<times> 'x \<Rightarrow> (uart_bus \<times> 'x) option" where
  "uart_sync_tx hw ryu tree = (\<lambda>(bus, x). do {
     step \<leftarrow> next_tx ryu (ub_last_tx bus) tree (ub_tx_path bus);
     Some (case step of
             Unchanged \<Rightarrow> (bus, x)
           | Remember current \<Rightarrow> (bus\<lparr>ub_last_tx := Some current\<rparr>, x)
           | Transmit current bytes _ \<Rightarrow>
               (bus\<lparr>ub_last_tx := Some current\<rparr>, snd (bh_uart_write hw (ub_driver bus) bytes x)))
   })"

section \<open>SPI\<close>

definition spi_poll ::
  "'x bus_hw \<Rightarrow> (f64 \<Rightarrow> string) \<Rightarrow> f64 \<Rightarrow> spi_bus \<times> object_tree \<times> 'x \<Rightarrow> (spi_bus \<times> object_tree \<times> 'x) option" where
  "spi_poll hw ryu now = (\<lambda>(bus, tree, x). do {
     step \<leftarrow> next_tx ryu (sb_last_tx bus) tree (sb_tx_path bus);
     case step of
       Unchanged \<Rightarrow> Some (bus, tree, x)
     | Remember current \<Rightarrow> Some (bus\<lparr>sb_last_tx := Some current\<rparr>, tree, x)
     | Transmit current bytes e \<Rightarrow>
         (let bus' = bus\<lparr>sb_last_tx := Some current\<rparr>
          in case bh_spi_transfer hw (sb_device bus) bytes x of
               (Inr rx, x) \<Rightarrow> map_option (\<lambda>tree. (bus', tree, x))
                 (write_input (sb_rx_path bus) (encode_rx_data rx e) now tree)
             | (Inl _, x) \<Rightarrow> Some (bus', tree, x))
   })"

section \<open>I2C\<close>

definition scan_addr_start :: nat where "scan_addr_start = 0x08"
definition scan_addr_end :: nat where "scan_addr_end = 0x77"
definition default_rx_len :: nat where "default_rx_len = 32"

fun probe_all :: "'x bus_hw \<Rightarrow> nat \<Rightarrow> nat list \<Rightarrow> 'x \<Rightarrow> nat list \<times> 'x" where
  "probe_all hw driver [] x = ([], x)"
| "probe_all hw driver (addr # as) x =
     (case bh_i2c_read hw driver addr 1 x of (r, x) \<Rightarrow>
        (case probe_all hw driver as x of (found, x) \<Rightarrow> (if is_ok r then addr # found else found, x)))"

definition i2c_scan :: "'x bus_hw \<Rightarrow> i2c_bus \<times> 'x \<Rightarrow> nat list \<times> i2c_bus \<times> 'x" where
  "i2c_scan hw = (\<lambda>(bus, x).
     (case probe_all hw (ib_driver bus) [scan_addr_start..<scan_addr_end + 1] x of
        (found, x) \<Rightarrow> (found, bus\<lparr>ib_discovered := found\<rparr>, x)))"

definition i2c_device :: "nat \<Rightarrow> object option" where
  "i2c_device addr = do {
     item \<leftarrow> info_item_new 1;
     item \<leftarrow> add_value (Number (f64_of_int (int addr))) None item;
     Some (add_item ''address'' item
       (with_type (Some ''omi:i2c:device'') (object_new (''I2C_0x'' @ hex_byte (char_of addr)))))
   }"

definition register_device :: "string \<Rightarrow> nat \<Rightarrow> object_tree \<Rightarrow> object_tree option" where
  "register_device device_path addr tree = do {
     child \<leftarrow> i2c_device addr;
     Some (fst (write_tree device_path [(''I2C_0x'' @ hex_byte (char_of addr), child)] tree))
   }"

definition register_discovered :: "i2c_bus \<Rightarrow> object_tree \<Rightarrow> object_tree option" where
  "register_discovered bus tree = fold_opt (register_device (ib_device_path bus)) (ib_discovered bus) tree"

definition i2c_sync_tx :: "'x bus_hw \<Rightarrow> (f64 \<Rightarrow> string) \<Rightarrow> object_tree \<Rightarrow> i2c_bus \<times> 'x \<Rightarrow> (i2c_bus \<times> 'x) option" where
  "i2c_sync_tx hw ryu tree = (\<lambda>(bus, x). do {
     step \<leftarrow> next_tx ryu (ib_last_tx bus) tree (ib_tx_path bus);
     Some (case step of
             Unchanged \<Rightarrow> (bus, x)
           | Remember current \<Rightarrow> (bus\<lparr>ib_last_tx := Some current\<rparr>, x)
           | Transmit current bytes _ \<Rightarrow>
               (bus\<lparr>ib_last_tx := Some current\<rparr>,
                case ib_discovered bus of
                  addr # _ \<Rightarrow> snd (bh_i2c_write hw (ib_driver bus) addr bytes x)
                | [] \<Rightarrow> x))
   })"

definition trim_zeros :: "string \<Rightarrow> string" where
  "trim_zeros b = rev (dropWhile (\<lambda>c. c = CHR 0x00) (rev b))"

definition i2c_poll_rx :: "'x bus_hw \<Rightarrow> f64 \<Rightarrow> i2c_bus \<Rightarrow> object_tree \<times> 'x \<Rightarrow> (object_tree \<times> 'x) option" where
  "i2c_poll_rx hw now bus = (\<lambda>(tree, x).
     (case ib_discovered bus of
        [] \<Rightarrow> Some (tree, x)
      | addr # _ \<Rightarrow>
          (case bh_i2c_read hw (ib_driver bus) addr default_rx_len x of
             (Inr buf, x) \<Rightarrow>
               (if trim_zeros buf = [] then Some (tree, x)
                else map_option (\<lambda>tree. (tree, x))
                       (write_input (ib_rx_path bus) (encode_rx_data (trim_zeros buf) EncString) now tree))
           | (Inl _, x) \<Rightarrow> Some (tree, x))))"

section \<open>The manager\<close>

record peripheral_manager =
  pm_uart :: "uart_bus list"
  pm_spi :: "spi_bus list"
  pm_i2c :: "i2c_bus list"

definition peripheral_manager_new :: peripheral_manager where
  "peripheral_manager_new = \<lparr>pm_uart = [], pm_spi = [], pm_i2c = []\<rparr>"

definition add_uart :: "uart_bus \<Rightarrow> peripheral_manager \<Rightarrow> peripheral_manager" where
  "add_uart bus pm = pm\<lparr>pm_uart := pm_uart pm @ [bus]\<rparr>"

definition add_spi :: "spi_bus \<Rightarrow> peripheral_manager \<Rightarrow> peripheral_manager" where
  "add_spi bus pm = pm\<lparr>pm_spi := pm_spi pm @ [bus]\<rparr>"

definition add_i2c :: "i2c_bus \<Rightarrow> peripheral_manager \<Rightarrow> peripheral_manager" where
  "add_i2c bus pm = pm\<lparr>pm_i2c := pm_i2c pm @ [bus]\<rparr>"

fun scan_buses :: "'x bus_hw \<Rightarrow> i2c_bus list \<Rightarrow> 'x \<Rightarrow> i2c_bus list \<times> 'x" where
  "scan_buses hw [] x = ([], x)"
| "scan_buses hw (bus # buses) x =
     (case i2c_scan hw (bus, x) of (_, bus, x) \<Rightarrow>
        (case scan_buses hw buses x of (buses, x) \<Rightarrow> (bus # buses, x)))"

definition scan_i2c :: "'x bus_hw \<Rightarrow> peripheral_manager \<times> 'x \<Rightarrow> peripheral_manager \<times> 'x" where
  "scan_i2c hw = (\<lambda>(pm, x). case scan_buses hw (pm_i2c pm) x of (buses, x) \<Rightarrow> (pm\<lparr>pm_i2c := buses\<rparr>, x))"

definition register_i2c :: "i2c_bus \<Rightarrow> object_tree \<Rightarrow> object_tree option" where
  "register_i2c bus tree = do {
     tree \<leftarrow> register_bus_items (ib_rx_path bus) (ib_tx_path bus) ''I2C'' tree;
     register_discovered bus tree
   }"

definition bus_register_tree_items :: "peripheral_manager \<Rightarrow> object_tree \<Rightarrow> object_tree option" where
  "bus_register_tree_items pm tree = do {
     tree \<leftarrow> fold_opt (\<lambda>b. register_bus_items (ub_rx_path b) (ub_tx_path b) ''UART'') (pm_uart pm) tree;
     tree \<leftarrow> fold_opt (\<lambda>b. register_bus_items (sb_rx_path b) (sb_tx_path b) ''SPI'') (pm_spi pm) tree;
     fold_opt register_i2c (pm_i2c pm) tree
   }"

definition poll_uart ::
  "'x bus_hw \<Rightarrow> (f64 \<Rightarrow> string) \<Rightarrow> f64 \<Rightarrow> uart_bus \<times> object_tree \<times> 'x \<Rightarrow> (uart_bus \<times> object_tree \<times> 'x) option" where
  "poll_uart hw ryu now = (\<lambda>(bus, tree, x). do {
     (tree, x) \<leftarrow> uart_poll_rx hw now bus (tree, x);
     (bus, x) \<leftarrow> uart_sync_tx hw ryu tree (bus, x);
     Some (bus, tree, x)
   })"

definition poll_i2c ::
  "'x bus_hw \<Rightarrow> (f64 \<Rightarrow> string) \<Rightarrow> f64 \<Rightarrow> i2c_bus \<times> object_tree \<times> 'x \<Rightarrow> (i2c_bus \<times> object_tree \<times> 'x) option" where
  "poll_i2c hw ryu now = (\<lambda>(bus, tree, x). do {
     (tree, x) \<leftarrow> i2c_poll_rx hw now bus (tree, x);
     (bus, x) \<leftarrow> i2c_sync_tx hw ryu tree (bus, x);
     Some (bus, tree, x)
   })"

definition poll_peripherals ::
  "'x bus_hw \<Rightarrow> (f64 \<Rightarrow> string) \<Rightarrow> f64 \<Rightarrow> peripheral_manager \<times> object_tree \<times> 'x \<Rightarrow>
   (peripheral_manager \<times> object_tree \<times> 'x) option" where
  "poll_peripherals hw ryu now = (\<lambda>(pm, s). do {
     (us, s) \<leftarrow> sync_pins (poll_uart hw ryu now) (pm_uart pm) s;
     (ss, s) \<leftarrow> sync_pins (spi_poll hw ryu now) (pm_spi pm) s;
     (cs, s) \<leftarrow> sync_pins (poll_i2c hw ryu now) (pm_i2c pm) s;
     Some (\<lparr>pm_uart = us, pm_spi = ss, pm_i2c = cs\<rparr>, s)
   })"

definition has_buses :: "peripheral_manager \<Rightarrow> bool" where
  "has_buses pm = (pm_uart pm \<noteq> [] \<or> pm_spi pm \<noteq> [] \<or> pm_i2c pm \<noteq> [])"

end
