(* ===== verification/GpioSpec.thy ===== *)
theory GpioSpec
  imports Gpio
begin

text \<open>
  What the pins of the device do in every run: a pin is never used twice, the value remembered for an
  output is the one its driver was last set to, and after a turn of the main loop the outputs have the
  newest values of their items. The behaviour of the drivers that is relied on is \<open>faithful\<close>.
\<close>

section \<open>Reading the tree\<close>

lemma newest_at_ok:
  assumes "tree_ok tree"
  shows "\<exists>r. newest_at tree path = Some r"
proof (cases "resolve tree path")
  case (Inr target)
  show ?thesis
  proof (cases target)
    case (PtInfoItem item)
    have "item_ok item" using resolve_item_ok assms Inr PtInfoItem by blast
    then show ?thesis using Inr PtInfoItem by (simp add: newest_at_def query_values_ok)
  qed (simp_all add: newest_at_def Inr)
qed (simp add: newest_at_def)

section \<open>Pins one after the other\<close>

lemma sync_pins_spec:
  assumes "\<And>p x. p \<in> set ps \<Longrightarrow> pre p (st x (k p)) \<Longrightarrow>
      \<exists>p' x'. f (p, x) = Some (p', x') \<and> k p' = k p \<and> path p' = path p \<and>
        (\<forall>q. q \<noteq> k p \<longrightarrow> st x' q = st x q) \<and> other x' = other x \<and> post p' (st x' (k p))"
    and "distinct (map k ps)" "\<And>p. p \<in> set ps \<Longrightarrow> pre p (st x (k p))"
  shows "\<exists>ps' x'. sync_pins f ps x = Some (ps', x') \<and> map k ps' = map k ps \<and> map path ps' = map path ps \<and>
    (\<forall>q. q \<notin> k ` set ps \<longrightarrow> st x' q = st x q) \<and> other x' = other x \<and> (\<forall>p \<in> set ps'. post p (st x' (k p)))"
  using assms
proof (induction ps arbitrary: x)
  case (Cons p ps)
  from Cons.prems(1) [OF _ Cons.prems(3)] obtain p' x1 where p':
    "f (p, x) = Some (p', x1) \<and> k p' = k p \<and> path p' = path p \<and>
     (\<forall>q. q \<noteq> k p \<longrightarrow> st x1 q = st x q) \<and> other x1 = other x \<and> post p' (st x1 (k p))"
    by fastforce
  have "pre q (st x1 (k q))" if "q \<in> set ps" for q
  proof -
    have "k q \<noteq> k p" using that Cons.prems(2) by (auto simp: image_iff)
    then show ?thesis using p' Cons.prems(3) [of q] that by simp
  qed
  from Cons.IH [OF Cons.prems(1) _ this] Cons.prems(2) obtain ps' x2 where ps':
    "sync_pins f ps x1 = Some (ps', x2) \<and> map k ps' = map k ps \<and> map path ps' = map path ps \<and>
     (\<forall>q. q \<notin> k ` set ps \<longrightarrow> st x2 q = st x1 q) \<and> other x2 = other x1 \<and> (\<forall>p \<in> set ps'. post p (st x2 (k p)))"
    by fastforce
  have "k p \<notin> k ` set ps" using Cons.prems(2) by simp
  with p' ps' show ?case by auto
qed simp

section \<open>What is relied on\<close>

definition undisturbed :: "('x \<Rightarrow> nat \<Rightarrow> nat) \<Rightarrow> ('x \<Rightarrow> nat \<Rightarrow> bool) \<Rightarrow> ('x \<Rightarrow> 'r \<times> 'x) \<Rightarrow> bool" where
  "undisturbed duty level f \<longleftrightarrow> (\<forall>x. duty (snd (f x)) = duty x \<and> level (snd (f x)) = level x)"

text \<open>What the drivers document: a call that succeeds sets the output of its pin, a call that fails
  leaves it, and no call changes another pin. A new LEDC channel starts with duty 0.\<close>

definition faithful :: "'x gpio_hw \<Rightarrow> ('x \<Rightarrow> nat \<Rightarrow> nat) \<Rightarrow> ('x \<Rightarrow> nat \<Rightarrow> bool) \<Rightarrow> bool" where
  "faithful hw duty level \<longleftrightarrow>
     (\<forall>p d x. case hw_set_duty hw p d x of (r, x') \<Rightarrow>
        duty x' = (if r = Inr () then (duty x)(p := d) else duty x) \<and> level x' = level x) \<and>
     (\<forall>p b x. case hw_set_level hw p b x of (r, x') \<Rightarrow>
        level x' = (if r = Inr () then (level x)(p := b) else level x) \<and> duty x' = duty x) \<and>
     (\<forall>p x. case hw_ledc_channel hw p x of (r, x') \<Rightarrow>
        duty x' = (if r = Inr () then (duty x)(p := 0) else duty x) \<and> level x' = level x) \<and>
     (\<forall>p x. case hw_output hw p x of (r, x') \<Rightarrow>
        duty x' = duty x \<and> (\<forall>q. q \<noteq> p \<longrightarrow> level x' q = level x q)) \<and>
     (\<forall>p. undisturbed duty level (hw_input hw p) \<and> undisturbed duty level (hw_is_high hw p) \<and>
        undisturbed duty level (hw_subscribe hw p) \<and> undisturbed duty level (hw_enable_interrupt hw p) \<and>
        undisturbed duty level (hw_adc_channel hw p) \<and> undisturbed duty level (hw_read_raw hw p) \<and>
        (\<forall>f. undisturbed duty level (hw_ledc_timer hw p f)) \<and>
        (\<forall>e. undisturbed duty level (hw_interrupt_type hw p e)))"

section \<open>The invariant\<close>

definition pins_of :: "gpio_manager \<Rightarrow> nat list" where
  "pins_of gm = map pw_driver (gm_pwm gm) @ map ed_pin_num (gm_edge gm) @ map ad_pin_num (gm_adc gm) @
     map di_pin_num (gm_inputs gm) @ map do_pin_num (gm_outputs gm)"

definition pwm_ok :: "pwm_pin \<Rightarrow> nat \<Rightarrow> bool" where
  "pwm_ok p d \<longleftrightarrow> pw_last_duty p = d \<and> d \<le> pwm_max_duty"

definition output_ok :: "digital_output_pin \<Rightarrow> bool \<Rightarrow> bool" where
  "output_ok p b \<longleftrightarrow> do_last_level p = Some b"

definition outputs_ok :: "(nat \<Rightarrow> nat) \<Rightarrow> (nat \<Rightarrow> bool) \<Rightarrow> gpio_manager \<Rightarrow> bool" where
  "outputs_ok duty level gm \<longleftrightarrow> distinct (pins_of gm) \<and> set (pins_of gm) \<subseteq> dom (gm_registry gm) \<and>
     (\<forall>p \<in> set (gm_pwm gm). pwm_ok p (duty (pw_driver p))) \<and>
     (\<forall>p \<in> set (gm_outputs gm). output_ok p (level (do_pin_num p)))"

lemma outputs_ok_new: "outputs_ok duty level gpio_manager_new"
  by (simp add: outputs_ok_def gpio_manager_new_def pins_of_def)

lemma outputs_ok_cong:
  assumes "outputs_ok duty level gm" "\<And>q. q \<in> set (pins_of gm) \<Longrightarrow> duty' q = duty q \<and> level' q = level q"
  shows "outputs_ok duty' level' gm"
proof -
  have "duty' (pw_driver p) = duty (pw_driver p)" if "p \<in> set (gm_pwm gm)" for p
    using assms(2) [of "pw_driver p"] that by (simp add: pins_of_def)
  moreover have "level' (do_pin_num p) = level (do_pin_num p)" if "p \<in> set (gm_outputs gm)" for p
    using assms(2) [of "do_pin_num p"] that by (simp add: pins_of_def)
  ultimately show ?thesis using assms(1) by (simp add: outputs_ok_def)
qed

lemma pins_of_registry [simp]: "pins_of (gm\<lparr>gm_registry := r\<rparr>) = pins_of gm"
  by (simp add: pins_of_def)

lemma outputs_ok_register:
  "outputs_ok duty level gm \<Longrightarrow> outputs_ok duty level (gm\<lparr>gm_registry := (gm_registry gm)(pin \<mapsto> why)\<rparr>)"
  by (auto simp: outputs_ok_def)

text \<open>A pin is only added when no other use of it is registered.\<close>

lemma add_pin_ok:
  assumes ok: "outputs_ok (duty x) (level x) gm" and r: "add_pin pin why setup store (gm, x) = (r, gm', x')"
    and others: "\<And>x r x' q. setup x = (r, x') \<Longrightarrow> q \<noteq> pin \<Longrightarrow> duty x' q = duty x q \<and> level x' q = level x q"
    and store: "\<And>g x x'. setup x = (Inr (), x') \<Longrightarrow> outputs_ok (duty x') (level x') g \<Longrightarrow>
       pin \<notin> set (pins_of g) \<Longrightarrow> pin \<in> dom (gm_registry g) \<Longrightarrow> outputs_ok (duty x') (level x') (store g)"
  shows "outputs_ok (duty x') (level x') gm'"
proof (cases "gm_registry gm pin")
  case None
  let ?g = "gm\<lparr>gm_registry := (gm_registry gm)(pin \<mapsto> why)\<rparr>"
  have p: "pin \<notin> set (pins_of ?g)" using None ok by (auto simp: outputs_ok_def)
  obtain s y where s: "setup x = (s, y)" by fastforce
  have y: "outputs_ok (duty y) (level y) ?g"
    by (rule outputs_ok_cong [OF outputs_ok_register [OF ok]], rule others [OF s]) (use p in auto)
  show ?thesis
  proof (cases s)
    case (Inl e)
    with r s None y show ?thesis by (simp add: add_pin_def register_pin_def Let_def)
  next
    case (Inr u)
    have "outputs_ok (duty y) (level y) (store ?g)"
      by (rule store [OF _ y p]) (use s Inr in simp_all)
    with r s None Inr show ?thesis by (simp add: add_pin_def register_pin_def Let_def)
  qed
qed (use ok r in \<open>auto simp: add_pin_def register_pin_def\<close>)

lemma undisturbedD: "undisturbed duty level f \<Longrightarrow> f x = (r, x') \<Longrightarrow> duty x' = duty x \<and> level x' = level x"
  unfolding undisturbed_def by (metis snd_conv)

lemma driver_then_undisturbed:
  "undisturbed duty level f \<Longrightarrow> undisturbed duty level g \<Longrightarrow> undisturbed duty level (driver_then f g)"
  unfolding undisturbed_def driver_then_def by (auto split: prod.splits sum.splits) (metis snd_conv)+

lemma faithful_duty:
  "faithful hw duty level \<Longrightarrow> hw_set_duty hw p d x = (r, x') \<Longrightarrow>
     duty x' = (if r = Inr () then (duty x)(p := d) else duty x) \<and> level x' = level x"
  unfolding faithful_def by (drule conjunct1, drule spec [of _ p], drule spec [of _ d], drule spec [of _ x]) simp

lemma faithful_level:
  "faithful hw duty level \<Longrightarrow> hw_set_level hw p b x = (r, x') \<Longrightarrow>
     level x' = (if r = Inr () then (level x)(p := b) else level x) \<and> duty x' = duty x"
  unfolding faithful_def
  by (drule conjunct2, drule conjunct1, drule spec [of _ p], drule spec [of _ b], drule spec [of _ x]) simp

lemma faithful_channel:
  "faithful hw duty level \<Longrightarrow> hw_ledc_channel hw p x = (r, x') \<Longrightarrow>
     duty x' = (if r = Inr () then (duty x)(p := 0) else duty x) \<and> level x' = level x"
  unfolding faithful_def
  by (drule conjunct2, drule conjunct2, drule conjunct1, drule spec [of _ p], drule spec [of _ x]) simp

lemma faithful_output:
  "faithful hw duty level \<Longrightarrow> hw_output hw p x = (r, x') \<Longrightarrow>
     duty x' = duty x \<and> (\<forall>q. q \<noteq> p \<longrightarrow> level x' q = level x q)"
  unfolding faithful_def
  by (drule conjunct2, drule conjunct2, drule conjunct2, drule conjunct1, drule spec [of _ p], drule spec [of _ x]) simp

lemma faithful_undisturbed:
  assumes "faithful hw duty level"
  shows "undisturbed duty level (hw_input hw p)" "undisturbed duty level (hw_is_high hw p)"
    "undisturbed duty level (hw_subscribe hw p)" "undisturbed duty level (hw_enable_interrupt hw p)"
    "undisturbed duty level (hw_adc_channel hw p)" "undisturbed duty level (hw_read_raw hw p)"
    "undisturbed duty level (hw_ledc_timer hw p f)" "undisturbed duty level (hw_interrupt_type hw p e)"
  using assms [unfolded faithful_def, THEN conjunct2, THEN conjunct2, THEN conjunct2, THEN conjunct2, THEN spec, of p]
  by simp_all

section \<open>Adding pins\<close>

lemma add_pwm_ok:
  assumes "faithful hw duty level" "outputs_ok (duty x) (level x) gm" "add_pwm hw path pin (gm, x) = (r, gm', x')"
  shows "outputs_ok (duty x') (level x') gm'"
proof (rule add_pin_ok [where duty = duty and level = level, OF assms(2) assms(3) [unfolded add_pwm_def]])
  fix x r x' q
  assume h: "driver_then (hw_ledc_timer hw pin default_freq_hz) (hw_ledc_channel hw pin) x = (r, x')" "q \<noteq> pin"
  obtain t y where t: "hw_ledc_timer hw pin default_freq_hz x = (t, y)" by fastforce
  note u = undisturbedD [OF faithful_undisturbed(7) [OF assms(1)] t]
  show "duty x' q = duty x q \<and> level x' q = level x q"
    using h t u by (cases t) (auto simp: driver_then_def dest: faithful_channel [OF assms(1)])
next
  fix g x x'
  assume h: "driver_then (hw_ledc_timer hw pin default_freq_hz) (hw_ledc_channel hw pin) x = (Inr (), x')"
    "outputs_ok (duty x') (level x') g" "pin \<notin> set (pins_of g)" "pin \<in> dom (gm_registry g)"
  have "duty x' pin = 0"
    using h(1) by (auto simp: driver_then_def split: prod.splits sum.splits dest: faithful_channel [OF assms(1)])
  with h(2-4) show "outputs_ok (duty x') (level x') (g\<lparr>gm_pwm := gm_pwm g @ [\<lparr>pw_path = path, pw_driver = pin, pw_last_duty = 0\<rparr>]\<rparr>)"
    by (auto simp: outputs_ok_def pins_of_def pwm_ok_def)
qed

text \<open>Pins that are only read.\<close>

lemma add_input_ok:
  assumes "undisturbed duty level setup" "outputs_ok (duty x) (level x) gm"
    and "add_pin pin why setup store (gm, x) = (r, gm', x')"
    and "\<And>g. set (pins_of (store g)) = insert pin (set (pins_of g)) \<and>
      (pin \<notin> set (pins_of g) \<longrightarrow> distinct (pins_of g) \<longrightarrow> distinct (pins_of (store g))) \<and> gm_pwm (store g) = gm_pwm g \<and>
      gm_outputs (store g) = gm_outputs g \<and> gm_registry (store g) = gm_registry g"
  shows "outputs_ok (duty x') (level x') gm'"
proof (rule add_pin_ok [where duty = duty and level = level, OF assms(2,3)])
  fix x r x' q
  assume "setup x = (r, x')"
  from undisturbedD [OF assms(1) this] show "duty x' q = duty x q \<and> level x' q = level x q" by simp
next
  fix g x x'
  assume h: "outputs_ok (duty x') (level x') g" "pin \<notin> set (pins_of g)" "pin \<in> dom (gm_registry g)"
  then show "outputs_ok (duty x') (level x') (store g)"
    using assms(4) [of g] by (simp add: outputs_ok_def)
qed

lemma add_edge_pin_ok:
  assumes "faithful hw duty level" "outputs_ok (duty x) (level x) gm" "add_edge_pin hw path pin e (gm, x) = (r, gm', x')"
  shows "outputs_ok (duty x') (level x') gm'"
  by (rule add_input_ok [where duty = duty and level = level, OF _ assms(2) assms(3) [unfolded add_edge_pin_def]])
    (intro driver_then_undisturbed faithful_undisturbed assms(1), simp add: pins_of_def)

lemma add_adc_ok:
  assumes "faithful hw duty level" "outputs_ok (duty x) (level x) gm" "add_adc hw path pin (gm, x) = (r, gm', x')"
  shows "outputs_ok (duty x') (level x') gm'"
  by (rule add_input_ok [where duty = duty and level = level, OF _ assms(2) assms(3) [unfolded add_adc_def]])
    (intro faithful_undisturbed assms(1), simp add: pins_of_def)

lemma add_digital_in_ok:
  assumes "faithful hw duty level" "outputs_ok (duty x) (level x) gm" "add_digital_in hw path pin (gm, x) = (r, gm', x')"
  shows "outputs_ok (duty x') (level x') gm'"
  by (rule add_input_ok [where duty = duty and level = level, OF _ assms(2) assms(3) [unfolded add_digital_in_def]])
    (intro faithful_undisturbed assms(1), simp add: pins_of_def)

lemma add_digital_out_ok:
  assumes "faithful hw duty level" "outputs_ok (duty x) (level x) gm" "add_digital_out hw path pin (gm, x) = (r, gm', x')"
  shows "outputs_ok (duty x') (level x') gm'"
proof (rule add_pin_ok [where duty = duty and level = level, OF assms(2) assms(3) [unfolded add_digital_out_def]])
  fix x r x' q
  assume h: "driver_then (hw_output hw pin) (hw_set_level hw pin False) x = (r, x')" "q \<noteq> pin"
  obtain t y where t: "hw_output hw pin x = (t, y)" by fastforce
  note u = faithful_output [OF assms(1) t]
  show "duty x' q = duty x q \<and> level x' q = level x q"
  proof (cases t)
    case (Inr v)
    with h(1) t have "hw_set_level hw pin False y = (r, x')" by (simp add: driver_then_def)
    from faithful_level [OF assms(1) this] u h(2) show ?thesis by simp
  qed (use h t u in \<open>simp add: driver_then_def\<close>)
next
  fix g x x'
  assume h: "driver_then (hw_output hw pin) (hw_set_level hw pin False) x = (Inr (), x')"
    "outputs_ok (duty x') (level x') g" "pin \<notin> set (pins_of g)" "pin \<in> dom (gm_registry g)"
  have "level x' pin = False"
    using h(1) by (auto simp: driver_then_def split: prod.splits sum.splits dest: faithful_level [OF assms(1)])
  with h(2-4) show "outputs_ok (duty x') (level x') (g\<lparr>gm_outputs := gm_outputs g @ [\<lparr>do_path = path, do_pin_num = pin, do_last_level = Some False\<rparr>]\<rparr>)"
    by (auto simp: outputs_ok_def pins_of_def output_ok_def)
qed

section \<open>Inputs never disturb outputs\<close>

lemma write_input_ok:
  "tree_ok tree \<Longrightarrow> \<exists>tree'. write_input path v now tree = Some tree' \<and> tree_ok tree'"
  using write_value_total [of tree path v "Some now"] by (auto simp: write_input_def)

lemma poll_inputs_ok:
  assumes "faithful hw duty level" "tree_ok tree"
  shows "\<exists>pins' tree' x'. poll_inputs hw now pins (tree, x) = Some (pins', tree', x') \<and> tree_ok tree' \<and>
    map di_pin_num pins' = map di_pin_num pins \<and> duty x' = duty x \<and> level x' = level x"
  using assms(2)
proof (induction pins arbitrary: tree x)
  case (Cons pin pins)
  obtain l y where l: "hw_is_high hw (di_pin_num pin) x = (l, y)" by fastforce
  obtain c p where c: "input_poll l pin = (c, p)" by fastforce
  have p: "di_pin_num p = di_pin_num pin" using c by (auto simp: input_poll_def split: if_splits)
  obtain t where t: "(case c of Some l \<Rightarrow> write_input (di_path p) (Number (if l then Fin 1 else Fin 0)) now tree
      | None \<Rightarrow> Some tree) = Some t" "tree_ok t"
    using write_input_ok [OF Cons.prems] Cons.prems by (cases c) (simp, metis option.case(2))
  from Cons.IH [OF t(2)] obtain ps tree' x' where ps: "poll_inputs hw now pins (t, y) = Some (ps, tree', x') \<and> tree_ok tree' \<and>
    map di_pin_num ps = map di_pin_num pins \<and> duty x' = duty y \<and> level x' = level y" by blast
  with undisturbedD [OF faithful_undisturbed(2) [OF assms(1)] l] l c t p show ?case by simp
qed simp

lemma drain_pins_ok:
  assumes "faithful hw duty level" "drain_pins hw pins x = (events, pins', x')"
  shows "map ed_pin_num pins' = map ed_pin_num pins \<and> duty x' = duty x \<and> level x' = level x"
  using assms(2)
proof (induction pins arbitrary: x events pins' x')
  case (Cons pin pins)
  then show ?case
    using faithful_undisturbed(4) [OF assms(1), of "ed_pin_num pin"]
    by (fastforce split: if_splits prod.splits dest: undisturbedD)
qed simp

lemma write_edge_events_ok:
  "tree_ok tree \<Longrightarrow> \<exists>tree'. fold_opt (write_edge_event now) events tree = Some tree' \<and> tree_ok tree'"
proof (induction events arbitrary: tree)
  case (Cons e events)
  then obtain t where "write_edge_event now e tree = Some t" "tree_ok t"
    using write_input_ok unfolding write_edge_event_def by blast
  with Cons.IH show ?case by simp
qed simp

section \<open>Outputs\<close>

lemma sync_pwm_pin_ok:
  assumes f: "faithful hw duty level" and t: "tree_ok tree" and p: "pwm_ok p (duty x (pw_driver p))"
  shows "\<exists>p' x'. sync_pwm_pin hw tree (p, x) = Some (p', x') \<and> pw_driver p' = pw_driver p \<and> pw_path p' = pw_path p \<and>
    (\<forall>q. q \<noteq> pw_driver p \<longrightarrow> duty x' q = duty x q) \<and> level x' = level x \<and> pwm_ok p' (duty x' (pw_driver p)) \<and>
    (\<forall>v. newest_at tree (pw_path p) = Some (Some v) \<longrightarrow> (\<forall>q d y. fst (hw_set_duty hw q d y) = Inr ()) \<longrightarrow>
       duty x' (pw_driver p) = parse_duty (val_v v))"
proof -
  obtain n where n: "newest_at tree (pw_path p) = Some n" using newest_at_ok [OF t] by blast
  show ?thesis
  proof (cases n)
    case (Some v)
    have d: "parse_duty u \<le> pwm_max_duty" for u
      by (auto simp: parse_duty_def duty_of_f64_def split: omi_value.split option.split)
    obtain r y where r: "hw_set_duty hw (pw_driver p) (parse_duty (val_v v)) x = (r, y)" by fastforce
    have "r = Inr ()" if "\<forall>q d y. fst (hw_set_duty hw q d y) = Inr ()"
      using that r by (metis fst_conv)
    with faithful_duty [OF f r] p n Some r d [of "val_v v"] show ?thesis
      by (cases r) (auto simp: sync_pwm_pin_def set_duty_def Let_def min_def pwm_ok_def)
  qed (use n p in \<open>simp add: sync_pwm_pin_def\<close>)
qed

lemma sync_output_pin_ok:
  assumes f: "faithful hw duty level" and t: "tree_ok tree" and p: "output_ok p (level x (do_pin_num p))"
  shows "\<exists>p' x'. sync_output_pin hw tree (p, x) = Some (p', x') \<and> do_pin_num p' = do_pin_num p \<and> do_path p' = do_path p \<and>
    (\<forall>q. q \<noteq> do_pin_num p \<longrightarrow> level x' q = level x q) \<and> duty x' = duty x \<and> output_ok p' (level x' (do_pin_num p)) \<and>
    (\<forall>v. newest_at tree (do_path p) = Some (Some v) \<longrightarrow> (\<forall>q d y. fst (hw_set_level hw q d y) = Inr ()) \<longrightarrow>
       level x' (do_pin_num p) = parse_digital (val_v v))"
proof -
  obtain n where n: "newest_at tree (do_path p) = Some n" using newest_at_ok [OF t] by blast
  show ?thesis
  proof (cases n)
    case (Some v)
    obtain r y where r: "hw_set_level hw (do_pin_num p) (parse_digital (val_v v)) x = (r, y)" by fastforce
    have "r = Inr ()" if "\<forall>q d y. fst (hw_set_level hw q d y) = Inr ()"
      using that r by (metis fst_conv)
    with faithful_level [OF f r] p n Some r show ?thesis
      by (cases r) (auto simp: sync_output_pin_def output_write_def output_ok_def)
  qed (use n p in \<open>simp add: sync_output_pin_def\<close>)
qed

section \<open>One turn\<close>

lemma pins_of_update:
  "map pw_driver ps = map pw_driver (gm_pwm gm) \<Longrightarrow> pins_of (gm\<lparr>gm_pwm := ps\<rparr>) = pins_of gm"
  "map ed_pin_num es = map ed_pin_num (gm_edge gm) \<Longrightarrow> pins_of (gm\<lparr>gm_edge := es\<rparr>) = pins_of gm"
  "map di_pin_num ins = map di_pin_num (gm_inputs gm) \<Longrightarrow> pins_of (gm\<lparr>gm_inputs := ins\<rparr>) = pins_of gm"
  "map do_pin_num os = map do_pin_num (gm_outputs gm) \<Longrightarrow> pins_of (gm\<lparr>gm_outputs := os\<rparr>) = pins_of gm"
  by (simp_all add: pins_of_def)

definition driven_pwm :: "'x gpio_hw \<Rightarrow> object_tree \<Rightarrow> (nat \<Rightarrow> nat) \<Rightarrow> pwm_pin \<Rightarrow> bool" where
  "driven_pwm hw tree duty p \<longleftrightarrow>
     (\<forall>v. newest_at tree (pw_path p) = Some (Some v) \<longrightarrow> (\<forall>q d y. fst (hw_set_duty hw q d y) = Inr ()) \<longrightarrow>
        duty (pw_driver p) = parse_duty (val_v v))"

definition driven_output :: "'x gpio_hw \<Rightarrow> object_tree \<Rightarrow> (nat \<Rightarrow> bool) \<Rightarrow> digital_output_pin \<Rightarrow> bool" where
  "driven_output hw tree level p \<longleftrightarrow>
     (\<forall>v. newest_at tree (do_path p) = Some (Some v) \<longrightarrow> (\<forall>q d y. fst (hw_set_level hw q d y) = Inr ()) \<longrightarrow>
        level (do_pin_num p) = parse_digital (val_v v))"

lemma sync_from_tree_ok:
  assumes f: "faithful hw duty level" and t: "tree_ok tree" and ok: "outputs_ok (duty x) (level x) gm"
  shows "\<exists>gm' x'. sync_from_tree hw tree (gm, x) = Some (gm', x') \<and> outputs_ok (duty x') (level x') gm' \<and>
    pins_of gm' = pins_of gm \<and> gm_outputs gm' = gm_outputs gm \<and> level x' = level x \<and>
    map pw_path (gm_pwm gm') = map pw_path (gm_pwm gm) \<and>
    (\<forall>p \<in> set (gm_pwm gm'). driven_pwm hw tree (duty x') p)"
proof -
  have d: "distinct (map pw_driver (gm_pwm gm))" using ok by (simp add: outputs_ok_def pins_of_def)
  let ?post = "\<lambda>p d. pwm_ok p d \<and> (\<forall>v. newest_at tree (pw_path p) = Some (Some v) \<longrightarrow>
      (\<forall>q d y. fst (hw_set_duty hw q d y) = Inr ()) \<longrightarrow> d = parse_duty (val_v v))"
  have "\<exists>ps x'. sync_pins (sync_pwm_pin hw tree) (gm_pwm gm) x = Some (ps, x') \<and>
      map pw_driver ps = map pw_driver (gm_pwm gm) \<and> map pw_path ps = map pw_path (gm_pwm gm) \<and>
      (\<forall>q. q \<notin> pw_driver ` set (gm_pwm gm) \<longrightarrow> duty x' q = duty x q) \<and> level x' = level x \<and>
      (\<forall>p \<in> set ps. ?post p (duty x' (pw_driver p)))"
  proof (rule sync_pins_spec [where pre = pwm_ok])
    fix p x
    assume "pwm_ok p (duty x (pw_driver p))"
    from sync_pwm_pin_ok [OF f t this] show "\<exists>p' x'. sync_pwm_pin hw tree (p, x) = Some (p', x') \<and>
        pw_driver p' = pw_driver p \<and> pw_path p' = pw_path p \<and> (\<forall>q. q \<noteq> pw_driver p \<longrightarrow> duty x' q = duty x q) \<and>
        level x' = level x \<and> ?post p' (duty x' (pw_driver p))"
      by (elim exE conjE) (intro exI conjI, assumption+, simp)
  qed (use d ok in \<open>simp_all add: outputs_ok_def\<close>)
  then obtain ps x' where ps: "sync_pins (sync_pwm_pin hw tree) (gm_pwm gm) x = Some (ps, x') \<and>
      map pw_driver ps = map pw_driver (gm_pwm gm) \<and> map pw_path ps = map pw_path (gm_pwm gm) \<and>
      (\<forall>q. q \<notin> pw_driver ` set (gm_pwm gm) \<longrightarrow> duty x' q = duty x q) \<and> level x' = level x \<and>
      (\<forall>p \<in> set ps. ?post p (duty x' (pw_driver p)))"
    by (elim exE)
  let ?gm = "gm\<lparr>gm_pwm := ps\<rparr>"
  have "outputs_ok (duty x') (level x') ?gm"
    using ok ps pins_of_update(1) [of ps gm] by (simp add: outputs_ok_def)
  with ps pins_of_update(1) [of ps gm] show ?thesis by (simp add: sync_from_tree_def driven_pwm_def)
qed

lemma sync_digital_outputs_ok:
  assumes f: "faithful hw duty level" and t: "tree_ok tree" and ok: "outputs_ok (duty x) (level x) gm"
  shows "\<exists>gm' x'. sync_digital_outputs hw tree (gm, x) = Some (gm', x') \<and> outputs_ok (duty x') (level x') gm' \<and>
    pins_of gm' = pins_of gm \<and> gm_pwm gm' = gm_pwm gm \<and> duty x' = duty x \<and> map do_path (gm_outputs gm') = map do_path (gm_outputs gm) \<and>
    (\<forall>p \<in> set (gm_outputs gm'). driven_output hw tree (level x') p)"
proof -
  have d: "distinct (map do_pin_num (gm_outputs gm))" using ok by (simp add: outputs_ok_def pins_of_def)
  let ?post = "\<lambda>p b. output_ok p b \<and> (\<forall>v. newest_at tree (do_path p) = Some (Some v) \<longrightarrow>
      (\<forall>q d y. fst (hw_set_level hw q d y) = Inr ()) \<longrightarrow> b = parse_digital (val_v v))"
  have "\<exists>ps x'. sync_pins (sync_output_pin hw tree) (gm_outputs gm) x = Some (ps, x') \<and>
      map do_pin_num ps = map do_pin_num (gm_outputs gm) \<and> map do_path ps = map do_path (gm_outputs gm) \<and>
      (\<forall>q. q \<notin> do_pin_num ` set (gm_outputs gm) \<longrightarrow> level x' q = level x q) \<and> duty x' = duty x \<and>
      (\<forall>p \<in> set ps. ?post p (level x' (do_pin_num p)))"
  proof (rule sync_pins_spec [where pre = output_ok])
    fix p x
    assume "output_ok p (level x (do_pin_num p))"
    from sync_output_pin_ok [OF f t this] show "\<exists>p' x'. sync_output_pin hw tree (p, x) = Some (p', x') \<and>
        do_pin_num p' = do_pin_num p \<and> do_path p' = do_path p \<and> (\<forall>q. q \<noteq> do_pin_num p \<longrightarrow> level x' q = level x q) \<and>
        duty x' = duty x \<and> ?post p' (level x' (do_pin_num p))"
      by (elim exE conjE) (intro exI conjI, assumption+, simp)
  qed (use d ok in \<open>simp_all add: outputs_ok_def\<close>)
  then obtain ps x' where ps: "sync_pins (sync_output_pin hw tree) (gm_outputs gm) x = Some (ps, x') \<and>
      map do_pin_num ps = map do_pin_num (gm_outputs gm) \<and> map do_path ps = map do_path (gm_outputs gm) \<and>
      (\<forall>q. q \<notin> do_pin_num ` set (gm_outputs gm) \<longrightarrow> level x' q = level x q) \<and> duty x' = duty x \<and>
      (\<forall>p \<in> set ps. ?post p (level x' (do_pin_num p)))"
    by (elim exE)
  let ?gm = "gm\<lparr>gm_outputs := ps\<rparr>"
  have "outputs_ok (duty x') (level x') ?gm"
    using ok ps pins_of_update(4) [of ps gm] by (simp add: outputs_ok_def)
  with ps pins_of_update(4) [of ps gm] show ?thesis by (simp add: sync_digital_outputs_def driven_output_def)
qed

text \<open>The tests whether there are pins of a kind only save work.\<close>

lemma no_pins:
  "\<not> has_digital_pins gm \<Longrightarrow> poll_digital_inputs hw now (gm, tree, x) = Some (gm, tree, x)"
  "gm_edge gm = [] \<Longrightarrow> drain_edge_events hw (gm, x) = ([], gm, x)"
  "gm_pwm gm = [] \<Longrightarrow> sync_from_tree hw tree (gm, x) = Some (gm, x)"
  "\<not> has_digital_pins gm \<Longrightarrow> sync_digital_outputs hw tree (gm, x) = Some (gm, x)"
  by (cases gm; simp add: poll_digital_inputs_def drain_edge_events_def sync_from_tree_def sync_digital_outputs_def
      has_digital_pins_def)+

lemma gpio_turn_steps:
  "gpio_turn hw now1 now2 (gm, tree, x) = do {
     (gm, tree, x) \<leftarrow> poll_digital_inputs hw now1 (gm, tree, x);
     let (events, gm, x) = drain_edge_events hw (gm, x);
     tree \<leftarrow> fold_opt (write_edge_event now2) events tree;
     (gm, x) \<leftarrow> sync_from_tree hw tree (gm, x);
     (gm, x) \<leftarrow> sync_digital_outputs hw tree (gm, x);
     Some (gm, tree, x)
   }"
proof -
  have "(if has_digital_pins g then poll_digital_inputs hw now1 (g, t, y) else Some (g, t, y)) = poll_digital_inputs hw now1 (g, t, y)"
    "(if gm_edge g \<noteq> [] then drain_edge_events hw (g, y) else ([], g, y)) = drain_edge_events hw (g, y)"
    "(if gm_pwm g \<noteq> [] then sync_from_tree hw t (g, y) else Some (g, y)) = sync_from_tree hw t (g, y)"
    "(if has_digital_pins g then sync_digital_outputs hw t (g, y) else Some (g, y)) = sync_digital_outputs hw t (g, y)"
    for g t y by (simp_all add: no_pins)
  then show ?thesis by (simp only: gpio_turn_def prod.case)
qed

lemma gpio_turn_ok:
  assumes f: "faithful hw duty level" and t: "tree_ok tree" and ok: "outputs_ok (duty x) (level x) gm"
  shows "\<exists>gm' tree' x'. gpio_turn hw now1 now2 (gm, tree, x) = Some (gm', tree', x') \<and> tree_ok tree' \<and>
    pins_of gm' = pins_of gm \<and> map pw_path (gm_pwm gm') = map pw_path (gm_pwm gm) \<and>
    map do_path (gm_outputs gm') = map do_path (gm_outputs gm) \<and>
    outputs_ok (duty x') (level x') gm' \<and> (\<forall>p \<in> set (gm_pwm gm'). driven_pwm hw tree' (duty x') p) \<and>
    (\<forall>p \<in> set (gm_outputs gm'). driven_output hw tree' (level x') p)"
proof -
  obtain ins t1 x1 where s1: "poll_inputs hw now1 (gm_inputs gm) (tree, x) = Some (ins, t1, x1) \<and> tree_ok t1 \<and>
      map di_pin_num ins = map di_pin_num (gm_inputs gm) \<and> duty x1 = duty x \<and> level x1 = level x"
    using poll_inputs_ok [OF f t, where now = now1 and pins = "gm_inputs gm" and x = x] by (elim exE)
  let ?g1 = "gm\<lparr>gm_inputs := ins\<rparr>"
  have ok1: "outputs_ok (duty x1) (level x1) ?g1"
    using ok s1 pins_of_update(3) [of ins gm] by (simp add: outputs_ok_def)
  obtain es ps x2 where s2: "drain_pins hw (gm_edge ?g1) x1 = (es, ps, x2)" by (rule prod_cases3)
  let ?g2 = "?g1\<lparr>gm_edge := ps\<rparr>"
  have ok2: "outputs_ok (duty x2) (level x2) ?g2"
    using drain_pins_ok [OF f s2] ok1 pins_of_update(2) [of ps ?g1] by (simp add: outputs_ok_def)
  have "tree_ok t1" using s1 by simp
  then obtain t2 where s3: "fold_opt (write_edge_event now2) es t1 = Some t2" "tree_ok t2"
    using write_edge_events_ok by blast
  obtain g3 x3 where s4: "sync_from_tree hw t2 (?g2, x2) = Some (g3, x3) \<and> outputs_ok (duty x3) (level x3) g3 \<and>
      pins_of g3 = pins_of ?g2 \<and> gm_outputs g3 = gm_outputs ?g2 \<and> level x3 = level x2 \<and>
      map pw_path (gm_pwm g3) = map pw_path (gm_pwm ?g2) \<and> (\<forall>p \<in> set (gm_pwm g3). driven_pwm hw t2 (duty x3) p)"
    using sync_from_tree_ok [OF f s3(2) ok2] by (elim exE)
  then have ok3: "outputs_ok (duty x3) (level x3) g3" by (elim conjE)
  obtain g4 x4 where s5: "sync_digital_outputs hw t2 (g3, x3) = Some (g4, x4) \<and> outputs_ok (duty x4) (level x4) g4 \<and>
      pins_of g4 = pins_of g3 \<and> gm_pwm g4 = gm_pwm g3 \<and> duty x4 = duty x3 \<and> map do_path (gm_outputs g4) = map do_path (gm_outputs g3) \<and>
      (\<forall>p \<in> set (gm_outputs g4). driven_output hw t2 (level x4) p)"
    using sync_digital_outputs_ok [OF f s3(2) ok3] by (elim exE)
  have "gpio_turn hw now1 now2 (gm, tree, x) = Some (g4, t2, x4)"
    using s1 s2 s3(1) s4 s5 by (simp add: gpio_turn_steps poll_digital_inputs_def drain_edge_events_def)
  moreover have "pins_of ?g2 = pins_of gm"
    using s1 drain_pins_ok [OF f s2] pins_of_update(3) [of ins gm] pins_of_update(2) [of ps ?g1] by simp
  with s4 s5 have "pins_of g4 = pins_of gm \<and> map pw_path (gm_pwm g4) = map pw_path (gm_pwm gm) \<and>
      map do_path (gm_outputs g4) = map do_path (gm_outputs gm)" by simp
  moreover from s5 have "outputs_ok (duty x4) (level x4) g4" by (elim conjE)
  moreover from s5 have "\<forall>p \<in> set (gm_outputs g4). driven_output hw t2 (level x4) p" by (elim conjE)
  moreover have "\<forall>p \<in> set (gm_pwm g4). driven_pwm hw t2 (duty x4) p"
  proof -
    from s5 have "gm_pwm g4 = gm_pwm g3" by (elim conjE)
    moreover from s5 have "duty x4 = duty x3" by (elim conjE)
    moreover from s4 have "\<forall>p \<in> set (gm_pwm g3). driven_pwm hw t2 (duty x3) p" by (elim conjE)
    ultimately show ?thesis by (simp only:)
  qed
  ultimately show ?thesis using s3(2) by blast
qed

section \<open>Runs\<close>

text \<open>Everything that happens to the manager: pins are added, interrupts arrive, the main loop turns,
  and a value is written directly.\<close>

inductive gpio_run :: "'x gpio_hw \<Rightarrow> gpio_manager \<times> 'x \<Rightarrow> bool" for hw where
  run_new: "gpio_run hw (gpio_manager_new, x)"
| run_pwm: "gpio_run hw s \<Longrightarrow> gpio_run hw (snd (add_pwm hw path pin s))"
| run_edge: "gpio_run hw s \<Longrightarrow> gpio_run hw (snd (add_edge_pin hw path pin e s))"
| run_adc: "gpio_run hw s \<Longrightarrow> gpio_run hw (snd (add_adc hw path pin s))"
| run_input: "gpio_run hw s \<Longrightarrow> gpio_run hw (snd (add_digital_in hw path pin s))"
| run_output: "gpio_run hw s \<Longrightarrow> gpio_run hw (snd (add_digital_out hw path pin s))"
| run_interrupt: "gpio_run hw (gm, x) \<Longrightarrow> gpio_run hw (edge_interrupt pin gm, x)"
| run_sample: "gpio_run hw (gm, x) \<Longrightarrow> sample_adc hw now gm (tree, x) = Some (tree', x') \<Longrightarrow> gpio_run hw (gm, x')"
| run_turn: "gpio_run hw (gm, x) \<Longrightarrow> tree_ok tree \<Longrightarrow>
    gpio_turn hw now1 now2 (gm, tree, x) = Some (gm', tree', x') \<Longrightarrow> gpio_run hw (gm', x')"

lemma sample_entries_undisturbed:
  assumes "faithful hw duty level" "sample_entries hw now es (tree, x) = Some (tree', x')"
  shows "duty x' = duty x \<and> level x' = level x"
  using assms(2)
proof (induction es arbitrary: tree x)
  case (Cons e es)
  obtain r y where r: "hw_read_raw hw (ad_pin_num e) x = (r, y)" by fastforce
  with Cons undisturbedD [OF faithful_undisturbed(6) [OF assms(1)] r] show ?case
    by (cases r) (auto simp: bind_eq_Some_conv)
qed simp

lemma gpio_run_ok:
  assumes "gpio_run hw s" "faithful hw duty level"
  shows "outputs_ok (duty (snd s)) (level (snd s)) (fst s)"
  using assms(1)
proof (induction rule: gpio_run.induct)
  case (run_pwm s path pin)
  then show ?case using add_pwm_ok [OF assms(2), of "snd s" "fst s"] by (cases "add_pwm hw path pin s") auto
next
  case (run_edge s path pin e)
  then show ?case using add_edge_pin_ok [OF assms(2), of "snd s" "fst s"] by (cases "add_edge_pin hw path pin e s") auto
next
  case (run_adc s path pin)
  then show ?case using add_adc_ok [OF assms(2), of "snd s" "fst s"] by (cases "add_adc hw path pin s") auto
next
  case (run_input s path pin)
  then show ?case using add_digital_in_ok [OF assms(2), of "snd s" "fst s"] by (cases "add_digital_in hw path pin s") auto
next
  case (run_output s path pin)
  then show ?case using add_digital_out_ok [OF assms(2), of "snd s" "fst s"] by (cases "add_digital_out hw path pin s") auto
next
  case (run_interrupt gm x pin)
  have "map ed_pin_num (map (\<lambda>p. if ed_pin_num p = pin then p\<lparr>ed_fired := True\<rparr> else p) es) = map ed_pin_num es"
    for es :: "edge_pin list"
    by (induction es) auto
  then show ?case using run_interrupt.IH pins_of_update(2) [of _ gm]
    by (simp add: outputs_ok_def edge_interrupt_def)
next
  case (run_sample gm x now tree tree' x')
  then show ?case using sample_entries_undisturbed [OF assms(2)] by (simp add: sample_adc_def)
next
  case (run_turn gm x tree now1 now2 gm' tree' x')
  then show ?case using gpio_turn_ok [OF assms(2) run_turn.hyps(2), of x gm now1 now2] by auto
qed (simp add: outputs_ok_new)


text \<open>Drivers that always accept, on a world that is the duties and the levels; a duty above 255 was
  written to the item of a PWM pin.\<close>

definition test_hw :: "((nat \<Rightarrow> nat) \<times> (nat \<Rightarrow> bool)) gpio_hw" where
  "test_hw = \<lparr>hw_ledc_timer = \<lambda>_ _. Pair (Inr ()), hw_ledc_channel = \<lambda>p (d, l). (Inr (), d(p := 0), l),
     hw_set_duty = \<lambda>p n (d, l). (Inr (), d(p := n), l), hw_input = \<lambda>_. Pair (Inr ()), hw_is_high = \<lambda>p (d, l). (l p, d, l),
     hw_output = \<lambda>_. Pair (Inr ()), hw_set_level = \<lambda>p b (d, l). (Inr (), d, l(p := b)),
     hw_interrupt_type = \<lambda>_ _. Pair (Inr ()), hw_subscribe = \<lambda>_. Pair (Inr ()), hw_enable_interrupt = \<lambda>_. Pair (Inr ()),
     hw_adc_channel = \<lambda>_. Pair (Inr ()), hw_read_raw = \<lambda>_. Pair (Inr 0)\<rparr>"

lemma test_hw_faithful: "faithful test_hw fst snd"
  by (auto simp: faithful_def test_hw_def undisturbed_def)

definition lamp_tree :: object_tree where
  "lamp_tree = (case write_value ''/Dev/Lamp'' (Number (Fin 300)) None tree_new of Some (t, _) \<Rightarrow> t | None \<Rightarrow> tree_new)"

lemma lamp_tree_ok: "tree_ok lamp_tree"
  using write_value_total [OF tree_new_ok, of "''/Dev/Lamp''" "Number (Fin 300)" None] by (auto simp: lamp_tree_def)

lemma lamp_value: "newest_at lamp_tree ''/Dev/Lamp'' = Some (Some (value_new (Number (Fin 300)) None))"
  by code_simp

lemma lamp_duty: "parse_duty (Number (Fin 300)) = 255"
  by code_simp

text \<open>Without inputs the turn leaves the tree alone.\<close>

lemma turn_without_inputs:
  "gm_inputs gm = [] \<Longrightarrow> gm_edge gm = [] \<Longrightarrow> gpio_turn hw now1 now2 (gm, tree, x) = Some (gm', tree', x') \<Longrightarrow> tree' = tree"
  by (cases gm) (auto simp: gpio_turn_steps poll_digital_inputs_def drain_edge_events_def bind_eq_Some_conv)

definition lamp_gm :: gpio_manager where
  "lamp_gm = gpio_manager_new\<lparr>gm_pwm := [\<lparr>pw_path = ''/Dev/Lamp'', pw_driver = 4, pw_last_duty = 0\<rparr>],
     gm_registry := [4 \<mapsto> ''PWM (/Dev/Lamp)'']\<rparr>"

lemma lamp_run: "gpio_run test_hw (lamp_gm, (\<lambda>_. 7)(4 := 0), \<lambda>_. False)"
proof -
  have "snd (add_pwm test_hw ''/Dev/Lamp'' 4 (gpio_manager_new, \<lambda>_. 7, \<lambda>_. False)) = (lamp_gm, (\<lambda>_. 7)(4 := 0), \<lambda>_. False)"
    by (simp add: add_pwm_def add_pin_def register_pin_def driver_then_def test_hw_def gpio_manager_new_def lamp_gm_def purpose_def)
  with run_pwm [OF run_new, of test_hw "''/Dev/Lamp''" 4 "(\<lambda>_. 7, \<lambda>_. False)"] show ?thesis by simp
qed


end
