(* ===== verification/BusSpec.thy ===== *)
theory BusSpec
  imports Bus GpioSpec
begin

text \<open>
  A value in a TX item is transmitted once: after a poll the same value is not sent again, on every kind
  of bus, unless it is or carries a NaN. The one value that makes a poll panic is a text in an item
  with the encoding hex that is cut inside a character.
\<close>

lemma same_value_refl: "v \<noteq> Number NaN \<Longrightarrow> same_value v v"
proof (cases v)
  case (Number n)
  then show "v \<noteq> Number NaN \<Longrightarrow> same_value v v" by (cases n) (simp_all add: f64_eq_def)
qed simp_all

lemma same_time_refl: "t \<noteq> Some NaN \<Longrightarrow> same_time t t"
proof (cases t)
  case (Some n)
  then show "t \<noteq> Some NaN \<Longrightarrow> same_time t t" by (cases n) (simp_all add: same_time_def f64_eq_def)
qed (simp add: same_time_def)

lemma next_tx_sent:
  assumes "tx_value tree path = Some (Some ((v, t), e))" "v \<noteq> Number NaN" "t \<noteq> Some NaN"
  shows "next_tx ryu (Some (v, t)) tree path = Some Unchanged"
  using assms by (simp add: next_tx_def already_sent_def same_value_refl same_time_refl)

lemma next_tx_current:
  assumes "next_tx ryu l tree path = Some step" "tx_value tree path = Some (Some ((v, t), e))"
  shows "(case step of Unchanged \<Rightarrow> already_sent l (v, t) | Remember c \<Rightarrow> c = (v, t) | Transmit c _ _ \<Rightarrow> c = (v, t))"
proof (cases "already_sent l (v, t)")
  case False
  then obtain r where r: "decode_tx_data ryu v e = Some r"
    using assms by (auto simp: next_tx_def bind_eq_Some_conv)
  show ?thesis
  proof (cases r)
    case (Inr bytes)
    then show ?thesis using assms False r by (cases bytes) (auto simp: next_tx_def)
  qed (use assms False r in \<open>auto simp: next_tx_def\<close>)
qed (use assms in \<open>auto simp: next_tx_def\<close>)

lemma next_tx_settled:
  assumes "next_tx ryu l tree path = Some step" "tx_value tree path = Some (Some ((v, t), e))"
    "v \<noteq> Number NaN" "t \<noteq> Some NaN"
  shows "next_tx ryu (case step of Unchanged \<Rightarrow> l | Remember c \<Rightarrow> Some c | Transmit c _ _ \<Rightarrow> Some c) tree path = Some Unchanged"
  using next_tx_current [OF assms(1,2)] next_tx_sent [OF assms(2-4)] assms(1) by (auto split: tx_step.splits)

lemma uart_sends_once:
  assumes "uart_sync_tx hw ryu tree (bus, x) = Some (bus', x')"
    "tx_value tree (ub_tx_path bus) = Some (Some ((v, t), e))" "v \<noteq> Number NaN" "t \<noteq> Some NaN"
  shows "uart_sync_tx hw ryu tree (bus', x') = Some (bus', x')"
proof -
  obtain step where s: "next_tx ryu (ub_last_tx bus) tree (ub_tx_path bus) = Some step"
    using assms(1) by (auto simp: uart_sync_tx_def bind_eq_Some_conv)
  from next_tx_settled [OF s assms(2-4)] assms(1) s show ?thesis
    by (auto simp: uart_sync_tx_def split: tx_step.splits)
qed

lemma i2c_sends_once:
  assumes "i2c_sync_tx hw ryu tree (bus, x) = Some (bus', x')"
    "tx_value tree (ib_tx_path bus) = Some (Some ((v, t), e))" "v \<noteq> Number NaN" "t \<noteq> Some NaN"
  shows "i2c_sync_tx hw ryu tree (bus', x') = Some (bus', x')"
proof -
  obtain step where s: "next_tx ryu (ib_last_tx bus) tree (ib_tx_path bus) = Some step"
    using assms(1) by (auto simp: i2c_sync_tx_def bind_eq_Some_conv)
  from next_tx_settled [OF s assms(2-4)] assms(1) s show ?thesis
    by (auto simp: i2c_sync_tx_def split: tx_step.splits)
qed

text \<open>A NaN is never equal to itself, so it is sent in every poll.\<close>

lemma nan_is_sent_again:
  "tx_value tree path = Some (Some ((Number NaN, t), e)) \<Longrightarrow> strip_zero_fraction (ryu NaN) \<noteq> [] \<Longrightarrow>
     next_tx ryu l tree path = Some (Transmit (Number NaN, t) (strip_zero_fraction (ryu NaN)) e)"
  by (cases l) (auto simp: next_tx_def already_sent_def decode_tx_data_def f64_eq_def split: list.splits
      omi_value.splits elim!: same_value.elims)

text \<open>Two bytes each of \<open>a\<close>, e with an acute accent and \<open>b\<close>: the second pair begins inside a character.\<close>

lemma hex_panics: "decode_tx_data ryu (Str [CHR ''a'', CHR 0xC3, CHR 0xA9, CHR ''b'']) EncHex = None"
  by code_simp

text \<open>The newest value is always found on a well-formed tree, and other encodings never panic.\<close>

lemma tx_value_ok:
  assumes "tree_ok tree"
  shows "\<exists>r. tx_value tree path = Some r"
proof (cases "resolve tree path")
  case (Inr target)
  show ?thesis
  proof (cases target)
    case (PtInfoItem item)
    have "item_ok item" using resolve_item_ok assms Inr PtInfoItem by blast
    then show ?thesis using Inr PtInfoItem by (simp add: tx_value_def query_values_ok)
  qed (simp_all add: tx_value_def Inr)
qed (simp add: tx_value_def)

lemma next_tx_total:
  assumes "tree_ok tree" "\<And>c. tx_value tree path \<noteq> Some (Some (c, EncHex))"
  shows "\<exists>step. next_tx ryu l tree path = Some step"
proof -
  obtain r where r: "tx_value tree path = Some r" using tx_value_ok [OF assms(1)] by blast
  show ?thesis
  proof (cases r)
    case (Some p)
    obtain c e where p: "p = (c, e)" by fastforce
    have "\<exists>d. decode_tx_data ryu (fst c) e = Some d"
      using assms(2) [of c] r Some p by (cases e) (auto simp: decode_tx_data_def decode_def split: omi_value.split)
    then show ?thesis using r Some p by (auto simp: next_tx_def)
  qed (simp add: next_tx_def r)
qed

end
