(* ===== verification/Display.thy ===== *)
theory Display
  imports Gateway
begin

text \<open>
  \<open>src/wsop/display.rs\<close>: the verification code of a joining device, shown as the color of a
  NeoPixel or as blinks of an LED. The LED, the pixel and the waiting are a record of functions on an
  abstract world; a display that owns a pixel driver has \<open>od_ws2812\<close> set, and \<open>stop\<close> answers whether
  it hands the driver back.
\<close>

section \<open>Codes\<close>

definition display_colors :: "(nat \<times> nat \<times> nat) list" where
  "display_colors =
     [(255, 0, 0), (0, 255, 0), (0, 0, 255), (255, 255, 0), (0, 255, 255), (255, 0, 255),
      (255, 255, 255), (255, 128, 0)]"

definition display_color_names :: "string list" where
  "display_color_names = [''Red'', ''Green'', ''Blue'', ''Yellow'', ''Cyan'', ''Magenta'', ''White'', ''Orange'']"

definition display_color_index :: "nat \<Rightarrow> nat" where
  "display_color_index byte = drop_bit 5 byte"

definition digit_value :: "nat \<Rightarrow> nat" where
  "digit_value byte = byte mod 10"

definition verification_color :: "nat \<Rightarrow> nat \<times> nat \<times> nat" where
  "verification_color byte = display_colors ! display_color_index byte"

definition verification_color_name :: "nat \<Rightarrow> string" where
  "verification_color_name byte = display_color_names ! display_color_index byte"

section \<open>The display\<close>

datatype display_mode = DisplayColor | DisplayDigit | DisplayNone

definition display_mode_from_str :: "string \<Rightarrow> display_mode" where
  "display_mode_from_str s =
     (if s = ''color'' then DisplayColor else if s = ''digit'' then DisplayDigit else DisplayNone)"

definition display_mode_as_str :: "display_mode \<Rightarrow> string" where
  "display_mode_as_str mode =
     (case mode of DisplayColor \<Rightarrow> ''color'' | DisplayDigit \<Rightarrow> ''digit'' | DisplayNone \<Rightarrow> ''none'')"

record onboard_display =
  od_mode :: display_mode
  od_ws2812 :: bool
  od_led_pin :: "nat option"
  od_active :: bool

definition display_color :: onboard_display where
  "display_color = \<lparr>od_mode = DisplayColor, od_ws2812 = True, od_led_pin = None, od_active = False\<rparr>"

definition display_digit :: "nat \<Rightarrow> onboard_display" where
  "display_digit pin = \<lparr>od_mode = DisplayDigit, od_ws2812 = False, od_led_pin = Some pin, od_active = False\<rparr>"

definition display_none :: onboard_display where
  "display_none = \<lparr>od_mode = DisplayNone, od_ws2812 = False, od_led_pin = None, od_active = False\<rparr>"

record 'x display_hw =
  dh_set_color :: "nat \<times> nat \<times> nat \<Rightarrow> 'x \<Rightarrow> (string + unit) \<times> 'x"
  dh_off :: "'x \<Rightarrow> (string + unit) \<times> 'x"
  dh_set_level :: "nat \<Rightarrow> bool \<Rightarrow> 'x \<Rightarrow> 'x"
  dh_sleep :: "nat \<Rightarrow> 'x \<Rightarrow> 'x"

definition display_show :: "'x display_hw \<Rightarrow> nat \<Rightarrow> onboard_display \<times> 'x \<Rightarrow> (string + unit) \<times> onboard_display \<times> 'x" where
  "display_show hw byte = (\<lambda>(d, x).
     (case (if od_mode d = DisplayColor \<and> od_ws2812 d then dh_set_color hw (verification_color byte) x else (Inr (), x)) of
        (Inl e, x) \<Rightarrow> (Inl e, d, x)
      | (Inr _, x) \<Rightarrow> (Inr (), d\<lparr>od_active := True\<rparr>, x)))"

definition display_stop :: "'x display_hw \<Rightarrow> onboard_display \<times> 'x \<Rightarrow> bool \<times> onboard_display \<times> 'x" where
  "display_stop hw = (\<lambda>(d, x).
     if \<not> od_active d then (od_ws2812 d, d\<lparr>od_ws2812 := False\<rparr>, x)
     else
       (let d = d\<lparr>od_active := False\<rparr>
        in case od_mode d of
             DisplayColor \<Rightarrow>
               (od_ws2812 d, d\<lparr>od_ws2812 := False\<rparr>, if od_ws2812 d then snd (dh_off hw x) else x)
           | DisplayDigit \<Rightarrow>
               (False, d, case od_led_pin d of Some pin \<Rightarrow> dh_set_level hw pin False x | None \<Rightarrow> x)
           | DisplayNone \<Rightarrow> (False, d, x)))"

definition blink_tick :: "onboard_display \<Rightarrow> nat \<Rightarrow> nat \<Rightarrow> bool" where
  "blink_tick d tick byte =
     (if od_mode d \<noteq> DisplayDigit \<or> \<not> od_active d then False
      else let digit = digit_value byte
           in if digit = 0 then False
              else let phase = tick mod (digit * 2 + 4) in phase < digit * 2 \<and> phase mod 2 = 0)"

definition blink_tick_ms :: nat where "blink_tick_ms = 250"

fun blink_ticks :: "'x display_hw \<Rightarrow> onboard_display \<Rightarrow> nat \<Rightarrow> nat \<Rightarrow> nat \<times> 'x \<Rightarrow> nat \<times> 'x" where
  "blink_ticks hw d byte 0 (tick, x) = (tick, x)"
| "blink_ticks hw d byte (Suc n) (tick, x) =
     (let x = (case od_led_pin d of Some pin \<Rightarrow> dh_set_level hw pin (blink_tick d tick byte) x | None \<Rightarrow> x)
      in blink_ticks hw d byte n (tick + 1, dh_sleep hw blink_tick_ms x))"

definition sleep_with_blink :: "'x display_hw \<Rightarrow> nat \<Rightarrow> nat \<Rightarrow> onboard_display \<Rightarrow> nat \<times> 'x \<Rightarrow> nat \<times> 'x" where
  "sleep_with_blink hw ms byte d = (\<lambda>(tick, x).
     if od_mode d \<noteq> DisplayDigit \<or> \<not> od_active d then (tick, dh_sleep hw ms x)
     else case blink_ticks hw d byte (ms div blink_tick_ms) (tick, x) of
            (tick, x) \<Rightarrow> (tick, if ms mod blink_tick_ms > 0 then dh_sleep hw (ms mod blink_tick_ms) x else x))"

section \<open>The code shown is the code asked for\<close>

text \<open>The display has its own tables; they agree with those of the gateway and of the protocol, so the
  owner compares the same color and the same digit.\<close>

lemma display_agrees:
  assumes "byte < 256"
  shows "verification_color byte = verify_color byte" "verification_color_name byte = verify_color_name byte"
    "digit_value byte = verify_digit byte"
  using assms
  by (simp_all add: verification_color_def verify_color_def verification_color_name_def verify_color_name_def
      display_colors_def verify_colors_def display_color_names_def color_names_def display_color_index_def
      color_index_def drop_bit_eq_div digit_value_def verify_digit_def)

text \<open>The LED goes on once for every blink of the digit and stays dark for the rest of a cycle.\<close>

lemma evens_below: "length (filter (\<lambda>i. i mod 2 = 0) [0..<2 * n]) = n"
  by (induction n) simp_all

lemma blinks_count_digit:
  assumes "od_mode d = DisplayDigit" "od_active d"
  shows "length (filter (\<lambda>tick. blink_tick d tick byte) [0..<digit_value byte * 2 + 4]) = digit_value byte"
proof (cases "digit_value byte")
  case 0
  then show ?thesis using assms by (simp add: blink_tick_def)
next
  case (Suc m)
  let ?n = "digit_value byte"
  have b: "blink_tick d tick byte = (tick < 2 * ?n \<and> tick mod 2 = 0)" if "tick < ?n * 2 + 4" for tick
    using assms Suc that by (simp add: blink_tick_def Let_def mult.commute)
  have "filter (\<lambda>tick. blink_tick d tick byte) [0..<?n * 2 + 4] =
      filter (\<lambda>tick. tick < 2 * ?n \<and> tick mod 2 = 0) ([0..<2 * ?n] @ [2 * ?n..<2 * ?n + 4])"
    using b by (auto simp: mult.commute upt_add_eq_append [symmetric] intro!: filter_cong simp del: upt_Suc)
  also have "\<dots> = filter (\<lambda>tick. tick mod 2 = 0) [0..<2 * ?n]"
    by (auto simp: filter_empty_conv intro!: filter_cong simp del: upt_Suc)
  finally show ?thesis by (simp add: evens_below)
qed

end
