(* ===== verification/Board.thy ===== *)
theory Board
  imports BusSpec Display
begin

text \<open>
  The configuration of a board and the drivers made from it: \<open>src/board.rs\<close>, \<open>src/boards/mod.rs\<close>
  and \<open>src/boards/esp32_s2_wrover.rs\<close>. The constants that the build generates from the file of the
  board are a record; without such a file the tables are empty. The lookups and the order of the steps
  are the code's, the hardware units are functions on an abstract world.
\<close>

section \<open>The tables\<close>

record board_config =
  bc_present :: bool
  bc_gpio :: "(nat \<times> string \<times> string) list"
  bc_peripherals :: "(string \<times> (nat \<times> string) list) list"
  bc_neopixel_pin :: "nat option"
  bc_display_mode :: string

definition no_board :: board_config where
  "no_board = \<lparr>bc_present = False, bc_gpio = [], bc_peripherals = [], bc_neopixel_pin = None, bc_display_mode = ''none''\<rparr>"

definition parse_mode :: "string \<Rightarrow> gpio_mode option" where
  "parse_mode s =
     (if s = ''digital_in'' then Some DigitalIn
      else if s = ''digital_out'' then Some DigitalOut
      else if s = ''analog_in'' then Some AnalogIn
      else if s = ''pwm'' then Some Pwm
      else if s = ''low_edge_trigger'' then Some LowEdgeTrigger
      else if s = ''high_edge_trigger'' then Some HighEdgeTrigger
      else None)"

definition board_protocol :: "string \<Rightarrow> peripheral_protocol option" where
  "board_protocol s =
     (if s = ''I2C'' then Some I2C else if s = ''UART'' then Some UART else if s = ''SPI'' then Some SPI else None)"

definition gpio_configs :: "board_config \<Rightarrow> gpio_pin_config list" where
  "gpio_configs bc =
     List.map_filter (\<lambda>(pin, mode, name). map_option (\<lambda>m. with_name name (pin_config_new pin m)) (parse_mode mode)) (bc_gpio bc)"

definition peripheral_configs :: "board_config \<Rightarrow> peripheral_config list" where
  "peripheral_configs bc =
     List.map_filter (\<lambda>(proto, _). map_option (\<lambda>p. \<lparr>pc_name = proto, pc_protocol = p\<rparr>) (board_protocol proto)) (bc_peripherals bc)"

record peripheral_pin_config =
  pp_protocol :: peripheral_protocol
  pp_name :: string
  pp_pins :: "(nat \<times> string) list"

definition peripheral_pin_configs :: "board_config \<Rightarrow> peripheral_pin_config list" where
  "peripheral_pin_configs bc =
     List.map_filter (\<lambda>(proto, pins). map_option (\<lambda>p. \<lparr>pp_protocol = p, pp_name = proto, pp_pins = pins\<rparr>) (board_protocol proto))
       (bc_peripherals bc)"

definition pin_for_role :: "string \<Rightarrow> peripheral_pin_config \<Rightarrow> nat option" where
  "pin_for_role role c = map_option fst (List.find (\<lambda>(_, r). r = role) (pp_pins c))"

definition is_led :: "string \<Rightarrow> bool" where
  "is_led name = (map ascii_lower name = ''led'')"

definition led_pin :: "board_config \<Rightarrow> nat option" where
  "led_pin bc = map_option fst (List.find (\<lambda>(_, _, name). is_led name) (bc_gpio bc))"

lemma parse_mode_as_str: "parse_mode (mode_as_str m) = Some m"
  by (cases m) (simp_all add: mode_as_str_def parse_mode_def)

section \<open>Pins\<close>

record 'x board_hw =
  bd_drive_low :: "nat \<Rightarrow> 'x \<Rightarrow> 'x"
  bd_adc_unit :: "'x \<Rightarrow> (string + unit) \<times> 'x"
  bd_i2c :: "nat \<Rightarrow> nat \<Rightarrow> 'x \<Rightarrow> (string + nat) \<times> 'x"
  bd_uart :: "nat \<Rightarrow> nat \<Rightarrow> 'x \<Rightarrow> (string + nat) \<times> 'x"
  bd_ws2812 :: "nat \<Rightarrow> 'x \<Rightarrow> (string + unit) \<times> 'x"

fun init_each :: "('c \<Rightarrow> 's \<Rightarrow> (string + unit) \<times> 's) \<Rightarrow> 'c list \<Rightarrow> 's \<Rightarrow> (string + unit) \<times> 's" where
  "init_each f [] s = (Inr (), s)"
| "init_each f (c # cs) s = (case f c s of (Inl e, s) \<Rightarrow> (Inl e, s) | (Inr _, s) \<Rightarrow> init_each f cs s)"

definition pin_path :: "string \<Rightarrow> gpio_pin_config \<Rightarrow> string" where
  "pin_path hostname c = ''/'' @ hostname @ ''/'' @ gc_name c"

definition init_pin ::
  "'x gpio_hw \<Rightarrow> string \<Rightarrow> gpio_pin_config \<Rightarrow> gpio_manager \<times> 'x \<Rightarrow> (string + unit) \<times> gpio_manager \<times> 'x" where
  "init_pin hw hostname c s =
     (let path = pin_path hostname c; pin = gc_pin c
      in case gc_mode c of
           DigitalIn \<Rightarrow> add_digital_in hw path pin s
         | DigitalOut \<Rightarrow> add_digital_out hw path pin s
         | LowEdgeTrigger \<Rightarrow> add_edge_pin hw path pin Low s
         | HighEdgeTrigger \<Rightarrow> add_edge_pin hw path pin High s
         | _ \<Rightarrow> (Inr (), s))"

definition init_gpio ::
  "'x gpio_hw \<Rightarrow> board_config \<Rightarrow> string \<Rightarrow> gpio_manager \<times> 'x \<Rightarrow> (string + unit) \<times> gpio_manager \<times> 'x" where
  "init_gpio hw bc hostname = init_each (init_pin hw hostname) (gpio_configs bc)"

definition ledc_timers :: nat where "ledc_timers = 4"

definition init_pwm ::
  "'x gpio_hw \<Rightarrow> string \<Rightarrow> gpio_pin_config list \<Rightarrow> gpio_manager \<times> 'x \<Rightarrow> (string + unit) \<times> gpio_manager \<times> 'x" where
  "init_pwm hw hostname cs = init_each (\<lambda>c. add_pwm hw (pin_path hostname c) (gc_pin c)) (take ledc_timers cs)"

text \<open>A pin that ADC1 cannot sample is an error, which is only logged.\<close>

definition add_adc_pin ::
  "'x gpio_hw \<Rightarrow> string \<Rightarrow> nat \<Rightarrow> gpio_manager \<times> 'x \<Rightarrow> (string + unit) \<times> gpio_manager \<times> 'x" where
  "add_adc_pin hw path pin s =
     (if 1 \<le> pin \<and> pin \<le> 10 then add_adc hw path pin s
      else (Inl (''GPIO'' @ dec_of_nat pin @ '' is not ADC1-capable on ESP32-S2 (valid: GPIO1-GPIO10)''), s))"

definition init_adc ::
  "'x gpio_hw \<Rightarrow> 'x board_hw \<Rightarrow> string \<Rightarrow> gpio_pin_config list \<Rightarrow> gpio_manager \<times> 'x \<Rightarrow> (string + unit) \<times> gpio_manager \<times> 'x" where
  "init_adc hw bd hostname cs = (\<lambda>(gm, x).
     if cs = [] then (Inr (), gm, x)
     else case bd_adc_unit bd x of
            (Inl e, x) \<Rightarrow> (Inl e, gm, x)
          | (Inr _, x) \<Rightarrow>
              (Inr (), fold (\<lambda>c s. snd (add_adc_pin hw (pin_path hostname c) (gc_pin c) s)) cs (gm, x)))"

section \<open>Buses\<close>

text \<open>The loop over the configured buses: after an I2C or UART entry it leaves, whether or not a bus was
  made, because the hardware unit was moved; the flags that would skip a second bus are never seen
  set.\<close>

fun init_peripherals ::
  "'x board_hw \<Rightarrow> string \<Rightarrow> peripheral_pin_config list \<Rightarrow> peripheral_manager \<times> 'x \<Rightarrow> (string + unit) \<times> peripheral_manager \<times> 'x"
where
  "init_peripherals bd hostname [] s = (Inr (), s)"
| "init_peripherals bd hostname (c # cs) (pm, x) =
     (let device_path = ''/'' @ hostname
      in case pp_protocol c of
           I2C \<Rightarrow>
             (case (pin_for_role ''sda'' c, pin_for_role ''scl'' c) of
                (Some sda, Some scl) \<Rightarrow>
                  (case bd_i2c bd sda scl x of
                     (Inl e, x) \<Rightarrow> (Inl e, pm, x)
                   | (Inr driver, x) \<Rightarrow> (Inr (), add_i2c (i2c_new device_path (pp_name c) driver) pm, x))
              | _ \<Rightarrow> (Inr (), pm, x))
         | UART \<Rightarrow>
             (case (pin_for_role ''rx'' c, pin_for_role ''tx'' c) of
                (Some rx, Some tx) \<Rightarrow>
                  (case bd_uart bd tx rx x of
                     (Inl e, x) \<Rightarrow> (Inl e, pm, x)
                   | (Inr driver, x) \<Rightarrow> (Inr (), add_uart (uart_new device_path (pp_name c) driver) pm, x))
              | _ \<Rightarrow> (Inr (), pm, x))
         | SPI \<Rightarrow> init_peripherals bd hostname cs (pm, x))"

section \<open>The board\<close>

definition mode_configs :: "gpio_mode \<Rightarrow> board_config \<Rightarrow> gpio_pin_config list" where
  "mode_configs mode bc = filter (\<lambda>c. gc_mode c = mode) (gpio_configs bc)"

definition init_typed_hal ::
  "'x gpio_hw \<Rightarrow> 'x board_hw \<Rightarrow> board_config \<Rightarrow> string \<Rightarrow> gpio_manager \<times> peripheral_manager \<times> 'x \<Rightarrow>
   (string + unit) \<times> gpio_manager \<times> peripheral_manager \<times> 'x" where
  "init_typed_hal hw bd bc hostname = (\<lambda>(gm, pm, x).
     (case init_pwm hw hostname (mode_configs Pwm bc) (gm, x) of
        (Inl e, gm, x) \<Rightarrow> (Inl e, gm, pm, x)
      | (Inr _, gm, x) \<Rightarrow>
          (case init_adc hw bd hostname (mode_configs AnalogIn bc) (gm, x) of
             (Inl e, gm, x) \<Rightarrow> (Inl e, gm, pm, x)
           | (Inr _, gm, x) \<Rightarrow>
               (case init_peripherals bd hostname (peripheral_pin_configs bc) (pm, x) of
                  (r, pm, x) \<Rightarrow> (r, gm, pm, x)))))"

definition init_display :: "'x board_hw \<Rightarrow> board_config \<Rightarrow> 'x \<Rightarrow> onboard_display \<times> 'x" where
  "init_display bd bc x =
     (case display_mode_from_str (bc_display_mode bc) of
        DisplayColor \<Rightarrow>
          (case bc_neopixel_pin bc of
             None \<Rightarrow> (display_none, x)
           | Some pin \<Rightarrow>
               (case bd_ws2812 bd pin x of (Inr _, x) \<Rightarrow> (display_color, x) | (Inl _, x) \<Rightarrow> (display_none, x)))
      | DisplayDigit \<Rightarrow>
          (case List.find (\<lambda>c. is_led (gc_name c)) (gpio_configs bc) of
             Some c \<Rightarrow> (display_digit (gc_pin c), x)
           | None \<Rightarrow> (display_none, x))
      | DisplayNone \<Rightarrow> (display_none, x))"

definition default_neopixel_pin :: nat where "default_neopixel_pin = 18"

definition init_board ::
  "'x gpio_hw \<Rightarrow> 'x board_hw \<Rightarrow> board_config \<Rightarrow> string \<Rightarrow> 'x \<Rightarrow>
   (string + onboard_display) \<times> gpio_manager \<times> peripheral_manager \<times> 'x" where
  "init_board hw bd bc hostname x =
     (let neopixel = (if bc_present bc then case_option default_neopixel_pin id (bc_neopixel_pin bc) else default_neopixel_pin);
          x = bd_drive_low bd neopixel x;
          pm = peripheral_manager_new
      in case (if bc_present bc then init_gpio hw bc hostname (gpio_manager_new, x) else (Inr (), gpio_manager_new, x)) of
           (Inl e, gm, x) \<Rightarrow> (Inl e, gm, pm, x)
         | (Inr _, gm, x) \<Rightarrow>
             (case (if bc_present bc then init_typed_hal hw bd bc hostname (gm, pm, x) else (Inr (), gm, pm, x)) of
                (Inl e, gm, pm, x) \<Rightarrow> (Inl e, gm, pm, x)
              | (Inr _, gm, pm, x) \<Rightarrow> (case init_display bd bc x of (d, x) \<Rightarrow> (Inr d, gm, pm, x))))"

section \<open>What a start gives\<close>

text \<open>Whatever the table says, a start never gives a pin two uses: the second one fails.\<close>

definition quiet_board :: "'x board_hw \<Rightarrow> ('x \<Rightarrow> nat \<Rightarrow> nat) \<Rightarrow> ('x \<Rightarrow> nat \<Rightarrow> bool) \<Rightarrow> bool" where
  "quiet_board bd duty level \<longleftrightarrow> undisturbed duty level (bd_adc_unit bd)"

lemma init_each_inv:
  assumes "\<And>c s r s'. P s \<Longrightarrow> f c s = (r, s') \<Longrightarrow> P s'" "P s" "init_each f cs s = (r, s')"
  shows "P s'"
  using assms(2,3)
proof (induction cs arbitrary: s)
  case (Cons c cs)
  obtain q t where q: "f c s = (q, t)" by fastforce
  with Cons assms(1) [OF Cons.prems(1) q] show ?case by (cases q) auto
qed simp

abbreviation gpio_ok :: "('x \<Rightarrow> nat \<Rightarrow> nat) \<Rightarrow> ('x \<Rightarrow> nat \<Rightarrow> bool) \<Rightarrow> gpio_manager \<times> 'x \<Rightarrow> bool" where
  "gpio_ok duty level s \<equiv> outputs_ok (duty (snd s)) (level (snd s)) (fst s)"

lemma init_gpio_ok:
  assumes f: "faithful hw duty level" and "gpio_ok duty level s" "init_gpio hw bc hostname s = (r, s')"
  shows "gpio_ok duty level s'"
proof (rule init_each_inv [where P = "gpio_ok duty level", OF _ assms(2) assms(3) [unfolded init_gpio_def]])
  fix c s r s'
  assume h: "gpio_ok duty level s" "init_pin hw hostname c s = (r, s')"
  obtain gm x gm' x' where s: "s = (gm, x)" "s' = (gm', x')" by fastforce
  have g: "outputs_ok (duty x) (level x) gm" using h(1) s by simp
  show "gpio_ok duty level s'"
  proof (cases "gc_mode c")
    case DigitalIn
    then show ?thesis using add_digital_in_ok [OF f g] h(2) s by (simp add: init_pin_def Let_def)
  next
    case DigitalOut
    then show ?thesis using add_digital_out_ok [OF f g] h(2) s by (simp add: init_pin_def Let_def)
  next
    case LowEdgeTrigger
    then show ?thesis using add_edge_pin_ok [OF f g] h(2) s by (simp add: init_pin_def Let_def)
  next
    case HighEdgeTrigger
    then show ?thesis using add_edge_pin_ok [OF f g] h(2) s by (simp add: init_pin_def Let_def)
  qed (use h s in \<open>simp_all add: init_pin_def Let_def\<close>)
qed

lemma init_pwm_ok:
  assumes f: "faithful hw duty level" and "gpio_ok duty level s" "init_pwm hw hostname cs s = (r, s')"
  shows "gpio_ok duty level s'"
proof (rule init_each_inv [where P = "gpio_ok duty level", OF _ assms(2) assms(3) [unfolded init_pwm_def]])
  fix c s r s'
  assume h: "gpio_ok duty level s" "add_pwm hw (pin_path hostname c) (gc_pin c) s = (r, s')"
  obtain gm x gm' x' where s: "s = (gm, x)" "s' = (gm', x')" by fastforce
  with h show "gpio_ok duty level s'" using add_pwm_ok [OF f, of x gm] by simp
qed

lemma init_adc_ok:
  assumes f: "faithful hw duty level" and q: "quiet_board bd duty level" and "gpio_ok duty level s"
    and "init_adc hw bd hostname cs s = (r, s')"
  shows "gpio_ok duty level s'"
proof -
  have each: "gpio_ok duty level (fold (\<lambda>c s. snd (add_adc_pin hw (pin_path hostname c) (gc_pin c) s)) cs s)"
    if "gpio_ok duty level s" for cs and s :: "gpio_manager \<times> 'a"
    using that
  proof (induction cs arbitrary: s)
    case (Cons c cs)
    have "gpio_ok duty level (snd (add_adc_pin hw (pin_path hostname c) (gc_pin c) s))"
      using add_adc_ok [OF f, of "snd s" "fst s"] Cons.prems
      by (cases "add_adc hw (pin_path hostname c) (gc_pin c) s") (auto simp: add_adc_pin_def)
    with Cons.IH show ?case by simp
  qed simp
  obtain gm x where s: "s = (gm, x)" by fastforce
  obtain u y where u: "bd_adc_unit bd x = (u, y)" by fastforce
  have "gpio_ok duty level (gm, y)"
    using undisturbedD [OF q [unfolded quiet_board_def] u] assms(3) s by simp
  with each [OF this] assms(3,4) s u show ?thesis
    by (cases u) (auto simp: init_adc_def split: if_splits)
qed

lemma start_uses_no_pin_twice:
  assumes f: "faithful hw duty level" and q: "quiet_board bd duty level" and b: "init_board hw bd bc hostname x = (r, gm, pm, x')"
  shows "distinct (pins_of gm)"
proof -
  define y where "y = bd_drive_low bd (if bc_present bc then case_option default_neopixel_pin id (bc_neopixel_pin bc) else default_neopixel_pin) x"
  have new: "gpio_ok duty level (gpio_manager_new, y)" by (simp add: outputs_ok_new)
  obtain r1 g1 y1 where 1: "init_gpio hw bc hostname (gpio_manager_new, y) = (r1, g1, y1)" by (rule prod_cases3)
  obtain r2 g2 y2 where 2: "init_pwm hw hostname (mode_configs Pwm bc) (g1, y1) = (r2, g2, y2)" by (rule prod_cases3)
  obtain r3 g3 y3 where 3: "init_adc hw bd hostname (mode_configs AnalogIn bc) (g2, y2) = (r3, g3, y3)" by (rule prod_cases3)
  note ok1 = init_gpio_ok [OF f new 1]
  note ok2 = init_pwm_ok [OF f ok1 2]
  note ok3 = init_adc_ok [OF f q ok2 3]
  have "gm \<in> {gpio_manager_new, g1, g2, g3}"
    using b 1 2 3 unfolding init_board_def init_typed_hal_def y_def [symmetric] Let_def
    by (cases "bc_present bc"; cases r1; cases r2; cases r3) (auto split: prod.splits sum.splits)
  with new ok1 ok2 ok3 show ?thesis by (auto simp: outputs_ok_def)
qed

text \<open>At most one bus is made, whatever the table lists.\<close>

lemma one_bus_at_most:
  "init_peripherals bd hostname cs (peripheral_manager_new, x) = (r, pm, x') \<Longrightarrow>
     length (pm_uart pm) + length (pm_i2c pm) \<le> 1 \<and> pm_spi pm = []"
  by (induction cs arbitrary: x)
    (auto simp: peripheral_manager_new_def add_i2c_def add_uart_def Let_def
      split: peripheral_protocol.splits option.splits prod.splits sum.splits)

text \<open>A bus whose devices were never looked for neither sends nor receives.\<close>

lemma unscanned_bus_is_silent:
  "ib_discovered bus = [] \<Longrightarrow> i2c_sync_tx hw ryu tree (bus, x) = Some (bus', x') \<Longrightarrow> x' = x"
  "ib_discovered bus = [] \<Longrightarrow> i2c_poll_rx hw now bus (tree, x) = Some (tree, x)"
proof -
  assume d: "ib_discovered bus = []"
  then show "i2c_poll_rx hw now bus (tree, x) = Some (tree, x)" by (simp add: i2c_poll_rx_def)
  assume "i2c_sync_tx hw ryu tree (bus, x) = Some (bus', x')"
  then obtain step where "next_tx ryu (ib_last_tx bus) tree (ib_tx_path bus) = Some step"
    by (auto simp: i2c_sync_tx_def bind_eq_Some_conv)
  with d \<open>i2c_sync_tx hw ryu tree (bus, x) = Some (bus', x')\<close> show "x' = x"
    by (cases step) (auto simp: i2c_sync_tx_def)
qed

end
