(* ===== verification/Spec2Isabelle.thy ===== *)
theory Spec2Isabelle
  imports OdfTreeSpec SubsTick Serializer EngineProps ParserSpec WifiLoopSpec Pages GatewayTree ServerSpec
    Dispatch RateLimit PersistSpec Device Dns Board
begin

text \<open>
  A verification library for the eOMI firmware: an O-MI/O-DF server for a small ESP32 device, written
  in Rust under \<open>src/src\<close>. The device keeps a tree of Objects and InfoItems with bounded histories
  (O-DF), answers JSON requests on it over HTTP and WebSocket (O-MI: read, write, delete, cancel,
  subscriptions), runs JavaScript handlers attached to items, mirrors pins and buses into the tree, and
  brings itself onto a WiFi network, with help of a gateway device if it has no credentials.

  \<^bold>\<open>Conventions.\<close> A function of the code that may panic returns an option, \<open>None\<close> being the panic.
  \<open>Result<T, E>\<close> is a sum with the error on the left. A \<open>&mut self\<close> method takes the record and returns
  it updated; where the code can fail half way, the state is returned with the error. \<open>Finished\<close>,
  \<open>Panicked\<close> and \<open>OutOfFuel\<close> are the three outcomes of a driver loop. Strings are their UTF-8
  bytes (type \<open>string\<close>), byte arrays too. 32 and 64 bit integers are words where the code wraps (counters,
  hashes, checksums), natural numbers with the bound written out where it saturates, is checked, or cannot get
  near the limit. \<open>f64\<close> is the type \<open>f64\<close> of \<open>Float64\<close> with IEEE rounding. \<open>BTreeMap\<close> is an association
  list in key order. What is not part of the repository (the mJS interpreter, ESP-IDF, the crates ryu, miniz_oxide,
  base64, blake2 and crypto_box) is a function or a record of functions that the definitions take as an
  argument; what the proofs need of it is a named hypothesis with an instance that satisfies it.

  \<^bold>\<open>Shared theories.\<close>
  \<^item> \<open>Prelude\<close>: panics, sums, checked arithmetic, bounded suffixes, folds that stop at a panic.
  \<^item> \<open>RustStr\<close>, \<open>Utf8\<close>: the operations of \<open>str\<close>, and UTF-8 validation with its lossy form.
  \<^item> \<open>Float64\<close>, \<open>FloatBits\<close>: doubles and their eight bytes.
  \<^item> \<open>BTreeMap\<close>: ordered maps (locale \<open>ordered_dict\<close>).
  \<^item> \<open>BoundedLog\<close>: a log of bounded length (locale \<open>bounded_log\<close>), which the ring buffer of an item
    and the buffer of a poll subscription both implement.
  \<^item> \<open>Wire\<close>: binary writers and readers (locale \<open>codec\<close>), interpreted on the configuration blob, the onboarding
    messages and the saved items.
  \<^item> \<open>Machine\<close>: event driven state machines (locales \<open>machine\<close> and \<open>ranked_machine\<close>), interpreted on the WiFi
    machine, the joining device and the gateway.

  \<^bold>\<open>The object tree\<close> (\<open>src/src/odf\<close>, \<open>src/src/psram.rs\<close>).
  \<^item> \<open>Psram\<close>: \<open>PsramBox\<close>, the fixed buffer. \<open>OdfValue\<close>: \<open>OmiValue\<close>, \<open>Value\<close>, \<open>RingBuffer\<close> and its queries.
  \<^item> \<open>OdfObject\<close>: \<open>InfoItem\<close> and \<open>Object\<close>. \<open>OdfTree\<close>: \<open>ObjectTree\<close> with paths, \<open>write_value\<close>, \<open>write_tree\<close>,
    \<open>delete\<close>, \<open>resolve\<close>.
  \<^item> \<open>OdfTreeSpec\<close>: the tree as a partial map from paths to items and one from paths to the attributes of Objects.
    Writing, merging and deleting are refined by updates of those maps; \<open>tree_ok\<close> is kept.

  \<^bold>\<open>Subscriptions\<close> (\<open>src/src/omi/subscriptions.rs\<close>). \<open>Subs\<close> has the registry with its four indexes and all
  operations. \<open>SubsInv\<close> proves that the indexes describe one set of subscriptions (\<open>reg_inv\<close>), which every operation
  keeps; \<open>SubsTick\<close> proves that \<open>tick_intervals\<close> returns, misses no due subscription and delivers only current values.
  The loop has no bound in the code and is a \<open>partial_function\<close>; it is proved to return for times below \<open>2^43\<close>
  seconds, where a step of the trigger time cannot be lost to rounding.

  \<^bold>\<open>Messages and JSON\<close> (\<open>src/src/omi\<close>, \<open>src/src/json\<close>).
  \<^item> \<open>OmiMsg\<close>: messages, their validation and responses. \<open>JsonWriter\<close> and \<open>Serializer\<close>: the writer with its comma
    stack, proved to print exactly the rendering of a JSON tree.
  \<^item> \<open>Lexer\<close>, \<open>LexerSpec\<close>, \<open>Parser\<close>, \<open>ParserSpec\<close>: the tokenizer and the parser. Every token costs at least one byte,
    and every recursion of the parser consumes a token, so fuel of one unit more than the number of bytes
    is enough; for every input the parser returns an error or a well-formed message, and never panics.

  \<^bold>\<open>The engine\<close> (\<open>src/src/omi/engine.rs\<close>, \<open>src/src/scripting\<close>).
  \<^item> \<open>Script\<close>, \<open>ScriptSpec\<close>: value conversion, \<open>odf.readItem\<close>, \<open>odf.writeItem\<close> and the lookup of scripts. The interpreter is a
    parameter that gives, for a script and a machine, a finite tree of host calls (mJS stops at its operation limit).
  \<^item> \<open>Engine\<close>: every request handler, the interval tick and the cascade of \<open>onwrite\<close> scripts. The cascade
    recurses on the levels left below \<open>max_script_depth\<close>, which is its termination measure.
  \<^item> \<open>EngineTree\<close>, \<open>EngineSpec\<close>, \<open>EngineProps\<close>: what steps do to the tree, the locale \<open>cascade\<close> (any preorder that the
    elementary steps respect is respected by a whole cascade), and the properties of requests: no
    panic in any reachable engine, guards of writes, exact effect of a write, reads that leave the tree alone.

  \<^bold>\<open>The server\<close> (\<open>src/src/server.rs\<close>, \<open>http.rs\<close>, \<open>pages.rs\<close>, \<open>ota.rs\<close>, \<open>compress.rs\<close>, \<open>callback.rs\<close>, \<open>callback_url.rs\<close>).
  \<^item> \<open>Http\<close>: authorization, URIs, the landing page. \<open>Pages\<close>: the page store and its accounting.
  \<^item> \<open>Gzip\<close>, \<open>Ota\<close>: the streaming decompressor and the firmware upload; what is activated was checked in full. Each
    turn of the inflate loop takes fuel, as the crate decides when it stops; running out is never
    counted as an installed image.
  \<^item> \<open>Server\<close>, \<open>ServerSpec\<close>: all routes and the WebSocket endpoint over the shared state, and what a client without the token
    cannot change. \<open>Dispatch\<close>: sending deliveries; the recursion through callback scripts takes fuel, and a
    result that was reached stays the same with more. \<open>RateLimit\<close>: \<open>log_util.rs\<close>.

  \<^bold>\<open>Network\<close> (\<open>wifi_cfg.rs\<close>, \<open>wifi_sm.rs\<close>, \<open>wifi_ap.rs\<close>, \<open>captive_portal.rs\<close>, \<open>dns.rs\<close>, the WiFi part of \<open>main.rs\<close>).
  \<^item> \<open>Crypto\<close>: SHA-256 and BLAKE2b, equal to reference definitions written from the standards.
  \<^item> \<open>WifiCfg\<close>: the stored configuration, which is loaded as saved. \<open>WifiSm\<close>: the state machine.
  \<^item> \<open>WifiLoop\<close>, \<open>WifiLoopSpec\<close>: boot, reconnection, provisioning and the main loop. Boot settles with fuel above
    \<open>6 * (credentials + 1)\<close>, as it tries all credentials at most five times; a step of the loop makes
    fewer attempts than there are credentials.
  \<^item> \<open>Provision\<close>, \<open>PortalPages\<close>: routes, form and pages of the captive portal. \<open>Dns\<close>: its responder.

  \<^bold>\<open>Onboarding\<close> (\<open>src/src/wsop\<close>).
  \<^item> \<open>WsopProtocol\<close>: the messages and the verification code. \<open>Display\<close>: how the code is shown.
  \<^item> \<open>OnboardSm\<close>, \<open>Joiner\<close>, \<open>JoinerSpec\<close>: the joining device; its driver ends after at most six attempts of fourteen steps,
    which is the fuel of the theorem.
  \<^item> \<open>Gateway\<close>, \<open>GatewaySpec\<close>, \<open>GatewayTree\<close>: the gateway, on its own queue and on the object tree.

  \<^bold>\<open>The device\<close> (\<open>src/src/device.rs\<close>, \<open>nvs.rs\<close>, \<open>mdns.rs\<close>, \<open>mdns_discovery.rs\<close>, \<open>gpio\<close>, \<open>board.rs\<close>, \<open>boards\<close>).
  \<^item> \<open>Persist\<close>, \<open>PersistSpec\<close>: saving the writable items and restoring them at the next start.
  \<^item> \<open>Device\<close>: the initial tree, sensor readings, peers found by mDNS and the announcement of the device.
  \<^item> \<open>Encoding\<close>: hex and base64. \<open>Gpio\<close>, \<open>GpioSpec\<close>: pins and their synchronisation with the tree. \<open>Bus\<close>, \<open>BusSpec\<close>: UART, SPI and I2C.
    \<open>Board\<close>: the tables of a board and the drivers made from them.

  \<^bold>\<open>How the parts interact.\<close> \<open>Server\<close> parses a request with \<open>Parser\<close>, passes it to \<open>Engine\<close>, serializes the response with
  \<open>Serializer\<close> and gives the deliveries of the cascade to \<open>Dispatch\<close>, whose script callbacks call the engine
  again. The main loop calls \<open>Engine.tick\<close>, reads the pins and buses into the tree and the tree into the
  outputs (\<open>Gpio\<close>, \<open>Bus\<close>), saves what clients wrote (\<open>Persist\<close>), drives WiFi (\<open>WifiLoop\<close>) and lets the gateway answer
  (\<open>GatewayTree\<close>). All of them share the one tree; the lock around it makes every handler atomic, and the models run
  handlers one after another for that reason.

  \<^bold>\<open>What is not modelled.\<close> The mJS interpreter and the unsafe calls of it (\<open>ffi.rs\<close>, \<open>scripting/engine.rs\<close>), which are
  C code; the drivers of the NeoPixel, the temperature sensor, memory statistics and SNTP, which only call ESP-IDF; the
  build script, which runs on the host; the text of log lines; failure of the allocator; threads and timing
  within a handler; tests, fuzz targets and the web user interface. The main loop is modelled by its parts and not as
  one function, and its factory reset is left out.
\<close>

end
